(* ===== verification/Prelude.thy ===== *)
theory Prelude
  imports Main "HOL-Library.Word"
begin

text \<open>
  Shared vocabulary of the development: the integer and time types of the C++ code, the
  string routines of the standard library and of Boost.Algorithm that several components
  call (decimal printing and reading, \<^verbatim>\<open>boost::split\<close>, \<^verbatim>\<open>boost::trim_copy\<close>, prefix
  tests), and the lemma collections the component proofs draw on.
\<close>

section \<open>Types\<close>

text \<open>\<^verbatim>\<open>std::uint64_t\<close> keeps its width; \<^verbatim>\<open>boost::posix_time::ptime\<close> of
  \<^verbatim>\<open>second_clock\<close> is a number of seconds.\<close>

type_synonym u64 = "64 word"
type_synonym ptime = int

named_theorems keeps_intros "rules that reduce a frame claim about a handler to its parts"
named_theorems handler_defs "definitions of the request handlers and their helpers"

section \<open>Lists\<close>

lemma find_None_filter: "(List.find p xs = None) = (filter p xs = [])"
  by (induction xs) auto

lemma find_eq_hd_filter:
  "List.find p xs = (case filter p xs of [] \<Rightarrow> None | y # _ \<Rightarrow> Some y)"
  by (induction xs) auto

lemma find_snoc:
  "List.find p (xs @ [x]) =
     (case List.find p xs of Some y \<Rightarrow> Some y | None \<Rightarrow> if p x then Some x else None)"
  by (induction xs) auto

lemma find_SomeD: "List.find p xs = Some x \<Longrightarrow> x \<in> set xs \<and> p x"
  by (auto simp: find_Some_iff)

lemma takeWhile_append_stop:
  "\<forall>x\<in>set xs. p x \<Longrightarrow> ys = [] \<or> \<not> p (hd ys) \<Longrightarrow> takeWhile p (xs @ ys) = xs"
  by (induction xs) (auto simp: takeWhile_eq_Nil_iff)

lemma dropWhile_append_stop:
  "\<forall>x\<in>set xs. p x \<Longrightarrow> ys = [] \<or> \<not> p (hd ys) \<Longrightarrow> dropWhile p (xs @ ys) = ys"
  by (induction xs) (auto simp: dropWhile_eq_self_iff)

text \<open>Replacing elements outside a filter does not show in it.\<close>

lemma filter_map_replace:
  "\<forall>x\<in>set xs. q x \<longrightarrow> \<not> p x \<and> \<not> p y \<Longrightarrow> filter p (map (\<lambda>s. if q s then y else s) xs) = filter p xs"
  by (induction xs) auto

section \<open>Characters\<close>

definition isdigit :: "char \<Rightarrow> bool" where
  "isdigit c \<longleftrightarrow> (48::nat) \<le> of_char c \<and> of_char c \<le> (57::nat)"

text \<open>\<^verbatim>\<open>isspace\<close> of the C locale.\<close>

definition isspace :: "char \<Rightarrow> bool" where
  "isspace c \<longleftrightarrow> of_char c = (32::nat) \<or> ((9::nat) \<le> of_char c \<and> of_char c \<le> (13::nat))"

definition digit_char :: "nat \<Rightarrow> char" where
  "digit_char d = char_of (48 + d)"

definition digit_val :: "char \<Rightarrow> nat" where
  "digit_val c = of_char c - 48"

lemma digit_char_isdigit [simp]: "d < 10 \<Longrightarrow> isdigit (digit_char d)"
  by (simp add: isdigit_def digit_char_def of_char_of)

lemma digit_val_char [simp]: "d < 10 \<Longrightarrow> digit_val (digit_char d) = d"
  by (simp add: digit_val_def digit_char_def of_char_of)

section \<open>Decimal printing and reading\<close>

text \<open>\<^verbatim>\<open>std::to_string\<close> and \<^verbatim>\<open>fmt::format("{}", n)\<close> on unsigned integers.\<close>

fun show_nat :: "nat \<Rightarrow> string" where
  "show_nat n = (if n < 10 then [digit_char n] else show_nat (n div 10) @ [digit_char (n mod 10)])"

declare show_nat.simps [simp del]

definition digits_val :: "string \<Rightarrow> nat" where
  "digits_val = foldl (\<lambda>acc c. 10 * acc + digit_val c) 0"

lemma show_nat_nonempty [simp]: "show_nat n \<noteq> []"
  by (subst show_nat.simps) simp

lemma show_nat_digits: "\<forall>c\<in>set (show_nat n). isdigit c"
proof (induction n rule: show_nat.induct)
  case (1 n)
  show ?case
    by (cases "n < 10") (use "1.IH" in \<open>simp_all add: show_nat.simps [of n]\<close>)
qed

lemma digits_val_snoc [simp]: "digits_val (s @ [c]) = 10 * digits_val s + digit_val c"
  by (simp add: digits_val_def)

lemma digits_val_show [simp]: "digits_val (show_nat n) = n"
proof (induction n rule: show_nat.induct)
  case (1 n)
  show ?case
  proof (cases "n < 10")
    case True
    then show ?thesis by (simp add: show_nat.simps [of n] digits_val_def)
  next
    case False
    with "1.IH" show ?thesis by (simp add: show_nat.simps [of n])
  qed
qed

section \<open>Boost string algorithms\<close>

text \<open>\<^verbatim>\<open>boost::split(out, s, is_any_of(seps))\<close> with token compression off: every separator
  ends a token, so there is always one token more than there are separators.\<close>

fun split_any :: "char list \<Rightarrow> string \<Rightarrow> string list" where
  "split_any seps [] = [[]]"
| "split_any seps (c # cs) =
     (if c \<in> set seps then [] # split_any seps cs
      else (case split_any seps cs of [] \<Rightarrow> [[c]] | t # ts \<Rightarrow> (c # t) # ts))"

lemma split_any_nonempty [simp]: "split_any seps s \<noteq> []"
  by (cases s) (auto split: list.splits)

lemma split_any_no_sep: "\<forall>c\<in>set s. c \<notin> set seps \<Longrightarrow> split_any seps s = [s]"
  by (induction s) auto

lemma split_any_append:
  "\<forall>c\<in>set s. c \<notin> set seps \<Longrightarrow> d \<in> set seps \<Longrightarrow>
   split_any seps (s @ d # r) = s # split_any seps r"
  by (induction s) auto

lemma split_any_length:
  "length (split_any seps s) = Suc (length (filter (\<lambda>c. c \<in> set seps) s))"
  by (induction s) (auto split: list.splits)

text \<open>\<^verbatim>\<open>boost::trim_copy\<close>.\<close>

definition trim_copy :: "string \<Rightarrow> string" where
  "trim_copy s = rev (dropWhile isspace (rev (dropWhile isspace s)))"

lemma trim_copy_id:
  assumes "s \<noteq> []" "\<not> isspace (hd s)" "\<not> isspace (last s)"
  shows "trim_copy s = s"
proof -
  from assms(1,2) have "dropWhile isspace s = s"
    by (simp add: dropWhile_eq_self_iff)
  moreover from assms(1,3) have "dropWhile isspace (rev s) = rev s"
    by (simp add: dropWhile_eq_self_iff hd_rev)
  ultimately show ?thesis by (simp add: trim_copy_def)
qed

text \<open>\<^verbatim>\<open>std::string::starts_with\<close>.\<close>

fun starts_with :: "string \<Rightarrow> string \<Rightarrow> bool" where
  "starts_with s [] = True"
| "starts_with [] (p # ps) = False"
| "starts_with (c # cs) (p # ps) = (c = p \<and> starts_with cs ps)"

lemma starts_with_iff: "starts_with s p = (\<exists>r. s = p @ r)"
  by (induction s p rule: starts_with.induct) auto

text \<open>\<^verbatim>\<open>std::string::find(needle, pos)\<close>; \<open>None\<close> is \<^verbatim>\<open>npos\<close>.\<close>

fun find_sub :: "string \<Rightarrow> string \<Rightarrow> nat option" where
  "find_sub [] n = (if n = [] then Some 0 else None)"
| "find_sub (c # cs) n =
     (if starts_with (c # cs) n then Some 0 else map_option Suc (find_sub cs n))"

definition find_from :: "string \<Rightarrow> string \<Rightarrow> nat \<Rightarrow> nat option" where
  "find_from s n pos =
     (if pos \<le> length s then map_option ((+) pos) (find_sub (drop pos s) n) else None)"

lemma find_sub_Some:
  "find_sub s n = Some i \<Longrightarrow> i \<le> length s \<and> starts_with (drop i s) n"
  by (induction s arbitrary: i) (auto split: if_splits)

lemma find_sub_None: "find_sub s n = None \<Longrightarrow> \<not> starts_with (drop i s) n"
proof (induction s arbitrary: i)
  case Nil
  then show ?case by (cases n) (auto split: if_splits)
next
  case (Cons c cs)
  then show ?case by (cases i) (auto split: if_splits)
qed

lemma find_sub_first:
  "find_sub s n = Some i \<Longrightarrow> j < i \<Longrightarrow> \<not> starts_with (drop j s) n"
proof (induction s arbitrary: i j)
  case Nil
  then show ?case by (auto split: if_splits)
next
  case (Cons c cs)
  then show ?case by (cases j) (auto split: if_splits)
qed

end
