(* ===== verification/Error_Code.thy ===== *)
theory Error_Code
  imports Prelude
begin

text \<open>
  \<^verbatim>\<open>cmall::error\<close>: the error enumeration of \<^verbatim>\<open>error_code.hpp\<close>, its numeric values and the
  message table of \<^verbatim>\<open>error_code.cpp\<close> (the messages are UTF-8 byte strings), and the
  exceptions a request handler can end with.
\<close>

section \<open>The error enumeration\<close>

datatype errc_t =
    internal_server_error
  | invalid_json
  | invalid_params
  | unknown_method
  | not_implemented
  | session_needed
  | apitoken_invalid
  | invalid_verify_code
  | login_required
  | merchant_user_required
  | admin_user_required
  | recipient_id_out_of_range
  | duplicate_operation
  | already_exist
  | already_a_merchant
  | order_not_found
  | merchant_vanished
  | goods_not_found
  | cart_goods_not_found
  | already_in_cart
  | should_be_same_merchant
  | no_payment_script_supplyed
  | no_paycheck_script_spplyed
  | merchant_has_no_payments_supported
  | user_not_found
  | user_banned
  | not_in_sudo_mode
  | cannot_sudo
  | kv_store_key_not_found
  | object_too_large
  | merchcant_git_error
  | merchcant_gitrepo_notfound
  | combile_order_not_supported
  | merchant_does_not_support_microapp_wxpay
  | wxpay_server_error
  | nofity_message_signature_invalid
  | nofity_message_decode_failed
  | good_option_needed
  | good_option_invalid

text \<open>\<^verbatim>\<open>static_cast<int>(e)\<close>: the first enumerator is 1.\<close>

fun errc_value :: "errc_t \<Rightarrow> int" where
  "errc_value internal_server_error = 1"
| "errc_value invalid_json = 2"
| "errc_value invalid_params = 3"
| "errc_value unknown_method = 4"
| "errc_value not_implemented = 5"
| "errc_value session_needed = 6"
| "errc_value apitoken_invalid = 7"
| "errc_value invalid_verify_code = 8"
| "errc_value login_required = 9"
| "errc_value merchant_user_required = 10"
| "errc_value admin_user_required = 11"
| "errc_value recipient_id_out_of_range = 12"
| "errc_value duplicate_operation = 13"
| "errc_value already_exist = 14"
| "errc_value already_a_merchant = 15"
| "errc_value order_not_found = 16"
| "errc_value merchant_vanished = 17"
| "errc_value goods_not_found = 18"
| "errc_value cart_goods_not_found = 19"
| "errc_value already_in_cart = 20"
| "errc_value should_be_same_merchant = 21"
| "errc_value no_payment_script_supplyed = 22"
| "errc_value no_paycheck_script_spplyed = 23"
| "errc_value merchant_has_no_payments_supported = 24"
| "errc_value user_not_found = 25"
| "errc_value user_banned = 26"
| "errc_value not_in_sudo_mode = 27"
| "errc_value cannot_sudo = 28"
| "errc_value kv_store_key_not_found = 29"
| "errc_value object_too_large = 30"
| "errc_value merchcant_git_error = 31"
| "errc_value merchcant_gitrepo_notfound = 32"
| "errc_value combile_order_not_supported = 33"
| "errc_value merchant_does_not_support_microapp_wxpay = 34"
| "errc_value wxpay_server_error = 35"
| "errc_value nofity_message_signature_invalid = 36"
| "errc_value nofity_message_decode_failed = 37"
| "errc_value good_option_needed = 38"
| "errc_value good_option_invalid = 39"

text \<open>All enumerators in declaration order.\<close>

definition errc_all :: "errc_t list" where
  "errc_all = [internal_server_error,
     invalid_json,
     invalid_params,
     unknown_method,
     not_implemented,
     session_needed,
     apitoken_invalid,
     invalid_verify_code,
     login_required,
     merchant_user_required,
     admin_user_required,
     recipient_id_out_of_range,
     duplicate_operation,
     already_exist,
     already_a_merchant,
     order_not_found,
     merchant_vanished,
     goods_not_found,
     cart_goods_not_found,
     already_in_cart,
     should_be_same_merchant,
     no_payment_script_supplyed,
     no_paycheck_script_spplyed,
     merchant_has_no_payments_supported,
     user_not_found,
     user_banned,
     not_in_sudo_mode,
     cannot_sudo,
     kv_store_key_not_found,
     object_too_large,
     merchcant_git_error,
     merchcant_gitrepo_notfound,
     combile_order_not_supported,
     merchant_does_not_support_microapp_wxpay,
     wxpay_server_error,
     nofity_message_signature_invalid,
     nofity_message_decode_failed,
     good_option_needed,
     good_option_invalid]"

section \<open>Messages\<close>

text \<open>A string literal by its UTF-8 bytes.\<close>

definition utf8 :: "nat list \<Rightarrow> string" where
  "utf8 = map char_of"

text \<open>\<^verbatim>\<open>cmall_category::message\<close>, with the cases in the order of the \<^verbatim>\<open>switch\<close>; \<open>None\<close> is
  the value that falls through to the return after it.\<close>

fun message_case :: "errc_t \<Rightarrow> nat list option" where
  "message_case internal_server_error = Some [230, 156, 141, 229, 138, 161, 229, 153, 168, 229, 134, 133, 233, 131, 168, 233, 148, 153, 232, 175, 175]"
| "message_case unknown_method = Some [114, 112, 99, 32, 230, 150, 185, 230, 179, 149, 230, 156, 170, 231, 159, 165]"
| "message_case session_needed = Some [233, 156, 128, 232, 166, 129, 229, 133, 136, 232, 142, 183, 229, 143, 150, 115, 101, 115, 115, 105, 111, 110]"
| "message_case invalid_verify_code = Some [233, 170, 140, 232, 175, 129, 231, 160, 129, 233, 148, 153, 232, 175, 175]"
| "message_case login_required = Some [233, 156, 128, 232, 166, 129, 231, 153, 187, 229, 189, 149, 230, 137, 141, 232, 131, 189, 230, 147, 141, 228, 189, 156]"
| "message_case merchant_user_required = Some [233, 156, 128, 232, 166, 129, 229, 149, 134, 230, 136, 183, 231, 153, 187, 229, 189, 149, 230, 137, 141, 232, 131, 189, 230, 147, 141, 228, 189, 156]"
| "message_case admin_user_required = Some [233, 156, 128, 232, 166, 129, 231, 174, 161, 231, 144, 134, 229, 145, 152, 231, 153, 187, 229, 189, 149, 230, 137, 141, 232, 131, 189, 230, 147, 141, 228, 189, 156]"
| "message_case not_implemented = Some [230, 156, 172, 229, 138, 159, 232, 131, 189, 232, 191, 152, 230, 178, 161, 229, 174, 158, 231, 142, 176]"
| "message_case recipient_id_out_of_range = Some [230, 148, 182, 228, 187, 182, 229, 156, 176, 229, 157, 128, 105, 100, 233, 148, 153, 232, 175, 175]"
| "message_case duplicate_operation = Some [232, 175, 183, 229, 139, 191, 233, 135, 141, 229, 164, 141, 230, 147, 141, 228, 189, 156]"
| "message_case already_exist = Some [232, 174, 176, 229, 189, 149, 229, 183, 178, 229, 173, 152, 229, 156, 168]"
| "message_case already_a_merchant = Some [228, 184, 141, 231, 148, 168, 231, 148, 179, 232, 175, 183, 229, 149, 166, 44, 32, 229, 183, 178, 231, 187, 143, 230, 152, 175, 229, 149, 134, 230, 136, 183, 228, 186, 134]"
| "message_case order_not_found = Some [232, 174, 162, 229, 141, 149, 230, 156, 170, 230, 137, 190, 229, 136, 176]"
| "message_case invalid_params = Some [229, 143, 130, 230, 149, 176, 233, 148, 153, 232, 175, 175]"
| "message_case cart_goods_not_found = Some [232, 180, 173, 231, 137, 169, 232, 189, 166, 229, 149, 134, 229, 147, 129, 230, 156, 170, 230, 137, 190, 229, 136, 176]"
| "message_case already_in_cart = Some [229, 183, 178, 229, 156, 168, 232, 180, 173, 231, 137, 169, 232, 189, 166, 228, 184, 173]"
| "message_case merchant_vanished = Some [229, 149, 134, 230, 136, 183, 232, 156, 156, 230, 177, 129, 230, 182, 136, 229, 164, 177]"
| "message_case no_payment_script_supplyed = Some [230, 178, 161, 230, 143, 144, 228, 190, 155, 32, 103, 101, 116, 112, 97, 121, 117, 114, 108, 46, 106, 115]"
| "message_case no_paycheck_script_spplyed = Some [230, 156, 170, 230, 143, 144, 228, 190, 155, 32, 99, 104, 101, 99, 107, 112, 97, 121, 46, 106, 115]"
| "message_case merchant_has_no_payments_supported = Some [229, 149, 134, 230, 136, 183, 230, 156, 170, 229, 129, 154, 229, 165, 189, 230, 148, 182, 230, 172, 190, 229, 135, 134, 229, 164, 135]"
| "message_case user_not_found = Some [230, 156, 170, 230, 137, 190, 229, 136, 176, 231, 148, 168, 230, 136, 183]"
| "message_case user_banned = Some [232, 175, 165, 230, 137, 139, 230, 156, 186, 230, 151, 160, 230, 179, 149, 230, 142, 165, 230, 148, 182, 233, 170, 140, 232, 175, 129, 231, 160, 129]"
| "message_case not_in_sudo_mode = Some [230, 156, 170, 229, 164, 132, 228, 186, 142, 230, 155, 191, 232, 186, 171, 230, 168, 161, 229, 188, 143]"
| "message_case cannot_sudo = Some [230, 151, 160, 230, 179, 149, 232, 191, 155, 229, 133, 165, 230, 155, 191, 232, 186, 171, 230, 168, 161, 229, 188, 143]"
| "message_case kv_store_key_not_found = Some [107, 101, 121, 228, 184, 141, 229, 173, 152, 229, 156, 168]"
| "message_case object_too_large = Some [230, 150, 135, 228, 187, 182, 229, 164, 170, 229, 164, 167]"
| "message_case merchcant_git_error = Some [229, 149, 134, 230, 136, 183, 32, 103, 105, 116, 32, 228, 187, 147, 229, 186, 147, 230, 147, 141, 228, 189, 156, 233, 148, 153, 232, 175, 175]"
| "message_case merchcant_gitrepo_notfound = Some [229, 149, 134, 230, 136, 183, 32, 103, 105, 116, 32, 228, 187, 147, 229, 186, 147, 228, 184, 141, 229, 173, 152, 229, 156, 168]"
| "message_case combile_order_not_supported = Some [228, 184, 141, 230, 148, 175, 230, 140, 129, 232, 183, 168, 229, 149, 134, 230, 136, 183, 232, 174, 162, 229, 141, 149, 230, 148, 175, 228, 187, 152]"
| "message_case merchant_does_not_support_microapp_wxpay = Some [229, 149, 134, 230, 136, 183, 32, 228, 184, 141, 230, 148, 175, 230, 140, 129, 32, 229, 176, 143, 231, 168, 139, 229, 186, 143, 32, 229, 190, 174, 228, 191, 161, 230, 148, 175, 228, 187, 152]"
| "message_case wxpay_server_error = Some [232, 142, 183, 229, 143, 150, 229, 190, 174, 228, 191, 161, 230, 148, 175, 228, 187, 152, 228, 191, 161, 230, 129, 175, 229, 164, 177, 232, 180, 165, 33]"
| "message_case nofity_message_signature_invalid = Some [233, 170, 140, 231, 173, 190, 233, 148, 153, 232, 175, 175]"
| "message_case good_option_needed = Some [233, 156, 128, 232, 166, 129, 233, 128, 137, 230, 139, 169, 229, 149, 134, 229, 147, 129, 229, 173, 144, 233, 128, 137, 233, 161, 185]"
| "message_case good_option_invalid = Some [229, 149, 134, 229, 147, 129, 229, 173, 144, 233, 128, 137, 233, 161, 185, 228, 184, 141, 230, 173, 163, 231, 161, 174]"
| "message_case _ = None"

definition errc_of_value :: "int \<Rightarrow> errc_t option" where
  "errc_of_value ev = List.find (\<lambda>e. errc_value e = ev) errc_all"

definition error_message :: "int \<Rightarrow> string" where
  "error_message ev =
     (case errc_of_value ev of
        None \<Rightarrow> ''error message''
      | Some e \<Rightarrow> (case message_case e of None \<Rightarrow> ''error message'' | Some b \<Rightarrow> utf8 b))"

section \<open>Exceptions\<close>

text \<open>
  What a coroutine of the service can end with instead of a value:
  \<^item> \<open>System_error\<close>: a \<^verbatim>\<open>boost::system::system_error\<close> with an error of the enumeration;
  \<^item> \<open>Asio_error\<close>: a \<^verbatim>\<open>boost::system::system_error\<close> with an error of another category
    (by its number);
  \<^item> \<open>Invalid_argument\<close>, \<open>Out_of_range\<close>, \<open>Runtime_error\<close>, \<open>Odb_exception\<close>: other
    exceptions derived from \<^verbatim>\<open>std::exception\<close> (a failed \<^verbatim>\<open>boost::json\<close> accessor, \<^verbatim>\<open>at\<close> and
    \<^verbatim>\<open>substr\<close>, a malformed number, an exception of the ORM);
  \<^item> \<open>Literal_thrown\<close>: \<^verbatim>\<open>throw "this should never be executed"\<close>, which no handler catches;
  \<^item> \<open>Terminate\<close>: an exception that leaves a \<^verbatim>\<open>noexcept\<close> function (\<^verbatim>\<open>std::terminate\<close>);
  \<^item> \<open>Undefined\<close>: undefined behaviour (an empty optional or a null pointer dereferenced, a vector
    indexed out of range).
\<close>

datatype exn =
    System_error errc_t
  | Asio_error int
  | Invalid_argument
  | Out_of_range
  | Runtime_error
  | Odb_exception
  | Literal_thrown
  | Terminate
  | Undefined

fun is_std_exception :: "exn \<Rightarrow> bool" where
  "is_std_exception Literal_thrown = False"
| "is_std_exception Terminate = False"
| "is_std_exception Undefined = False"
| "is_std_exception _ = True"

section \<open>Properties\<close>

lemma errc_value_bounds: "1 \<le> errc_value e \<and> errc_value e \<le> 39"
  by (cases e) simp_all

lemma errc_all_complete: "e \<in> set errc_all"
  by (cases e) (simp_all add: errc_all_def)

lemma errc_all_values: "map errc_value errc_all = [1..39]"
  by (simp add: errc_all_def upto.simps)

lemma errc_value_inj: "errc_value a = errc_value b \<Longrightarrow> a = b"
proof -
  assume eq: "errc_value a = errc_value b"
  have "inj_on errc_value (set errc_all)"
    by (rule distinct_map [THEN iffD1, THEN conjunct2]) (simp only: errc_all_values distinct_upto)
  with eq errc_all_complete show "a = b" by (auto dest: inj_onD)
qed

lemma errc_of_value_value [simp]: "errc_of_value (errc_value e) = Some e"
proof (cases "errc_of_value (errc_value e)")
  case None
  then show ?thesis
    using errc_all_complete [of e] by (auto simp: errc_of_value_def find_None_iff)
next
  case (Some a)
  then show ?thesis
    using find_SomeD [of "\<lambda>x. errc_value x = errc_value e" errc_all a]
    by (simp add: errc_of_value_def errc_value_inj)
qed

end
