(* ===== verification/Json.thy ===== *)
theory Json
  imports Error_Code
begin

text \<open>
  The JSON values the service exchanges (\<^verbatim>\<open>boost::json::value\<close>) with the throwing accessors it
  uses on them, the wrapper \<^verbatim>\<open>jsutil\<close> of \<^verbatim>\<open>js_util.hpp\<close>, and the reading of a JSON-RPC request
  in \<^verbatim>\<open>conversion.cpp\<close>.
\<close>

section \<open>Values\<close>

text \<open>
  Numbers keep their kind, because the accessors check it: \<open>JInt\<close> is \<^verbatim>\<open>std::int64_t\<close>, \<open>JUint\<close> is
  \<^verbatim>\<open>std::uint64_t\<close>, \<open>JDouble m e\<close> stands for the floating-point number \<open>m * 10 ^ e\<close>.
\<close>

datatype json =
    JNull
  | JBool bool
  | JInt int
  | JUint u64
  | JDouble int int
  | JStr string
  | JArr "json list"
  | JObj "(string \<times> json) list"

type_synonym json_object = "(string \<times> json) list"
type_synonym 'a result = "exn + 'a"

definition contains :: "json_object \<Rightarrow> string \<Rightarrow> bool" where
  "contains ob k \<longleftrightarrow> map_of ob k \<noteq> None"

text \<open>\<^verbatim>\<open>as_int64\<close> and its kin throw \<^verbatim>\<open>std::invalid_argument\<close> on a value of another kind;
  \<^verbatim>\<open>object::at\<close> throws \<^verbatim>\<open>std::out_of_range\<close> on a missing key; \<^verbatim>\<open>object::operator[]\<close> yields a
  null value for it.\<close>

fun as_int64 :: "json \<Rightarrow> int result" where
  "as_int64 (JInt i) = Inr i"
| "as_int64 _ = Inl Invalid_argument"

fun as_string :: "json \<Rightarrow> string result" where
  "as_string (JStr s) = Inr s"
| "as_string _ = Inl Invalid_argument"

fun as_bool :: "json \<Rightarrow> bool result" where
  "as_bool (JBool b) = Inr b"
| "as_bool _ = Inl Invalid_argument"

fun as_array :: "json \<Rightarrow> json list result" where
  "as_array (JArr xs) = Inr xs"
| "as_array _ = Inl Invalid_argument"

fun as_object :: "json \<Rightarrow> json_object result" where
  "as_object (JObj ob) = Inr ob"
| "as_object _ = Inl Invalid_argument"

definition obj_at :: "json_object \<Rightarrow> string \<Rightarrow> json result" where
  "obj_at ob k = (case map_of ob k of None \<Rightarrow> Inl Out_of_range | Some v \<Rightarrow> Inr v)"

definition obj_index :: "json_object \<Rightarrow> string \<Rightarrow> json" where
  "obj_index ob k = (case map_of ob k of None \<Rightarrow> JNull | Some v \<Rightarrow> v)"

section \<open>\<^verbatim>\<open>jsutil::json_accessor\<close>\<close>

definition json_get :: "json_object \<Rightarrow> string \<Rightarrow> json \<Rightarrow> json" where
  "json_get ob k d = (case map_of ob k of Some v \<Rightarrow> v | None \<Rightarrow> d)"

text \<open>\<^verbatim>\<open>get_obj\<close> and \<^verbatim>\<open>get_array\<close> are \<^verbatim>\<open>noexcept\<close> but call throwing accessors.\<close>

definition get_obj :: "json_object \<Rightarrow> string \<Rightarrow> json_object result" where
  "get_obj ob k =
     (case map_of ob k of
        Some v \<Rightarrow> (case as_object v of Inl _ \<Rightarrow> Inl Terminate | Inr x \<Rightarrow> Inr x)
      | None \<Rightarrow> Inr [])"

definition get_array :: "json_object \<Rightarrow> string \<Rightarrow> json list result" where
  "get_array ob k =
     (case map_of ob k of
        Some v \<Rightarrow> (case as_array v of Inl _ \<Rightarrow> Inl Terminate | Inr x \<Rightarrow> Inr x)
      | None \<Rightarrow> Inr [])"

definition get_string :: "json_object \<Rightarrow> string \<Rightarrow> string" where
  "get_string ob k =
     (case map_of ob k of
        Some v \<Rightarrow> (case v of JStr s \<Rightarrow> s | _ \<Rightarrow> [])
      | None \<Rightarrow> [])"

definition json_as_string :: "json \<Rightarrow> string \<Rightarrow> string" where
  "json_as_string v d = (case as_string v of Inr s \<Rightarrow> s | Inl _ \<Rightarrow> d)"

section \<open>JSON-RPC requests\<close>

record jsonrpc_request =
  rq_method :: string
  rq_id :: json
  rq_params :: json_object

text \<open>\<^verbatim>\<open>value_to<maybe_jsonrpc_request_t>\<close>.\<close>

definition maybe_jsonrpc_request :: "json \<Rightarrow> jsonrpc_request option" where
  "maybe_jsonrpc_request jv =
     (case jv of
        JObj ob \<Rightarrow>
          (case map_of ob ''method'' of
             Some (JStr m) \<Rightarrow>
               Some \<lparr>rq_method = m,
                     rq_id = (case map_of ob ''id'' of Some i \<Rightarrow> i | None \<Rightarrow> JNull),
                     rq_params = (case map_of ob ''params'' of
                                    Some (JObj ps) \<Rightarrow> ps
                                  | _ \<Rightarrow> [])\<rparr>
           | _ \<Rightarrow> None)
      | _ \<Rightarrow> None)"

section \<open>Conversions between JSON integers and database keys\<close>

text \<open>An \<^verbatim>\<open>int64_t\<close> passed where a \<^verbatim>\<open>uint64_t\<close> is expected is reduced modulo \<open>2 ^ 64\<close>.\<close>

definition int64_range :: "int \<Rightarrow> bool" where
  "int64_range i \<longleftrightarrow> - (2 ^ 63) \<le> i \<and> i < 2 ^ 63"

definition u64_of :: "int \<Rightarrow> u64" where
  "u64_of i = word_of_int i"

lemma uint_u64_of [simp]: "0 \<le> i \<Longrightarrow> i < 2 ^ 63 \<Longrightarrow> uint (u64_of i) = i"
  by (simp add: u64_of_def uint_word_of_int)

lemma u64_of_inj:
  "0 \<le> i \<Longrightarrow> i < 2 ^ 63 \<Longrightarrow> 0 \<le> j \<Longrightarrow> j < 2 ^ 63 \<Longrightarrow> u64_of i = u64_of j \<Longrightarrow> i = j"
  by (metis uint_u64_of)

end
