(* ===== verification/Db_Types.thy ===== *)
theory Db_Types
  imports Complex_Main Json
begin

text \<open>
  The persistent objects of \<^verbatim>\<open>db.hpp\<close>: one record per \<^verbatim>\<open>#pragma db object\<close> or
  \<^verbatim>\<open>#pragma db value\<close> structure, one datatype per enumeration. Member names keep the C++ name
  behind a short prefix of the structure; nullable columns are options. A
  \<^verbatim>\<open>cpp_dec_float_100\<close> is a rational number: sums of prices with fewer than a hundred digits
  are exact.
\<close>

type_synonym cpp_numeric = rat

section \<open>Values and enumerations\<close>

record cmall_config =
  cfg_id :: u64
  config_name :: string
  config_value :: string

record recipient =
  r_name :: string
  r_telephone :: string
  r_address :: string
  r_province :: "string option"
  r_city :: "string option"
  r_district :: "string option"
  r_specific_address :: "string option"
  r_as_default :: bool

datatype user_state_t = User_normal | User_disabled | User_banned

datatype merchant_state_t = Merchant_normal | Merchant_disabled | Merchant_banned

datatype approve_state_t = Waiting | Approved | Denied

datatype order_status_t = Order_unpay | Order_payed | Order_shipped | Order_success

record goods_snapshot =
  gs_merchant_id :: u64
  gs_goods_id :: string
  gs_name :: string
  gs_price :: cpp_numeric
  gs_description :: string
  gs_good_version_git :: string
  gs_selection :: string

record cmall_kuaidi_info =
  kuaidihao :: string
  kuaidigongsi :: string

section \<open>Objects\<close>

record cmall_user =
  u_uid :: u64
  u_name :: string
  u_active_phone :: string
  u_used_phones :: "string list"
  u_recipients :: "recipient list"
  u_verified :: bool
  u_state :: user_state_t
  u_desc :: "string option"
  u_created_at :: ptime
  u_updated_at :: ptime
  u_deleted_at :: "ptime option"

text \<open>The row of \<^verbatim>\<open>administrators\<close> holds the key of its user; the loaded object holds the
  pointer to it.\<close>

record administrators_row =
  ar_uid :: u64
  ar_user :: "u64 option"

record administrators =
  a_uid :: u64
  a_user :: "cmall_user option"

record cmall_apptoken =
  apptoken :: string
  at_uid :: u64

record cmall_merchant =
  m_uid :: u64
  m_name :: string
  m_state :: merchant_state_t
  m_desc :: "string option"
  m_gitea_password :: "string option"
  m_created_at :: ptime
  m_updated_at :: ptime
  m_deleted_at :: "ptime option"
  m_exinfo_wx_mchid :: "string option"

record cmall_order =
  o_id :: u64
  o_oid :: string
  o_buyer :: u64
  o_seller :: u64
  o_price :: cpp_numeric
  o_pay_amount :: cpp_numeric
  o_kuaidifei :: cpp_numeric
  o_recipient :: "recipient list"
  o_stage :: order_status_t
  o_payed_at :: "ptime option"
  o_close_at :: "ptime option"
  o_bought_goods :: "goods_snapshot list"
  o_snap_git_version :: string
  o_kuaidi :: "cmall_kuaidi_info list"
  o_ext :: "string option"
  o_created_at :: ptime
  o_updated_at :: ptime
  o_deleted_at :: "ptime option"

record cmall_cart =
  c_id :: u64
  c_uid :: u64
  c_merchant_id :: u64
  c_merchant_name :: string
  c_goods_id :: string
  c_selection :: string
  c_count :: u64
  c_created_at :: ptime
  c_updated_at :: ptime

record cmall_user_fav =
  f_id :: u64
  f_uid :: u64
  f_merchant_id :: u64
  f_merchant_name :: string
  f_created_at :: ptime
  f_updated_at :: ptime

record cmall_apply_for_mechant =
  ap_id :: u64
  ap_applicant :: u64
  ap_seq :: "u64 option"
  ap_state :: approve_state_t
  ap_ext :: string
  ap_created_at :: ptime
  ap_updated_at :: ptime
  ap_deleted_at :: "ptime option"

record cmall_kv_store_key =
  kk_uid :: u64
  kk_key_value :: string

record cmall_3rd_kv_store =
  kv_key :: cmall_kv_store_key
  kv_value :: string

record cmall_index_page_goods =
  ig_id :: u64
  ig_merchant_id :: u64
  ig_goods :: string
  ig_order :: int

record cmall_session =
  s_cache_key :: string
  s_uid :: "int option"
  s_cache_content :: string
  s_ip_address :: "string option"
  s_created_at :: ptime
  s_updated_at :: ptime

section \<open>Default member values\<close>

text \<open>The values a default-constructed object starts with: the clock for the time stamps,
  the initialisers of the structure for the states.\<close>

definition new_cmall_user :: "ptime \<Rightarrow> cmall_user" where
  "new_cmall_user now =
     \<lparr>u_uid = 0, u_name = [], u_active_phone = [], u_used_phones = [], u_recipients = [],
      u_verified = False, u_state = User_normal, u_desc = None,
      u_created_at = now, u_updated_at = now, u_deleted_at = None\<rparr>"

definition new_cmall_merchant :: "ptime \<Rightarrow> cmall_merchant" where
  "new_cmall_merchant now =
     \<lparr>m_uid = 0, m_name = [], m_state = Merchant_normal, m_desc = None, m_gitea_password = None,
      m_created_at = now, m_updated_at = now, m_deleted_at = None, m_exinfo_wx_mchid = None\<rparr>"

definition new_cmall_order :: "ptime \<Rightarrow> cmall_order" where
  "new_cmall_order now =
     \<lparr>o_id = 0, o_oid = [], o_buyer = 0, o_seller = 0, o_price = 0, o_pay_amount = 0,
      o_kuaidifei = 0, o_recipient = [], o_stage = Order_unpay, o_payed_at = None,
      o_close_at = None, o_bought_goods = [], o_snap_git_version = [], o_kuaidi = [],
      o_ext = None, o_created_at = now, o_updated_at = now, o_deleted_at = None\<rparr>"

definition new_cmall_cart :: "ptime \<Rightarrow> cmall_cart" where
  "new_cmall_cart now =
     \<lparr>c_id = 0, c_uid = 0, c_merchant_id = 0, c_merchant_name = [], c_goods_id = [],
      c_selection = [], c_count = 0, c_created_at = now, c_updated_at = now\<rparr>"

definition new_cmall_user_fav :: "ptime \<Rightarrow> cmall_user_fav" where
  "new_cmall_user_fav now =
     \<lparr>f_id = 0, f_uid = 0, f_merchant_id = 0, f_merchant_name = [],
      f_created_at = now, f_updated_at = now\<rparr>"

definition new_cmall_apply :: "ptime \<Rightarrow> cmall_apply_for_mechant" where
  "new_cmall_apply now =
     \<lparr>ap_id = 0, ap_applicant = 0, ap_seq = None, ap_state = Waiting, ap_ext = [],
      ap_created_at = now, ap_updated_at = now, ap_deleted_at = None\<rparr>"

end
