(* ===== verification/Odb.thy ===== *)
theory Odb
  imports Error_Code
begin

text \<open>
  The object-relational layer: tables with the operations the generated ODB code offers on
  them (\<^verbatim>\<open>odb_generated/cmall/db-odb.cxx\<close>: \<^verbatim>\<open>find\<close>, \<^verbatim>\<open>query\<close>, \<^verbatim>\<open>persist\<close>, \<^verbatim>\<open>update\<close>,
  \<^verbatim>\<open>erase\<close>, \<^verbatim>\<open>erase_query\<close>), the interface they satisfy as a locale, and the generic operations
  of \<^verbatim>\<open>cmall_database\<close> (\<^verbatim>\<open>database.hpp\<close>) with its transaction retry loop. The SQL server
  itself is the state: a table is its rows in the order of insertion and the value of its
  \<^verbatim>\<open>BIGSERIAL\<close> sequence; a query is a predicate on rows. Which attempts of a transaction
  fail, and what the clock shows, are parameters.
\<close>

section \<open>Tables\<close>

record 'r table =
  rows :: "'r list"
  sequence :: u64

text \<open>The exceptions of the ODB runtime, \<open>Recoverable\<close> for the classes derived from
  \<^verbatim>\<open>odb::recoverable\<close> (lost connection, deadlock, timeout).\<close>

datatype odb_exn = Object_not_persistent | Object_already_persistent | Database_exception | Recoverable

definition empty_table :: "'r table" where
  "empty_table = \<lparr>rows = [], sequence = 1\<rparr>"

definition odb_find :: "('r \<Rightarrow> 'i) \<Rightarrow> 'i \<Rightarrow> 'r table \<Rightarrow> 'r option" where
  "odb_find key i t = List.find (\<lambda>r. key r = i) (rows t)"

definition odb_query :: "('r \<Rightarrow> bool) \<Rightarrow> 'r table \<Rightarrow> 'r list" where
  "odb_query p t = filter p (rows t)"

definition odb_query_one :: "('r \<Rightarrow> bool) \<Rightarrow> 'r table \<Rightarrow> 'r option" where
  "odb_query_one p t = List.find p (rows t)"

text \<open>\<^verbatim>\<open>persist\<close> of an object whose key the application assigns.\<close>

definition odb_persist :: "('r \<Rightarrow> 'i) \<Rightarrow> 'r \<Rightarrow> 'r table \<Rightarrow> odb_exn + 'r table" where
  "odb_persist key r t =
     (if odb_find key (key r) t = None then Inr (t\<lparr>rows := rows t @ [r]\<rparr>)
      else Inl Object_already_persistent)"

text \<open>\<^verbatim>\<open>persist\<close> of an object with \<^verbatim>\<open>id auto\<close>: the key comes from the sequence, whatever the
  member held before; a sequence beyond the signed 64-bit range is an error of the server.
  \<open>clash r s\<close> says that the two rows violate a unique index.\<close>

definition odb_persist_auto ::
  "(u64 \<Rightarrow> 'r \<Rightarrow> 'r) \<Rightarrow> ('r \<Rightarrow> 'r \<Rightarrow> bool) \<Rightarrow> 'r \<Rightarrow> 'r table \<Rightarrow> odb_exn + ('r \<times> 'r table)" where
  "odb_persist_auto set_key clash r t =
     (if list_ex (clash r) (rows t) \<or> 2 ^ 63 \<le> uint (sequence t) then Inl Database_exception
      else (let r' = set_key (sequence t) r
            in Inr (r', t\<lparr>rows := rows t @ [r'], sequence := sequence t + 1\<rparr>)))"

definition odb_update :: "('r \<Rightarrow> 'i) \<Rightarrow> 'r \<Rightarrow> 'r table \<Rightarrow> odb_exn + 'r table" where
  "odb_update key r t =
     (if odb_find key (key r) t = None then Inl Object_not_persistent
      else Inr (t\<lparr>rows := map (\<lambda>s. if key s = key r then r else s) (rows t)\<rparr>))"

definition odb_erase :: "('r \<Rightarrow> 'i) \<Rightarrow> 'i \<Rightarrow> 'r table \<Rightarrow> odb_exn + 'r table" where
  "odb_erase key i t =
     (if odb_find key i t = None then Inl Object_not_persistent
      else Inr (t\<lparr>rows := filter (\<lambda>s. key s \<noteq> i) (rows t)\<rparr>))"

text \<open>\<^verbatim>\<open>erase_query\<close> returns the number of rows it deleted.\<close>

definition odb_erase_query :: "('r \<Rightarrow> bool) \<Rightarrow> 'r table \<Rightarrow> nat \<times> 'r table" where
  "odb_erase_query p t =
     (length (filter p (rows t)), t\<lparr>rows := filter (\<lambda>s. \<not> p s) (rows t)\<rparr>)"

definition table_ok :: "('r \<Rightarrow> 'i) \<Rightarrow> 'r table \<Rightarrow> bool" where
  "table_ok key t \<longleftrightarrow> distinct (map key (rows t))"

lemmas odb_defs = odb_find_def odb_query_def odb_query_one_def odb_persist_def
  odb_persist_auto_def odb_update_def odb_erase_def odb_erase_query_def

lemma odb_find_iff:
  "table_ok key t \<Longrightarrow> odb_find key i t = Some r \<longleftrightarrow> r \<in> set (rows t) \<and> key r = i"
proof -
  assume ok: "table_ok key t"
  show ?thesis
  proof
    assume "odb_find key i t = Some r"
    then show "r \<in> set (rows t) \<and> key r = i"
      unfolding odb_find_def by (rule find_SomeD)
  next
    assume r: "r \<in> set (rows t) \<and> key r = i"
    then obtain s where s: "odb_find key i t = Some s"
      by (cases "odb_find key i t") (auto simp: odb_find_def find_None_iff)
    then have "s \<in> set (rows t)" "key s = i"
      unfolding odb_find_def by (auto dest: find_SomeD)
    with r ok have "s = r" unfolding table_ok_def
      by (metis distinct_map inj_onD)
    with s show "odb_find key i t = Some r" by simp
  qed
qed

lemma odb_find_None: "odb_find key i t = None \<longleftrightarrow> (\<forall>r\<in>set (rows t). key r \<noteq> i)"
  by (auto simp: odb_find_def find_None_iff)

section \<open>The interface of a keyed table\<close>

text \<open>What the callers of a table rely on, with the table abstracted to the map from keys to rows:
  every operation keeps the table well formed, and the map changes at the written key only.\<close>

locale odb_store =
  fixes key :: "'r \<Rightarrow> 'i"
    and find_by :: "'i \<Rightarrow> 't \<Rightarrow> 'r option"
    and persist :: "'r \<Rightarrow> 't \<Rightarrow> odb_exn + 't"
    and update_row :: "'r \<Rightarrow> 't \<Rightarrow> odb_exn + 't"
    and erase_key :: "'i \<Rightarrow> 't \<Rightarrow> odb_exn + 't"
    and wf :: "'t \<Rightarrow> bool"
  assumes find_key: "wf t \<Longrightarrow> find_by i t = Some r \<Longrightarrow> key r = i"
    and persist_new: "wf t \<Longrightarrow> find_by (key r) t = None \<Longrightarrow>
      \<exists>t'. persist r t = Inr t' \<and> wf t' \<and> (\<forall>i. find_by i t' = (if i = key r then Some r else find_by i t))"
    and persist_dup: "wf t \<Longrightarrow> find_by (key r) t \<noteq> None \<Longrightarrow> persist r t = Inl Object_already_persistent"
    and update_old: "wf t \<Longrightarrow> find_by (key r) t \<noteq> None \<Longrightarrow>
      \<exists>t'. update_row r t = Inr t' \<and> wf t' \<and> (\<forall>i. find_by i t' = (if i = key r then Some r else find_by i t))"
    and update_new: "wf t \<Longrightarrow> find_by (key r) t = None \<Longrightarrow> update_row r t = Inl Object_not_persistent"
    and erase_old: "wf t \<Longrightarrow> find_by i t \<noteq> None \<Longrightarrow>
      \<exists>t'. erase_key i t = Inr t' \<and> wf t' \<and> (\<forall>j. find_by j t' = (if j = i then None else find_by j t))"
    and erase_new: "wf t \<Longrightarrow> find_by i t = None \<Longrightarrow> erase_key i t = Inl Object_not_persistent"
begin

text \<open>An object is persistent under its key exactly after it was persisted and not erased.\<close>

lemma persist_cases:
  assumes "wf t" and "persist r t = Inr t'"
  shows "find_by (key r) t = None" and "wf t'"
    and "find_by i t' = (if i = key r then Some r else find_by i t)"
proof -
  show new: "find_by (key r) t = None"
    using assms persist_dup by fastforce
  show "wf t'" and "find_by i t' = (if i = key r then Some r else find_by i t)"
    using persist_new [OF assms(1) new] assms(2) by auto
qed

lemma update_cases:
  assumes "wf t" and "update_row r t = Inr t'"
  shows "find_by (key r) t \<noteq> None" and "wf t'"
    and "find_by i t' = (if i = key r then Some r else find_by i t)"
proof -
  show old: "find_by (key r) t \<noteq> None"
    using assms update_new by fastforce
  show "wf t'" and "find_by i t' = (if i = key r then Some r else find_by i t)"
    using update_old [OF assms(1) old] assms(2) by auto
qed

lemma erase_cases:
  assumes "wf t" and "erase_key i t = Inr t'"
  shows "find_by i t \<noteq> None" and "wf t'"
    and "find_by j t' = (if j = i then None else find_by j t)"
proof -
  show old: "find_by i t \<noteq> None"
    using assms erase_new by fastforce
  show "wf t'" and "find_by j t' = (if j = i then None else find_by j t)"
    using erase_old [OF assms(1) old] assms(2) by auto
qed

text \<open>Erasing what was just persisted gives back the old contents.\<close>

lemma persist_erase:
  assumes "wf t" and "persist r t = Inr t'"
  shows "\<exists>t''. erase_key (key r) t' = Inr t'' \<and> wf t'' \<and> (\<forall>i. find_by i t'' = find_by i t)"
proof -
  note t' = persist_cases [OF assms]
  have "find_by (key r) t' \<noteq> None"
    using t'(3) by simp
  from erase_old [OF t'(2) this] t'(1,3) show ?thesis by auto
qed

text \<open>Reading, changing and writing back one row leaves every other row as it was.\<close>

lemma read_modify_write:
  assumes "wf t" and "find_by i t = Some r" and "key (f r) = key r"
  shows "\<exists>t'. update_row (f r) t = Inr t' \<and> wf t' \<and>
    (\<forall>j. find_by j t' = (if j = i then Some (f r) else find_by j t))"
  using assms update_old [of t "f r"] find_key [of t i r] by simp

end

lemma map_replace_key:
  "map key (map (\<lambda>s. if key s = key r then r else s) xs) = map key xs"
  by (induction xs) auto

lemma odb_find_cong_rows:
  "table_ok key t \<Longrightarrow> table_ok key t' \<Longrightarrow>
   (\<And>r. r \<in> set (rows t') \<and> key r = i \<longleftrightarrow> s = Some r) \<Longrightarrow> odb_find key i t' = s"
  by (cases s; cases "odb_find key i t'")
    (auto simp: odb_find_iff odb_find_None)

text \<open>The tables of the model provide the interface, for every key function.\<close>

interpretation tab: odb_store key "odb_find key" "odb_persist key" "odb_update key"
  "odb_erase key" "table_ok key" for key :: "'r \<Rightarrow> 'i"
proof unfold_locales
  fix t :: "'r table" and r :: 'r and i :: 'i
  assume ok: "table_ok key t"
  show "key r = i" if "odb_find key i t = Some r"
    using that ok by (simp add: odb_find_iff)
  show "\<exists>t'. odb_persist key r t = Inr t' \<and> table_ok key t' \<and>
      (\<forall>i. odb_find key i t' = (if i = key r then Some r else odb_find key i t))"
    if "odb_find key (key r) t = None"
  proof -
    let ?t = "t\<lparr>rows := rows t @ [r]\<rparr>"
    have ok': "table_ok key ?t"
      using that ok by (auto simp: table_ok_def odb_find_None)
    moreover have "odb_find key j ?t = (if j = key r then Some r else odb_find key j t)" for j
      using that ok ok'
      by (intro odb_find_cong_rows [of key t ?t])
        (auto simp: odb_find_iff odb_find_None split: if_splits)
    ultimately show ?thesis
      using that by (simp add: odb_persist_def)
  qed
  show "odb_persist key r t = Inl Object_already_persistent" if "odb_find key (key r) t \<noteq> None"
    using that by (simp add: odb_persist_def)
  show "odb_update key r t = Inl Object_not_persistent" if "odb_find key (key r) t = None"
    using that by (simp add: odb_update_def)
  show "odb_erase key i t = Inl Object_not_persistent" if "odb_find key i t = None"
    using that by (simp add: odb_erase_def)
next
  fix t :: "'r table" and r :: 'r
  assume ok: "table_ok key t" and old: "odb_find key (key r) t \<noteq> None"
  let ?t = "t\<lparr>rows := map (\<lambda>s. if key s = key r then r else s) (rows t)\<rparr>"
  have ok': "table_ok key ?t"
    using ok by (simp add: table_ok_def map_replace_key del: map_map)
  moreover have "odb_find key j ?t = (if j = key r then Some r else odb_find key j t)" for j
    using ok ok' old
    by (intro odb_find_cong_rows [of key t ?t])
      (auto simp: odb_find_iff odb_find_None split: if_splits)
  ultimately show "\<exists>t'. odb_update key r t = Inr t' \<and> table_ok key t' \<and>
      (\<forall>i. odb_find key i t' = (if i = key r then Some r else odb_find key i t))"
    using old by (simp add: odb_update_def)
next
  fix t :: "'r table" and i :: 'i
  assume ok: "table_ok key t" and old: "odb_find key i t \<noteq> None"
  let ?t = "t\<lparr>rows := filter (\<lambda>s. key s \<noteq> i) (rows t)\<rparr>"
  have ok': "table_ok key ?t"
    using ok by (simp add: table_ok_def distinct_map_filter)
  moreover have "odb_find key j ?t = (if j = i then None else odb_find key j t)" for j
    using ok ok'
    by (intro odb_find_cong_rows [of key t ?t])
      (auto simp: odb_find_iff odb_find_None split: if_splits)
  ultimately show "\<exists>t'. odb_erase key i t = Inr t' \<and> table_ok key t' \<and>
      (\<forall>j. odb_find key j t' = (if j = i then None else odb_find key j t))"
    using old by (simp add: odb_erase_def)
qed

section \<open>Transactions and the retry loop\<close>

text \<open>
  A transaction body reads the clock and the database and either throws or returns a value
  and the new database; a thrown exception destroys the \<^verbatim>\<open>odb::transaction\<close> before the commit,
  so the database is the old one. \<open>flt k\<close> is the exception the server makes attempt \<open>k\<close> end
  with, if any, \<open>clk k\<close> the clock it sees. The loop is \<^verbatim>\<open>retry_database_op\<close>: its result, the
  database after it and the number of attempts made; \<open>d\<close> is the value of the
  \<^verbatim>\<open>return false\<close> behind the loop.
\<close>

type_synonym ('t, 'a) tx = "ptime \<Rightarrow> 't \<Rightarrow> odb_exn + ('a \<times> 't)"

definition attempt :: "(nat \<Rightarrow> odb_exn option) \<Rightarrow> (nat \<Rightarrow> ptime) \<Rightarrow> ('t, 'a) tx \<Rightarrow> 't \<Rightarrow> nat \<Rightarrow> odb_exn + ('a \<times> 't)" where
  "attempt flt clk op db k = (case flt k of Some e \<Rightarrow> Inl e | None \<Rightarrow> op (clk k) db)"

fun retry_loop ::
  "(nat \<Rightarrow> odb_exn option) \<Rightarrow> (nat \<Rightarrow> ptime) \<Rightarrow> 'a \<Rightarrow> ('t, 'a) tx \<Rightarrow> 't \<Rightarrow>
   nat \<Rightarrow> nat \<Rightarrow> bool \<Rightarrow> (exn + 'a) \<times> 't \<times> nat" where
  "retry_loop flt clk d op db 0 k eptr =
     (if eptr then (Inl (System_error internal_server_error), db, k) else (Inr d, db, k))"
| "retry_loop flt clk d op db (Suc n) k eptr =
     (case attempt flt clk op db k of
        Inr (x, db') \<Rightarrow> (Inr x, db', Suc k)
      | Inl e \<Rightarrow>
          (if e = Recoverable then retry_loop flt clk d op db n (Suc k) True
           else (Inl (System_error internal_server_error), db, Suc k)))"

definition db_max_retries :: nat where
  "db_max_retries = 25"

definition retry_database_op ::
  "(nat \<Rightarrow> odb_exn option) \<Rightarrow> (nat \<Rightarrow> ptime) \<Rightarrow> 'a \<Rightarrow> ('t, 'a) tx \<Rightarrow> 't \<Rightarrow> (exn + 'a) \<times> 't \<times> nat" where
  "retry_database_op flt clk d op db = retry_loop flt clk d op db db_max_retries 0 False"

text \<open>What the loop computes: the first attempt that does not end in a recoverable exception
  decides, if there is one among the attempts left.\<close>

lemma retry_loop_spec:
  assumes "0 < n \<or> eptr"
  shows "retry_loop flt clk d op db n k eptr =
    (case List.find (\<lambda>j. attempt flt clk op db j \<noteq> Inl Recoverable) [k..<k + n] of
       None \<Rightarrow> (Inl (System_error internal_server_error), db, k + n)
     | Some j \<Rightarrow>
         (case attempt flt clk op db j of
            Inr (x, db') \<Rightarrow> (Inr x, db', Suc j)
          | Inl e \<Rightarrow> (Inl (System_error internal_server_error), db, Suc j)))"
  using assms
proof (induction n arbitrary: k eptr)
  case 0
  then show ?case by simp
next
  case (Suc n)
  have up: "[k..<k + Suc n] = k # [Suc k..<Suc k + n]"
    by (simp add: upt_conv_Cons)
  show ?case
    unfolding up using Suc.IH [of True "Suc k"]
    by (auto simp del: upt_Suc split: sum.splits option.splits)
qed

lemma retry_Inr:
  assumes "retry_database_op flt clk d op db = (Inr x, db', n)"
  shows "\<exists>k<db_max_retries. flt k = None \<and> op (clk k) db = Inr (x, db')"
  using assms unfolding retry_database_op_def
  by (subst (asm) retry_loop_spec)
    (auto simp: db_max_retries_def attempt_def split: option.splits sum.splits dest!: find_SomeD)

lemma retry_Inl:
  assumes "retry_database_op flt clk d op db = (Inl e, db', n)"
  shows "e = System_error internal_server_error \<and> db' = db"
  using assms unfolding retry_database_op_def
  by (subst (asm) retry_loop_spec)
    (auto simp: db_max_retries_def split: option.splits sum.splits)

lemma retry_no_fault:
  assumes "flt 0 = None"
  shows "retry_database_op flt clk d op db =
    (case op (clk 0) db of
       Inr (x, db') \<Rightarrow> (Inr x, db', 1)
     | Inl e \<Rightarrow> (if e = Recoverable then retry_loop flt clk d op db 24 1 True
                else (Inl (System_error internal_server_error), db, 1)))"
proof -
  have "db_max_retries = Suc 24" by (simp add: db_max_retries_def)
  note unfold = retry_database_op_def this retry_loop.simps attempt_def assms
  show ?thesis unfolding unfold by (simp split: sum.splits)
qed

section \<open>The operations of \<^verbatim>\<open>cmall_database\<close> on one table\<close>

text \<open>
  The transaction bodies of \<^verbatim>\<open>database.hpp\<close>. \<open>stamp now\<close> sets \<^verbatim>\<open>updated_at_\<close> where the object
  has it (the identity where it does not), \<open>keep old\<close> copies \<^verbatim>\<open>created_at_\<close> from the old object.
\<close>

definition db_get :: "('r \<Rightarrow> 'i) \<Rightarrow> 'i \<Rightarrow> ('r table, 'r option) tx" where
  "db_get key i now t = Inr (odb_find key i t, t)"

definition db_query :: "('r \<Rightarrow> bool) \<Rightarrow> ('r table, 'r list) tx" where
  "db_query p now t = Inr (odb_query p t, t)"

definition db_query_one :: "('r \<Rightarrow> bool) \<Rightarrow> ('r table, 'r option) tx" where
  "db_query_one p now t = Inr (odb_query_one p t, t)"

definition db_add :: "('r \<Rightarrow> 'i) \<Rightarrow> 'r \<Rightarrow> ('r table, 'r option) tx" where
  "db_add key r now t =
     (case odb_persist key r t of Inl e \<Rightarrow> Inl e | Inr t' \<Rightarrow> Inr (Some r, t'))"

definition db_add_auto ::
  "(u64 \<Rightarrow> 'r \<Rightarrow> 'r) \<Rightarrow> ('r \<Rightarrow> 'r \<Rightarrow> bool) \<Rightarrow> 'r \<Rightarrow> ('r table, 'r option) tx" where
  "db_add_auto set_key clash r now t =
     (case odb_persist_auto set_key clash r t of Inl e \<Rightarrow> Inl e | Inr (r', t') \<Rightarrow> Inr (Some r', t'))"

definition db_upset ::
  "('r \<Rightarrow> 'i) \<Rightarrow> (ptime \<Rightarrow> 'r \<Rightarrow> 'r) \<Rightarrow> ('r \<Rightarrow> 'r \<Rightarrow> 'r) \<Rightarrow> 'r \<Rightarrow> ('r table, bool) tx" where
  "db_upset key stamp keep r now t =
     (case odb_find key (key r) t of
        Some old \<Rightarrow>
          (case odb_update key (keep old (stamp now r)) t of
             Inl e \<Rightarrow> Inl e | Inr t' \<Rightarrow> Inr (True, t'))
      | None \<Rightarrow> (case odb_persist key r t of Inl e \<Rightarrow> Inl e | Inr t' \<Rightarrow> Inr (True, t')))"

fun persist_all :: "(u64 \<Rightarrow> 'r \<Rightarrow> 'r) \<Rightarrow> ('r \<Rightarrow> 'r \<Rightarrow> bool) \<Rightarrow> 'r list \<Rightarrow> 'r table \<Rightarrow> odb_exn + 'r table" where
  "persist_all set_key clash [] t = Inr t"
| "persist_all set_key clash (r # rs) t =
     (case odb_persist_auto set_key clash r t of
        Inl e \<Rightarrow> Inl e | Inr (_, t') \<Rightarrow> persist_all set_key clash rs t')"

definition db_erase_and_insert ::
  "(u64 \<Rightarrow> 'r \<Rightarrow> 'r) \<Rightarrow> ('r \<Rightarrow> 'r \<Rightarrow> bool) \<Rightarrow> ('r \<Rightarrow> bool) \<Rightarrow> 'r list \<Rightarrow> ('r table, bool) tx" where
  "db_erase_and_insert set_key clash p rs now t =
     (case persist_all set_key clash rs (snd (odb_erase_query p t)) of
        Inl e \<Rightarrow> Inl e | Inr t' \<Rightarrow> Inr (True, t'))"

text \<open>\<^verbatim>\<open>reload\<close> loads the object with the key of the given one; \<open>None\<close> is the result \<^verbatim>\<open>false\<close>.\<close>

definition db_reload :: "('r \<Rightarrow> 'i) \<Rightarrow> 'r \<Rightarrow> ('r table, 'r option) tx" where
  "db_reload key r now t = Inr (odb_find key (key r) t, t)"

definition db_update :: "('r \<Rightarrow> 'i) \<Rightarrow> (ptime \<Rightarrow> 'r \<Rightarrow> 'r) \<Rightarrow> 'r \<Rightarrow> ('r table, bool) tx" where
  "db_update key stamp r now t =
     (case odb_update key (stamp now r) t of Inl e \<Rightarrow> Inl e | Inr t' \<Rightarrow> Inr (True, t'))"

fun update_each :: "('r \<Rightarrow> 'i) \<Rightarrow> ('r \<Rightarrow> 'r) \<Rightarrow> 'r list \<Rightarrow> 'r table \<Rightarrow> odb_exn + 'r table" where
  "update_each key f [] t = Inr t"
| "update_each key f (r # rs) t =
     (case odb_update key (f r) t of Inl e \<Rightarrow> Inl e | Inr t' \<Rightarrow> update_each key f rs t')"

definition db_update_query ::
  "('r \<Rightarrow> 'i) \<Rightarrow> (ptime \<Rightarrow> 'r \<Rightarrow> 'r) \<Rightarrow> ('r \<Rightarrow> bool) \<Rightarrow> ('r \<Rightarrow> 'r) \<Rightarrow> ('r table, bool) tx" where
  "db_update_query key stamp p updater now t =
     (case update_each key (\<lambda>r. stamp now (updater r)) (odb_query p t) t of
        Inl e \<Rightarrow> Inl e | Inr t' \<Rightarrow> Inr (True, t'))"

text \<open>The variant by key catches \<^verbatim>\<open>object_not_persistent\<close> and returns \<^verbatim>\<open>false\<close>; on success the
  updated object is returned as well, since the updaters capture it by reference.\<close>

definition db_update_id ::
  "('r \<Rightarrow> 'i) \<Rightarrow> (ptime \<Rightarrow> 'r \<Rightarrow> 'r) \<Rightarrow> 'i \<Rightarrow> ('r \<Rightarrow> 'r) \<Rightarrow> ('r table, 'r option) tx" where
  "db_update_id key stamp i updater now t =
     (case odb_find key i t of
        None \<Rightarrow> Inr (None, t)
      | Some old \<Rightarrow>
          (case odb_update key (stamp now (updater old)) t of
             Inl Object_not_persistent \<Rightarrow> Inr (None, t)
           | Inl e \<Rightarrow> Inl e
           | Inr t' \<Rightarrow> Inr (Some (updater old), t')))"

definition db_hard_remove :: "('r \<Rightarrow> 'i) \<Rightarrow> 'i \<Rightarrow> ('r table, bool) tx" where
  "db_hard_remove key i now t =
     (case odb_erase key i t of Inl e \<Rightarrow> Inl e | Inr t' \<Rightarrow> Inr (True, t'))"

text \<open>\<open>mark now\<close> sets \<^verbatim>\<open>deleted_at_\<close>; \<^verbatim>\<open>updated_at_\<close> stays.\<close>

definition db_soft_remove :: "('r \<Rightarrow> 'i) \<Rightarrow> (ptime \<Rightarrow> 'r \<Rightarrow> 'r) \<Rightarrow> 'r \<Rightarrow> ('r table, bool) tx" where
  "db_soft_remove key mark r now t =
     (case odb_update key (mark now r) t of Inl e \<Rightarrow> Inl e | Inr t' \<Rightarrow> Inr (True, t'))"

definition db_erase_query :: "('r \<Rightarrow> bool) \<Rightarrow> ('r table, bool) tx" where
  "db_erase_query p now t = Inr (True, snd (odb_erase_query p t))"

lemmas db_defs = db_get_def db_query_def db_query_one_def db_add_def db_add_auto_def db_upset_def
  db_erase_and_insert_def db_reload_def db_update_def db_update_query_def db_update_id_def
  db_hard_remove_def db_soft_remove_def db_erase_query_def

text \<open>Bodies that only read.\<close>

lemmas db_read_defs = db_get_def db_query_def db_query_one_def db_reload_def

text \<open>An update by query rewrites exactly the rows the query selects.\<close>

lemma update_each_rows:
  assumes "table_ok key t" and "set rs \<subseteq> set (rows t)" and "distinct rs" and "\<And>r. key (f r) = key r"
  shows "\<exists>t'. update_each key f rs t = Inr t' \<and> sequence t' = sequence t \<and>
    rows t' = map (\<lambda>r. if r \<in> set rs then f r else r) (rows t)"
  using assms
proof (induction rs arbitrary: t)
  case Nil
  then show ?case by simp
next
  case (Cons r rs)
  have ok: "table_ok key t" and r: "r \<in> set (rows t)" "r \<notin> set rs" and kf: "\<And>r. key (f r) = key r"
    using Cons.prems by auto
  have inj: "inj_on key (set (rows t))"
    using ok by (simp add: table_ok_def distinct_map)
  define t1 where "t1 = t\<lparr>rows := map (\<lambda>s. if key s = key (f r) then f r else s) (rows t)\<rparr>"
  have upd: "odb_update key (f r) t = Inr t1"
    using r kf by (auto simp: odb_update_def odb_find_None t1_def)
  have ok1: "table_ok key t1"
    using ok by (simp add: table_ok_def t1_def map_replace_key del: map_map)
  have same: "key s = key r \<longleftrightarrow> s = r" if "s \<in> set (rows t)" for s
    using that r(1) inj by (auto dest: inj_onD)
  have sub: "set rs \<subseteq> set (rows t1)"
  proof
    fix s assume s: "s \<in> set rs"
    then have "s \<in> set (rows t)" "s \<noteq> r" using Cons.prems by auto
    then show "s \<in> set (rows t1)" using same kf by (force simp: t1_def)
  qed
  obtain t' where t': "update_each key f rs t1 = Inr t'" "sequence t' = sequence t1"
    "rows t' = map (\<lambda>s. if s \<in> set rs then f s else s) (rows t1)"
    using Cons.IH [OF ok1 sub] Cons.prems kf by auto
  have notin: "f r \<notin> set rs"
  proof
    assume "f r \<in> set rs"
    then have "f r \<in> set (rows t)" "f r \<noteq> r" using Cons.prems by auto
    with same kf show False by auto
  qed
  have "rows t' = map (\<lambda>s. if s \<in> set (r # rs) then f s else s) (rows t)"
    unfolding t'(3) t1_def using same kf notin r(2) by (auto simp: o_def)
  with upd t' show ?case by (simp add: t1_def)
qed

lemma db_upset_stores:
  assumes "table_ok key t" and "\<And>now old r. key (keep old (stamp now r)) = key r"
  shows "\<exists>t' r'. db_upset key stamp keep r now t = Inr (True, t') \<and> table_ok key t' \<and>
    odb_find key (key r) t' = Some r' \<and> (r' = r \<or> (\<exists>old. r' = keep old (stamp now r))) \<and>
    (\<forall>i. i \<noteq> key r \<longrightarrow> odb_find key i t' = odb_find key i t)"
proof (cases "odb_find key (key r) t")
  case None
  then obtain t' where t': "odb_persist key r t = Inr t'"
    by (auto simp: odb_persist_def)
  with None tab.persist_cases [OF assms(1) t'] show ?thesis
    by (simp add: db_upset_def)
next
  case (Some old)
  let ?r = "keep old (stamp now r)"
  have "odb_find key (key ?r) t \<noteq> None" using Some assms(2) by simp
  then obtain t' where t': "odb_update key ?r t = Inr t'"
    by (auto simp: odb_update_def)
  with Some tab.update_cases [OF assms(1) t'] assms(2) show ?thesis
    by (simp add: db_upset_def) blast
qed

section \<open>The contract of the operations\<close>

text \<open>(C17) The retry loop of \<^verbatim>\<open>retry_database_op\<close>: of at most 25 attempts the first one that does not end in
  a recoverable exception decides. Its result and its changes are the outcome when it succeeds; any other
  exception, and 25 recoverable ones, end in \<^verbatim>\<open>internal_server_error\<close> with the database as before.\<close>

theorem retry_first_decisive:
  "retry_database_op flt clk d op db =
    (case List.find (\<lambda>j. attempt flt clk op db j \<noteq> Inl Recoverable) [0..<25] of
       None \<Rightarrow> (Inl (System_error internal_server_error), db, 25)
     | Some j \<Rightarrow>
         (case attempt flt clk op db j of
            Inr (x, db') \<Rightarrow> (Inr x, db', Suc j)
          | Inl e \<Rightarrow> (Inl (System_error internal_server_error), db, Suc j)))"
  unfolding retry_database_op_def db_max_retries_def
  by (subst retry_loop_spec) (simp_all split: option.split sum.split)

text \<open>The abstract view of a table: a finite map from keys to rows, and what an operation may do to it.\<close>

definition table_map :: "('r \<Rightarrow> 'i) \<Rightarrow> 'r table \<Rightarrow> 'i \<rightharpoonup> 'r" where
  "table_map key t i = odb_find key i t"

definition maps_to :: "('r \<Rightarrow> 'i) \<Rightarrow> odb_exn + ('a \<times> 'r table) \<Rightarrow> bool \<Rightarrow> odb_exn \<Rightarrow> ('i \<rightharpoonup> 'r) \<Rightarrow> bool" where
  "maps_to key res possible err m' \<longleftrightarrow>
     (case res of
        Inr (x, t') \<Rightarrow> possible \<and> table_ok key t' \<and> table_map key t' = m'
      | Inl e \<Rightarrow> \<not> possible \<and> e = err)"

lemma add_refines:
  assumes "table_ok key t"
  shows "maps_to key (db_add key r now t) (table_map key t (key r) = None) Object_already_persistent
    ((table_map key t)(key r \<mapsto> r))"
proof (cases "odb_persist key r t")
  case (Inl e)
  then show ?thesis
    by (auto simp: maps_to_def db_add_def table_map_def odb_persist_def split: if_splits)
next
  case (Inr t')
  then show ?thesis
    using tab.persist_cases [OF assms Inr] by (auto simp: maps_to_def db_add_def table_map_def fun_eq_iff)
qed

lemma update_refines:
  assumes "table_ok key t" and "key (stamp now r) = key r"
  shows "maps_to key (db_update key stamp r now t) (table_map key t (key r) \<noteq> None) Object_not_persistent
    ((table_map key t)(key r \<mapsto> stamp now r))"
proof (cases "odb_update key (stamp now r) t")
  case (Inl e)
  then show ?thesis
    by (auto simp: maps_to_def db_update_def table_map_def odb_update_def assms(2) split: if_splits)
next
  case (Inr t')
  then show ?thesis
    using tab.update_cases [OF assms(1) Inr]
    by (auto simp: maps_to_def db_update_def table_map_def assms(2) fun_eq_iff)
qed

lemma remove_refines:
  assumes "table_ok key t"
  shows "maps_to key (db_hard_remove key i now t) (table_map key t i \<noteq> None) Object_not_persistent
    ((table_map key t)(i := None))"
proof (cases "odb_erase key i t")
  case (Inl e)
  then show ?thesis
    by (auto simp: maps_to_def db_hard_remove_def table_map_def odb_erase_def split: if_splits)
next
  case (Inr t')
  then show ?thesis
    using tab.erase_cases [OF assms Inr] by (auto simp: maps_to_def db_hard_remove_def table_map_def fun_eq_iff)
qed



end
