(* ===== verification/Database.thy ===== *)
theory Database
  imports Db_Types Odb
begin

text \<open>
  The tables of the shop's database and the generic operations of \<^verbatim>\<open>cmall_database\<close>
  instantiated on them: which objects carry \<^verbatim>\<open>updated_at_\<close>, \<^verbatim>\<open>created_at_\<close> and \<^verbatim>\<open>deleted_at_\<close>
  (the concepts \<^verbatim>\<open>SupportUpdateAt\<close>, \<^verbatim>\<open>SupportCreateAt\<close>, \<^verbatim>\<open>SupportSoftDeletion\<close>), which have
  automatic keys, and which unique indexes they have.
\<close>

record database =
  t_config :: "cmall_config table"
  t_user :: "cmall_user table"
  t_admin :: "administrators_row table"
  t_apptoken :: "cmall_apptoken table"
  t_merchant :: "cmall_merchant table"
  t_order :: "cmall_order table"
  t_cart :: "cmall_cart table"
  t_fav :: "cmall_user_fav table"
  t_apply :: "cmall_apply_for_mechant table"
  t_kv :: "cmall_3rd_kv_store table"
  t_pubkv :: "cmall_3rd_kv_store table"
  t_index :: "cmall_index_page_goods table"
  t_session :: "cmall_session table"

definition empty_database :: database where
  "empty_database =
     \<lparr>t_config = empty_table, t_user = empty_table, t_admin = empty_table,
      t_apptoken = empty_table, t_merchant = empty_table, t_order = empty_table,
      t_cart = empty_table, t_fav = empty_table, t_apply = empty_table, t_kv = empty_table,
      t_pubkv = empty_table, t_index = empty_table, t_session = empty_table\<rparr>"

text \<open>A transaction body of one table as a transaction body of the database.\<close>

definition on_table ::
  "(database \<Rightarrow> 'r table) \<Rightarrow> (('r table \<Rightarrow> 'r table) \<Rightarrow> database \<Rightarrow> database) \<Rightarrow>
   ('r table, 'a) tx \<Rightarrow> (database, 'a) tx" where
  "on_table sel upd body now db =
     (case body now (sel db) of Inl e \<Rightarrow> Inl e | Inr (x, t) \<Rightarrow> Inr (x, upd (\<lambda>_. t) db))"

section \<open>Time stamps\<close>

definition u_stamp :: "ptime \<Rightarrow> cmall_user \<Rightarrow> cmall_user" where
  "u_stamp now u = u\<lparr>u_updated_at := now\<rparr>"

definition m_stamp :: "ptime \<Rightarrow> cmall_merchant \<Rightarrow> cmall_merchant" where
  "m_stamp now m = m\<lparr>m_updated_at := now\<rparr>"

definition o_stamp :: "ptime \<Rightarrow> cmall_order \<Rightarrow> cmall_order" where
  "o_stamp now r = r\<lparr>o_updated_at := now\<rparr>"

definition o_mark_deleted :: "ptime \<Rightarrow> cmall_order \<Rightarrow> cmall_order" where
  "o_mark_deleted now r = r\<lparr>o_deleted_at := Some now\<rparr>"

definition c_stamp :: "ptime \<Rightarrow> cmall_cart \<Rightarrow> cmall_cart" where
  "c_stamp now c = c\<lparr>c_updated_at := now\<rparr>"

definition ap_stamp :: "ptime \<Rightarrow> cmall_apply_for_mechant \<Rightarrow> cmall_apply_for_mechant" where
  "ap_stamp now a = a\<lparr>ap_updated_at := now\<rparr>"

definition s_stamp :: "ptime \<Rightarrow> cmall_session \<Rightarrow> cmall_session" where
  "s_stamp now s = s\<lparr>s_updated_at := now\<rparr>"

definition s_keep_created :: "cmall_session \<Rightarrow> cmall_session \<Rightarrow> cmall_session" where
  "s_keep_created old s = s\<lparr>s_created_at := s_created_at old\<rparr>"

lemmas stamp_defs = u_stamp_def m_stamp_def o_stamp_def o_mark_deleted_def c_stamp_def
  ap_stamp_def s_stamp_def s_keep_created_def

section \<open>Keys and unique indexes\<close>

definition no_clash :: "'r \<Rightarrow> 'r \<Rightarrow> bool" where
  "no_clash r s = False"

text \<open>\<^verbatim>\<open>#pragma db index unique\<close> on \<^verbatim>\<open>oid_\<close>.\<close>

definition order_clash :: "cmall_order \<Rightarrow> cmall_order \<Rightarrow> bool" where
  "order_clash r s \<longleftrightarrow> o_oid r = o_oid s"

text \<open>The unique index over \<^verbatim>\<open>(applicant_, seq)\<close>; rows with a null \<^verbatim>\<open>seq\<close> never clash.\<close>

definition apply_clash :: "cmall_apply_for_mechant \<Rightarrow> cmall_apply_for_mechant \<Rightarrow> bool" where
  "apply_clash r s \<longleftrightarrow> ap_applicant r = ap_applicant s \<and> ap_seq r \<noteq> None \<and> ap_seq r = ap_seq s"

section \<open>Objects with pointers\<close>

text \<open>Loading an object loads the users its pointers refer to; a dangling pointer is an
  exception of the ODB runtime.\<close>

definition admin_of_row :: "database \<Rightarrow> administrators_row \<Rightarrow> odb_exn + administrators" where
  "admin_of_row db r =
     (case ar_user r of
        None \<Rightarrow> Inr \<lparr>a_uid = ar_uid r, a_user = None\<rparr>
      | Some u \<Rightarrow>
          (case odb_find u_uid u (t_user db) of
             None \<Rightarrow> Inl Object_not_persistent
           | Some user \<Rightarrow> Inr \<lparr>a_uid = ar_uid r, a_user = Some user\<rparr>))"

definition load_admin :: "u64 \<Rightarrow> (database, administrators option) tx" where
  "load_admin i now db =
     (case odb_find ar_uid i (t_admin db) of
        None \<Rightarrow> Inr (None, db)
      | Some r \<Rightarrow> (case admin_of_row db r of Inl e \<Rightarrow> Inl e | Inr a \<Rightarrow> Inr (Some a, db)))"

fun with_applicants ::
  "database \<Rightarrow> cmall_apply_for_mechant list \<Rightarrow> odb_exn + (cmall_apply_for_mechant \<times> cmall_user) list" where
  "with_applicants db [] = Inr []"
| "with_applicants db (a # as) =
     (case odb_find u_uid (ap_applicant a) (t_user db) of
        None \<Rightarrow> Inl Object_not_persistent
      | Some u \<Rightarrow> (case with_applicants db as of Inl e \<Rightarrow> Inl e | Inr rs \<Rightarrow> Inr ((a, u) # rs)))"

definition load_applies ::
  "(cmall_apply_for_mechant \<Rightarrow> bool) \<Rightarrow> (database, (cmall_apply_for_mechant \<times> cmall_user) list) tx" where
  "load_applies p now db =
     (case with_applicants db (odb_query p (t_apply db)) of Inl e \<Rightarrow> Inl e | Inr rs \<Rightarrow> Inr (rs, db))"

section \<open>Well-formed databases\<close>

text \<open>An automatically keyed table: distinct keys, all below the sequence.\<close>

definition auto_ok :: "('r \<Rightarrow> u64) \<Rightarrow> 'r table \<Rightarrow> bool" where
  "auto_ok key t \<longleftrightarrow> table_ok key t \<and> (\<forall>r\<in>set (rows t). key r < sequence t)"

lemma sequence_step: "uint (x :: u64) < 2 ^ 63 \<Longrightarrow> x < x + 1"
  by (simp add: word_less_def uint_word_ariths)

lemma auto_ok_persist:
  assumes "auto_ok key t" and "\<And>i r. key (set_key i r) = i"
    and "odb_persist_auto set_key clash r t = Inr (r', t')"
  shows "auto_ok key t' \<and> r' = set_key (sequence t) r \<and> odb_find key (sequence t) t = None
    \<and> rows t' = rows t @ [r'] \<and> \<not> list_ex (clash r) (rows t)"
proof -
  have lt: "sequence t < sequence t + 1"
    using assms(3) by (intro sequence_step) (auto simp: odb_persist_auto_def split: if_splits)
  have new: "odb_find key (sequence t) t = None"
    using assms(1) by (auto simp: auto_ok_def odb_find_None)
  moreover have "table_ok key t'" "\<forall>x\<in>set (rows t'). key x < sequence t'"
    using assms lt by (force simp: auto_ok_def table_ok_def odb_persist_auto_def Let_def
        split: if_splits intro: less_trans)+
  ultimately show ?thesis
    using assms by (auto simp: auto_ok_def odb_persist_auto_def Let_def split: if_splits)
qed

text \<open>Updates and erasures keep an automatically keyed table well formed.\<close>

lemma auto_ok_update:
  assumes "auto_ok key t" and "odb_update key r t = Inr t'"
  shows "auto_ok key t'"
proof -
  have "odb_find key (key r) t \<noteq> None" "rows t' = map (\<lambda>s. if key s = key r then r else s) (rows t)"
    "sequence t' = sequence t"
    using assms(2) by (auto simp: odb_update_def split: if_splits)
  moreover have "table_ok key t'"
    using assms tab.update_cases(2) by (auto simp: auto_ok_def)
  ultimately show ?thesis
    using assms(1) by (auto simp: auto_ok_def odb_find_None)
qed

lemma auto_ok_erase:
  "auto_ok key t \<Longrightarrow> auto_ok key (t\<lparr>rows := filter p (rows t)\<rparr>)"
  by (auto simp: auto_ok_def table_ok_def distinct_map_filter)

lemma auto_ok_empty: "auto_ok key empty_table"
  by (simp add: auto_ok_def table_ok_def empty_table_def)

end
