(* ===== verification/Peg.thy ===== *)
theory Peg
  imports Prelude
begin

text \<open>
  The parsing primitives of Boost.Spirit.Qi that the grammars of the project are written with,
  as functions from the input to a result and the rest of the input. Qi parsers are ordered
  choices without backtracking into a finished part: \<open>None\<close> leaves the input where it was.
  The locale \<open>item_format\<close> is the contract of an item that is printed and parsed back; it
  lifts the round trip from one item to sequences of items.
\<close>

section \<open>Primitives\<close>

type_synonym 'a parser = "string \<Rightarrow> ('a \<times> string) option"

text \<open>\<^verbatim>\<open>qi::lit("...")\<close>.\<close>

fun lit :: "string \<Rightarrow> string \<Rightarrow> string option" where
  "lit [] s = Some s"
| "lit (p # ps) [] = None"
| "lit (p # ps) (c # cs) = (if p = c then lit ps cs else None)"

text \<open>\<^verbatim>\<open>+(qi::char_ - ...)\<close>: the longest non-empty run of allowed characters.\<close>

definition many1_chars :: "(char \<Rightarrow> bool) \<Rightarrow> string parser" where
  "many1_chars allowed s =
     (case takeWhile allowed s of [] \<Rightarrow> None | t \<Rightarrow> Some (t, dropWhile allowed s))"

text \<open>\<^verbatim>\<open>*qi::space\<close>.\<close>

definition skip_space :: "string \<Rightarrow> string" where
  "skip_space = dropWhile isspace"

text \<open>\<^verbatim>\<open>*p\<close>: as many \<open>p\<close> as there are. The test of the length never fails for the item
  parsers used here, which all consume input.\<close>

function many :: "'a parser \<Rightarrow> string \<Rightarrow> 'a list \<times> string" where
  "many p s =
     (case p s of
        None \<Rightarrow> ([], s)
      | Some (x, r) \<Rightarrow>
          (if length r < length s then (case many p r of (xs, r') \<Rightarrow> (x # xs, r'))
           else ([x], r)))"
  by pat_completeness auto
termination
  by (relation "measure (\<lambda>(p, s). length s)") auto

declare many.simps [simp del]

text \<open>\<^verbatim>\<open>p >> *p\<close>.\<close>

definition many1 :: "'a parser \<Rightarrow> 'a list parser" where
  "many1 p s =
     (case p s of
        None \<Rightarrow> None
      | Some (x, r) \<Rightarrow> (case many p r of (xs, r') \<Rightarrow> Some (x # xs, r')))"

section \<open>Facts about the primitives\<close>

lemma lit_append [simp]: "lit p (p @ s) = Some s"
  by (induction p) auto

lemma lit_Some: "lit p s = Some r \<longleftrightarrow> s = p @ r"
  by (induction p s rule: lit.induct) auto

lemma lit_None: "lit p s = None \<longleftrightarrow> \<not> starts_with s p"
  by (induction p s rule: lit.induct) auto

lemma many1_chars_append:
  assumes "t \<noteq> []" and "\<forall>c\<in>set t. allowed c" and "r = [] \<or> \<not> allowed (hd r)"
  shows "many1_chars allowed (t @ r) = Some (t, r)"
  using assms takeWhile_append_stop [of t allowed r] dropWhile_append_stop [of t allowed r]
  by (auto simp: many1_chars_def split: list.splits)

lemma many1_chars_None: "s = [] \<or> \<not> allowed (hd s) \<Longrightarrow> many1_chars allowed s = None"
  by (cases s) (auto simp: many1_chars_def)

lemma many1_chars_Some:
  "many1_chars allowed s = Some (t, r) \<Longrightarrow>
   t \<noteq> [] \<and> (\<forall>c\<in>set t. allowed c) \<and> s = t @ r \<and> (r = [] \<or> \<not> allowed (hd r))"
proof -
  assume a: "many1_chars allowed s = Some (t, r)"
  then have t: "t = takeWhile allowed s" "r = dropWhile allowed s" "t \<noteq> []"
    by (auto simp: many1_chars_def split: list.splits)
  moreover have "r = [] \<or> \<not> allowed (hd r)"
    using t(2) hd_dropWhile [of allowed s] by blast
  ultimately show ?thesis
    by (auto dest: set_takeWhileD)
qed

lemma skip_space_id: "s = [] \<or> \<not> isspace (hd s) \<Longrightarrow> skip_space s = s"
  by (cases s) (auto simp: skip_space_def)

lemma skip_space_Cons [simp]: "isspace c \<Longrightarrow> skip_space (c # s) = skip_space s"
  by (simp add: skip_space_def)

lemma many_None: "p s = None \<Longrightarrow> many p s = ([], s)"
  by (simp add: many.simps [of p s])

lemma many_Some:
  "p s = Some (x, r) \<Longrightarrow> length r < length s \<Longrightarrow>
   many p s = (x # fst (many p r), snd (many p r))"
  by (simp add: many.simps [of p s] split: prod.splits)

text \<open>The repetition stops exactly where the item parser fails.\<close>

lemma many_stops:
  assumes "\<And>s x r. p s = Some (x, r) \<Longrightarrow> length r < length s"
  shows "p (snd (many p s)) = None"
proof (induction "length s" arbitrary: s rule: less_induct)
  case less
  show ?case
  proof (cases "p s")
    case None
    then show ?thesis by (simp add: many_None)
  next
    case (Some a)
    obtain x r where a: "a = (x, r)" by (cases a)
    with Some assms have "length r < length s" by blast
    with less Some a show ?thesis by (simp add: many_Some)
  qed
qed

section \<open>Items that are printed and parsed back\<close>

text \<open>\<open>stop r\<close> says that an item may end before \<open>r\<close> (the delimiter of the next one follows);
  every printed item can follow another one.\<close>

locale item_format =
  fixes print_item :: "'a \<Rightarrow> string"
    and parse_item :: "'a parser"
    and valid :: "'a \<Rightarrow> bool"
    and stop :: "string \<Rightarrow> bool"
  assumes item_roundtrip: "valid x \<Longrightarrow> stop r \<Longrightarrow> parse_item (print_item x @ r) = Some (x, r)"
    and item_nonempty: "valid x \<Longrightarrow> print_item x \<noteq> []"
    and item_stop: "valid x \<Longrightarrow> stop (print_item x @ r)"
begin

lemma items_stop: "\<forall>x\<in>set xs. valid x \<Longrightarrow> stop r \<Longrightarrow> stop (concat (map print_item xs) @ r)"
  by (cases xs) (auto simp: item_stop)

lemma many_roundtrip:
  assumes "\<forall>x\<in>set xs. valid x" and "stop r" and "parse_item r = None"
  shows "many parse_item (concat (map print_item xs) @ r) = (xs, r)"
  using assms(1)
proof (induction xs)
  case Nil
  with assms(3) show ?case by (simp add: many_None)
next
  case (Cons x xs)
  let ?rest = "concat (map print_item xs) @ r"
  have step: "parse_item (print_item x @ ?rest) = Some (x, ?rest)"
    using Cons.prems assms(2) by (intro item_roundtrip items_stop) auto
  have shorter: "length ?rest < length (print_item x @ ?rest)"
    using Cons.prems item_nonempty by simp
  have "many parse_item ?rest = (xs, r)"
    using Cons by simp
  with many_Some [where p = parse_item, OF step shorter] show ?case by simp
qed

lemma many1_roundtrip:
  assumes "xs \<noteq> []" and "\<forall>x\<in>set xs. valid x" and "stop r" and "parse_item r = None"
  shows "many1 parse_item (concat (map print_item xs) @ r) = Some (xs, r)"
proof -
  from assms(1) obtain y ys where xs: "xs = y # ys" by (cases xs) auto
  have "parse_item (print_item y @ (concat (map print_item ys) @ r)) =
      Some (y, concat (map print_item ys) @ r)"
    using assms xs by (intro item_roundtrip items_stop) auto
  moreover have "many parse_item (concat (map print_item ys) @ r) = (ys, r)"
    using assms xs by (intro many_roundtrip) auto
  ultimately show ?thesis by (simp add: many1_def xs)
qed

end

end
