(* ===== verification/Goods_Grammar.thy ===== *)
theory Goods_Grammar
  imports Peg Json
begin

text \<open>
  The three small languages a merchant's repository and the order tables are written in:
  \<^item> the selection string \<^verbatim>\<open>option:select;...\<close> of carts and orders, written by the order and
    cart handlers and read back by \<^verbatim>\<open>selection_parser.hpp\<close>;
  \<^item> the metadata block of a goods description (\<^verbatim>\<open>goods_md_metadata_grammer.hpp\<close>);
  \<^item> the option file of a goods (\<^verbatim>\<open>goods_option_grammer.hpp\<close>).
\<close>

abbreviation nl :: char where "nl \<equiv> CHR 0x0A"
abbreviation cr :: char where "cr \<equiv> CHR 0x0D"
abbreviation tab_char :: char where "tab_char \<equiv> CHR 0x09"

section \<open>Selection strings\<close>

record selection_item =
  si_option :: string
  si_select :: string

text \<open>\<^verbatim>\<open>fmt::format("{}:{};", option, select)\<close> of the order and cart handlers.\<close>

definition print_selection_item :: "selection_item \<Rightarrow> string" where
  "print_selection_item x = si_option x @ '':'' @ si_select x @ '';''"

definition print_selection :: "selection_item list \<Rightarrow> string" where
  "print_selection xs = concat (map print_selection_item xs)"

definition option_name_char :: "char \<Rightarrow> bool" where
  "option_name_char c \<longleftrightarrow> c \<noteq> nl \<and> c \<noteq> cr \<and> c \<noteq> CHR '':'' \<and> c \<noteq> CHR '';''"

definition selection_value_char :: "char \<Rightarrow> bool" where
  "selection_value_char c \<longleftrightarrow> c \<noteq> CHR '';'' \<and> c \<noteq> nl"

definition parse_selection_item :: "selection_item parser" where
  "parse_selection_item s =
     (case many1_chars option_name_char s of
        None \<Rightarrow> None
      | Some (opt, s1) \<Rightarrow>
          (case lit '':'' s1 of
             None \<Rightarrow> None
           | Some s2 \<Rightarrow>
               (case many1_chars selection_value_char s2 of
                  None \<Rightarrow> None
                | Some (sel, s3) \<Rightarrow>
                    (case lit '';'' s3 of
                       None \<Rightarrow> None
                     | Some s4 \<Rightarrow> Some (\<lparr>si_option = opt, si_select = sel\<rparr>, s4)))))"

text \<open>\<^verbatim>\<open>parse_selection_description_string\<close>: a matching prefix is enough.\<close>

definition parse_selection_description_string :: "string \<Rightarrow> selection_item list option" where
  "parse_selection_description_string s = map_option fst (many1 parse_selection_item s)"

definition selection_item_ok :: "selection_item \<Rightarrow> bool" where
  "selection_item_ok x \<longleftrightarrow>
     si_option x \<noteq> [] \<and> list_all option_name_char (si_option x) \<and>
     si_select x \<noteq> [] \<and> list_all selection_value_char (si_select x)"

interpretation selection_fmt: item_format print_selection_item parse_selection_item
  selection_item_ok "\<lambda>_. True"
proof unfold_locales
  fix x r
  assume ok: "selection_item_ok x"
  show "parse_selection_item (print_selection_item x @ r) = Some (x, r)"
    using ok many1_chars_append [of "si_option x" option_name_char "CHR '':'' # si_select x @ CHR '';'' # r"]
      many1_chars_append [of "si_select x" selection_value_char "CHR '';'' # r"]
    by (simp add: selection_item_ok_def parse_selection_item_def print_selection_item_def
        list_all_iff option_name_char_def selection_value_char_def)
  show "print_selection_item x \<noteq> []"
    by (simp add: print_selection_item_def)
qed simp

lemma parse_selection_item_Nil [simp]: "parse_selection_item [] = None"
  by (simp add: parse_selection_item_def many1_chars_None)

section \<open>Goods metadata\<close>

record KV =
  kv_k :: string
  kv_v :: string

record goods_description =
  gd_title :: string
  gd_price :: string
  gd_kuaidifei :: string
  gd_picture :: "string list"
  gd_keywords :: "string list"
  gd_description :: string
  gd_rest_meta :: "KV list"

definition empty_description :: goods_description where
  "empty_description =
     \<lparr>gd_title = [], gd_price = [], gd_kuaidifei = [], gd_picture = [], gd_keywords = [],
      gd_description = [], gd_rest_meta = []\<rparr>"

text \<open>\<^verbatim>\<open>goods_description::operator =\<close> merges: strings keep their first value, vectors append.\<close>

definition merge_description :: "goods_description \<Rightarrow> goods_description \<Rightarrow> goods_description" where
  "merge_description this other =
     \<lparr>gd_title = (if gd_title this = [] then gd_title other else gd_title this),
      gd_price = (if gd_price this = [] then gd_price other else gd_price this),
      gd_kuaidifei = (if gd_kuaidifei this = [] then gd_kuaidifei other else gd_kuaidifei this),
      gd_picture = gd_picture this @ gd_picture other,
      gd_keywords = gd_keywords this @ gd_keywords other,
      gd_description = (if gd_description this = [] then gd_description other else gd_description this),
      gd_rest_meta = gd_rest_meta this @ gd_rest_meta other\<rparr>"

text \<open>One line of the block and the attribute it contributes.\<close>

datatype md_line =
    Title_line string
  | Price_line string
  | Kuaidifei_line string
  | Description_line string
  | Picture_line string
  | Keyword_line "string list"
  | Pair_line string string

fun line_attr :: "md_line \<Rightarrow> goods_description" where
  "line_attr (Title_line v) = empty_description\<lparr>gd_title := v\<rparr>"
| "line_attr (Price_line v) = empty_description\<lparr>gd_price := v\<rparr>"
| "line_attr (Kuaidifei_line v) = empty_description\<lparr>gd_kuaidifei := v\<rparr>"
| "line_attr (Description_line v) = empty_description\<lparr>gd_description := v\<rparr>"
| "line_attr (Picture_line v) = empty_description\<lparr>gd_picture := [v]\<rparr>"
| "line_attr (Keyword_line ws) = empty_description\<lparr>gd_keywords := ws\<rparr>"
| "line_attr (Pair_line k v) = empty_description\<lparr>gd_rest_meta := [\<lparr>kv_k = k, kv_v = v\<rparr>]\<rparr>"

definition md_newline :: "string \<Rightarrow> string option" where
  "md_newline s = (case lit [cr, nl] s of Some r \<Rightarrow> Some r | None \<Rightarrow> lit [nl] s)"

definition md_value_char :: "char \<Rightarrow> bool" where
  "md_value_char c \<longleftrightarrow> c \<noteq> nl"

definition md_key_char :: "char \<Rightarrow> bool" where
  "md_key_char c \<longleftrightarrow> c \<noteq> CHR '':'' \<and> c \<noteq> CHR ''-'' \<and> c \<noteq> CHR '' ''"

definition md_keyword_char :: "char \<Rightarrow> bool" where
  "md_keyword_char c \<longleftrightarrow> c \<noteq> nl \<and> c \<noteq> CHR '' ''"

text \<open>\<^verbatim>\<open>qi::lit(name) >> *qi::space >> ':' >> *qi::space\<close>.\<close>

definition md_field :: "string \<Rightarrow> string \<Rightarrow> string option" where
  "md_field name s =
     (case lit name s of
        None \<Rightarrow> None
      | Some s1 \<Rightarrow>
          (case lit '':'' (skip_space s1) of None \<Rightarrow> None | Some s2 \<Rightarrow> Some (skip_space s2)))"

text \<open>\<^verbatim>\<open>value >> newline\<close>.\<close>

definition md_value_end :: "string parser" where
  "md_value_end s =
     (case many1_chars md_value_char s of
        None \<Rightarrow> None
      | Some (v, s1) \<Rightarrow> (case md_newline s1 of None \<Rightarrow> None | Some s2 \<Rightarrow> Some (v, s2)))"

definition md_field_line :: "string \<Rightarrow> string parser" where
  "md_field_line name s = (case md_field name s of None \<Rightarrow> None | Some s1 \<Rightarrow> md_value_end s1)"

text \<open>\<^verbatim>\<open>+qi::lit(' ') >> keyword\<close>.\<close>

definition md_next_keyword :: "string parser" where
  "md_next_keyword s =
     (case many1_chars (\<lambda>c. c = CHR '' '') s of
        None \<Rightarrow> None
      | Some (_, s1) \<Rightarrow> many1_chars md_keyword_char s1)"

definition md_keywords :: "string list parser" where
  "md_keywords s =
     (case many1_chars md_keyword_char s of
        None \<Rightarrow> None
      | Some (w, s1) \<Rightarrow> (case many md_next_keyword s1 of (ws, s2) \<Rightarrow> Some (w # ws, s2)))"

definition md_keyword_line :: "string list parser" where
  "md_keyword_line s =
     (case md_field ''keyword'' s of
        None \<Rightarrow> None
      | Some s1 \<Rightarrow>
          (case md_keywords s1 of
             None \<Rightarrow> None
           | Some (ws, s2) \<Rightarrow>
               (case md_newline (dropWhile (\<lambda>c. c = CHR '' '') s2) of
                  None \<Rightarrow> None | Some s3 \<Rightarrow> Some (ws, s3))))"

definition md_pair_line :: "(string \<times> string) parser" where
  "md_pair_line s =
     (case many1_chars md_key_char s of
        None \<Rightarrow> None
      | Some (k, s1) \<Rightarrow>
          (case lit '':'' s1 of
             None \<Rightarrow> None
           | Some s2 \<Rightarrow>
               (case md_value_end (skip_space s2) of
                  None \<Rightarrow> None | Some (v, s3) \<Rightarrow> Some ((k, v), s3))))"

text \<open>The rule \<^verbatim>\<open>line\<close>: the alternatives in their order.\<close>

definition md_line_parser :: "md_line parser" where
  "md_line_parser s =
     (case md_field_line ''title'' s of Some (v, r) \<Rightarrow> Some (Title_line v, r) | None \<Rightarrow>
     (case md_field_line ''price'' s of Some (v, r) \<Rightarrow> Some (Price_line v, r) | None \<Rightarrow>
     (case md_field_line ''kuaidifei'' s of Some (v, r) \<Rightarrow> Some (Kuaidifei_line v, r) | None \<Rightarrow>
     (case md_field_line ''description'' s of Some (v, r) \<Rightarrow> Some (Description_line v, r) | None \<Rightarrow>
     (case md_field_line ''picture'' s of Some (v, r) \<Rightarrow> Some (Picture_line v, r) | None \<Rightarrow>
     (case md_keyword_line s of Some (ws, r) \<Rightarrow> Some (Keyword_line ws, r) | None \<Rightarrow>
     (case md_pair_line s of Some ((k, v), r) \<Rightarrow> Some (Pair_line k v, r) | None \<Rightarrow> None)))))))"

definition document_sperator :: "string \<Rightarrow> string option" where
  "document_sperator s = (case lit ''---'' s of None \<Rightarrow> None | Some r \<Rightarrow> md_newline r)"

text \<open>\<^verbatim>\<open>parse_goods_metadata\<close>: separator, lines merged one after the other, separator.\<close>

definition parse_goods_metadata :: "string \<Rightarrow> goods_description option" where
  "parse_goods_metadata doc =
     (case document_sperator doc of
        None \<Rightarrow> None
      | Some s1 \<Rightarrow>
          (case many1 md_line_parser s1 of
             None \<Rightarrow> None
           | Some (ls, s2) \<Rightarrow>
               (case document_sperator s2 of
                  None \<Rightarrow> None
                | Some _ \<Rightarrow>
                    Some (merge_description empty_description
                      (foldl merge_description empty_description (map line_attr ls))))))"

text \<open>The canonical text of a line and of a block.\<close>

fun print_md_line :: "md_line \<Rightarrow> string" where
  "print_md_line (Title_line v) = ''title: '' @ v @ [nl]"
| "print_md_line (Price_line v) = ''price: '' @ v @ [nl]"
| "print_md_line (Kuaidifei_line v) = ''kuaidifei: '' @ v @ [nl]"
| "print_md_line (Description_line v) = ''description: '' @ v @ [nl]"
| "print_md_line (Picture_line v) = ''picture: '' @ v @ [nl]"
| "print_md_line (Keyword_line ws) =
     ''keyword: '' @ (case ws of [] \<Rightarrow> [] | w # vs \<Rightarrow> w @ concat (map (\<lambda>v. CHR '' '' # v) vs)) @ [nl]"
| "print_md_line (Pair_line k v) = k @ '': '' @ v @ [nl]"

definition print_metadata :: "md_line list \<Rightarrow> string" where
  "print_metadata ls = ''---'' @ [nl] @ concat (map print_md_line ls) @ ''---'' @ [nl]"

definition md_value_ok :: "string \<Rightarrow> bool" where
  "md_value_ok v \<longleftrightarrow> v \<noteq> [] \<and> list_all md_value_char v \<and> \<not> isspace (hd v)"

definition md_word_ok :: "string \<Rightarrow> bool" where
  "md_word_ok w \<longleftrightarrow> w \<noteq> [] \<and> list_all md_keyword_char w \<and> \<not> isspace (hd w)"

definition reserved_keys :: "string list" where
  "reserved_keys = [''title'', ''price'', ''kuaidifei'', ''description'', ''picture'', ''keyword'']"

fun md_line_ok :: "md_line \<Rightarrow> bool" where
  "md_line_ok (Title_line v) = md_value_ok v"
| "md_line_ok (Price_line v) = md_value_ok v"
| "md_line_ok (Kuaidifei_line v) = md_value_ok v"
| "md_line_ok (Description_line v) = md_value_ok v"
| "md_line_ok (Picture_line v) = md_value_ok v"
| "md_line_ok (Keyword_line ws) = (ws \<noteq> [] \<and> list_all md_word_ok ws)"
| "md_line_ok (Pair_line k v) =
     (k \<noteq> [] \<and> list_all (\<lambda>c. md_key_char c \<and> \<not> isspace c) k \<and> k \<notin> set reserved_keys \<and> md_value_ok v)"

lemma isspace_chars [simp]:
  "isspace (CHR '' '')" "isspace nl" "isspace cr" "\<not> isspace (CHR '':'')" "\<not> isspace (CHR ''-'')"
  by (simp_all add: isspace_def of_char_of)

lemma md_newline_nl [simp]: "md_newline (nl # r) = Some r"
  by (simp add: md_newline_def)

lemma md_value_end_ok:
  assumes "md_value_ok v"
  shows "md_value_end (v @ nl # r) = Some (v, r)"
  using assms many1_chars_append [of v md_value_char "nl # r"]
  by (simp add: md_value_end_def md_value_ok_def list_all_iff md_value_char_def)

lemma skip_space_value: "md_value_ok v \<Longrightarrow> skip_space ('' '' @ v @ s) = v @ s"
  by (cases v) (auto simp: md_value_ok_def skip_space_id)

lemma md_field_ok:
  "md_value_ok v \<Longrightarrow> md_field name (name @ '': '' @ v @ s) = Some (v @ s)"
  using skip_space_value [of v s] by (simp add: md_field_def skip_space_id)

lemma md_field_line_ok:
  assumes "md_value_ok v"
  shows "md_field_line name (name @ '': '' @ v @ nl # r) = Some (v, r)"
  using md_field_ok [OF assms] md_value_end_ok [OF assms] by (simp add: md_field_line_def)

text \<open>A key that is not the field name itself does not start that field.\<close>

lemma md_field_other:
  assumes "k \<noteq> name" and "\<forall>c\<in>set k. c \<noteq> CHR '':'' \<and> \<not> isspace c" and "CHR '':'' \<notin> set name"
  shows "md_field name (k @ CHR '':'' # s) = None"
proof (cases "lit name (k @ CHR '':'' # s)")
  case None
  then show ?thesis by (simp add: md_field_def)
next
  case (Some r)
  then have eq: "name @ r = k @ CHR '':'' # s" by (simp add: lit_Some)
  from assms(1,3) eq obtain k' where k': "k = name @ k'" "r = k' @ CHR '':'' # s" "k' \<noteq> []"
    by (auto simp: append_eq_append_conv2 append_eq_Cons_conv Cons_eq_append_conv)
  then obtain c cs where "k' = c # cs" by (cases k') auto
  with k' assms(2) Some show ?thesis
    by (auto simp: md_field_def skip_space_id)
qed

lemma md_field_line_other:
  assumes "k \<noteq> name" and "\<forall>c\<in>set k. c \<noteq> CHR '':'' \<and> \<not> isspace c" and "CHR '':'' \<notin> set name"
  shows "md_field_line name (k @ CHR '':'' # s) = None"
  using md_field_other [OF assms] by (simp add: md_field_line_def)

lemma md_keyword_line_other:
  assumes "k \<noteq> ''keyword''" and "\<forall>c\<in>set k. c \<noteq> CHR '':'' \<and> \<not> isspace c"
  shows "md_keyword_line (k @ CHR '':'' # s) = None"
  using md_field_other [OF assms] by (simp add: md_keyword_line_def)

text \<open>The words behind the first one are items of their own.\<close>

interpretation keyword_fmt: item_format "\<lambda>w. CHR '' '' # w" md_next_keyword md_word_ok
  "\<lambda>r. r = [] \<or> hd r = CHR '' '' \<or> hd r = nl"
proof unfold_locales
  fix w r
  assume w: "md_word_ok w" and r: "r = [] \<or> hd r = CHR '' '' \<or> hd r = nl"
  have "many1_chars (\<lambda>c. c = CHR '' '') ([CHR '' ''] @ (w @ r)) = Some ([CHR '' ''], w @ r)"
    using w by (intro many1_chars_append) (auto simp: md_word_ok_def list_all_iff md_keyword_char_def)
  moreover have "many1_chars md_keyword_char (w @ r) = Some (w, r)"
    using w r by (intro many1_chars_append) (auto simp: md_word_ok_def list_all_iff md_keyword_char_def)
  ultimately show "md_next_keyword ((CHR '' '' # w) @ r) = Some (w, r)"
    by (simp add: md_next_keyword_def)
qed simp_all

lemma md_next_keyword_nl [simp]: "md_next_keyword (nl # r) = None"
  by (simp add: md_next_keyword_def many1_chars_None)

lemma md_keyword_line_ok:
  assumes "md_word_ok w" and "\<forall>v\<in>set ws. md_word_ok v"
  shows "md_keyword_line (''keyword: '' @ (w @ concat (map (\<lambda>v. CHR '' '' # v) ws) @ nl # r)) = Some (w # ws, r)"
proof -
  let ?tail = "concat (map (\<lambda>v. CHR '' '' # v) ws) @ nl # r"
  have val: "md_field ''keyword'' (''keyword: '' @ (w @ ?tail)) = Some (w @ ?tail)"
    using assms(1) by (cases w) (auto simp: md_field_def md_word_ok_def skip_space_id)
  have hd_tail: "hd ?tail = CHR '' '' \<or> hd ?tail = nl"
    by (cases ws) simp_all
  have first: "many1_chars md_keyword_char (w @ ?tail) = Some (w, ?tail)"
    using assms(1) hd_tail
    by (intro many1_chars_append disjI2) (auto simp: md_word_ok_def list_all_iff md_keyword_char_def)
  have rest: "many md_next_keyword ?tail = (ws, nl # r)"
    using assms(2) by (intro keyword_fmt.many_roundtrip) auto
  show ?thesis
    using val first rest by (simp add: md_keyword_line_def md_keywords_def)
qed

lemma md_pair_line_ok:
  assumes "k \<noteq> []" and "\<forall>c\<in>set k. md_key_char c" and "md_value_ok v"
  shows "md_pair_line (k @ '': '' @ v @ nl # r) = Some ((k, v), r)"
proof -
  have key: "many1_chars md_key_char (k @ ('': '' @ v @ nl # r)) = Some (k, '': '' @ v @ nl # r)"
    using assms(1,2) by (intro many1_chars_append) (auto simp: md_key_char_def)
  show ?thesis
    using skip_space_value [OF assms(3), of "nl # r"] md_value_end_ok [OF assms(3), of r] key
    by (simp add: md_pair_line_def)
qed

lemma reserved_no_colon: "name \<in> set reserved_keys \<Longrightarrow> CHR '':'' \<notin> set name"
  by (auto simp: reserved_keys_def)

lemma md_line_parser_pair:
  assumes "md_line_ok (Pair_line k v)"
  shows "md_line_parser (k @ '': '' @ v @ nl # r) = Some (Pair_line k v, r)"
proof -
  have k: "\<forall>c\<in>set k. c \<noteq> CHR '':'' \<and> \<not> isspace c" and nk: "k \<notin> set reserved_keys"
    using assms by (auto simp: list_all_iff md_key_char_def)
  have "md_field_line name (k @ '': '' @ v @ nl # r) = None" if "name \<in> set reserved_keys" for name
    using md_field_line_other [of k name] that nk k reserved_no_colon by auto
  moreover have "md_keyword_line (k @ '': '' @ v @ nl # r) = None"
    using md_keyword_line_other [of k] nk k by (auto simp: reserved_keys_def)
  moreover have "md_pair_line (k @ '': '' @ v @ nl # r) = Some ((k, v), r)"
    using assms by (intro md_pair_line_ok) (auto simp: list_all_iff)
  ultimately show ?thesis
    by (simp add: md_line_parser_def reserved_keys_def)
qed

lemma md_line_parser_ok:
  assumes "md_line_ok l"
  shows "md_line_parser (print_md_line l @ r) = Some (l, r)"
proof (cases l)
  case (Pair_line k v)
  with assms md_line_parser_pair show ?thesis by simp
next
  case (Keyword_line ws)
  with assms obtain w vs where ws: "ws = w # vs" "md_word_ok w" "\<forall>v\<in>set vs. md_word_ok v"
    by (cases ws) (auto simp: list_all_iff)
  with Keyword_line md_keyword_line_ok [OF ws(2,3), of r] show ?thesis
    by (simp add: md_line_parser_def md_field_line_def md_field_def)
qed (use assms md_field_line_ok in \<open>simp_all add: md_line_parser_def md_field_line_def md_field_def
  md_value_end_ok skip_space_id skip_space_value [simplified]\<close>)

lemma print_md_line_nonempty: "print_md_line l \<noteq> []"
  by (cases l) auto

interpretation md_fmt: item_format print_md_line md_line_parser md_line_ok "\<lambda>_. True"
  by unfold_locales (simp_all add: md_line_parser_ok print_md_line_nonempty)

text \<open>The closing separator is not a line.\<close>

lemma md_line_parser_sep [simp]: "md_line_parser (''---'' @ r) = None"
  by (simp add: md_line_parser_def md_field_line_def md_field_def md_keyword_line_def
      md_pair_line_def many1_chars_None md_key_char_def)

lemma parse_print_metadata:
  assumes "ls \<noteq> []" and "\<forall>l\<in>set ls. md_line_ok l"
  shows "parse_goods_metadata (print_metadata ls @ r) =
    Some (merge_description empty_description
      (foldl merge_description empty_description (map line_attr ls)))"
proof -
  have "many1 md_line_parser (concat (map print_md_line ls) @ (''---'' @ nl # r)) =
      Some (ls, ''---'' @ nl # r)"
    using assms by (intro md_fmt.many1_roundtrip) (auto simp del: append.simps)
  then show ?thesis
    by (simp add: parse_goods_metadata_def print_metadata_def document_sperator_def)
qed

section \<open>Goods options\<close>

record selection =
  select_name :: string
  select_price :: string

record goods_option =
  option_name :: string
  selections :: "selection list"

definition empty_option :: goods_option where
  "empty_option = \<lparr>option_name = [], selections = []\<rparr>"

text \<open>The locals of \<^verbatim>\<open>parse_lines\<close>: the finished blocks, \<^verbatim>\<open>has_block\<close> and \<^verbatim>\<open>cur_block\<close>.\<close>

record option_state =
  os_ret :: "goods_option list"
  has_block :: bool
  cur_block :: goods_option

definition add_selection :: "string \<Rightarrow> string \<Rightarrow> option_state \<Rightarrow> option_state" where
  "add_selection n p st =
     st\<lparr>cur_block := cur_block st\<lparr>selections := selections (cur_block st) @
       [\<lparr>select_name = n, select_price = p\<rparr>]\<rparr>\<rparr>"

definition parse_option_line :: "string \<Rightarrow> option_state \<Rightarrow> option_state" where
  "parse_option_line l st =
     (if length l < 2 then st
      else if hd l = CHR ''#'' then
        \<lparr>os_ret = (if has_block st then os_ret st @ [cur_block st] else os_ret st),
         has_block = True,
         cur_block = empty_option\<lparr>option_name := trim_copy (tl l)\<rparr>\<rparr>
      else
        (case split_any [CHR '' '', tab_char] l of
           [n] \<Rightarrow> add_selection n ''0'' st
         | [n, p] \<Rightarrow> add_selection n p st
         | _ \<Rightarrow> st))"

definition parse_option_lines :: "string list \<Rightarrow> goods_option list option" where
  "parse_option_lines ls =
     (let st = fold parse_option_line ls \<lparr>os_ret = [], has_block = False, cur_block = empty_option\<rparr>;
          ret = (if has_block st then os_ret st @ [cur_block st] else os_ret st)
      in if ret = [] then None else Some ret)"

definition parse_goods_option :: "string \<Rightarrow> goods_option list option" where
  "parse_goods_option doc = parse_option_lines (split_any [cr, nl] doc)"

text \<open>The canonical text of an option file.\<close>

definition print_option_select :: "selection \<Rightarrow> string" where
  "print_option_select x = select_name x @ '' '' @ select_price x"

definition option_lines :: "goods_option \<Rightarrow> string list" where
  "option_lines opt = (CHR ''#'' # option_name opt) # map print_option_select (selections opt)"

definition print_goods_option :: "goods_option list \<Rightarrow> string" where
  "print_goods_option opts = concat (map (\<lambda>l. l @ [nl]) (concat (map option_lines opts)))"

definition option_word_ok :: "string \<Rightarrow> bool" where
  "option_word_ok w \<longleftrightarrow> w \<noteq> [] \<and> list_all (\<lambda>c. c \<notin> set [CHR '' '', tab_char, cr, nl]) w"

definition option_select_ok :: "selection \<Rightarrow> bool" where
  "option_select_ok x \<longleftrightarrow>
     option_word_ok (select_name x) \<and> hd (select_name x) \<noteq> CHR ''#'' \<and> option_word_ok (select_price x)"

definition goods_option_ok :: "goods_option \<Rightarrow> bool" where
  "goods_option_ok opt \<longleftrightarrow>
     option_name opt \<noteq> [] \<and> list_all (\<lambda>c. c \<noteq> cr \<and> c \<noteq> nl) (option_name opt) \<and>
     \<not> isspace (hd (option_name opt)) \<and> \<not> isspace (last (option_name opt)) \<and>
     list_all option_select_ok (selections opt)"

lemma parse_select_line:
  assumes "option_select_ok x"
  shows "parse_option_line (print_option_select x) st = add_selection (select_name x) (select_price x) st"
proof -
  have "split_any [CHR '' '', tab_char] (select_name x @ CHR '' '' # select_price x) =
      [select_name x, select_price x]"
    using assms by (subst split_any_append)
      (auto simp: option_select_ok_def option_word_ok_def list_all_iff split_any_no_sep)
  moreover have "select_name x \<noteq> []" "hd (select_name x) \<noteq> CHR ''#''" "select_price x \<noteq> []"
    using assms by (auto simp: option_select_ok_def option_word_ok_def)
  ultimately show ?thesis
    by (simp add: parse_option_line_def print_option_select_def hd_append Suc_le_eq)
qed

lemma parse_select_lines:
  "\<forall>x\<in>set xs. option_select_ok x \<Longrightarrow>
   fold parse_option_line (map print_option_select xs) st =
     st\<lparr>cur_block := cur_block st\<lparr>selections := selections (cur_block st) @ xs\<rparr>\<rparr>"
proof (induction xs arbitrary: st)
  case Nil
  then show ?case by simp
next
  case (Cons x xs)
  then show ?case by (simp add: parse_select_line add_selection_def)
qed

lemma parse_option_block:
  assumes "goods_option_ok opt"
  shows "fold parse_option_line (option_lines opt) st =
    \<lparr>os_ret = (if has_block st then os_ret st @ [cur_block st] else os_ret st),
     has_block = True, cur_block = opt\<rparr>"
  using assms
  by (simp add: option_lines_def goods_option_ok_def parse_option_line_def trim_copy_id
      parse_select_lines list_all_iff empty_option_def Suc_le_eq)

lemma parse_option_blocks:
  "\<forall>x\<in>set xs. goods_option_ok x \<Longrightarrow> xs \<noteq> [] \<Longrightarrow>
   fold parse_option_line (concat (map option_lines xs)) st =
    \<lparr>os_ret = (if has_block st then os_ret st @ [cur_block st] else os_ret st) @ butlast xs,
     has_block = True, cur_block = last xs\<rparr>"
proof (induction xs arbitrary: st)
  case (Cons x xs)
  show ?case
  proof (cases "xs = []")
    case False
    with Cons.IH Cons.prems show ?thesis by (simp add: parse_option_block)
  qed (use Cons.prems in \<open>simp add: parse_option_block\<close>)
qed simp

lemma split_lines:
  "\<forall>l\<in>set ls. \<forall>c\<in>set l. c \<notin> set seps \<Longrightarrow> nl \<in> set seps \<Longrightarrow>
   split_any seps (concat (map (\<lambda>l. l @ [nl]) ls)) = ls @ [[]]"
  by (induction ls) (auto simp: split_any_append)

lemma option_lines_clean:
  assumes "goods_option_ok opt" and "l \<in> set (option_lines opt)" and "c \<in> set l"
  shows "c \<notin> set [cr, nl]"
proof (cases "l = CHR ''#'' # option_name opt")
  case True
  with assms show ?thesis by (auto simp: goods_option_ok_def list_all_iff)
next
  case False
  with assms(2) obtain x where x: "x \<in> set (selections opt)" "l = print_option_select x"
    by (auto simp: option_lines_def)
  then have "option_select_ok x"
    using assms(1) by (simp add: goods_option_ok_def list_all_iff)
  then show ?thesis
    using assms(3) unfolding x(2) option_select_ok_def option_word_ok_def print_option_select_def list_all_iff
    by fastforce
qed

text \<open>Round trip of the option files: the options and their selections with prices, written one per line
  the way the format has them, are parsed back as they were.\<close>

theorem parse_print_goods_option:
  assumes "xs \<noteq> []" and "\<forall>x\<in>set xs. goods_option_ok x"
  shows "parse_goods_option (print_goods_option xs) = Some xs"
proof -
  have "split_any [cr, nl] (print_goods_option xs) = concat (map option_lines xs) @ [[]]"
    unfolding print_goods_option_def
    using assms(2) option_lines_clean by (intro split_lines) fastforce+
  moreover have "parse_option_line [] st = st" for st
    by (simp add: parse_option_line_def)
  ultimately show ?thesis
    using assms parse_option_blocks [OF assms(2,1)]
    by (simp add: parse_goods_option_def parse_option_lines_def)
qed

text \<open>A line of a single character is dropped, whatever block it stands in.\<close>

lemma single_char_line_dropped: "parse_option_line [c] st = st"
  by (simp add: parse_option_line_def)

theorem parse_print_goods_option_witness:
  "parse_goods_option (print_goods_option [\<lparr>option_name = ''size'', selections =
      [\<lparr>select_name = ''big'', select_price = ''3''\<rparr>, \<lparr>select_name = ''small'', select_price = ''2''\<rparr>]\<rparr>]) =
   Some [\<lparr>option_name = ''size'', selections =
      [\<lparr>select_name = ''big'', select_price = ''3''\<rparr>, \<lparr>select_name = ''small'', select_price = ''2''\<rparr>]\<rparr>]"
  by (rule parse_print_goods_option)
    (simp_all add: goods_option_ok_def option_select_ok_def option_word_ok_def isspace_def)

end
