(* ===== verification/Merchant_Repo.thy ===== *)
theory Merchant_Repo
  imports Goods_Grammar Db_Types
begin

text \<open>
  The merchants' git repositories (\<^verbatim>\<open>services/merchant_git_repo.cpp\<close>): the tree of the head
  commit with libgit2's lookup by path, the tree walk, the splitting of a goods description into
  metadata and body, and the operations that read goods, details and settings from a repository.
  Positions in a file are 64-bit \<^verbatim>\<open>std::size_t\<close> values, so the arithmetic on
  \<^verbatim>\<open>std::string::npos\<close> wraps as in the code. The reading of decimal numbers, of ini files and the
  Markdown renderer belong to libraries: they are arguments of the functions that call them.
\<close>

section \<open>Trees\<close>

datatype git_object =
    Git_blob string
  | Git_tree "(string \<times> git_object) list"
  | Git_commit

type_synonym git_tree = "(string \<times> git_object) list"

record git_repo =
  gr_merchant_id :: u64
  gr_head :: string
  gr_tree :: git_tree

text \<open>\<^verbatim>\<open>git_tree_entry_bypath\<close>: a path component per tree level, a trailing slash is allowed
  behind a tree.\<close>

fun tree_bypath :: "git_tree \<Rightarrow> string list \<Rightarrow> git_object option" where
  "tree_bypath t [] = None"
| "tree_bypath t (n # ns) =
     (if n = [] then None
      else (case map_of t n of
              None \<Rightarrow> None
            | Some x \<Rightarrow>
                (if ns = [] then Some x
                 else (case x of
                         Git_tree sub \<Rightarrow> (if ns = [[]] then Some x else tree_bypath sub ns)
                       | _ \<Rightarrow> None))))"

definition by_path :: "git_tree \<Rightarrow> string \<Rightarrow> git_object option" where
  "by_path t p = tree_bypath t (split_any [CHR ''/''] p)"

text \<open>\<^verbatim>\<open>get_tree_by_treeid\<close> of an object that is not a tree is a tree without entries;
  \<^verbatim>\<open>blob::size\<close> of an object that is not a blob is \<open>-1\<close> as a \<^verbatim>\<open>std::size_t\<close>.\<close>

fun tree_entries :: "git_object \<Rightarrow> git_tree" where
  "tree_entries (Git_tree es) = es"
| "tree_entries _ = []"

fun blob_size :: "git_object \<Rightarrow> nat" where
  "blob_size (Git_blob c) = length c"
| "blob_size _ = 2 ^ 64 - 1"

text \<open>Where the content of an object that is not a blob is read, the view is a null pointer with
  a huge length.\<close>

fun blob_content :: "git_object \<Rightarrow> string result" where
  "blob_content (Git_blob c) = Inr c"
| "blob_content _ = Inl Undefined"

text \<open>\<^verbatim>\<open>treewalk\<close>. The \<^verbatim>\<open>break\<close> behind a walker that returns true leaves the \<^verbatim>\<open>switch\<close> only, so
  the walk goes on: a walker is a function on its captured state.\<close>

type_synonym 's walker = "string \<Rightarrow> string \<Rightarrow> git_tree \<Rightarrow> 's \<Rightarrow> 's result"

fun treewalk :: "'s walker \<Rightarrow> git_tree \<Rightarrow> git_tree \<Rightarrow> 's \<Rightarrow> 's result" where
  "treewalk walker parent [] st = Inr st"
| "treewalk walker parent ((n, Git_tree sub) # es) st =
     (case treewalk walker sub sub st of
        Inl e \<Rightarrow> Inl e | Inr st' \<Rightarrow> treewalk walker parent es st')"
| "treewalk walker parent ((n, Git_blob c) # es) st =
     (case walker n c parent st of
        Inl e \<Rightarrow> Inl e | Inr st' \<Rightarrow> treewalk walker parent es st')"
| "treewalk walker parent ((n, Git_commit) # es) st = treewalk walker parent es st"

text \<open>The blobs below a tree in the order of the walk, each with the tree that holds it.\<close>

fun tree_files :: "git_tree \<Rightarrow> git_tree \<Rightarrow> (string \<times> string \<times> git_tree) list" where
  "tree_files parent [] = []"
| "tree_files parent ((n, Git_tree sub) # es) = tree_files sub sub @ tree_files parent es"
| "tree_files parent ((n, Git_blob c) # es) = (n, c, parent) # tree_files parent es"
| "tree_files parent ((n, Git_commit) # es) = tree_files parent es"

fun walk_list :: "'s walker \<Rightarrow> (string \<times> string \<times> git_tree) list \<Rightarrow> 's \<Rightarrow> 's result" where
  "walk_list walker [] st = Inr st"
| "walk_list walker ((n, c, p) # fs) st =
     (case walker n c p st of Inl e \<Rightarrow> Inl e | Inr st' \<Rightarrow> walk_list walker fs st')"

lemma walk_list_append:
  "walk_list walker (fs @ gs) st =
     (case walk_list walker fs st of Inl e \<Rightarrow> Inl e | Inr st' \<Rightarrow> walk_list walker gs st')"
  by (induction walker fs st rule: walk_list.induct) (auto split: sum.splits)

lemma treewalk_eq_walk_list:
  "treewalk walker parent es st = walk_list walker (tree_files parent es) st"
  by (induction walker parent es st rule: treewalk.induct)
    (auto simp: walk_list_append split: sum.splits)

section \<open>File names\<close>

text \<open>\<^verbatim>\<open>std::filesystem::path::stem\<close> and \<^verbatim>\<open>extension\<close> of a single name: the extension starts at
  the last dot, unless that is the first character or the name is a dot or two.\<close>

definition dot_pos :: "string \<Rightarrow> nat option" where
  "dot_pos f =
     (if f = ''.'' \<or> f = ''..'' \<or> CHR ''.'' \<notin> set f then None
      else (let k = length f - Suc (length (takeWhile (\<lambda>c. c \<noteq> CHR ''.'') (rev f)))
            in if k = 0 then None else Some k))"

definition path_stem :: "string \<Rightarrow> string" where
  "path_stem f = (case dot_pos f of None \<Rightarrow> f | Some k \<Rightarrow> take k f)"

definition path_extension :: "string \<Rightarrow> string" where
  "path_extension f = (case dot_pos f of None \<Rightarrow> [] | Some k \<Rightarrow> drop k f)"

lemma dot_pos_append:
  assumes "s \<noteq> []" and "CHR ''.'' \<notin> set e" and "\<not> (s = ''.'' \<and> e = [])"
  shows "dot_pos (s @ CHR ''.'' # e) = Some (length s)"
proof -
  have "takeWhile (\<lambda>c. c \<noteq> CHR ''.'') (rev (s @ CHR ''.'' # e)) = rev e"
    using assms(2) takeWhile_append_stop [of "rev e" "\<lambda>c. c \<noteq> CHR ''.''" "CHR ''.'' # rev s"] by auto
  moreover have "s @ CHR ''.'' # e \<noteq> ''.''" "s @ CHR ''.'' # e \<noteq> ''..''"
    using assms by (auto simp: append_eq_Cons_conv)
  ultimately show ?thesis
    using assms(1) by (simp add: dot_pos_def)
qed

lemma stem_ext_append:
  assumes "s \<noteq> []" and "CHR ''.'' \<notin> set e" and "e \<noteq> []"
  shows "path_stem (s @ CHR ''.'' # e) = s" "path_extension (s @ CHR ''.'' # e) = CHR ''.'' # e"
  using dot_pos_append [OF assms(1,2)] assms(3)
  by (simp_all add: path_stem_def path_extension_def)

lemma stem_ext_join: "path_stem f @ path_extension f = f"
  by (simp add: path_stem_def path_extension_def split: option.splits)

section \<open>Products\<close>

record product_option_select =
  selection_name :: string
  selection_price :: cpp_numeric

record product_option =
  option_title :: string
  po_selections :: "product_option_select list"

record product_keyword =
  keyword :: string
  rank :: rat

record product =
  product_id :: string
  pics :: "string list"
  product_title :: string
  product_description :: string
  product_price :: string
  pr_kuaidifei :: string
  git_version :: string
  pr_merchant_id :: u64
  pr_merchant_name :: string
  pr_keywords :: "product_keyword list"
  options :: "product_option list"

definition empty_product :: product where
  "empty_product =
     \<lparr>product_id = [], pics = [], product_title = [], product_description = [],
      product_price = [], pr_kuaidifei = [], git_version = [], pr_merchant_id = 0,
      pr_merchant_name = [], pr_keywords = [], options = []\<rparr>"

definition asio_not_found :: exn where
  "asio_not_found = Asio_error 3"

section \<open>Links\<close>

text \<open>The part of \<open>url\<close> behind \<^verbatim>\<open>(/|./|../)?dir/\<close>.\<close>

definition asset_rest :: "string \<Rightarrow> string \<Rightarrow> string option" where
  "asset_rest dir url =
     (case lit (dir @ ''/'') url of Some r \<Rightarrow> Some r | None \<Rightarrow>
     (case lit (''/'' @ dir @ ''/'') url of Some r \<Rightarrow> Some r | None \<Rightarrow>
     (case lit (''./'' @ dir @ ''/'') url of Some r \<Rightarrow> Some r | None \<Rightarrow>
      lit (''../'' @ dir @ ''/'') url)))"

definition correct_url :: "u64 \<Rightarrow> string \<Rightarrow> string \<Rightarrow> string" where
  "correct_url merchant_id original_url baseurl =
     (if original_url = [] then original_url
      else if starts_with original_url ''http'' then original_url
      else (case asset_rest ''images'' original_url of
              Some r \<Rightarrow> baseurl @ ''/repos/'' @ show_nat (unat merchant_id) @ ''/images/'' @ r
            | None \<Rightarrow>
                (case asset_rest ''css'' original_url of
                   Some r \<Rightarrow> baseurl @ ''/repos/'' @ show_nat (unat merchant_id) @ ''/css/'' @ r
                 | None \<Rightarrow> original_url)))"

section \<open>Splitting a goods description\<close>

definition npos :: u64 where
  "npos = - 1"

definition pos_of :: "nat option \<Rightarrow> u64" where
  "pos_of p = (case p of None \<Rightarrow> npos | Some i \<Rightarrow> word_of_nat i)"

definition sv_find :: "string \<Rightarrow> string \<Rightarrow> u64 \<Rightarrow> u64" where
  "sv_find s n p = pos_of (find_from s n (unat p))"

text \<open>\<^verbatim>\<open>std::string_view::substr\<close>.\<close>

definition sv_substr :: "string \<Rightarrow> u64 \<Rightarrow> u64 \<Rightarrow> string result" where
  "sv_substr s p n =
     (if unat p > length s then Inl Out_of_range else Inr (take (unat n) (drop (unat p) s)))"

definition md_separator :: string where
  "md_separator = ''---'' @ [nl]"

text \<open>The pair of views and the error code; an exception of \<^verbatim>\<open>substr\<close> is an \<open>Inl\<close>.\<close>

definition split_markdown :: "string \<Rightarrow> ((string \<times> string) \<times> exn option) result" where
  "split_markdown md =
     (let first_pos = sv_find md md_separator 0
      in if first_pos \<noteq> npos then
           (let second_pos = sv_find md md_separator (first_pos + 4)
            in if second_pos > first_pos + 4 then
                 (case sv_substr md first_pos (second_pos - first_pos + 4) of
                    Inl e \<Rightarrow> Inl e
                  | Inr metadata \<Rightarrow>
                      (case sv_substr md (second_pos + 4) npos of
                         Inl e \<Rightarrow> Inl e
                       | Inr main_body \<Rightarrow> Inr ((metadata, main_body), None)))
               else Inr (([], []), Some asio_not_found))
         else Inr (([], []), Some asio_not_found))"

section \<open>Operations\<close>

text \<open>\<^verbatim>\<open>to_product_options\<close>: a price that is not a number makes the constructor of
  \<^verbatim>\<open>cpp_numeric\<close> throw.\<close>

fun to_selects :: "(string \<Rightarrow> cpp_numeric option) \<Rightarrow> selection list \<Rightarrow> product_option_select list result" where
  "to_selects num [] = Inr []"
| "to_selects num (s # ss) =
     (case (if select_price s = [] then Some 0 else num (select_price s)) of
        None \<Rightarrow> Inl Runtime_error
      | Some p \<Rightarrow>
          (case to_selects num ss of
             Inl e \<Rightarrow> Inl e
           | Inr rs \<Rightarrow> Inr (\<lparr>selection_name = select_name s, selection_price = p\<rparr> # rs)))"

fun to_options :: "(string \<Rightarrow> cpp_numeric option) \<Rightarrow> goods_option list \<Rightarrow> product_option list result" where
  "to_options num [] = Inr []"
| "to_options num (go # gos) =
     (case to_selects num (selections go) of
        Inl e \<Rightarrow> Inl e
      | Inr ss \<Rightarrow>
          (case to_options num gos of
             Inl e \<Rightarrow> Inl e
           | Inr pos \<Rightarrow> Inr (\<lparr>option_title = option_name go, po_selections = ss\<rparr> # pos)))"

definition to_product_options :: "(string \<Rightarrow> cpp_numeric option) \<Rightarrow> string \<Rightarrow> product_option list result" where
  "to_product_options num content =
     (case parse_goods_option content of None \<Rightarrow> Inr [] | Some gos \<Rightarrow> to_options num gos)"

definition to_product ::
  "u64 \<Rightarrow> string \<Rightarrow> string \<Rightarrow> string \<Rightarrow> (product \<times> exn option) result" where
  "to_product merchant_id markdown_content merchant_name baseurl =
     (case split_markdown markdown_content of
        Inl e \<Rightarrow> Inl e
      | Inr (_, Some ec) \<Rightarrow> Inr (empty_product, Some ec)
      | Inr ((meta, body), None) \<Rightarrow>
          (case parse_goods_metadata meta of
             Some r \<Rightarrow>
               Inr (empty_product
                 \<lparr>product_title := gd_title r,
                  product_price := gd_price r,
                  product_description := gd_description r,
                  pr_kuaidifei := gd_kuaidifei r,
                  pics := map (\<lambda>u. correct_url merchant_id u baseurl) (gd_picture r),
                  pr_merchant_id := merchant_id,
                  pr_merchant_name := merchant_name,
                  pr_keywords := map (\<lambda>k. \<lparr>keyword = k, rank = 1\<rparr>) (gd_keywords r)\<rparr>, None)
           | None \<Rightarrow> Inr (empty_product, Some asio_not_found)))"

definition get_file_content :: "git_repo \<Rightarrow> string \<Rightarrow> (string \<times> exn option) result" where
  "get_file_content repo look_for_file =
     (case by_path (gr_tree repo) look_for_file of
        None \<Rightarrow> Inr ([], Some asio_not_found)
      | Some x \<Rightarrow>
          (if blob_size x > 10000000 then Inr ([], Some (System_error object_too_large))
           else (case blob_content x of Inl e \<Rightarrow> Inl e | Inr c \<Rightarrow> Inr (c, None))))"

definition is_md_file :: "string \<Rightarrow> bool" where
  "is_md_file name \<longleftrightarrow> path_extension name = ''.md''"

text \<open>The options beside a goods description; a file of ten million bytes or more is skipped.\<close>

definition read_options ::
  "(string \<Rightarrow> cpp_numeric option) \<Rightarrow> git_tree \<Rightarrow> string \<Rightarrow> product_option list result" where
  "read_options num parent goods_id =
     (case by_path parent (goods_id @ ''.option'') of
        None \<Rightarrow> Inr []
      | Some x \<Rightarrow>
          (if blob_size x < 10000000 then
             (case blob_content x of Inl e \<Rightarrow> Inl e | Inr c \<Rightarrow> to_product_options num c)
           else Inr []))"

text \<open>The walker of \<^verbatim>\<open>get_product\<close> with its captured \<^verbatim>\<open>ret\<close> and \<^verbatim>\<open>ec\<close>.\<close>

definition product_walker ::
  "(string \<Rightarrow> cpp_numeric option) \<Rightarrow> git_repo \<Rightarrow> string \<Rightarrow> string \<Rightarrow> string \<Rightarrow>
   (product list \<times> exn option) walker" where
  "product_walker num repo goods_id merchant_name baseurl name content parent = (\<lambda>(ret, ec).
     if path_stem name = goods_id \<and> is_md_file name then
       (case to_product (gr_merchant_id repo) content merchant_name baseurl of
          Inl e \<Rightarrow> Inl e
        | Inr (_, Some ec') \<Rightarrow> Inr (ret, Some ec')
        | Inr (p, None) \<Rightarrow>
            (case read_options num parent goods_id of
               Inl e \<Rightarrow> Inl e
             | Inr opts \<Rightarrow>
                 Inr (ret @ [p\<lparr>git_version := gr_head repo, product_id := path_stem name,
                                options := opts\<rparr>], None)))
     else Inr (ret, ec))"

definition get_product ::
  "(string \<Rightarrow> cpp_numeric option) \<Rightarrow> git_repo \<Rightarrow> string \<Rightarrow> string \<Rightarrow> string \<Rightarrow> exn option \<Rightarrow>
   (product \<times> exn option) result" where
  "get_product num repo goods_id merchant_name baseurl ec =
     (let walked = (case by_path (gr_tree repo) ''goods'' of
                      None \<Rightarrow> Inr ([], ec)
                    | Some g \<Rightarrow>
                        treewalk (product_walker num repo goods_id merchant_name baseurl)
                          (tree_entries g) (tree_entries g) ([], ec))
      in case walked of
           Inl e \<Rightarrow> Inl e
         | Inr (p # _, ec') \<Rightarrow> Inr (p, ec')
         | Inr ([], _) \<Rightarrow> Inr (empty_product, Some (System_error goods_not_found)))"

text \<open>The overload without an error code throws it.\<close>

definition get_product_throw ::
  "(string \<Rightarrow> cpp_numeric option) \<Rightarrow> git_repo \<Rightarrow> string \<Rightarrow> string \<Rightarrow> string \<Rightarrow> product result" where
  "get_product_throw num repo goods_id merchant_name baseurl =
     (case get_product num repo goods_id merchant_name baseurl None of
        Inl e \<Rightarrow> Inl e
      | Inr (_, Some ec) \<Rightarrow> Inl ec
      | Inr (p, None) \<Rightarrow> Inr p)"

definition products_walker :: "git_repo \<Rightarrow> string \<Rightarrow> string \<Rightarrow> product list walker" where
  "products_walker repo merchant_name baseurl name content parent ret =
     (if is_md_file name then
        (case to_product (gr_merchant_id repo) content merchant_name baseurl of
           Inl e \<Rightarrow> Inl e
         | Inr (_, Some _) \<Rightarrow> Inr ret
         | Inr (p, None) \<Rightarrow>
             Inr (ret @ [p\<lparr>git_version := gr_head repo, product_id := path_stem name\<rparr>]))
      else Inr ret)"

definition get_products :: "git_repo \<Rightarrow> string \<Rightarrow> string \<Rightarrow> product list result" where
  "get_products repo merchant_name baseurl =
     (case by_path (gr_tree repo) ''goods'' of
        None \<Rightarrow> Inr []
      | Some g \<Rightarrow>
          treewalk (products_walker repo merchant_name baseurl) (tree_entries g) (tree_entries g) [])"

type_synonym renderer = "(string \<Rightarrow> string) \<Rightarrow> string \<Rightarrow> string"

definition get_transpiled_md :: "renderer \<Rightarrow> git_repo \<Rightarrow> string \<Rightarrow> string \<Rightarrow> (string \<times> exn option) result" where
  "get_transpiled_md render repo md_file_path baseurl =
     (case by_path (gr_tree repo) md_file_path of
        None \<Rightarrow> Inr ([], Some asio_not_found)
      | Some x \<Rightarrow>
          (case blob_content x of
             Inl e \<Rightarrow> Inl e
           | Inr c \<Rightarrow> Inr (render (\<lambda>u. correct_url (gr_merchant_id repo) u baseurl) c, None)))"

definition detail_walker :: "renderer \<Rightarrow> git_repo \<Rightarrow> string \<Rightarrow> string \<Rightarrow> (string \<times> exn option) walker" where
  "detail_walker render repo goods_id baseurl name content parent = (\<lambda>(ret, ec).
     if path_stem name = goods_id \<and> is_md_file name then
       (case split_markdown content of
          Inl e \<Rightarrow> Inl e
        | Inr (_, Some ec') \<Rightarrow> Inr (ret, Some ec')
        | Inr ((meta, body), None) \<Rightarrow>
            Inr (render (\<lambda>u. correct_url (gr_merchant_id repo) u baseurl) body, None))
     else Inr (ret, ec))"

text \<open>\<^verbatim>\<open>get_product_detail\<close> and \<^verbatim>\<open>get_product_html\<close> differ in the renderer they pass.\<close>

definition get_product_detail :: "renderer \<Rightarrow> git_repo \<Rightarrow> string \<Rightarrow> string \<Rightarrow> (string \<times> exn option) result" where
  "get_product_detail render repo goods_id baseurl =
     (case by_path (gr_tree repo) ''goods'' of
        None \<Rightarrow> Inr ([], Some (System_error goods_not_found))
      | Some g \<Rightarrow>
          treewalk (detail_walker render repo goods_id baseurl) (tree_entries g) (tree_entries g)
            ([], Some (System_error goods_not_found)))"

definition get_product_detail_throw :: "renderer \<Rightarrow> git_repo \<Rightarrow> string \<Rightarrow> string \<Rightarrow> string result" where
  "get_product_detail_throw render repo goods_id baseurl =
     (case get_product_detail render repo goods_id baseurl of
        Inl e \<Rightarrow> Inl e
      | Inr (_, Some ec) \<Rightarrow> Inl ec
      | Inr (r, None) \<Rightarrow> Inr r)"

text \<open>\<^verbatim>\<open>is_any_of(",,")\<close> with an ASCII and a full-width comma: the latter is three bytes, each of
  them a separator. \<open>ini content\<close> is the value of \<^verbatim>\<open>Payment.methods\<close>, \<open>None\<close> when reading it
  throws (the exception is caught).\<close>

definition comma_bytes :: "char list" where
  "comma_bytes = [CHR '','', CHR 0xEF, CHR 0xBC, CHR 0x8C]"

definition get_supported_payment :: "(string \<Rightarrow> string option) \<Rightarrow> git_repo \<Rightarrow> string list result" where
  "get_supported_payment ini repo =
     (case get_file_content repo ''settings.ini'' of
        Inl e \<Rightarrow> Inl e
      | Inr (_, Some _) \<Rightarrow> Inr []
      | Inr (content, None) \<Rightarrow>
          (case ini content of None \<Rightarrow> Inr [] | Some methods \<Rightarrow> Inr (split_any comma_bytes methods)))"

definition check_repo_changed :: "git_repo \<Rightarrow> string \<Rightarrow> bool" where
  "check_repo_changed repo old_head \<longleftrightarrow> gr_head repo \<noteq> old_head"

text \<open>\<^verbatim>\<open>merchant_git_repo::repo_path\<close>, with \<^verbatim>\<open>operator /\<close> of paths.\<close>

definition path_join :: "string \<Rightarrow> string \<Rightarrow> string" where
  "path_join a b = (if a = [] \<or> last a = CHR ''/'' then a @ b else a @ ''/'' @ b)"

definition repo_path :: "string \<Rightarrow> u64 \<Rightarrow> string" where
  "repo_path repo_root merchant_id =
     path_join (path_join repo_root (''m'' @ show_nat (unat merchant_id))) ''shop.git''"

section \<open>Splitting: facts\<close>

lemma md_separator_length [simp]: "length md_separator = 4"
  by (simp add: md_separator_def)

lemma find_sub_separator:
  "find_sub mid md_separator = None \<Longrightarrow> find_sub (mid @ md_separator @ r) md_separator = Some (length mid)"
proof (induction mid)
  case Nil
  then show ?case by (simp add: md_separator_def)
next
  case (Cons c mid)
  have "\<not> starts_with (c # mid @ md_separator @ r) md_separator"
    using Cons.prems
    by (cases mid; cases "tl mid"; cases "tl (tl mid)") (auto simp: md_separator_def split: if_splits)
  with Cons show ?case by (simp split: if_splits)
qed

lemma find_sub_room: "find_sub s n = Some i \<Longrightarrow> i + length n \<le> length s"
  using find_sub_Some [of s n i] by (auto simp: starts_with_iff dest: arg_cong [where f = length])

lemma find_from_room: "find_from s n p = Some i \<Longrightarrow> p \<le> i \<and> i + length n \<le> length s"
  by (auto simp: find_from_def dest!: find_sub_room split: if_splits)

lemma unat_of_nat_u64: "n < 2 ^ 64 \<Longrightarrow> unat (word_of_nat n :: u64) = n"
  by (simp add: unat_of_nat take_bit_nat_eq_self)

lemma npos_facts [simp]: "unat npos = 2 ^ 64 - 1" "npos + 4 = 3"
  by (simp_all add: npos_def unsigned_minus_1_eq_mask mask_eq_exp_minus_1)

lemma pos_of_Some:
  assumes "i < 2 ^ 63"
  shows "pos_of (Some i) \<noteq> npos" "unat (pos_of (Some i)) = i" "unat (pos_of (Some i) + 4) = i + 4"
proof -
  have i: "unat (word_of_nat i :: u64) = i"
    using assms by (intro unat_of_nat_u64) simp
  then show "unat (pos_of (Some i)) = i"
    by (simp add: pos_of_def)
  with i assms npos_facts(1) show "pos_of (Some i) \<noteq> npos"
    by (auto simp: pos_of_def)
  show "unat (pos_of (Some i) + 4) = i + 4"
    using i assms by (simp add: pos_of_def unat_word_ariths)
qed

lemma pos_of_None [simp]: "pos_of None = npos"
  by (simp add: pos_of_def)

lemma split_markdown_no_first:
  "find_sub md md_separator = None \<Longrightarrow> split_markdown md = Inr (([], []), Some asio_not_found)"
  by (simp add: split_markdown_def sv_find_def find_from_def)

text \<open>With both separators: the metadata runs from the first separator to the end of the second.\<close>

lemma split_markdown_two:
  assumes len: "length md < 2 ^ 63"
    and first: "find_sub md md_separator = Some i"
    and second: "find_from md md_separator (i + 4) = Some j" and "i + 4 < j"
  shows "split_markdown md = Inr ((take (j - i + 4) (drop i md), drop (j + 4) md), None)"
proof -
  have room: "i + 4 \<le> length md" "j + 4 \<le> length md"
    using find_sub_room [OF first] find_from_room [OF second] by auto
  have bounds: "i < 2 ^ 63" "j < 2 ^ 63"
    using room len by auto
  have one: "sv_find md md_separator 0 = pos_of (Some i)"
    using first by (simp add: sv_find_def find_from_def)
  have two: "sv_find md md_separator (pos_of (Some i) + 4) = pos_of (Some j)"
    using second pos_of_Some(3) [OF bounds(1)] by (simp add: sv_find_def)
  have gt: "pos_of (Some j) > pos_of (Some i) + 4"
    using pos_of_Some(2) [OF bounds(2)] pos_of_Some(3) [OF bounds(1)] assms(4) by (simp add: word_less_nat_alt)
  have "unat (pos_of (Some j) - pos_of (Some i)) = j - i"
    using pos_of_Some(2) [OF bounds(2)] pos_of_Some(2) [OF bounds(1)] assms(4)
    by (subst unat_sub) (auto simp: word_le_nat_alt)
  then have n: "unat (pos_of (Some j) - pos_of (Some i) + 4) = j - i + 4"
    using bounds by (simp add: unat_word_ariths)
  show ?thesis
    using one two gt n room len pos_of_Some [OF bounds(1)] pos_of_Some [OF bounds(2)]
    by (simp add: split_markdown_def sv_substr_def Let_def)
qed

text \<open>Without a closing separator \<^verbatim>\<open>second_pos\<close> is \<^verbatim>\<open>npos\<close>, which passes the test: the call
  succeeds and the body is the file without its first three characters.\<close>

lemma split_markdown_unclosed:
  assumes len: "length md < 2 ^ 63"
    and first: "find_sub md md_separator = Some i"
    and second: "find_from md md_separator (i + 4) = None"
  shows "\<exists>metadata. split_markdown md = Inr ((metadata, drop 3 md), None)"
proof -
  have room: "i + 4 \<le> length md" and bound: "i < 2 ^ 63"
    using find_sub_room [OF first] len by auto
  have one: "sv_find md md_separator 0 = pos_of (Some i)"
    using first by (simp add: sv_find_def find_from_def)
  have two: "sv_find md md_separator (pos_of (Some i) + 4) = npos"
    using second pos_of_Some(3) [OF bound] by (simp add: sv_find_def)
  have gt: "npos > pos_of (Some i) + 4"
    using pos_of_Some(3) [OF bound] bound by (simp add: word_less_nat_alt)
  show ?thesis
    using one two gt room len pos_of_Some [OF bound]
    by (simp add: split_markdown_def sv_substr_def Let_def)
qed

lemma split_markdown_adjacent:
  assumes len: "length md < 2 ^ 63"
    and first: "find_sub md md_separator = Some i"
    and second: "find_from md md_separator (i + 4) = Some j" and "\<not> i + 4 < j"
  shows "split_markdown md = Inr (([], []), Some asio_not_found)"
proof -
  have room: "i + 4 \<le> length md" "j + 4 \<le> length md" and j: "j = i + 4"
    using find_sub_room [OF first] find_from_room [OF second] assms(4) by auto
  have bounds: "i < 2 ^ 63" "j < 2 ^ 63"
    using room len by auto
  have one: "sv_find md md_separator 0 = pos_of (Some i)"
    using first by (simp add: sv_find_def find_from_def)
  have two: "sv_find md md_separator (pos_of (Some i) + 4) = pos_of (Some j)"
    using second pos_of_Some(3) [OF bounds(1)] by (simp add: sv_find_def)
  have "pos_of (Some j) = pos_of (Some i) + 4"
    using pos_of_Some(2) [OF bounds(2)] pos_of_Some(3) [OF bounds(1)] j by (simp add: word_unat_eq_iff)
  with one two show ?thesis
    using pos_of_Some(1) [OF bounds(1)] by (simp add: split_markdown_def Let_def)
qed

lemma split_markdown_total: "length md < 2 ^ 63 \<Longrightarrow> \<exists>r. split_markdown md = Inr r"
  using split_markdown_no_first split_markdown_two split_markdown_unclosed split_markdown_adjacent
  by (metis option.exhaust)

lemma split_markdown_document:
  assumes "length (md_separator @ mid @ md_separator @ body) < 2 ^ 63"
    and "mid \<noteq> []" and "find_sub mid md_separator = None"
  shows "split_markdown (md_separator @ mid @ md_separator @ body) =
    Inr ((md_separator @ mid @ md_separator, body), None)"
proof -
  let ?md = "md_separator @ mid @ md_separator @ body"
  have first: "find_sub ?md md_separator = Some 0"
    by (simp add: md_separator_def)
  have "find_from ?md md_separator (0 + 4) = Some (4 + length mid)"
    using find_sub_separator [OF assms(3), of body] by (simp add: find_from_def)
  from split_markdown_two [OF assms(1) first this] assms(2) show ?thesis
    by simp
qed

section \<open>Reading goods: facts\<close>

lemma to_product_total:
  assumes "length md < 2 ^ 63"
  shows "\<exists>r. to_product mid md name base = Inr r"
proof -
  obtain m b ec where "split_markdown md = Inr ((m, b), ec)"
    using split_markdown_total [OF assms] by fastforce
  then show ?thesis
    by (simp add: to_product_def split: option.splits)
qed

text \<open>What one file contributes to the list of goods.\<close>

definition file_product :: "git_repo \<Rightarrow> string \<Rightarrow> string \<Rightarrow> string \<times> string \<times> git_tree \<Rightarrow> product option" where
  "file_product repo merchant_name baseurl = (\<lambda>(name, content, parent).
     if is_md_file name then
       (case to_product (gr_merchant_id repo) content merchant_name baseurl of
          Inr (p, None) \<Rightarrow> Some (p\<lparr>git_version := gr_head repo, product_id := path_stem name\<rparr>)
        | _ \<Rightarrow> None)
     else None)"

definition goods_files :: "git_repo \<Rightarrow> (string \<times> string \<times> git_tree) list" where
  "goods_files repo =
     (case by_path (gr_tree repo) ''goods'' of
        None \<Rightarrow> [] | Some g \<Rightarrow> tree_files (tree_entries g) (tree_entries g))"

lemma get_products_walk:
  "get_products repo mname base = walk_list (products_walker repo mname base) (goods_files repo) []"
  by (simp add: get_products_def goods_files_def treewalk_eq_walk_list split: option.splits)

lemma get_product_walk:
  "get_product num repo gid mname base ec =
     (case walk_list (product_walker num repo gid mname base) (goods_files repo) ([], ec) of
        Inl e \<Rightarrow> Inl e
      | Inr (p # _, ec') \<Rightarrow> Inr (p, ec')
      | Inr ([], _) \<Rightarrow> Inr (empty_product, Some (System_error goods_not_found)))"
  by (simp add: get_product_def goods_files_def treewalk_eq_walk_list split: option.splits)

lemma walk_products:
  "\<forall>(n, c, q)\<in>set fs. length c < 2 ^ 63 \<Longrightarrow>
   walk_list (products_walker repo mname base) fs ret = Inr (ret @ List.map_filter (file_product repo mname base) fs)"
proof (induction fs arbitrary: ret)
  case Nil
  then show ?case by (simp add: List.map_filter_def)
next
  case (Cons f fs)
  obtain n c q where f: "f = (n, c, q)" by (cases f)
  obtain p ec where "to_product (gr_merchant_id repo) c mname base = Inr (p, ec)"
    using to_product_total Cons.prems f by fastforce
  with Cons f show ?case
    by (cases ec) (auto simp: products_walker_def file_product_def List.map_filter_def)
qed

text \<open>(C35) The goods of a repository are exactly the products of the markdown files under \<^verbatim>\<open>goods\<close> whose
  front matter parses, in the order of the tree walk.\<close>

theorem get_products_files:
  assumes "\<forall>(n, c, q)\<in>set (goods_files repo). length c < 2 ^ 63"
  shows "get_products repo mname base = Inr (List.map_filter (file_product repo mname base) (goods_files repo))"
  using walk_products [OF assms, of repo mname base "[]"] by (simp add: get_products_walk)

text \<open>\<^verbatim>\<open>get_product\<close> takes the first description with the name, but reports the error code of the
  last one.\<close>

lemma product_walker_skip:
  "path_stem n \<noteq> gid \<or> \<not> is_md_file n \<Longrightarrow> product_walker num repo gid mname base n c q st = Inr st"
  by (cases st) (auto simp: product_walker_def)

lemma walk_product_skip:
  "\<forall>(n, c, q)\<in>set fs. path_stem n \<noteq> gid \<or> \<not> is_md_file n \<Longrightarrow>
   walk_list (product_walker num repo gid mname base) fs st = Inr st"
  by (induction fs) (auto simp: product_walker_skip)

text \<open>Looking up one goods: the product of the only markdown file with that name, with its version
  and the options of the option file beside it.\<close>

theorem get_product_unique:
  assumes files: "goods_files repo = fs @ (n, c, q) # gs"
    and here: "path_stem n = gid" "is_md_file n"
    and others: "\<forall>(n', c', q')\<in>set (fs @ gs). path_stem n' \<noteq> gid \<or> \<not> is_md_file n'"
    and prod: "file_product repo mname base (n, c, q) = Some p"
    and opts: "read_options num q gid = Inr opts"
  shows "get_product num repo gid mname base ec = Inr (p\<lparr>options := opts\<rparr>, None)"
proof -
  obtain p0 where p0: "to_product (gr_merchant_id repo) c mname base = Inr (p0, None)"
    and p: "p = p0\<lparr>git_version := gr_head repo, product_id := path_stem n\<rparr>"
    using prod here by (auto simp: file_product_def split: sum.splits prod.splits option.splits)
  have "walk_list (product_walker num repo gid mname base) (fs @ (n, c, q) # gs) ([], ec) =
      Inr ([p\<lparr>options := opts\<rparr>], None)"
    using others here p0 p opts
    by (simp add: walk_list_append walk_product_skip product_walker_def)
  with files show ?thesis
    by (simp add: get_product_walk)
qed

lemma get_product_absent:
  assumes "\<forall>(n, c, q)\<in>set (goods_files repo). path_stem n \<noteq> gid \<or> \<not> is_md_file n"
  shows "get_product num repo gid mname base ec = Inr (empty_product, Some (System_error goods_not_found))"
  using walk_product_skip [OF assms] by (simp add: get_product_walk)

lemma to_product_printed:
  assumes "ls \<noteq> []" and "\<forall>l\<in>set ls. md_line_ok l"
    and "find_sub (concat (map print_md_line ls)) md_separator = None"
    and "length (print_metadata ls @ body) < 2 ^ 63"
  defines "d \<equiv> foldl merge_description empty_description (map line_attr ls)"
  shows "to_product mid (print_metadata ls @ body) name base =
    Inr (empty_product
      \<lparr>product_title := gd_title d, product_price := gd_price d,
       product_description := gd_description d, pr_kuaidifei := gd_kuaidifei d,
       pics := map (\<lambda>u. correct_url mid u base) (gd_picture d),
       pr_merchant_id := mid, pr_merchant_name := name,
       pr_keywords := map (\<lambda>k. \<lparr>keyword = k, rank = 1\<rparr>) (gd_keywords d)\<rparr>, None)"
proof -
  let ?mid = "concat (map print_md_line ls)"
  have doc: "print_metadata ls @ r = md_separator @ ?mid @ md_separator @ r" for r
    by (simp add: print_metadata_def md_separator_def)
  have "?mid \<noteq> []"
    using assms(1) print_md_line_nonempty by (cases ls) auto
  then have split: "split_markdown (print_metadata ls @ body) = Inr ((print_metadata ls, body), None)"
    using split_markdown_document [of ?mid body] assms(3,4) doc [of body] doc [of "[]"] by simp
  have "parse_goods_metadata (print_metadata ls) = Some (merge_description empty_description d)"
    using parse_print_metadata [OF assms(1,2), of "[]"] by (simp add: d_def)
  with split show ?thesis
    by (simp add: to_product_def merge_description_def empty_description_def)
qed

end
