(* ===== verification/Search.thy ===== *)
theory Search
  imports Merchant_Repo "HOL-Library.Multiset" "HOL-Library.List_Lexorder" "HOL-Library.Char_ord"
begin

text \<open>
  The keyword index of \<^verbatim>\<open>services/search_service.cpp\<close>: the index entries, adding and reloading a
  merchant's goods, the ranked search and the list of a merchant's keywords. The hashed
  multi-index container is the list of its entries; where the container leaves the order of
  entries with equal rank open, the order of their first appearance is taken.
\<close>

record goods_ref =
  gr_ref_merchant :: u64
  gr_ref_goods :: string

record keyword_index_item =
  key_word :: string
  ranke :: rat
  target :: goods_ref

record search_state =
  indexdb :: "keyword_index_item list"
  merchant_git_snap :: "(u64 \<times> string) list"

definition empty_search :: search_state where
  "empty_search = \<lparr>indexdb = [], merchant_git_snap = []\<rparr>"

text \<open>\<^verbatim>\<open>operator <\<close> on \<^verbatim>\<open>goods_ref\<close>.\<close>

definition goods_ref_less :: "goods_ref \<Rightarrow> goods_ref \<Rightarrow> bool" where
  "goods_ref_less a b \<longleftrightarrow> gr_ref_merchant a < gr_ref_merchant b \<and> gr_ref_goods a < gr_ref_goods b"

definition product_ref :: "product \<Rightarrow> goods_ref" where
  "product_ref p = \<lparr>gr_ref_merchant = pr_merchant_id p, gr_ref_goods = product_id p\<rparr>"

definition product_items :: "product \<Rightarrow> keyword_index_item list" where
  "product_items p = map (\<lambda>k. \<lparr>key_word = keyword k, ranke = rank k, target = product_ref p\<rparr>) (pr_keywords p)"

definition add_merchant_unlocked :: "product list \<Rightarrow> search_state \<Rightarrow> search_state" where
  "add_merchant_unlocked ps st = st\<lparr>indexdb := indexdb st @ concat (map product_items ps)\<rparr>"

definition snap_put :: "u64 \<Rightarrow> string \<Rightarrow> search_state \<Rightarrow> search_state" where
  "snap_put uid head st =
     st\<lparr>merchant_git_snap := (uid, head) # filter (\<lambda>(u, _). u \<noteq> uid) (merchant_git_snap st)\<rparr>"

definition add_merchant :: "git_repo \<Rightarrow> search_state \<Rightarrow> search_state result" where
  "add_merchant repo st =
     (case get_products repo ''any_merchant'' [] of
        Inl e \<Rightarrow> Inl e
      | Inr ps \<Rightarrow> Inr (add_merchant_unlocked ps (snap_put (gr_merchant_id repo) (gr_head repo) st)))"

definition reload_merchant :: "git_repo \<Rightarrow> search_state \<Rightarrow> search_state result" where
  "reload_merchant repo st =
     (case get_products repo ''any_name_be_ok'' [] of
        Inl e \<Rightarrow> Inl e
      | Inr ps \<Rightarrow>
          Inr (snap_put (gr_merchant_id repo) (gr_head repo)
            (add_merchant_unlocked ps
              (st\<lparr>indexdb := filter (\<lambda>i. gr_ref_merchant (target i) \<noteq> gr_merchant_id repo) (indexdb st)\<rparr>))))"

text \<open>\<^verbatim>\<open>merchant_git_snap[uid]\<close> of a missing merchant is the empty string.\<close>

definition cached_head :: "git_repo \<Rightarrow> search_state \<Rightarrow> string" where
  "cached_head repo st =
     (case map_of (merchant_git_snap st) (gr_merchant_id repo) of Some h \<Rightarrow> h | None \<Rightarrow> [])"

text \<open>One pass of \<^verbatim>\<open>repo_push_check\<close> over a repository.\<close>

definition repo_push_check :: "git_repo \<Rightarrow> search_state \<Rightarrow> search_state result" where
  "repo_push_check repo st =
     (if check_repo_changed repo (cached_head repo st) then reload_merchant repo st else Inr st)"

text \<open>The insertion into \<^verbatim>\<open>result_tmp\<close>: a goods that is there already gets its ranking lowered.\<close>

fun rank_hit :: "rat \<Rightarrow> goods_ref \<Rightarrow> rat \<Rightarrow> (goods_ref \<times> rat) list \<Rightarrow> (goods_ref \<times> rat) list" where
  "rank_hit n g r [] = [(g, 0 - r)]"
| "rank_hit n g r ((h, s) # xs) =
     (if h = g then (h, s - r - n) # xs else (h, s) # rank_hit n g r xs)"

definition search_hits :: "search_state \<Rightarrow> string list \<Rightarrow> keyword_index_item list" where
  "search_hits st qs = concat (map (\<lambda>q. filter (\<lambda>i. key_word i = q) (indexdb st)) qs)"

definition result_tmp :: "search_state \<Rightarrow> string list \<Rightarrow> (goods_ref \<times> rat) list" where
  "result_tmp st qs =
     fold (\<lambda>i. rank_hit (of_nat (length qs)) (target i) (ranke i)) (search_hits st qs) []"

definition search_goods :: "search_state \<Rightarrow> string list \<Rightarrow> goods_ref list" where
  "search_goods st qs = take 80 (map fst (sort_key snd (result_tmp st qs)))"

definition keywords_list :: "search_state \<Rightarrow> u64 \<Rightarrow> string list" where
  "keywords_list st uid =
     remdups (sort (map key_word (filter (\<lambda>i. gr_ref_merchant (target i) = uid) (indexdb st))))"

section \<open>What the search returns\<close>

text \<open>The entries a goods is found by.\<close>

definition hits_of :: "goods_ref \<Rightarrow> keyword_index_item list \<Rightarrow> keyword_index_item list" where
  "hits_of g hs = filter (\<lambda>i. target i = g) hs"

definition ranking_of :: "nat \<Rightarrow> keyword_index_item list \<Rightarrow> rat" where
  "ranking_of n hs = - sum_list (map ranke hs) - of_nat (length hs - 1) * of_nat n"

lemma rank_hit_map:
  "distinct (map fst xs) \<Longrightarrow>
   map_of (rank_hit n g r xs) =
     (map_of xs)(g \<mapsto> (case map_of xs g of None \<Rightarrow> - r | Some s \<Rightarrow> s - r - n))"
  by (induction n g r xs rule: rank_hit.induct) (auto simp: fun_eq_iff)

lemma rank_hit_keys: "set (map fst (rank_hit n g r xs)) = insert g (set (map fst xs))"
  by (induction n g r xs rule: rank_hit.induct) auto

lemma rank_hit_distinct: "distinct (map fst xs) \<Longrightarrow> distinct (map fst (rank_hit n g r xs))"
proof (induction n g r xs rule: rank_hit.induct)
  case (2 n g r h s xs)
  then show ?case using rank_hit_keys [of n g r xs] by auto
qed simp

lemma tmp_invariant:
  assumes "distinct (map fst xs)"
  shows "distinct (map fst (fold (\<lambda>i. rank_hit n (target i) (ranke i)) hs xs))"
  using assms by (induction hs arbitrary: xs) (simp_all add: rank_hit_distinct)

lemma tmp_map_of:
  fixes n :: nat
  shows "map_of (fold (\<lambda>i. rank_hit (of_nat n) (target i) (ranke i)) hs []) g =
     (if hits_of g hs = [] then None else Some (ranking_of n (hits_of g hs)))"
proof (induction hs rule: rev_induct)
  case Nil
  then show ?case by (simp add: hits_of_def)
next
  case (snoc i hs)
  let ?f = "\<lambda>i. rank_hit (of_nat n) (target i) (ranke i)"
  have d: "distinct (map fst (fold ?f hs []))"
    by (rule tmp_invariant) simp
  have split: "hits_of g (hs @ [i]) = hits_of g hs @ (if target i = g then [i] else [])"
    by (simp add: hits_of_def)
  show ?case
  proof (cases "hits_of g hs")
    case Nil
    then show ?thesis
      using snoc by (auto simp: rank_hit_map [OF d] split ranking_of_def)
  next
    case (Cons a as)
    then show ?thesis
      using snoc by (auto simp: rank_hit_map [OF d] split ranking_of_def algebra_simps)
  qed
qed

lemma result_tmp_distinct: "distinct (map fst (result_tmp st qs))"
  unfolding result_tmp_def by (rule tmp_invariant) simp

lemma result_tmp_map_of:
  "map_of (result_tmp st qs) g =
     (if hits_of g (search_hits st qs) = [] then None
      else Some (ranking_of (length qs) (hits_of g (search_hits st qs))))"
  unfolding result_tmp_def by (rule tmp_map_of)

lemma result_tmp_set: "set (map fst (result_tmp st qs)) = target ` set (search_hits st qs)"
proof -
  have "g \<in> set (map fst (result_tmp st qs)) \<longleftrightarrow> map_of (result_tmp st qs) g \<noteq> None" for g
    by (simp add: map_of_eq_None_iff)
  moreover have "map_of (result_tmp st qs) g \<noteq> None \<longleftrightarrow> g \<in> target ` set (search_hits st qs)" for g
    by (auto simp: result_tmp_map_of hits_of_def filter_empty_conv)
  ultimately show ?thesis by blast
qed

lemma search_hits_set:
  "set (search_hits st qs) = {i \<in> set (indexdb st). key_word i \<in> set qs}"
  by (auto simp: search_hits_def)

text \<open>The goods found are those with an entry for one of the words, each once, best first.\<close>

lemma map_fst_sort_key_distinct: "distinct (map fst xs) \<Longrightarrow> distinct (map fst (sort_key f xs))"
  by (metis mset_map mset_sort mset_eq_imp_distinct_iff)

lemma search_goods_distinct: "distinct (search_goods st qs)"
  by (simp add: search_goods_def result_tmp_distinct map_fst_sort_key_distinct distinct_take)

lemma search_goods_subset: "set (search_goods st qs) \<subseteq> target ` set (search_hits st qs)"
  using result_tmp_set [of st qs] by (auto simp: search_goods_def dest!: in_set_takeD)

lemma search_goods_all:
  assumes "card (target ` set (search_hits st qs)) \<le> 80"
  shows "set (search_goods st qs) = target ` set (search_hits st qs)"
proof -
  have "length (result_tmp st qs) = card (target ` set (search_hits st qs))"
    using distinct_card [OF result_tmp_distinct, of st qs] result_tmp_set [of st qs] by simp
  with assms show ?thesis
    using result_tmp_set [of st qs] by (simp add: search_goods_def)
qed

lemma search_goods_nth_ranking:
  assumes "i < length (search_goods st qs)"
  shows "ranking_of (length qs) (hits_of (search_goods st qs ! i) (search_hits st qs)) =
    snd (sort_key snd (result_tmp st qs) ! i)"
proof -
  let ?s = "sort_key snd (result_tmp st qs)"
  have i: "i < length ?s"
    using assms by (simp add: search_goods_def)
  have g: "search_goods st qs ! i = fst (?s ! i)"
    using assms by (simp add: search_goods_def)
  have "?s ! i \<in> set (result_tmp st qs)"
    using nth_mem [OF i] by simp
  then have "map_of (result_tmp st qs) (fst (?s ! i)) = Some (snd (?s ! i))"
    using result_tmp_distinct by (simp add: map_of_eq_Some_iff)
  then show ?thesis
    by (simp add: g result_tmp_map_of split: if_splits)
qed

lemma search_goods_sorted:
  assumes "i \<le> j" and "j < length (search_goods st qs)"
  shows "ranking_of (length qs) (hits_of (search_goods st qs ! i) (search_hits st qs)) \<le>
    ranking_of (length qs) (hits_of (search_goods st qs ! j) (search_hits st qs))"
proof -
  let ?s = "sort_key snd (result_tmp st qs)"
  have j: "j < length ?s"
    using assms(2) by (simp add: search_goods_def)
  have "sorted (map snd ?s)" by simp
  then have "map snd ?s ! i \<le> map snd ?s ! j"
    using assms(1) j by (intro sorted_nth_mono) auto
  then show ?thesis
    using search_goods_nth_ranking assms j by simp
qed

section \<open>Index maintenance\<close>

lemma product_items_merchant:
  "i \<in> set (product_items p) \<Longrightarrow> gr_ref_merchant (target i) = pr_merchant_id p"
  by (auto simp: product_items_def product_ref_def)

text \<open>Every goods of a repository carries the merchant of the repository.\<close>

lemma to_product_merchant:
  "to_product mid md name base = Inr (p, None) \<Longrightarrow> pr_merchant_id p = mid"
  by (auto simp: to_product_def split: sum.splits prod.splits option.splits)

lemma walk_products_merchant:
  "walk_list (products_walker repo mname base) fs ret = Inr ps \<Longrightarrow>
   \<forall>p\<in>set ret. pr_merchant_id p = gr_merchant_id repo \<Longrightarrow>
   \<forall>p\<in>set ps. pr_merchant_id p = gr_merchant_id repo"
proof (induction fs arbitrary: ret)
  case (Cons f fs)
  obtain n c q where f: "f = (n, c, q)" by (cases f)
  from Cons.prems(1) f obtain ret' where
    step: "products_walker repo mname base n c q ret = Inr ret'"
    and rest: "walk_list (products_walker repo mname base) fs ret' = Inr ps"
    by (auto split: sum.splits)
  have "\<forall>p\<in>set ret'. pr_merchant_id p = gr_merchant_id repo"
    using step Cons.prems(2) to_product_merchant [of "gr_merchant_id repo" c mname base]
    by (fastforce simp: products_walker_def split: if_splits sum.splits prod.splits option.splits)
  with Cons.IH [OF rest] show ?case .
qed simp

lemma get_products_merchant:
  "get_products repo mname base = Inr ps \<Longrightarrow> p \<in> set ps \<Longrightarrow> pr_merchant_id p = gr_merchant_id repo"
  using walk_products_merchant [of repo mname base "goods_files repo" "[]"]
  by (auto simp: get_products_walk)

definition merchant_items :: "u64 \<Rightarrow> search_state \<Rightarrow> keyword_index_item list" where
  "merchant_items uid st = filter (\<lambda>i. gr_ref_merchant (target i) = uid) (indexdb st)"

lemma items_of_repo:
  assumes "get_products repo mname base = Inr ps"
  shows "filter (\<lambda>i. gr_ref_merchant (target i) = uid) (concat (map product_items ps)) =
    (if uid = gr_merchant_id repo then concat (map product_items ps) else [])"
proof -
  have "\<forall>i\<in>set (concat (map product_items ps)). gr_ref_merchant (target i) = gr_merchant_id repo"
    using get_products_merchant [OF assms] product_items_merchant by fastforce
  then show ?thesis by (auto simp: filter_empty_conv)
qed

text \<open>After a reload the index holds exactly the goods of the head commit for this merchant and
  the old entries of every other merchant.\<close>

lemma reload_merchant_items:
  assumes "reload_merchant repo st = Inr st'" and "get_products repo ''any_name_be_ok'' [] = Inr ps"
  shows "merchant_items uid st' =
    (if uid = gr_merchant_id repo then concat (map product_items ps) else merchant_items uid st)"
  using assms items_of_repo [OF assms(2), of uid]
  by (auto simp: reload_merchant_def merchant_items_def snap_put_def add_merchant_unlocked_def
      filter_empty_conv intro: filter_cong)

text \<open>Reindexing settles: after one pass of the push check over a repository a second pass over the
  same commit changes nothing.\<close>

theorem push_check_idempotent:
  assumes "repo_push_check repo st = Inr st'"
  shows "repo_push_check repo st' = Inr st'"
proof (cases "check_repo_changed repo (cached_head repo st)")
  case True
  then have "cached_head repo st' = gr_head repo"
    using assms by (auto simp: repo_push_check_def reload_merchant_def cached_head_def snap_put_def
        split: sum.splits)
  then show ?thesis by (simp add: repo_push_check_def check_repo_changed_def)
qed (use assms in \<open>simp add: repo_push_check_def\<close>)

text \<open>\<^verbatim>\<open>operator <\<close> of \<^verbatim>\<open>goods_ref\<close> is a strict order but not a weak one: incomparability is not
  transitive.\<close>

lemma goods_ref_less_irrefl: "\<not> goods_ref_less a a"
  by (simp add: goods_ref_less_def)

lemma goods_ref_less_trans: "goods_ref_less a b \<Longrightarrow> goods_ref_less b c \<Longrightarrow> goods_ref_less a c"
  by (auto simp: goods_ref_less_def)

text \<open>(C34) The search answers each goods at most once, best ranking first, only goods that one of the words
  is a keyword of, and all of them when there are at most 80.\<close>

theorem search_goods_ranked:
  "distinct (search_goods st qs) \<and> set (search_goods st qs) \<subseteq> target ` set (search_hits st qs) \<and>
   sorted (map (\<lambda>g. ranking_of (length qs) (hits_of g (search_hits st qs))) (search_goods st qs)) \<and>
   (card (target ` set (search_hits st qs)) \<le> 80 \<longrightarrow> set (search_goods st qs) = target ` set (search_hits st qs))"
  by (simp add: search_goods_distinct search_goods_subset search_goods_all sorted_iff_nth_mono
      search_goods_sorted)

definition sample_index :: search_state where
  "sample_index = \<lparr>indexdb =
     [\<lparr>key_word = ''tea'', ranke = 1, target = \<lparr>gr_ref_merchant = 5, gr_ref_goods = ''green''\<rparr>\<rparr>,
      \<lparr>key_word = ''tea'', ranke = 2, target = \<lparr>gr_ref_merchant = 5, gr_ref_goods = ''black''\<rparr>\<rparr>,
      \<lparr>key_word = ''cup'', ranke = 1, target = \<lparr>gr_ref_merchant = 6, gr_ref_goods = ''cup''\<rparr>\<rparr>],
     merchant_git_snap = []\<rparr>"

theorem search_goods_ranked_witness:
  "set (search_goods sample_index [''tea'']) =
     {\<lparr>gr_ref_merchant = 5, gr_ref_goods = ''green''\<rparr>, \<lparr>gr_ref_merchant = 5, gr_ref_goods = ''black''\<rparr>}"
proof -
  have hits: "target ` set (search_hits sample_index [''tea'']) =
     {\<lparr>gr_ref_merchant = 5, gr_ref_goods = ''green''\<rparr>, \<lparr>gr_ref_merchant = 5, gr_ref_goods = ''black''\<rparr>}"
    by (simp add: search_hits_def sample_index_def insert_commute)
  then show ?thesis
    using search_goods_ranked [of sample_index "[''tea'']"] by (simp add: card_insert_if)
qed

end
