(* ===== verification/Timedmap.thy ===== *)
theory Timedmap
  imports Prelude
begin

text \<open>
  The expiring map of \<^verbatim>\<open>utils/timedmap.hpp\<close> that holds the verification codes. Times are
  milliseconds of the steady clock. The purge coroutine is a function of the time it runs at: it
  returns the entries that stay and the time until its next run.
\<close>

record timed_item =
  ti_key :: string
  ti_value :: string
  ti_insert_time :: int

type_synonym timedmap = "timed_item list"

definition tm_get :: "string \<Rightarrow> timedmap \<Rightarrow> string option" where
  "tm_get k m = map_option ti_value (List.find (\<lambda>i. ti_key i = k) m)"

text \<open>\<^verbatim>\<open>put\<close> inserts into an index with unique keys: an entry that is there already stays.\<close>

definition tm_put :: "int \<Rightarrow> string \<Rightarrow> string \<Rightarrow> timedmap \<Rightarrow> timedmap" where
  "tm_put now k v m =
     (if list_ex (\<lambda>i. ti_key i = k) m then m
      else m @ [\<lparr>ti_key = k, ti_value = v, ti_insert_time = now\<rparr>])"

text \<open>One round of \<^verbatim>\<open>pruge_thread\<close>: everything inserted up to \<open>now - lifetime\<close> goes; the pause
  is 30 seconds, or what the last erased entry leaves of it, which is not positive.\<close>

definition expired :: "int \<Rightarrow> int \<Rightarrow> timed_item \<Rightarrow> bool" where
  "expired lifetime now i \<longleftrightarrow> ti_insert_time i \<le> now - lifetime"

definition tm_purge :: "int \<Rightarrow> int \<Rightarrow> timedmap \<Rightarrow> timedmap \<times> int" where
  "tm_purge lifetime now m =
     (let gone = sort_key ti_insert_time (filter (expired lifetime now) m)
      in (filter (\<lambda>i. \<not> expired lifetime now i) m,
          if gone = [] then 30000 else ti_insert_time (last gone) - (now - lifetime)))"

definition tm_ok :: "timedmap \<Rightarrow> bool" where
  "tm_ok m \<longleftrightarrow> distinct (map ti_key m)"

section \<open>The interface\<close>

text \<open>What a client of an expiring store relies on.\<close>

locale timed_store =
  fixes put :: "int \<Rightarrow> 'k \<Rightarrow> 'v \<Rightarrow> 'm \<Rightarrow> 'm"
    and get :: "'k \<Rightarrow> 'm \<Rightarrow> 'v option"
    and purge :: "int \<Rightarrow> 'm \<Rightarrow> 'm"
    and inserted :: "'k \<Rightarrow> 'm \<Rightarrow> int option"
    and ok :: "'m \<Rightarrow> bool"
    and lifetime :: int
  assumes ok_put: "ok m \<Longrightarrow> ok (put t k v m)"
    and ok_purge: "ok m \<Longrightarrow> ok (purge t m)"
    and get_put: "ok m \<Longrightarrow> get j (put t k v m) = (if j = k \<and> get k m = None then Some v else get j m)"
    and inserted_put: "ok m \<Longrightarrow>
      inserted j (put t k v m) = (if j = k \<and> get k m = None then Some t else inserted j m)"
    and get_inserted: "ok m \<Longrightarrow> get j m = None \<longleftrightarrow> inserted j m = None"
    and get_purge: "ok m \<Longrightarrow> get j (purge t m) =
      (case inserted j m of None \<Rightarrow> None | Some u \<Rightarrow> if u + lifetime \<le> t then None else get j m)"
    and inserted_purge: "ok m \<Longrightarrow> inserted j (purge t m) =
      (case inserted j m of None \<Rightarrow> None | Some u \<Rightarrow> if u + lifetime \<le> t then None else Some u)"
begin

text \<open>The store survives every purge before the end of the lifetime and none after it.\<close>

lemma alive:
  assumes "ok m" and "get k m = None" and "\<forall>t\<in>set ts. t < u + lifetime"
  shows "get k (fold purge ts (put u k v m)) = Some v"
proof -
  have gen: "ok m' \<Longrightarrow> get k m' = Some v \<Longrightarrow> inserted k m' = Some u \<Longrightarrow>
      get k (fold purge ts m') = Some v" for m'
    using assms(3)
  proof (induction ts arbitrary: m')
    case (Cons t ts)
    then show ?case by (simp add: ok_purge get_purge inserted_purge)
  qed simp
  show ?thesis
    using assms(1,2) by (intro gen) (simp_all add: ok_put get_put inserted_put)
qed

lemma dead:
  assumes "ok m" and "get k m = None" and "\<exists>t\<in>set ts. u + lifetime \<le> t"
  shows "get k (fold purge ts (put u k v m)) = None"
proof -
  have none: "ok m' \<Longrightarrow> inserted k m' = None \<Longrightarrow> get k (fold purge ts m') = None" for m' ts
    by (induction ts arbitrary: m') (simp_all add: ok_purge inserted_purge get_inserted)
  have gen: "ok m' \<Longrightarrow> inserted k m' = Some u \<Longrightarrow> get k (fold purge ts m') = None" for m'
    using assms(3)
  proof (induction ts arbitrary: m')
    case (Cons t ts)
    then show ?case
      by (cases "u + lifetime \<le> t") (auto simp: ok_purge inserted_purge none)
  qed simp
  show ?thesis
    using assms(1,2) by (intro gen) (simp_all add: ok_put inserted_put)
qed

end

definition tm_inserted :: "string \<Rightarrow> timedmap \<Rightarrow> int option" where
  "tm_inserted k m = map_option ti_insert_time (List.find (\<lambda>i. ti_key i = k) m)"

lemma find_filter_unique:
  "distinct (map f xs) \<Longrightarrow>
   List.find (\<lambda>x. f x = k) (filter p xs) =
     (case List.find (\<lambda>x. f x = k) xs of None \<Rightarrow> None | Some x \<Rightarrow> if p x then Some x else None)"
proof (induction xs)
  case (Cons x xs)
  have "List.find (\<lambda>y. f y = k) xs = None" if "f x = k"
    using Cons.prems that by (auto simp: find_None_iff image_iff)
  with Cons show ?case by auto
qed simp

lemma list_ex_find: "list_ex p xs \<longleftrightarrow> List.find p xs \<noteq> None"
  by (induction xs) auto

interpretation timedmap: timed_store tm_put tm_get "\<lambda>t m. fst (tm_purge L t m)" tm_inserted tm_ok L
  for L :: int
proof unfold_locales
  fix m :: timedmap and t k v j
  assume ok: "tm_ok m"
  show "tm_ok (tm_put t k v m)"
    using ok by (auto simp: tm_ok_def tm_put_def list_ex_iff)
  show "tm_ok (fst (tm_purge L t m))"
    using ok by (simp add: tm_ok_def tm_purge_def Let_def distinct_map_filter)
  show "tm_get j (tm_put t k v m) = (if j = k \<and> tm_get k m = None then Some v else tm_get j m)"
    by (auto simp: tm_get_def tm_put_def list_ex_find find_snoc split: option.splits)
  show "tm_inserted j (tm_put t k v m) =
      (if j = k \<and> tm_get k m = None then Some t else tm_inserted j m)"
    by (auto simp: tm_get_def tm_inserted_def tm_put_def list_ex_find find_snoc split: option.splits)
  show "tm_get j m = None \<longleftrightarrow> tm_inserted j m = None"
    by (simp add: tm_get_def tm_inserted_def)
  show "tm_get j (fst (tm_purge L t m)) =
      (case tm_inserted j m of None \<Rightarrow> None | Some u \<Rightarrow> if u + L \<le> t then None else tm_get j m)"
    using ok find_filter_unique [of ti_key m j]
    by (auto simp: tm_ok_def tm_get_def tm_inserted_def tm_purge_def Let_def expired_def split: option.splits)
  show "tm_inserted j (fst (tm_purge L t m)) =
      (case tm_inserted j m of None \<Rightarrow> None | Some u \<Rightarrow> if u + L \<le> t then None else Some u)"
    using ok find_filter_unique [of ti_key m j]
    by (auto simp: tm_ok_def tm_inserted_def tm_purge_def Let_def expired_def split: option.splits)
qed

text \<open>The next round comes at most 30 seconds later, and at once after a round that erased
  something.\<close>

lemma purge_pause: "snd (tm_purge L t m) \<le> 30000"
proof -
  let ?gone = "sort_key ti_insert_time (filter (expired L t) m)"
  have "ti_insert_time (last ?gone) - (t - L) \<le> 0" if "?gone \<noteq> []"
    using last_in_set [OF that] by (simp add: expired_def)
  then show ?thesis by (auto simp: tm_purge_def Let_def)
qed



end
