(* ===== verification/Service.thy ===== *)
theory Service
  imports Database Search Timedmap
begin

text \<open>
  The state of \<^verbatim>\<open>cmall_service\<close> as its request handlers see it, and the coroutine language they
  are written in. A handler is a function from the environment (everything outside the program:
  the clock, random generators, faults of the SQL server, the libraries for numbers and JSON text,
  the remote services) and the server state to a reply or an exception and the new state. Every
  interaction with the environment advances a counter, so that two calls may answer differently.
\<close>

section \<open>Sessions and connections\<close>

record client_session =
  cs_session_id :: string
  cs_user_info :: "cmall_user option"
  cs_merchant_info :: "cmall_merchant option"
  cs_admin_info :: "administrators option"
  cs_isAdmin :: bool
  cs_isMerchant :: bool
  cs_verify_telephone :: string
  cs_verify_cookie :: "string option"
  cs_sudo_mode :: bool
  cs_original_user :: "administrators option"

definition new_client_session :: "string \<Rightarrow> client_session" where
  "new_client_session uuid =
     \<lparr>cs_session_id = uuid, cs_user_info = None, cs_merchant_info = None, cs_admin_info = None,
      cs_isAdmin = False, cs_isMerchant = False, cs_verify_telephone = [], cs_verify_cookie = None,
      cs_sudo_mode = False, cs_original_user = None\<rparr>"

text \<open>\<^verbatim>\<open>client_session::clear\<close>: the sudo fields stay.\<close>

definition session_clear :: "client_session \<Rightarrow> client_session" where
  "session_clear cs =
     cs\<lparr>cs_user_info := None, cs_merchant_info := None, cs_admin_info := None,
        cs_isAdmin := False, cs_isMerchant := False, cs_verify_telephone := [],
        cs_verify_cookie := None\<rparr>"

text \<open>\<open>cc_ws\<close> is the \<^verbatim>\<open>baseurl_\<close> of the websocket, \<open>None\<close> on a plain HTTP connection.\<close>

record client_connection =
  cc_id :: int
  cc_x_real_ip :: string
  cc_ws :: "string option"
  cc_session :: "client_session option"

text \<open>An entry of \<^verbatim>\<open>active_session_map\<close>: the connection, the user it was entered for and whether
  it has a websocket.\<close>

record active_entry =
  ae_conn :: int
  ae_uid :: u64
  ae_ws :: bool

section \<open>Server and environment\<close>

text \<open>The members of \<^verbatim>\<open>server_config\<close> the handlers read, and the configuration of one payment
  service.\<close>

record server_config =
  sc_repo_root :: string
  sc_gitea_template_user :: string
  sc_gitea_template_reponame :: string
  sc_site_name :: string
  sc_netease_secret_id :: string
  sc_netease_secret_key :: string
  sc_netease_business_id :: string
  sc_tencent_secret_id :: string
  sc_tencent_secret_key :: string

record microapp_pay_cfg =
  wx_appid :: string
  wx_rsa_key :: string
  wx_rsa_cert :: string
  wx_apiv3_key :: string
  wx_mchid :: string
  wx_appSecret :: string
  wx_notify_url :: string

record server =
  sv_db :: database
  sv_ops :: nat
  sv_client :: client_connection
  sv_active :: "active_entry list"
  sv_temp_token :: "string list"
  sv_wxpay :: "(string \<times> microapp_pay_cfg) list"
  sv_config :: server_config
  sv_repos :: "(u64 \<times> git_repo) list"
  sv_codes :: timedmap
  sv_admin_checked :: bool
  sv_search :: search_state
  sv_sent :: "(int \<times> string) list"
  sv_scripts :: "(string \<times> string list) list"

record env =
  e_fault :: "nat \<Rightarrow> nat \<Rightarrow> odb_exn option"
  e_clock :: "nat \<Rightarrow> nat \<Rightarrow> ptime"
  e_uuid :: "nat \<Rightarrow> string"
  e_password :: "nat \<Rightarrow> string"
  e_rand_string :: "nat \<Rightarrow> string"
  e_num :: "string \<Rightarrow> cpp_numeric option"
  e_num_str :: "cpp_numeric \<Rightarrow> string"
  e_time_str :: "ptime \<Rightarrow> string"
  e_serialize :: "json \<Rightarrow> string"
  e_parse :: "string \<Rightarrow> json option"
  e_ini :: "string \<Rightarrow> string option"
  e_render :: renderer
  e_sms :: "nat \<Rightarrow> string \<Rightarrow> string result"
  e_netease_phone :: "nat \<Rightarrow> server_config \<Rightarrow> string \<Rightarrow> string \<Rightarrow> string result"
  e_run_script :: "nat \<Rightarrow> string \<Rightarrow> string list \<Rightarrow> string result"
  e_face_groups :: "nat \<Rightarrow> server_config \<Rightarrow> string \<Rightarrow> string list result"
  e_face_add :: "nat \<Rightarrow> server_config \<Rightarrow> bool \<Rightarrow> string \<Rightarrow> string \<Rightarrow> unit result"
  e_face_search :: "nat \<Rightarrow> server_config \<Rightarrow> string \<Rightarrow> string result"
  e_wx_prepay :: "nat \<Rightarrow> microapp_pay_cfg \<Rightarrow> string \<Rightarrow> string \<Rightarrow> cpp_numeric \<Rightarrow> string \<Rightarrow> string \<Rightarrow> string result"
  e_wx_pay_object :: "nat \<Rightarrow> microapp_pay_cfg \<Rightarrow> string \<Rightarrow> json result"
  e_wx_openid :: "nat \<Rightarrow> microapp_pay_cfg \<Rightarrow> string \<Rightarrow> string result"
  e_gitea_init :: "nat \<Rightarrow> server_config \<Rightarrow> u64 \<Rightarrow> string \<Rightarrow> bool result"
  e_gitea_password :: "nat \<Rightarrow> u64 \<Rightarrow> string \<Rightarrow> bool result"
  e_open_repo :: "nat \<Rightarrow> string \<Rightarrow> (string \<times> git_tree) option"

section \<open>Coroutines\<close>

type_synonym 'a M = "env \<Rightarrow> server \<Rightarrow> 'a result \<times> server"

definition ret :: "'a \<Rightarrow> 'a M" where
  "ret x E w = (Inr x, w)"

definition throw :: "exn \<Rightarrow> 'a M" where
  "throw e E w = (Inl e, w)"

definition bindM :: "'a M \<Rightarrow> ('a \<Rightarrow> 'b M) \<Rightarrow> 'b M" where
  "bindM m f E w = (case m E w of (Inl e, w') \<Rightarrow> (Inl e, w') | (Inr x, w') \<Rightarrow> f x E w')"

definition catchM :: "'a M \<Rightarrow> (exn \<Rightarrow> 'a M) \<Rightarrow> 'a M" where
  "catchM m h E w = (case m E w of (Inl e, w') \<Rightarrow> h e E w' | (Inr x, w') \<Rightarrow> (Inr x, w'))"

definition liftR :: "'a result \<Rightarrow> 'a M" where
  "liftR r E w = (r, w)"

definition gets :: "(server \<Rightarrow> 'a) \<Rightarrow> 'a M" where
  "gets f E w = (Inr (f w), w)"

definition asks :: "(env \<Rightarrow> 'a) \<Rightarrow> 'a M" where
  "asks f E w = (Inr (f E), w)"

definition modify :: "(server \<Rightarrow> server) \<Rightarrow> unit M" where
  "modify f E w = (Inr (), f w)"

abbreviation fail :: "errc_t \<Rightarrow> 'a M" where
  "fail c \<equiv> throw (System_error c)"

definition require :: "bool \<Rightarrow> errc_t \<Rightarrow> unit M" where
  "require b c = (if b then ret () else fail c)"

fun foldM :: "('a \<Rightarrow> 's \<Rightarrow> 's M) \<Rightarrow> 'a list \<Rightarrow> 's \<Rightarrow> 's M" where
  "foldM f [] s = ret s"
| "foldM f (x # xs) s = bindM (f x s) (foldM f xs)"

text \<open>A call of something outside the program.\<close>

definition external :: "(env \<Rightarrow> nat \<Rightarrow> 'a result) \<Rightarrow> 'a M" where
  "external f E w = (f E (sv_ops w), w\<lparr>sv_ops := Suc (sv_ops w)\<rparr>)"

definition local_time :: "ptime M" where
  "local_time = external (\<lambda>E n. Inr (e_clock E n 0))"

definition gen_uuid :: "string M" where
  "gen_uuid = external (\<lambda>E n. Inr (e_uuid E n))"

definition draw_password :: "string M" where
  "draw_password = external (\<lambda>E n. Inr (e_password E n))"

text \<open>\<^verbatim>\<open>cpp_numeric(s)\<close>.\<close>

definition numericM :: "string \<Rightarrow> cpp_numeric M" where
  "numericM s = bindM (asks e_num) (\<lambda>num.
     (case num s of None \<Rightarrow> throw Runtime_error | Some q \<Rightarrow> ret q))"

text \<open>An operation of \<^verbatim>\<open>cmall_database\<close>: the transaction body under the retry loop.\<close>

definition db_op :: "'a \<Rightarrow> (database, 'a) tx \<Rightarrow> 'a M" where
  "db_op d body E w =
     (case retry_database_op (e_fault E (sv_ops w)) (e_clock E (sv_ops w)) d body (sv_db w) of
        (r, db, n) \<Rightarrow> (r, w\<lparr>sv_db := db, sv_ops := Suc (sv_ops w)\<rparr>))"

text \<open>\<^verbatim>\<open>async_transacton\<close>: no retry; the transaction is rolled back when the body returns false
  (\<open>None\<close> here) and when it throws.\<close>

definition async_transacton :: "(database, 'a option) tx \<Rightarrow> 'a option M" where
  "async_transacton body E w =
     (let w' = w\<lparr>sv_ops := Suc (sv_ops w)\<rparr>
      in case attempt (e_fault E (sv_ops w)) (e_clock E (sv_ops w)) body (sv_db w) 0 of
           Inl e \<Rightarrow> (Inl Odb_exception, w')
         | Inr (None, _) \<Rightarrow> (Inr None, w')
         | Inr (Some x, db) \<Rightarrow> (Inr (Some x), w\<lparr>sv_db := db, sv_ops := Suc (sv_ops w)\<rparr>))"

lemmas M_defs = ret_def throw_def bindM_def catchM_def liftR_def gets_def asks_def modify_def
  require_def external_def

lemma bindM_simps [simp]:
  "bindM (ret x) f = f x"
  "bindM (throw e) f = throw e"
  "bindM (bindM m f) g = bindM m (\<lambda>x. bindM (f x) g)"
  by (auto simp: M_defs fun_eq_iff split: sum.splits prod.splits)

section \<open>The current connection\<close>

definition this_client :: "client_connection M" where
  "this_client = gets sv_client"

text \<open>\<^verbatim>\<open>*this_client.session_info\<close>; dereferencing an empty pointer or optional is undefined.\<close>

definition session_info :: "client_session M" where
  "session_info = bindM this_client (\<lambda>c.
     (case cc_session c of None \<Rightarrow> throw Undefined | Some s \<Rightarrow> ret s))"

definition set_session :: "client_session \<Rightarrow> unit M" where
  "set_session s = modify (\<lambda>w. w\<lparr>sv_client := sv_client w\<lparr>cc_session := Some s\<rparr>\<rparr>)"

definition deref :: "'a option \<Rightarrow> 'a M" where
  "deref x = (case x of None \<Rightarrow> throw Undefined | Some v \<Rightarrow> ret v)"

definition this_user :: "cmall_user M" where
  "this_user = bindM session_info (\<lambda>s. deref (cs_user_info s))"

definition this_merchant :: "cmall_merchant M" where
  "this_merchant = bindM session_info (\<lambda>s. deref (cs_merchant_info s))"

definition baseurl :: "string M" where
  "baseurl = bindM this_client (\<lambda>c. deref (cc_ws c))"

section \<open>Shared helpers of the handlers\<close>

definition reply :: "json \<Rightarrow> json_object" where
  "reply v = [(''result'', v)]"

definition active_push :: "active_entry \<Rightarrow> active_entry list \<Rightarrow> active_entry list" where
  "active_push a as = (if list_ex (\<lambda>b. ae_conn b = ae_conn a) as then as else as @ [a])"

text \<open>\<^verbatim>\<open>websocket_write\<close>: the message goes into the channel of the connection.\<close>

definition websocket_write :: "active_entry \<Rightarrow> string \<Rightarrow> unit M" where
  "websocket_write a msg =
     (if ae_ws a then modify (\<lambda>w. w\<lparr>sv_sent := sv_sent w @ [(ae_conn a, msg)]\<rparr>)
      else throw Runtime_error)"

text \<open>The parameter \<^verbatim>\<open>exclude_connection_id\<close> is not used by the body.\<close>

definition send_notify_message :: "u64 \<Rightarrow> string \<Rightarrow> int \<Rightarrow> unit M" where
  "send_notify_message uid msg exclude_connection_id =
     bindM (gets (\<lambda>w. filter (\<lambda>a. ae_uid a = uid) (sv_active w))) (\<lambda>as.
     foldM (\<lambda>a _. websocket_write a msg) as ())"

text \<open>\<^verbatim>\<open>get_merchant_git_repo\<close>: the throwing overload and the one with an error code.\<close>

definition get_merchant_git_repo :: "u64 \<Rightarrow> git_repo M" where
  "get_merchant_git_repo uid =
     bindM (gets (\<lambda>w. map_of (sv_repos w) uid)) (\<lambda>r.
     (case r of None \<Rightarrow> fail merchcant_gitrepo_notfound | Some repo \<Rightarrow> ret repo))"

definition get_merchant_git_repo_ec :: "u64 \<Rightarrow> (git_repo option) M" where
  "get_merchant_git_repo_ec uid = gets (\<lambda>w. map_of (sv_repos w) uid)"

text \<open>\<^verbatim>\<open>load_merchant_git\<close>: the repository is entered in the map when it exists on disk.\<close>

definition load_merchant_git :: "u64 \<Rightarrow> bool M" where
  "load_merchant_git uid =
     bindM (gets sv_config) (\<lambda>cfg.
     bindM (external (\<lambda>E n. Inr (e_open_repo E n (repo_path (sc_repo_root cfg) uid)))) (\<lambda>found.
     bindM (modify (\<lambda>w. w\<lparr>sv_repos := filter (\<lambda>(u, _). u \<noteq> uid) (sv_repos w)\<rparr>)) (\<lambda>_.
     (case found of
        None \<Rightarrow> ret False
      | Some (head, tree) \<Rightarrow>
          bindM (modify (\<lambda>w. w\<lparr>sv_repos := sv_repos w @
            [(uid, \<lparr>gr_merchant_id = uid, gr_head = head, gr_tree = tree\<rparr>)]\<rparr>)) (\<lambda>_. ret True)))))"

text \<open>The lookup in \<^verbatim>\<open>wxpay_services\<close> all payment handlers start with.\<close>

definition wxpay_for_appid :: "string \<Rightarrow> microapp_pay_cfg M" where
  "wxpay_for_appid appid =
     bindM (gets (\<lambda>w. map_of (sv_wxpay w) appid)) (\<lambda>s.
     (case s of None \<Rightarrow> fail merchant_does_not_support_microapp_wxpay | Some cfg \<Rightarrow> ret cfg))"

text \<open>\<^verbatim>\<open>payment::get_payurl\<close> for an order nobody else is asking for; the exclusion between
  concurrent calls is the subject of the payment theory.\<close>

definition get_payurl :: "string \<Rightarrow> string \<Rightarrow> string \<Rightarrow> string \<Rightarrow> string M" where
  "get_payurl script_content orderid order_amount paymentmethod =
     bindM (require (script_content \<noteq> []) no_payment_script_supplyed) (\<lambda>_.
     bindM (external (\<lambda>E n. e_run_script E n script_content
       [''--order-id'', orderid, ''--order-amount'', order_amount, ''--method'', paymentmethod]))
     (\<lambda>uri. ret (butlast uri)))"

section \<open>Database access\<close>

definition load_user :: "u64 \<Rightarrow> cmall_user option M" where
  "load_user uid = db_op None (on_table t_user t_user_update (db_get u_uid uid))"

definition load_user_by_phone :: "string \<Rightarrow> cmall_user option M" where
  "load_user_by_phone tel = db_op None (on_table t_user t_user_update (db_query_one (\<lambda>u. u_active_phone u = tel)))"

definition load_merchant :: "u64 \<Rightarrow> cmall_merchant option M" where
  "load_merchant uid = db_op None (on_table t_merchant t_merchant_update (db_get m_uid uid))"

definition load_administrator :: "u64 \<Rightarrow> administrators option M" where
  "load_administrator uid = db_op None (load_admin uid)"

definition query_orders :: "(cmall_order \<Rightarrow> bool) \<Rightarrow> cmall_order list M" where
  "query_orders p = db_op [] (on_table t_order t_order_update (db_query p))"

definition query_order_one :: "(cmall_order \<Rightarrow> bool) \<Rightarrow> cmall_order option M" where
  "query_order_one p = db_op None (on_table t_order t_order_update (db_query_one p))"

definition update_order :: "cmall_order \<Rightarrow> bool M" where
  "update_order r = db_op False (on_table t_order t_order_update (db_update o_id o_stamp r))"

text \<open>\<^verbatim>\<open>" order by created_at desc limit n offset m"\<close>: SQL rejects negative numbers.\<close>

definition sql_page :: "('r \<Rightarrow> ptime) \<Rightarrow> int \<Rightarrow> int \<Rightarrow> 'r list \<Rightarrow> 'r list" where
  "sql_page created page page_size rs =
     take (nat page_size) (drop (nat (page * page_size)) (sort_key (\<lambda>r. - created r) rs))"

definition db_query_page :: "('r \<Rightarrow> ptime) \<Rightarrow> int \<Rightarrow> int \<Rightarrow> ('r \<Rightarrow> bool) \<Rightarrow> ('r table, 'r list) tx" where
  "db_query_page created page page_size p now t =
     (if page_size < 0 \<or> page * page_size < 0 then Inl Database_exception
      else Inr (sql_page created page page_size (odb_query p t), t))"

section \<open>Runs without faults\<close>

definition fault_free :: "env \<Rightarrow> bool" where
  "fault_free E \<longleftrightarrow> (\<forall>n k. e_fault E n k = None)"

lemma db_op_ok:
  assumes "fault_free E" and "body (e_clock E (sv_ops w) 0) (sv_db w) = Inr (x, db)"
  shows "db_op d body E w = (Inr x, w\<lparr>sv_db := db, sv_ops := Suc (sv_ops w)\<rparr>)"
  using assms by (simp add: db_op_def retry_no_fault fault_free_def)

lemma db_op_err:
  assumes "fault_free E" and "body (e_clock E (sv_ops w) 0) (sv_db w) = Inl e" and "e \<noteq> Recoverable"
  shows "db_op d body E w =
    (Inl (System_error internal_server_error), w\<lparr>sv_ops := Suc (sv_ops w)\<rparr>)"
  using assms by (simp add: db_op_def retry_no_fault fault_free_def)

lemma db_op_cases:
  assumes "db_op d body E w = (r, w')"
  obtains (committed) x now where "r = Inr x" "body now (sv_db w) = Inr (x, sv_db w')"
      "w' = w\<lparr>sv_db := sv_db w', sv_ops := Suc (sv_ops w)\<rparr>"
    | (failed) "r = Inl (System_error internal_server_error)" "w' = w\<lparr>sv_ops := Suc (sv_ops w)\<rparr>"
proof -
  let ?n = "sv_ops w"
  obtain r0 db n where op: "retry_database_op (e_fault E ?n) (e_clock E ?n) d body (sv_db w) = (r0, db, n)"
    by (metis prod_cases3)
  with assms have r: "r0 = r" and w': "w' = w\<lparr>sv_db := db, sv_ops := Suc ?n\<rparr>"
    by (simp_all add: db_op_def)
  show thesis
  proof (cases r0)
    case (Inl e)
    then have "e = System_error internal_server_error" "db = sv_db w"
      using op retry_Inl by metis+
    with Inl r w' failed show thesis by simp
  next
    case (Inr x)
    then obtain k where "body (e_clock E ?n k) (sv_db w) = Inr (x, db)"
      using op retry_Inr by metis
    with Inr r w' committed show thesis by simp
  qed
qed

end
