(* ===== verification/Frame.thy ===== *)
theory Frame
  imports Service
begin

text \<open>
  What a coroutine may change. \<open>keeps R m\<close> says that \<open>m\<close>, started in any environment and any
  state, ends in a state related to the first one by \<open>R\<close>, whether it returns or throws. The
  locale \<open>server_frame\<close> is the contract of such a relation: reflexive, transitive and blind to
  the counter of external interactions. Inside it the relation is carried through the control
  structures, so that a claim about a handler reduces to its database operations and its writes.
\<close>

definition keeps :: "(server \<Rightarrow> server \<Rightarrow> bool) \<Rightarrow> 'a M \<Rightarrow> bool" where
  "keeps R m \<longleftrightarrow> (\<forall>E w. R w (snd (m E w)))"

definition keeps_from :: "(database \<Rightarrow> bool) \<Rightarrow> (server \<Rightarrow> server \<Rightarrow> bool) \<Rightarrow> 'a M \<Rightarrow> bool" where
  "keeps_from Q R m \<longleftrightarrow> (\<forall>E w. Q (sv_db w) \<longrightarrow> R w (snd (m E w)))"

text \<open>A projection of the server state that has the same value before and after.\<close>

definition same :: "(server \<Rightarrow> 'a) \<Rightarrow> server \<Rightarrow> server \<Rightarrow> bool" where
  "same p w w' \<longleftrightarrow> p w' = p w"

lemma keepsD: "keeps R m \<Longrightarrow> m E w = (r, w') \<Longrightarrow> R w w'"
  unfolding keeps_def by (metis snd_conv)

lemma keeps_mono: "keeps R m \<Longrightarrow> (\<And>w w'. R w w' \<Longrightarrow> S w w') \<Longrightarrow> keeps S m"
  by (simp add: keeps_def)

lemma keeps_if [keeps_intros]:
  "(b \<Longrightarrow> keeps R m) \<Longrightarrow> (\<not> b \<Longrightarrow> keeps R n) \<Longrightarrow> keeps R (if b then m else n)"
  by simp

lemma keeps_option [keeps_intros]:
  "(x = None \<Longrightarrow> keeps R m) \<Longrightarrow> (\<And>y. x = Some y \<Longrightarrow> keeps R (f y)) \<Longrightarrow>
   keeps R (case x of None \<Rightarrow> m | Some y \<Rightarrow> f y)"
  by (cases x) auto

lemma keeps_prod [keeps_intros]:
  "(\<And>a b. x = (a, b) \<Longrightarrow> keeps R (f a b)) \<Longrightarrow> keeps R (case x of (a, b) \<Rightarrow> f a b)"
  by (cases x) auto

lemma keeps_sum [keeps_intros]:
  "(\<And>a. x = Inl a \<Longrightarrow> keeps R (f a)) \<Longrightarrow> (\<And>b. x = Inr b \<Longrightarrow> keeps R (g b)) \<Longrightarrow>
   keeps R (case x of Inl a \<Rightarrow> f a | Inr b \<Rightarrow> g b)"
  by (cases x) auto

lemma keeps_list [keeps_intros]:
  "(x = [] \<Longrightarrow> keeps R m) \<Longrightarrow> (\<And>y ys. x = y # ys \<Longrightarrow> keeps R (f y ys)) \<Longrightarrow>
   keeps R (case x of [] \<Rightarrow> m | y # ys \<Rightarrow> f y ys)"
  by (cases x) auto

lemma keeps_Let [keeps_intros]: "keeps R (f x) \<Longrightarrow> keeps R (Let x f)"
  by simp

lemma keeps_from_cases:
  "(b \<Longrightarrow> keeps_from Q R m) \<Longrightarrow> (\<not> b \<Longrightarrow> keeps_from Q R n) \<Longrightarrow> keeps_from Q R (if b then m else n)"
  "(x = None \<Longrightarrow> keeps_from Q R m) \<Longrightarrow> (\<And>y. x = Some y \<Longrightarrow> keeps_from Q R (f y)) \<Longrightarrow>
   keeps_from Q R (case x of None \<Rightarrow> m | Some y \<Rightarrow> f y)"
  "(\<And>a b. z = (a, b) \<Longrightarrow> keeps_from Q R (g a b)) \<Longrightarrow> keeps_from Q R (case z of (a, b) \<Rightarrow> g a b)"
  "(xs = [] \<Longrightarrow> keeps_from Q R m) \<Longrightarrow> (\<And>y ys. xs = y # ys \<Longrightarrow> keeps_from Q R (h y ys)) \<Longrightarrow>
   keeps_from Q R (case xs of [] \<Rightarrow> m | y # ys \<Rightarrow> h y ys)"
  by (simp, cases x, auto, cases z, auto, cases xs, auto)

lemma keeps_from_False: "(\<And>db. \<not> Q db) \<Longrightarrow> keeps_from Q R m"
  by (simp add: keeps_from_def)

lemma keeps_from_weaken: "keeps_from Q R m \<Longrightarrow> (\<And>db. Q' db \<Longrightarrow> Q db) \<Longrightarrow> keeps_from Q' R m"
  by (simp add: keeps_from_def)

locale server_frame =
  fixes R :: "server \<Rightarrow> server \<Rightarrow> bool"
  assumes frame_refl: "R w w"
    and frame_trans: "R w w' \<Longrightarrow> R w' w'' \<Longrightarrow> R w w''"
    and frame_ops: "R w (w\<lparr>sv_ops := n\<rparr>)"
begin

lemma frame_skip [keeps_intros]:
  "keeps R (ret x)" "keeps R (throw e)" "keeps R (liftR r)" "keeps R (gets f)"
  "keeps R (asks g)" "keeps R (require b c)" "keeps R (deref v)" "keeps R (external h)"
  by (simp_all add: keeps_def M_defs deref_def frame_refl frame_ops split: option.split)

lemma frame_bind [keeps_intros]:
  assumes "keeps R m" and "\<And>x. keeps R (f x)"
  shows "keeps R (bindM m f)"
  unfolding keeps_def
proof (intro allI)
  fix E :: env and w :: server
  obtain r w' where m: "m E w = (r, w')" by (cases "m E w")
  have "R w w'" using keepsD [OF assms(1) m] .
  moreover have "R w' (snd (f x E w'))" for x
    using assms(2) by (simp add: keeps_def)
  ultimately show "R w (snd (bindM m f E w))"
    using m frame_trans by (auto simp: bindM_def split: sum.splits)
qed

lemma frame_catch [keeps_intros]:
  assumes "keeps R m" and "\<And>e. keeps R (h e)"
  shows "keeps R (catchM m h)"
  unfolding keeps_def
proof (intro allI)
  fix E :: env and w :: server
  obtain r w' where m: "m E w = (r, w')" by (cases "m E w")
  have "R w w'" using keepsD [OF assms(1) m] .
  moreover have "R w' (snd (h e E w'))" for e
    using assms(2) by (simp add: keeps_def)
  ultimately show "R w (snd (catchM m h E w))"
    using m frame_trans by (auto simp: catchM_def split: sum.splits)
qed

lemma frame_foldM [keeps_intros]:
  assumes "\<And>x s. keeps R (f x s)"
  shows "keeps R (foldM f xs s)"
proof (induction xs arbitrary: s)
  case Nil
  show ?case by (simp add: frame_skip)
next
  case (Cons x xs)
  then show ?case using assms by (simp add: frame_bind)
qed

lemma frame_modify:
  assumes "\<And>w. R w (f w)"
  shows "keeps R (modify f)"
  using assms by (simp add: keeps_def M_defs)

text \<open>A database operation keeps the relation when every committed run of its body does.\<close>

lemma frame_db_op:
  assumes "\<And>now w x db. body now (sv_db w) = Inr (x, db) \<Longrightarrow> R w (w\<lparr>sv_db := db\<rparr>)"
  shows "keeps R (db_op d body)"
  unfolding keeps_def
proof (intro allI)
  fix E :: env and w :: server
  let ?n = "sv_ops w"
  obtain r db n where op: "retry_database_op (e_fault E ?n) (e_clock E ?n) d body (sv_db w) = (r, db, n)"
    by (metis prod_cases3)
  have "R w (w\<lparr>sv_db := db\<rparr>)"
  proof (cases r)
    case (Inl e)
    then have "db = sv_db w" using retry_Inl op by metis
    with frame_refl [of w] show ?thesis by simp
  next
    case (Inr x)
    then obtain k where "body (e_clock E ?n k) (sv_db w) = Inr (x, db)" using retry_Inr op by metis
    with assms show ?thesis .
  qed
  then have "R w (w\<lparr>sv_db := db, sv_ops := Suc ?n\<rparr>)"
    using frame_ops by (rule frame_trans)
  then show "R w (snd (db_op d body E w))"
    by (simp add: db_op_def op)
qed

lemma frame_transaction:
  assumes "\<And>now w x db. body now (sv_db w) = Inr (Some x, db) \<Longrightarrow> R w (w\<lparr>sv_db := db\<rparr>)"
  shows "keeps R (async_transacton body)"
  unfolding keeps_def
proof (intro allI)
  fix E :: env and w :: server
  let ?w = "w\<lparr>sv_ops := Suc (sv_ops w)\<rparr>"
  show "R w (snd (async_transacton body E w))"
  proof (cases "attempt (e_fault E (sv_ops w)) (e_clock E (sv_ops w)) body (sv_db w) 0")
    case (Inl e)
    then show ?thesis by (simp add: async_transacton_def Let_def frame_ops)
  next
    case (Inr p)
    obtain r db where p: "p = (r, db)" by (cases p)
    show ?thesis
    proof (cases r)
      case None
      with Inr p show ?thesis by (simp add: async_transacton_def Let_def frame_ops)
    next
      case (Some x)
      with Inr p have "body (e_clock E (sv_ops w) 0) (sv_db w) = Inr (Some x, db)"
        by (auto simp: attempt_def split: option.splits)
      then have "R w (w\<lparr>sv_db := db\<rparr>)" by (rule assms)
      then have "R w (w\<lparr>sv_db := db, sv_ops := Suc (sv_ops w)\<rparr>)"
        using frame_ops by (rule frame_trans)
      with Inr p Some show ?thesis by (simp add: async_transacton_def Let_def)
    qed
  qed
qed

lemma frame_db_read:
  assumes "\<And>now db x db'. body now db = Inr (x, db') \<Longrightarrow> db' = db"
  shows "keeps R (db_op d body)"
  using assms frame_refl by (intro frame_db_op) fastforce

text \<open>The same under a precondition on the database.\<close>

lemma keeps_from_keeps: "keeps R m \<Longrightarrow> keeps_from Q R m"
  by (simp add: keeps_def keeps_from_def)

lemma keeps_from_bind:
  assumes "keeps (same sv_db) m" and "keeps R m" and "\<And>x. keeps_from Q R (f x)"
  shows "keeps_from Q R (bindM m f)"
  unfolding keeps_from_def
proof (intro allI impI)
  fix E :: env and w :: server
  assume Q: "Q (sv_db w)"
  obtain r w' where m: "m E w = (r, w')" by (cases "m E w")
  have "R w w'" and "sv_db w' = sv_db w"
    using keepsD [OF assms(2) m] keepsD [OF assms(1) m] by (simp_all add: same_def)
  moreover have "R w' (snd (f x E w'))" for x
    using assms(3) Q calculation(2) by (simp add: keeps_from_def)
  ultimately show "R w (snd (bindM m f E w))"
    using m frame_trans by (auto simp: bindM_def split: sum.splits)
qed

text \<open>After a read the continuation may rely on what was read.\<close>

lemma keeps_read_bind:
  assumes "\<And>now db x db'. body now db = Inr (x, db') \<Longrightarrow> db' = db \<and> P x db"
    and "\<And>x. keeps_from (P x) R (f x)"
  shows "keeps R (bindM (db_op d body) f)"
  unfolding keeps_def
proof (intro allI)
  fix E :: env and w :: server
  obtain r w' where op: "db_op d body E w = (r, w')" by (cases "db_op d body E w")
  have R: "R w w'"
    using keepsD [OF frame_db_read op] assms(1) by blast
  show "R w (snd (bindM (db_op d body) f E w))"
    using op
  proof (cases rule: db_op_cases)
    case (committed x now)
    then have "P x (sv_db w')" using assms(1) by metis
    then have "R w' (snd (f x E w'))" using assms(2) by (simp add: keeps_from_def)
    with R have "R w (snd (f x E w'))" by (rule frame_trans)
    then show ?thesis by (simp add: bindM_def op committed(1))
  next
    case failed
    then show ?thesis using R by (simp add: bindM_def op)
  qed
qed

lemma keeps_from_db_op:
  assumes "\<And>now w x db. Q (sv_db w) \<Longrightarrow> body now (sv_db w) = Inr (x, db) \<Longrightarrow> R w (w\<lparr>sv_db := db\<rparr>)"
  shows "keeps_from Q R (db_op d body)"
  unfolding keeps_from_def
proof (intro allI impI)
  fix E :: env and w :: server
  assume Q: "Q (sv_db w)"
  obtain r w' where op: "db_op d body E w = (r, w')" by (cases "db_op d body E w")
  show "R w (snd (db_op d body E w))"
    using op
  proof (cases rule: db_op_cases)
    case (committed x now)
    have "R w (w\<lparr>sv_db := sv_db w'\<rparr>)"
      using assms [OF Q committed(2)] .
    then have "R w (w\<lparr>sv_db := sv_db w', sv_ops := Suc (sv_ops w)\<rparr>)"
      using frame_ops by (rule frame_trans)
    with op committed(3) show ?thesis by simp
  next
    case failed
    then show ?thesis using frame_ops by (simp add: op)
  qed
qed

text \<open>A write under a precondition, then steps that need none.\<close>

lemma keeps_from_then:
  assumes "keeps_from Q R m" and "\<And>x. keeps R (f x)"
  shows "keeps_from Q R (bindM m f)"
  unfolding keeps_from_def
proof (intro allI impI)
  fix E :: env and w :: server
  assume Q: "Q (sv_db w)"
  obtain r w' where m: "m E w = (r, w')" by (cases "m E w")
  have "R w w'"
    using assms(1) Q m by (metis keeps_from_def snd_conv)
  moreover have "R w' (snd (f x E w'))" for x
    using assms(2) by (simp add: keeps_def)
  ultimately show "R w (snd (bindM m f E w))"
    using m frame_trans by (auto simp: bindM_def split: sum.splits)
qed

end

section \<open>The footprint of an operation in the database\<close>

text \<open>Everything a handler leaves alone: any projection that does not look at the counter is a
  frame.\<close>

interpretation db_same: server_frame "same sv_db"
  by unfold_locales (simp_all add: same_def)

interpretation client_same: server_frame "same sv_client"
  by unfold_locales (simp_all add: same_def)

lemma on_table_Inr:
  "on_table sel upd body now db = Inr (x, db') \<longleftrightarrow>
   (\<exists>t. body now (sel db) = Inr (x, t) \<and> db' = upd (\<lambda>_. t) db)"
  by (auto simp: on_table_def split: sum.splits prod.splits)

lemma db_same_modify:
  "(\<And>w. sv_db (f w) = sv_db w) \<Longrightarrow> keeps (same sv_db) (modify f)"
  by (rule db_same.frame_modify) (simp add: same_def)

lemma db_same_read:
  assumes "\<And>now db x db'. body now db = Inr (x, db') \<Longrightarrow> db' = db"
  shows "keeps (same sv_db) (db_op d body)"
  using assms by (rule db_same.frame_db_read)

lemma on_table_read:
  assumes "\<And>now t x t'. body now t = Inr (x, t') \<Longrightarrow> t' = t" and "\<And>db. upd (\<lambda>_. sel db) db = db"
  shows "keeps (same sv_db) (db_op d (on_table sel upd body))"
  by (rule db_same_read) (use assms in \<open>simp add: on_table_Inr, metis\<close>)

section \<open>Taking runs apart\<close>

lemma bindM_InrE:
  assumes "bindM m f E w = (Inr y, w')"
  obtains x w1 where "m E w = (Inr x, w1)" "f x E w1 = (Inr y, w')"
  using assms by (auto simp: bindM_def split: prod.splits sum.splits)

lemma bindM_InlE:
  assumes "bindM m f E w = (Inl e, w')"
  obtains (first) "m E w = (Inl e, w')"
    | (second) x w1 where "m E w = (Inr x, w1)" "f x E w1 = (Inl e, w')"
  using assms by (auto simp: bindM_def split: prod.splits sum.splits)

lemma bindM_Inl: "m E w = (Inl e, w') \<Longrightarrow> bindM m f E w = (Inl e, w')"
  by (simp add: bindM_def)

lemma bindM_Inr: "m E w = (Inr x, w1) \<Longrightarrow> bindM m f E w = f x E w1"
  by (simp add: bindM_def)

lemma runD [dest!]:
  "ret x E w = (r, w') \<Longrightarrow> r = Inr x \<and> w' = w"
  "throw e E w = (r1, w') \<Longrightarrow> r1 = Inl e \<and> w' = w"
  "liftR s E w = (r2, w') \<Longrightarrow> s = r2 \<and> w' = w"
  "gets f E w = (r3, w') \<Longrightarrow> r3 = Inr (f w) \<and> w' = w"
  "asks g E w = (r4, w') \<Longrightarrow> r4 = Inr (g E) \<and> w' = w"
  "require b c E w = (Inr u, w') \<Longrightarrow> b \<and> w' = w"
  by (auto simp: M_defs split: if_splits)

text \<open>An invariant of a loop whose body leaves a projection of the state alone.\<close>

lemma foldM_invariant:
  assumes "foldM f xs s E w = (Inr s', w')" and "P s" and "p w = c"
    and "\<And>x s. keeps (same p) (f x s)"
    and "\<And>x s s' w w'. P s \<Longrightarrow> p w = c \<Longrightarrow> f x s E w = (Inr s', w') \<Longrightarrow> P s'"
  shows "P s'"
  using assms(1-3)
proof (induction xs arbitrary: s w)
  case Nil
  then show ?case by auto
next
  case (Cons x xs)
  then obtain s1 w1 where step: "f x s E w = (Inr s1, w1)" and rest: "foldM f xs s1 E w1 = (Inr s', w')"
    by (auto elim: bindM_InrE)
  have "p w1 = c"
    using keepsD [OF assms(4) step] Cons.prems(3) by (simp add: same_def)
  moreover have "P s1"
    using assms(5) [OF Cons.prems(2,3) step] .
  ultimately show ?case
    using Cons.IH rest by blast
qed

section \<open>Failing without a trace\<close>

text \<open>A coroutine that throws has not changed the database.\<close>

definition atomic :: "'a M \<Rightarrow> bool" where
  "atomic m \<longleftrightarrow> (\<forall>E w e w'. m E w = (Inl e, w') \<longrightarrow> sv_db w' = sv_db w)"

definition never_throws :: "'a M \<Rightarrow> bool" where
  "never_throws m \<longleftrightarrow> (\<forall>E w. \<exists>x w'. m E w = (Inr x, w'))"

lemma atomic_read: "keeps (same sv_db) m \<Longrightarrow> atomic m"
  by (auto simp: atomic_def same_def dest: keepsD)

lemma atomic_db_op: "atomic (db_op d body)"
  unfolding atomic_def by (auto elim: db_op_cases)

lemma atomic_bind_read:
  assumes "keeps (same sv_db) m" and "\<And>x. atomic (f x)"
  shows "atomic (bindM m f)"
  unfolding atomic_def
proof (intro allI impI)
  fix E w e w'
  assume "bindM m f E w = (Inl e, w')"
  then show "sv_db w' = sv_db w"
  proof (cases rule: bindM_InlE)
    case first
    from keepsD [OF assms(1) this] show ?thesis by (simp add: same_def)
  next
    case (second x w1)
    from keepsD [OF assms(1) second(1)] assms(2) second(2) show ?thesis
      by (simp add: same_def atomic_def)
  qed
qed

lemma atomic_bind_last:
  assumes "atomic m" and "\<And>x. never_throws (f x)"
  shows "atomic (bindM m f)"
  unfolding atomic_def
proof (intro allI impI)
  fix E w e w'
  assume "bindM m f E w = (Inl e, w')"
  then show "sv_db w' = sv_db w"
  proof (cases rule: bindM_InlE)
    case first
    with assms(1) show ?thesis by (simp add: atomic_def)
  next
    case (second x w1)
    have False using assms(2) [of x] second(2) unfolding never_throws_def by (metis Inl_Inr_False prod.inject)
    then show ?thesis ..
  qed
qed

lemma never_throws_intros:
  "never_throws (ret x)" "never_throws (gets f)" "never_throws (asks g)" "never_throws (modify h)"
  by (simp_all add: never_throws_def M_defs)

lemma never_throws_bind:
  assumes "never_throws m" and "\<And>x. never_throws (f x)"
  shows "never_throws (bindM m f)"
  using assms unfolding never_throws_def bindM_def by (metis (no_types, lifting) case_prod_conv sum.case(2))

lemma atomic_cases:
  "(b \<Longrightarrow> atomic m) \<Longrightarrow> (\<not> b \<Longrightarrow> atomic n) \<Longrightarrow> atomic (if b then m else n)"
  "(x = None \<Longrightarrow> atomic m) \<Longrightarrow> (\<And>y. x = Some y \<Longrightarrow> atomic (f y)) \<Longrightarrow>
   atomic (case x of None \<Rightarrow> m | Some y \<Rightarrow> f y)"
  "(\<And>a b. z = (a, b) \<Longrightarrow> atomic (g a b)) \<Longrightarrow> atomic (case z of (a, b) \<Rightarrow> g a b)"
  "(xs = [] \<Longrightarrow> atomic m) \<Longrightarrow> (\<And>y ys. xs = y # ys \<Longrightarrow> atomic (h y ys)) \<Longrightarrow>
   atomic (case xs of [] \<Rightarrow> m | y # ys \<Rightarrow> h y ys)"
  by (simp, cases x, auto, cases z, auto, cases xs, auto)

end
