(* ===== verification/Sample.thy ===== *)
theory Sample
  imports Frame
begin

text \<open>
  A small shop the concrete statements of the development are about: one buyer, one merchant with
  one goods in its repository, no faults of the database and answers of the outside world that are
  fixed texts.
\<close>

definition sample_recipient :: recipient where
  "sample_recipient =
     \<lparr>r_name = ''Li'', r_telephone = ''123'', r_address = ''Road 1'', r_province = None, r_city = None,
      r_district = None, r_specific_address = None, r_as_default = True\<rparr>"

definition sample_user :: cmall_user where
  "sample_user = (new_cmall_user 0)\<lparr>u_uid := 7, u_name := ''li'', u_active_phone := ''123'',
     u_recipients := [sample_recipient]\<rparr>"

definition sample_seller :: cmall_user where
  "sample_seller = (new_cmall_user 0)\<lparr>u_uid := 5, u_name := ''shop'', u_active_phone := ''555''\<rparr>"

definition sample_merchant :: cmall_merchant where
  "sample_merchant = (new_cmall_merchant 0)\<lparr>m_uid := 5, m_name := ''shop''\<rparr>"

definition sample_boss :: cmall_user where
  "sample_boss = (new_cmall_user 0)\<lparr>u_uid := 9, u_name := ''boss'', u_active_phone := ''999''\<rparr>"

definition sample_snapshot :: goods_snapshot where
  "sample_snapshot =
     \<lparr>gs_merchant_id = 5, gs_goods_id = ''tea'', gs_name = ''Tea'', gs_price = 3, gs_description = [],
      gs_good_version_git = ''h0'', gs_selection = []\<rparr>"

definition sample_order :: cmall_order where
  "sample_order = (new_cmall_order 500)\<lparr>o_id := 1, o_oid := ''o1'', o_buyer := 7, o_seller := 5,
     o_price := 3, o_recipient := [sample_recipient], o_bought_goods := [sample_snapshot],
     o_snap_git_version := ''h0''\<rparr>"

definition sample_cart :: cmall_cart where
  "sample_cart = (new_cmall_cart 500)\<lparr>c_id := 1, c_uid := 7, c_merchant_id := 5, c_goods_id := ''tea'',
     c_count := 1\<rparr>"

text \<open>The goods \<^verbatim>\<open>tea\<close> with its front matter.\<close>

definition tea_lines :: "md_line list" where
  "tea_lines = [Title_line ''Tea'', Price_line ''3'']"

definition sample_tea :: string where
  "sample_tea = print_metadata tea_lines @ ''text''"

definition sample_repo :: git_repo where
  "sample_repo = \<lparr>gr_merchant_id = 5, gr_head = ''h1'',
     gr_tree = [(''goods'', Git_tree [(''tea.md'', Git_blob sample_tea)])]\<rparr>"

definition sample_num :: "string \<Rightarrow> cpp_numeric option" where
  "sample_num s = (if s \<noteq> [] \<and> (\<forall>c\<in>set s. isdigit c) then Some (of_nat (digits_val s)) else None)"

definition sample_env :: env where
  "sample_env =
     \<lparr>e_fault = (\<lambda>_ _. None), e_clock = (\<lambda>_ _. 1000), e_uuid = show_nat, e_password = show_nat,
      e_rand_string = show_nat, e_num = sample_num, e_num_str = (\<lambda>_. []), e_time_str = (\<lambda>_. []),
      e_serialize = (\<lambda>_. ''json''), e_parse = (\<lambda>_. None), e_ini = (\<lambda>_. None), e_render = (\<lambda>_ s. s),
      e_sms = (\<lambda>_ _. Inr ''4711''), e_netease_phone = (\<lambda>_ _ _ _. Inr ''123''),
      e_run_script = (\<lambda>_ _ _. Inr ''payed''), e_face_groups = (\<lambda>_ _ _. Inr []),
      e_face_add = (\<lambda>_ _ _ _ _. Inr ()), e_face_search = (\<lambda>_ _ _. Inr ''7''),
      e_wx_prepay = (\<lambda>_ _ _ _ _ _ _. Inr ''prepay''), e_wx_pay_object = (\<lambda>_ _ _. Inr JNull),
      e_wx_openid = (\<lambda>_ _ _. Inr ''openid''), e_gitea_init = (\<lambda>_ _ _ _. Inr True),
      e_gitea_password = (\<lambda>_ _ _. Inr True), e_open_repo = (\<lambda>_ _. None)\<rparr>"

definition sample_config :: server_config where
  "sample_config =
     \<lparr>sc_repo_root = ''/repos'', sc_gitea_template_user = [], sc_gitea_template_reponame = [],
      sc_site_name = ''shop'', sc_netease_secret_id = [], sc_netease_secret_key = [],
      sc_netease_business_id = [], sc_tencent_secret_id = [], sc_tencent_secret_key = []\<rparr>"

definition sample_db :: database where
  "sample_db = empty_database
     \<lparr>t_user := \<lparr>rows = [sample_seller, sample_user, sample_boss], sequence = 10\<rparr>,
      t_admin := \<lparr>rows = [\<lparr>ar_uid = 9, ar_user = Some 9\<rparr>], sequence = 10\<rparr>,
      t_merchant := \<lparr>rows = [sample_merchant], sequence = 1\<rparr>,
      t_order := \<lparr>rows = [sample_order], sequence = 2\<rparr>,
      t_cart := \<lparr>rows = [sample_cart], sequence = 2\<rparr>\<rparr>"

definition sample_session :: client_session where
  "sample_session = (new_client_session ''s1'')\<lparr>cs_user_info := Some sample_user\<rparr>"

definition sample_client :: client_connection where
  "sample_client = \<lparr>cc_id = 1, cc_x_real_ip = ''::1'', cc_ws = Some [], cc_session = Some sample_session\<rparr>"

definition sample_server :: server where
  "sample_server =
     \<lparr>sv_db = sample_db, sv_ops = 0, sv_client = sample_client, sv_active = [], sv_temp_token = [],
      sv_wxpay = [], sv_config = sample_config, sv_repos = [(5, sample_repo)], sv_codes = [],
      sv_admin_checked = True, sv_search = empty_search, sv_sent = [], sv_scripts = []\<rparr>"

definition sample_order_params :: json_object where
  "sample_order_params =
     [(''recipient_id'', JInt 0),
      (''goods'', JArr [JObj [(''merchant_id'', JInt 5), (''goods_id'', JStr ''tea'')]])]"

section \<open>Its goods\<close>

definition tea_product :: "string \<Rightarrow> product" where
  "tea_product name = empty_product\<lparr>product_id := ''tea'', product_title := ''Tea'',
     product_price := ''3'', git_version := ''h1'', pr_merchant_id := 5, pr_merchant_name := name\<rparr>"

lemma tea_to_product:
  "to_product mid sample_tea name base =
     Inr (empty_product\<lparr>product_title := ''Tea'', product_price := ''3'', pr_merchant_id := mid,
       pr_merchant_name := name\<rparr>, None)"
proof -
  have ok: "\<forall>l\<in>set tea_lines. md_line_ok l"
    by (simp add: tea_lines_def md_value_ok_def md_value_char_def isspace_def)
  have sep: "find_sub (concat (map print_md_line tea_lines)) md_separator = None"
    by (simp add: tea_lines_def md_separator_def)
  show ?thesis
    unfolding sample_tea_def
    using to_product_printed [OF _ ok sep, of "''text''" mid name base]
    by (simp add: tea_lines_def print_metadata_def merge_description_def empty_description_def empty_product_def)
qed

lemma tea_name: "path_stem ''tea.md'' = ''tea''" "is_md_file ''tea.md''"
  using stem_ext_append [of "''tea''" "''md''"] by (simp_all add: is_md_file_def)

lemma sample_get_product:
  "get_product_throw num sample_repo ''tea'' name base = Inr (tea_product name)"
  by (simp add: get_product_throw_def get_product_def sample_repo_def by_path_def product_walker_def
      tea_to_product tea_name read_options_def tea_product_def empty_product_def)

section \<open>Evaluation\<close>

lemma sample_env_simps [simp]:
  "e_fault sample_env n k = None" "e_clock sample_env n k = 1000" "e_uuid sample_env = show_nat"
  "e_num sample_env = sample_num" "e_rand_string sample_env = show_nat"
  by (simp_all add: sample_env_def)

lemma sample_fault_free [simp]: "fault_free sample_env"
  by (simp add: fault_free_def)

lemma sample_num_digit [simp]: "sample_num ''3'' = Some 3"
  by (simp add: sample_num_def isdigit_def digits_val_def digit_val_def)

lemma sample_server_simps [simp]:
  "sv_db sample_server = sample_db" "sv_ops sample_server = 0" "sv_client sample_server = sample_client"
  "sv_repos sample_server = [(5, sample_repo)]" "sv_active sample_server = []"
  "sv_sent sample_server = []" "sv_temp_token sample_server = []" "sv_codes sample_server = []"
  "sv_config sample_server = sample_config" "sv_admin_checked sample_server" "sv_wxpay sample_server = []"
  by (simp_all add: sample_server_def)

lemma sample_client_simps [simp]:
  "cc_session sample_client = Some sample_session" "cc_ws sample_client = Some []" "cc_id sample_client = 1"
  "cs_user_info sample_session = Some sample_user" "\<not> cs_isAdmin sample_session"
  "\<not> cs_isMerchant sample_session" "cs_session_id sample_session = ''s1''"
  "\<not> cs_sudo_mode sample_session" "cs_original_user sample_session = None"
  by (simp_all add: sample_client_def sample_session_def new_client_session_def)

lemma sample_row_simps [simp]:
  "u_uid sample_user = 7" "u_uid sample_seller = 5" "m_uid sample_merchant = 5"
  "u_recipients sample_user = [sample_recipient]" "m_state sample_merchant = Merchant_normal"
  "m_name sample_merchant = ''shop''" "u_active_phone sample_user = ''123''"
  "u_active_phone sample_seller = ''555''" "u_state sample_user = User_normal"
  "u_uid sample_boss = 9" "u_active_phone sample_boss = ''999''"
  by (simp_all add: sample_user_def sample_seller_def sample_boss_def sample_merchant_def
      new_cmall_user_def new_cmall_merchant_def)

lemma sample_order_simps [simp]:
  "o_id sample_order = 1" "o_oid sample_order = ''o1''" "o_buyer sample_order = 7" "o_seller sample_order = 5"
  "o_payed_at sample_order = None" "o_deleted_at sample_order = None"
  "o_bought_goods sample_order = [sample_snapshot]"
  "c_id sample_cart = 1" "c_uid sample_cart = 7" "c_merchant_id sample_cart = 5"
  "c_goods_id sample_cart = ''tea''" "c_count sample_cart = 1" "c_selection sample_cart = []"
  by (simp_all add: sample_order_def sample_cart_def new_cmall_order_def new_cmall_cart_def)

lemma sample_db_simps [simp]:
  "t_user sample_db = \<lparr>rows = [sample_seller, sample_user, sample_boss], sequence = 10\<rparr>"
  "t_merchant sample_db = \<lparr>rows = [sample_merchant], sequence = 1\<rparr>"
  "t_order sample_db = \<lparr>rows = [sample_order], sequence = 2\<rparr>"
  "t_cart sample_db = \<lparr>rows = [sample_cart], sequence = 2\<rparr>"
  "t_fav sample_db = \<lparr>rows = [], sequence = 1\<rparr>"
  "t_admin sample_db = \<lparr>rows = [\<lparr>ar_uid = 9, ar_user = Some 9\<rparr>], sequence = 10\<rparr>"
  "t_pubkv sample_db = \<lparr>rows = [], sequence = 1\<rparr>" "t_config sample_db = \<lparr>rows = [], sequence = 1\<rparr>"
  "t_apply sample_db = \<lparr>rows = [], sequence = 1\<rparr>" "t_kv sample_db = \<lparr>rows = [], sequence = 1\<rparr>"
  "t_index sample_db = \<lparr>rows = [], sequence = 1\<rparr>" "t_session sample_db = \<lparr>rows = [], sequence = 1\<rparr>"
  "t_apptoken sample_db = \<lparr>rows = [], sequence = 1\<rparr>"
  by (simp_all add: sample_db_def empty_database_def empty_table_def)

text \<open>A run is evaluated from the front: the continuation of a bind is not looked at before its
  argument is a value.\<close>

lemma bindM_weak_cong: "m = m' \<Longrightarrow> bindM m f = bindM m' f"
  by simp

lemma step_simps:
  "ret x E w = (Inr x, w)" "throw e E w = (Inl e, w)" "liftR r E w = (r, w)" "gets p E w = (Inr (p w), w)"
  "asks q E w = (Inr (q E), w)" "modify h E w = (Inr (), h w)"
  "require b c E w = (if b then (Inr (), w) else (Inl (System_error c), w))"
  "external k E w = (k E (sv_ops w), w\<lparr>sv_ops := Suc (sv_ops w)\<rparr>)"
  "deref v E w = (case v of None \<Rightarrow> (Inl Undefined, w) | Some y \<Rightarrow> (Inr y, w))"
  by (simp_all add: M_defs deref_def split: option.split)

lemmas db_simps = on_table_def db_defs odb_defs Let_def

lemmas run_simps = step_simps bindM_def catchM_def db_op_ok db_simps this_client_def session_info_def
  set_session_def local_time_def gen_uuid_def numericM_def get_merchant_git_repo_def baseurl_def
  this_user_def this_merchant_def load_user_def load_merchant_def load_administrator_def
  query_orders_def query_order_one_def update_order_def json_get_def obj_index_def contains_def
  u64_of_def reply_def

theorem get_product_unique_witness:
  "get_product sample_num sample_repo ''tea'' ''shop'' [] None = Inr (tea_product ''shop'', None)"
proof -
  have files: "goods_files sample_repo = [] @ (''tea.md'', sample_tea, [(''tea.md'', Git_blob sample_tea)]) # []"
    by (simp add: goods_files_def sample_repo_def by_path_def)
  have prod: "file_product sample_repo ''shop'' [] (''tea.md'', sample_tea, [(''tea.md'', Git_blob sample_tea)]) =
      Some (tea_product ''shop'')"
    by (simp add: file_product_def tea_to_product tea_name tea_product_def sample_repo_def)
  have opts: "read_options sample_num [(''tea.md'', Git_blob sample_tea)] ''tea'' = Inr []"
    by (simp add: read_options_def by_path_def)
  show ?thesis
    using get_product_unique [OF files tea_name _ prod opts, of None] by (simp add: tea_product_def empty_product_def)
qed

theorem get_products_files_witness:
  "get_products sample_repo ''shop'' [] = Inr [tea_product ''shop'']"
proof -
  have "length sample_tea < 2 ^ 63"
    by (simp add: sample_tea_def tea_lines_def print_metadata_def)
  then show ?thesis
    using get_products_files [of sample_repo "''shop''" "[]"]
    by (simp add: goods_files_def sample_repo_def by_path_def file_product_def tea_to_product tea_name
        tea_product_def empty_product_def map_filter_def)
qed

theorem push_check_idempotent_witness:
  "\<exists>st. repo_push_check sample_repo empty_search = Inr st \<and> repo_push_check sample_repo st = Inr st"
proof -
  have "\<exists>st. repo_push_check sample_repo empty_search = Inr st"
    by (simp add: repo_push_check_def check_repo_changed_def cached_head_def empty_search_def reload_merchant_def
      sample_repo_def get_products_def by_path_def products_walker_def tea_to_product tea_name)
  then show ?thesis using push_check_idempotent by blast
qed

end
