(* ===== verification/Session.thy ===== *)
theory Session
  imports Sample
begin

text \<open>
  The persistent sessions of \<^verbatim>\<open>services/persist_session.cpp\<close> and the verification codes of
  \<^verbatim>\<open>services/verifycode.cpp\<close>. A session is stored as JSON text under its id; only the user's
  key, the pending verification and the sudo fields are stored, the rest is loaded again from
  the tables by \<^verbatim>\<open>load_user_info\<close>.
\<close>

section \<open>The stored form\<close>

definition session_json :: "client_session \<Rightarrow> json_object" where
  "session_json cs =
     (case cs_user_info cs of None \<Rightarrow> [] | Some u \<Rightarrow> [(''uid'', JUint (u_uid u))]) @
     [(''verifyinfo'', JObj [(''tel'', JStr (cs_verify_telephone cs)),
                             (''verify_cookie'', JStr (case cs_verify_cookie cs of None \<Rightarrow> [] | Some c \<Rightarrow> c))]),
      (''sudo_mode'', JBool (cs_sudo_mode cs))] @
     (case cs_original_user cs of None \<Rightarrow> [] | Some a \<Rightarrow> [(''original_user'', JUint (a_uid a))])"

text \<open>Reading it back; \<open>cs\<close> is the default-constructed session, \<open>now\<close> the clock its fresh
  \<^verbatim>\<open>cmall_user\<close> is stamped with.\<close>

definition session_of_json :: "string \<Rightarrow> ptime \<Rightarrow> client_session \<Rightarrow> json_object \<Rightarrow> client_session result" where
  "session_of_json session_id now cs jv =
     (case as_object (obj_index jv ''verifyinfo'') of
        Inl e \<Rightarrow> Inl e
      | Inr vi \<Rightarrow>
          (let cookie = json_as_string (obj_index vi ''verify_cookie'') [];
               cs1 = cs\<lparr>cs_session_id := session_id,
                        cs_verify_telephone := json_as_string (obj_index vi ''tel'') [],
                        cs_verify_cookie := (if cookie = [] then None else Some cookie)\<rparr>;
               uid = (if contains jv ''uid'' then map_sum id Some (as_int64 (obj_index jv ''uid''))
                      else Inr None);
               sudo = (if contains jv ''sudo_mode'' then as_bool (obj_index jv ''sudo_mode'') else Inr False)
           in case uid of
                Inl e \<Rightarrow> Inl e
              | Inr u \<Rightarrow>
                  (let cs2 = cs1\<lparr>cs_user_info := map_option (\<lambda>i. (new_cmall_user now)\<lparr>u_uid := u64_of i\<rparr>) u\<rparr>
                   in case sudo of
                        Inl e \<Rightarrow> Inl e
                      | Inr s \<Rightarrow>
                          (if s \<and> contains jv ''original_user'' then
                             (case as_int64 (obj_index jv ''original_user'') of
                                Inl e \<Rightarrow> Inl e
                              | Inr i \<Rightarrow>
                                  Inr (cs2\<lparr>cs_sudo_mode := True,
                                           cs_original_user := Some \<lparr>a_uid = u64_of i, a_user = None\<rparr>\<rparr>))
                           else Inr (cs2\<lparr>cs_sudo_mode := s\<rparr>)))))"

section \<open>Operations\<close>

definition session_row :: "string \<Rightarrow> cmall_session option M" where
  "session_row session_id =
     db_op None (on_table t_session t_session_update (db_query_one (\<lambda>s. s_cache_key s = session_id)))"

definition session_exist :: "string \<Rightarrow> bool M" where
  "session_exist session_id = bindM (session_row session_id) (\<lambda>r. ret (r \<noteq> None))"

text \<open>A syntax error of the parser is a \<^verbatim>\<open>system_error\<close> of the JSON category.\<close>

definition session_load :: "string \<Rightarrow> client_session M" where
  "session_load session_id =
     bindM gen_uuid (\<lambda>uuid.
     bindM (session_row session_id) (\<lambda>r.
     bindM (asks e_parse) (\<lambda>parse.
     (case parse (case r of None \<Rightarrow> [] | Some s \<Rightarrow> s_cache_content s) of
        None \<Rightarrow> throw (Asio_error 1)
      | Some v \<Rightarrow>
          bindM (liftR (as_object v)) (\<lambda>jv.
          bindM local_time (\<lambda>now.
          liftR (session_of_json session_id now (new_client_session uuid) jv)))))))"

definition session_save :: "client_session \<Rightarrow> string \<Rightarrow> unit M" where
  "session_save cs ip =
     bindM local_time (\<lambda>now.
     bindM (asks e_serialize) (\<lambda>ser.
     bindM (db_op False (on_table t_session t_session_update
       (db_upset s_cache_key s_stamp s_keep_created
         \<lparr>s_cache_key = cs_session_id cs,
          s_uid = map_option (\<lambda>u. sint (u_uid u)) (cs_user_info cs),
          s_cache_content = ser (JObj (session_json cs)) @ [nl],
          s_ip_address = Some ip, s_created_at = now, s_updated_at = now\<rparr>)))
     (\<lambda>_. ret ())))"

definition session_update_lifetime :: "string \<Rightarrow> string \<Rightarrow> unit M" where
  "session_update_lifetime session_id ip =
     bindM local_time (\<lambda>now.
     bindM (db_op False (on_table t_session t_session_update
       (db_update_query s_cache_key s_stamp (\<lambda>s. s_cache_key s = session_id)
         (\<lambda>s. s\<lparr>s_updated_at := now, s_ip_address := Some ip\<rparr>))))
     (\<lambda>_. ret ()))"

text \<open>\<^verbatim>\<open>alloca_sessionid\<close> of \<^verbatim>\<open>cmall.cpp\<close>.\<close>

definition alloca_sessionid :: "unit M" where
  "alloca_sessionid =
     bindM gen_uuid (\<lambda>uuid.
     bindM (set_session (new_client_session uuid)) (\<lambda>_.
     bindM this_client (\<lambda>c.
     session_save (new_client_session uuid) (cc_x_real_ip c))))"

section \<open>Verification codes\<close>

text \<open>Five minutes, in milliseconds.\<close>

definition verify_code_lifetime :: int where
  "verify_code_lifetime = 5 * 60 * 1000"

text \<open>\<^verbatim>\<open>trim_right_if(code, is_any_of(" \n\r"))\<close>.\<close>

definition trim_code :: "string \<Rightarrow> string" where
  "trim_code s = rev (dropWhile (\<lambda>c. c \<in> set [CHR '' '', nl, cr]) (rev s))"

definition send_verify_code :: "string \<Rightarrow> string M" where
  "send_verify_code telephone =
     bindM (external (\<lambda>E n. e_sms E n telephone)) (\<lambda>out.
     bindM gen_uuid (\<lambda>cookie.
     bindM local_time (\<lambda>now.
     bindM (modify (\<lambda>w. w\<lparr>sv_codes := tm_put (now * 1000) cookie (trim_code out) (sv_codes w)\<rparr>)) (\<lambda>_.
     ret cookie))))"

definition verify_verify_code :: "string \<Rightarrow> string \<Rightarrow> bool M" where
  "verify_verify_code verify_code cookie = gets (\<lambda>w. tm_get cookie (sv_codes w) = Some verify_code)"

section \<open>Save and load\<close>

text \<open>The JSON text carries no integer kinds: the parser makes an \<^verbatim>\<open>int64_t\<close> of every number
  that fits.\<close>

fun canon :: "json \<Rightarrow> json" where
  "canon (JUint n) = (if uint n < 2 ^ 63 then JInt (uint n) else JUint n)"
| "canon (JArr xs) = JArr (map canon xs)"
| "canon (JObj kvs) = JObj (map (\<lambda>(k, v). (k, canon v)) kvs)"
| "canon v = v"

text \<open>What of a session survives the store.\<close>

definition restored_session :: "ptime \<Rightarrow> client_session \<Rightarrow> client_session" where
  "restored_session now cs =
     (new_client_session (cs_session_id cs))
       \<lparr>cs_user_info := map_option (\<lambda>u. (new_cmall_user now)\<lparr>u_uid := u_uid u\<rparr>) (cs_user_info cs),
        cs_verify_telephone := cs_verify_telephone cs,
        cs_verify_cookie := cs_verify_cookie cs,
        cs_sudo_mode := cs_sudo_mode cs,
        cs_original_user := (if cs_sudo_mode cs
          then map_option (\<lambda>a. \<lparr>a_uid = a_uid a, a_user = None\<rparr>) (cs_original_user cs) else None)\<rparr>"

definition session_storable :: "client_session \<Rightarrow> bool" where
  "session_storable cs \<longleftrightarrow>
     (case cs_user_info cs of None \<Rightarrow> True | Some u \<Rightarrow> uint (u_uid u) < 2 ^ 63) \<and>
     (case cs_original_user cs of None \<Rightarrow> True | Some a \<Rightarrow> uint (a_uid a) < 2 ^ 63) \<and>
     cs_verify_cookie cs \<noteq> Some []"

lemma u64_of_uint [simp]: "u64_of (uint n) = n"
  by (simp add: u64_of_def)

lemma session_json_roundtrip:
  assumes "session_storable cs"
  shows "\<exists>jv. canon (JObj (session_json cs)) = JObj jv \<and>
    session_of_json (cs_session_id cs) now (new_client_session uuid) jv = Inr (restored_session now cs)"
  using assms
  by (cases "cs_user_info cs"; cases "cs_original_user cs"; cases "cs_verify_cookie cs")
    (simp_all add: session_json_def session_of_json_def restored_session_def session_storable_def
      obj_index_def contains_def json_as_string_def new_client_session_def Let_def)

text \<open>A saved session is found again, with the fields that are stored.\<close>

text \<open>(C18) A saved session is loaded again with its user, telephone, pending code and sudo state; the rest of
  the user, the merchant and the roles are not in the record and are loaded from their tables afterwards.\<close>

theorem session_save_load:
  assumes "fault_free E" and "session_storable cs"
    and "e_parse E (e_serialize E (JObj (session_json cs)) @ [nl]) = Some (canon (JObj (session_json cs)))"
    and "table_ok s_cache_key (t_session (sv_db w))"
  shows "\<exists>w1 w2 now. session_save cs ip E w = (Inr (), w1) \<and>
    session_load (cs_session_id cs) E w1 = (Inr (restored_session now cs), w2)"
proof -
  let ?now = "e_clock E (sv_ops w) 0"
  let ?row = "\<lparr>s_cache_key = cs_session_id cs, s_uid = map_option (\<lambda>u. sint (u_uid u)) (cs_user_info cs),
      s_cache_content = e_serialize E (JObj (session_json cs)) @ [nl], s_ip_address = Some ip,
      s_created_at = ?now, s_updated_at = ?now\<rparr>"
  let ?n = "Suc (sv_ops w)"
  obtain t' r' where up: "db_upset s_cache_key s_stamp s_keep_created ?row (e_clock E ?n 0) (t_session (sv_db w)) = Inr (True, t')"
    and find: "odb_find s_cache_key (cs_session_id cs) t' = Some r'"
    and r': "r' = ?row \<or> (\<exists>old. r' = s_keep_created old (s_stamp (e_clock E ?n 0) ?row))"
    using db_upset_stores [OF assms(4), of s_keep_created s_stamp ?row "e_clock E ?n 0"]
    by (auto simp: s_keep_created_def s_stamp_def)
  have content: "s_cache_content r' = e_serialize E (JObj (session_json cs)) @ [nl]"
    using r' by (auto simp: s_keep_created_def s_stamp_def)
  define w1 where "w1 = w\<lparr>sv_db := sv_db w\<lparr>t_session := t'\<rparr>, sv_ops := Suc ?n\<rparr>"
  have save: "session_save cs ip E w = (Inr (), w1)"
    using up assms(1)
    by (simp add: session_save_def local_time_def M_defs db_op_ok on_table_def w1_def)
  obtain jv where jv: "canon (JObj (session_json cs)) = JObj jv"
    "\<And>now uuid. session_of_json (cs_session_id cs) now (new_client_session uuid) jv = Inr (restored_session now cs)"
    using session_json_roundtrip [OF assms(2)] by (metis json.inject(7))
  have "\<exists>w2 now. session_load (cs_session_id cs) E w1 = (Inr (restored_session now cs), w2)"
    using find content assms(1,3) jv
    by (simp add: session_load_def session_row_def gen_uuid_def local_time_def M_defs db_op_ok
        on_table_def db_query_one_def odb_query_one_def odb_find_def w1_def)
      (rule exI, rule refl)
  with save show ?thesis by blast
qed

definition session_env :: env where
  "session_env = sample_env\<lparr>e_parse := (\<lambda>_. Some (canon (JObj (session_json sample_session))))\<rparr>"

theorem session_save_load_witness:
  "\<exists>w1 w2 now. session_save sample_session ''::1'' session_env sample_server = (Inr (), w1) \<and>
    session_load ''s1'' session_env w1 = (Inr (restored_session now sample_session), w2)"
proof -
  have "fault_free session_env"
    by (simp add: session_env_def fault_free_def)
  moreover have "session_storable sample_session"
    by (simp add: session_storable_def sample_session_def new_client_session_def)
  moreover have "e_parse session_env x = Some (canon (JObj (session_json sample_session)))" for x
    by (simp add: session_env_def)
  moreover have "table_ok s_cache_key (t_session (sv_db sample_server))"
    by (simp add: table_ok_def)
  ultimately show ?thesis
    using session_save_load [of session_env sample_session sample_server "''::1''"] by simp
qed

lemma session_save_run:
  assumes "fault_free E" and "table_ok s_cache_key (t_session (sv_db w))"
  shows "\<exists>t n. session_save cs ip E w = (Inr (), w\<lparr>sv_db := (sv_db w)\<lparr>t_session := t\<rparr>, sv_ops := n\<rparr>) \<and>
    table_ok s_cache_key t"
proof -
  let ?now = "e_clock E (sv_ops w) 0" and ?now' = "e_clock E (Suc (sv_ops w)) 0"
  let ?row = "\<lparr>s_cache_key = cs_session_id cs, s_uid = map_option (\<lambda>u. sint (u_uid u)) (cs_user_info cs),
      s_cache_content = e_serialize E (JObj (session_json cs)) @ [nl], s_ip_address = Some ip,
      s_created_at = ?now, s_updated_at = ?now\<rparr>"
  obtain t where "db_upset s_cache_key s_stamp s_keep_created ?row ?now' (t_session (sv_db w)) = Inr (True, t)"
    "table_ok s_cache_key t"
    using db_upset_stores [OF assms(2), of s_keep_created s_stamp ?row ?now']
    by (auto simp: s_keep_created_def s_stamp_def)
  then show ?thesis
    using assms(1) by (auto simp: session_save_def local_time_def M_defs db_op_ok on_table_def)
qed

end
