(* ===== verification/Conversion.thy ===== *)
theory Conversion
  imports Service
begin

text \<open>
  The conversion of the stored objects to JSON (\<^verbatim>\<open>conversion.cpp\<close>). Numbers and time stamps
  are printed by functions of the environment.
\<close>

definition json_opt_string :: "string option \<Rightarrow> json" where
  "json_opt_string x = JStr (case x of None \<Rightarrow> [] | Some s \<Rightarrow> s)"

definition json_of_select :: "env \<Rightarrow> product_option_select \<Rightarrow> json" where
  "json_of_select E p =
     JObj [(''select'', JStr (selection_name p)), (''price'', JStr (e_num_str E (selection_price p)))]"

definition json_of_option :: "env \<Rightarrow> product_option \<Rightarrow> json" where
  "json_of_option E p =
     JObj [(''option'', JStr (option_title p)),
           (''selections'', JArr (map (json_of_select E) (po_selections p)))]"

definition json_of_product :: "env \<Rightarrow> product \<Rightarrow> json" where
  "json_of_product E p =
     JObj [(''goods_id'', JStr (product_id p)), (''merchant_id'', JUint (pr_merchant_id p)),
           (''merchant_name'', JStr (pr_merchant_name p)), (''name'', JStr (product_title p)),
           (''price'', JStr (product_price p)), (''description'', JStr (product_description p)),
           (''kuaidifei'', JStr (pr_kuaidifei p)), (''pictures'', JArr (map JStr (pics p))),
           (''options'', JArr (map (json_of_option E) (options p)))]"

fun user_state_int :: "user_state_t \<Rightarrow> int" where
  "user_state_int User_normal = 0"
| "user_state_int User_disabled = 1"
| "user_state_int User_banned = 2"

fun merchant_state_int :: "merchant_state_t \<Rightarrow> int" where
  "merchant_state_int Merchant_normal = 0"
| "merchant_state_int Merchant_disabled = 1"
| "merchant_state_int Merchant_banned = 2"

fun approve_state_int :: "approve_state_t \<Rightarrow> int" where
  "approve_state_int Waiting = 0"
| "approve_state_int Approved = 1"
| "approve_state_int Denied = 2"

fun order_status_int :: "order_status_t \<Rightarrow> int" where
  "order_status_int Order_unpay = 0"
| "order_status_int Order_payed = 1"
| "order_status_int Order_shipped = 2"
| "order_status_int Order_success = 3"

definition json_of_user :: "env \<Rightarrow> cmall_user \<Rightarrow> json" where
  "json_of_user E u =
     JObj [(''uid'', JUint (u_uid u)), (''name'', JStr (u_name u)),
           (''phone'', JStr (u_active_phone u)), (''verified'', JBool (u_verified u)),
           (''state'', JInt (user_state_int (u_state u))), (''desc'', json_opt_string (u_desc u)),
           (''created_at'', JStr (e_time_str E (u_created_at u)))]"

definition json_of_merchant :: "env \<Rightarrow> cmall_merchant \<Rightarrow> json" where
  "json_of_merchant E m =
     JObj [(''uid'', JUint (m_uid m)), (''name'', JStr (m_name m)),
           (''state'', JInt (merchant_state_int (m_state m))), (''desc'', json_opt_string (m_desc m)),
           (''created_at'', JStr (e_time_str E (m_created_at m))),
           (''wx_submerchant_id'', (case m_exinfo_wx_mchid m of None \<Rightarrow> JNull | Some s \<Rightarrow> JStr s))]"

definition json_of_recipient :: "recipient \<Rightarrow> json_object" where
  "json_of_recipient r =
     [(''address'', JStr (r_address r)), (''telephone'', JStr (r_telephone r)),
      (''name'', JStr (r_name r)), (''is_default'', JBool (r_as_default r)),
      (''province'', json_opt_string (r_province r)), (''city'', json_opt_string (r_city r)),
      (''district'', json_opt_string (r_district r)),
      (''specific_address'', json_opt_string (r_specific_address r))]"

text \<open>The selections of a goods or cart row, read back from the stored string.\<close>

definition json_of_selection :: "string \<Rightarrow> json" where
  "json_of_selection s =
     JArr (case parse_selection_description_string s of
             None \<Rightarrow> []
           | Some xs \<Rightarrow> map (\<lambda>l. JObj [(''option'', JStr (si_option l)), (''select'', JStr (si_select l))]) xs)"

definition json_of_snapshot :: "env \<Rightarrow> goods_snapshot \<Rightarrow> json" where
  "json_of_snapshot E g =
     JObj [(''merchant_id'', JUint (gs_merchant_id g)), (''goods_id'', JStr (gs_goods_id g)),
           (''name'', JStr (gs_name g)), (''price'', JStr (e_num_str E (gs_price g))),
           (''description'', JStr (gs_description g)),
           (''selection'', json_of_selection (gs_selection g)),
           (''git_version'', JStr (gs_good_version_git g))]"

definition json_of_kuaidi :: "cmall_kuaidi_info \<Rightarrow> json" where
  "json_of_kuaidi k =
     JObj [(''kuaidihao'', JStr (kuaidihao k)), (''kuaidigongsi'', JStr (kuaidigongsi k))]"

definition json_opt_time :: "env \<Rightarrow> ptime option \<Rightarrow> json" where
  "json_opt_time E t = JStr (case t of None \<Rightarrow> [] | Some x \<Rightarrow> e_time_str E x)"

definition json_of_order :: "env \<Rightarrow> cmall_order \<Rightarrow> json" where
  "json_of_order E r =
     JObj [(''orderid'', JStr (o_oid r)), (''buyer'', JUint (o_buyer r)),
           (''price'', JStr (e_num_str E (o_price r))),
           (''kuaidifei'', JStr (e_num_str E (o_kuaidifei r))),
           (''pay_amount'', JStr (e_num_str E (o_pay_amount r))),
           (''stage'', JInt (order_status_int (o_stage r))),
           (''payed_at'', json_opt_time E (o_payed_at r)),
           (''close_at'', json_opt_time E (o_close_at r)),
           (''created_at'', JStr (e_time_str E (o_created_at r))),
           (''bought_goods'', JArr (map (json_of_snapshot E) (o_bought_goods r))),
           (''recipients'', JArr (map (JObj \<circ> json_of_recipient) (o_recipient r))),
           (''git_version'', JStr (o_snap_git_version r)),
           (''kuaidiinfo'', JArr (map json_of_kuaidi (o_kuaidi r))),
           (''ext'', json_opt_string (o_ext r))]"

definition json_of_cart :: "env \<Rightarrow> cmall_cart \<Rightarrow> json" where
  "json_of_cart E c =
     JObj [(''item_id'', JUint (c_id c)), (''merchant_id'', JUint (c_merchant_id c)),
           (''merchant_name'', JStr (c_merchant_name c)), (''goods_id'', JStr (c_goods_id c)),
           (''count'', JUint (c_count c)), (''selection'', json_of_selection (c_selection c)),
           (''created_at'', JStr (e_time_str E (c_created_at c)))]"

definition json_of_fav :: "env \<Rightarrow> cmall_user_fav \<Rightarrow> json" where
  "json_of_fav E f =
     JObj [(''merchant_id'', JUint (f_merchant_id f)), (''merchant_name'', JStr (f_merchant_name f)),
           (''created_at'', JStr (e_time_str E (f_created_at f)))]"

definition json_of_apply :: "env \<Rightarrow> cmall_apply_for_mechant \<times> cmall_user \<Rightarrow> json" where
  "json_of_apply E = (\<lambda>(a, u).
     JObj [(''apply_id'', JUint (ap_id a)), (''applicant_user_id'', JUint (u_uid u)),
           (''applicant_user_phone'', JStr (u_active_phone u)),
           (''state'', JInt (approve_state_int (ap_state a))),
           (''created_at'', JStr (e_time_str E (ap_created_at a))),
           (''updated_at'', JStr (e_time_str E (ap_updated_at a)))])"

text \<open>Selections of clean items survive the way through the database to the client.\<close>

text \<open>The selection string of a cart row or an order, written by the handlers as \<^verbatim>\<open>option:select;\<close>
  items, is turned by the conversion back into the list of options and selections it was built from.\<close>

theorem json_of_selection_print:
  assumes "xs \<noteq> []" and "\<forall>x\<in>set xs. selection_item_ok x"
  shows "json_of_selection (print_selection xs) =
    JArr (map (\<lambda>l. JObj [(''option'', JStr (si_option l)), (''select'', JStr (si_select l))]) xs)"
proof -
  have "many1 parse_selection_item (concat (map print_selection_item xs) @ []) = Some (xs, [])"
    using assms by (intro selection_fmt.many1_roundtrip) simp_all
  then show ?thesis
    by (simp add: json_of_selection_def parse_selection_description_string_def print_selection_def)
qed

theorem json_of_selection_print_witness:
  "json_of_selection (print_selection [\<lparr>si_option = ''size'', si_select = ''big''\<rparr>]) =
     JArr [JObj [(''option'', JStr ''size''), (''select'', JStr ''big'')]]"
  using json_of_selection_print [of "[\<lparr>si_option = ''size'', si_select = ''big''\<rparr>]"]
  by (simp add: selection_item_ok_def option_name_char_def selection_value_char_def)

end
