(* ===== verification/Order_Payment.thy ===== *)
theory Order_Payment
  imports Sample Conversion
begin

text \<open>
  Marking orders as payed: \<^verbatim>\<open>order_mark_payed\<close> and \<^verbatim>\<open>order_check_payment\<close> of
  \<^verbatim>\<open>handle_jsonrpc_merchant_api.cpp\<close>, shared by the buyer's and the seller's handlers, and the
  callback of WeChat Pay in \<^verbatim>\<open>handle_order_wx_callback.cpp\<close>.
\<close>

definition order_mark_payed :: "cmall_order \<Rightarrow> cmall_merchant \<Rightarrow> bool M" where
  "order_mark_payed order seller =
     bindM local_time (\<lambda>now.
     bindM (update_order (order\<lparr>o_payed_at := Some now\<rparr>)) (\<lambda>success.
     if success then
       bindM (get_merchant_git_repo_ec (m_uid seller)) (\<lambda>repo.
       bindM (case repo of
                None \<Rightarrow> ret ()
              | Some rp \<Rightarrow>
                  bindM (liftR (get_file_content rp ''scripts/orderstatus.js'')) (\<lambda>(content, ec).
                  if ec = None \<and> content \<noteq> []
                  then modify (\<lambda>w. w\<lparr>sv_scripts := sv_scripts w @ [(content, [''--order-id'', o_oid order])]\<rparr>)
                  else ret ()))
       (\<lambda>_. ret True))
     else fail internal_server_error))"

definition order_check_payment :: "cmall_order \<Rightarrow> cmall_merchant \<Rightarrow> bool M" where
  "order_check_payment order seller =
     bindM (get_merchant_git_repo (m_uid seller)) (\<lambda>repo.
     bindM (liftR (get_file_content repo ''scripts/checkpay.js'')) (\<lambda>(content, ec).
     if content \<noteq> [] then
       bindM (external (\<lambda>E n. e_run_script E n content [''--order-id'', o_oid order])) (\<lambda>out.
       if out = ''payed'' \<or> out = ''payed'' @ [nl] then order_mark_payed order seller else ret False)
     else fail no_paycheck_script_spplyed))"

text \<open>\<^verbatim>\<open>weixin::notify_message\<close>; \<open>nm_success\<close> says that the trade state is \<^verbatim>\<open>SUCCESS\<close>.\<close>

record notify_message =
  nm_out_trade_no :: string
  nm_success :: bool
  nm_success_time :: ptime

definition handle_order_wx_callback :: "notify_message \<Rightarrow> bool M" where
  "handle_order_wx_callback msg =
     bindM (query_order_one (\<lambda>r. o_oid r = nm_out_trade_no msg)) (\<lambda>r.
     (case r of
        None \<Rightarrow> ret False
      | Some payed_order \<Rightarrow>
          if nm_success msg then update_order (payed_order\<lparr>o_payed_at := Some (nm_success_time msg)\<rparr>)
          else ret False))"

text \<open>\<^verbatim>\<open>is_sigle_merchant_order\<close>; the first goods of an empty list does not exist.\<close>

definition is_sigle_merchant_order :: "cmall_order \<Rightarrow> bool result" where
  "is_sigle_merchant_order r =
     (case o_bought_goods r of
        [] \<Rightarrow> Inl Undefined
      | g # gs \<Rightarrow> Inr (list_all (\<lambda>x. gs_merchant_id x = gs_merchant_id g) (g # gs)))"

section \<open>Orders are never lost and never become unpayed\<close>

text \<open>One order at two moments: its identity, its goods and its recipient stay, and once it is payed
  it stays payed.\<close>

definition order_evolves :: "cmall_order \<Rightarrow> cmall_order \<Rightarrow> bool" where
  "order_evolves r r' \<longleftrightarrow>
     o_id r' = o_id r \<and> o_oid r' = o_oid r \<and> o_buyer r' = o_buyer r \<and> o_seller r' = o_seller r \<and>
     o_bought_goods r' = o_bought_goods r \<and> o_recipient r' = o_recipient r \<and>
     o_created_at r' = o_created_at r \<and>
     (o_payed_at r \<noteq> None \<longrightarrow> o_payed_at r' \<noteq> None) \<and>
     (o_deleted_at r \<noteq> None \<longrightarrow> o_deleted_at r' \<noteq> None)"

definition order_table_ok :: "cmall_order table \<Rightarrow> bool" where
  "order_table_ok t \<longleftrightarrow> auto_ok o_id t \<and> distinct (map o_oid (rows t))"

definition orders_evolve :: "cmall_order table \<Rightarrow> cmall_order table \<Rightarrow> bool" where
  "orders_evolve t t' \<longleftrightarrow>
     (order_table_ok t \<longrightarrow>
        order_table_ok t' \<and> (\<forall>r\<in>set (rows t). \<exists>r'\<in>set (rows t'). order_evolves r r'))"

definition orders_frame :: "server \<Rightarrow> server \<Rightarrow> bool" where
  "orders_frame w w' \<longleftrightarrow> orders_evolve (t_order (sv_db w)) (t_order (sv_db w'))"

lemma order_evolves_refl [simp]: "order_evolves r r"
  by (simp add: order_evolves_def)

lemma order_evolves_trans: "order_evolves r s \<Longrightarrow> order_evolves s t \<Longrightarrow> order_evolves r t"
  by (simp add: order_evolves_def)

lemma orders_evolve_refl [simp]: "orders_evolve t t"
  unfolding orders_evolve_def using order_evolves_refl by blast

lemma orders_evolve_trans: "orders_evolve t u \<Longrightarrow> orders_evolve u v \<Longrightarrow> orders_evolve t v"
  unfolding orders_evolve_def using order_evolves_trans by (meson)

interpretation ord: server_frame orders_frame
  by unfold_locales (auto simp: orders_frame_def intro: orders_evolve_trans)

text \<open>Writing back a changed row.\<close>

lemma order_update_evolves:
  assumes "\<exists>r\<in>set (rows t). order_evolves r r2" and "odb_update o_id r2 t = Inr t'"
  shows "orders_evolve t t'"
  unfolding orders_evolve_def
proof
  assume ok: "order_table_ok t"
  obtain r where r: "r \<in> set (rows t)" "order_evolves r r2" using assms(1) by blast
  have t': "rows t' = map (\<lambda>s. if o_id s = o_id r2 then r2 else s) (rows t)"
    using assms(2) by (auto simp: odb_update_def split: if_splits)
  have inj: "s = r" if "s \<in> set (rows t)" "o_id s = o_id r2" for s
    using ok r that by (auto simp: order_table_ok_def auto_ok_def table_ok_def order_evolves_def
        distinct_map dest: inj_onD)
  have oids: "map o_oid (rows t') = map o_oid (rows t)"
    unfolding t' using inj r(2) by (auto simp: order_evolves_def)
  have "auto_ok o_id t'"
    using ok auto_ok_update [OF _ assms(2)] by (simp add: order_table_ok_def)
  then have "order_table_ok t'"
    using ok oids by (simp add: order_table_ok_def)
  moreover have "\<exists>r'\<in>set (rows t'). order_evolves s r'" if "s \<in> set (rows t)" for s
  proof (cases "o_id s = o_id r2")
    case True
    with that inj r t' show ?thesis by (auto intro!: bexI [of _ r2])
  next
    case False
    with that t' show ?thesis by (auto intro!: bexI [of _ s])
  qed
  ultimately show "order_table_ok t' \<and> (\<forall>r\<in>set (rows t). \<exists>r'\<in>set (rows t'). order_evolves r r')"
    by blast
qed

lemma order_persist_evolves:
  assumes "odb_persist_auto (\<lambda>i r. r\<lparr>o_id := i\<rparr>) order_clash r t = Inr (r', t')"
  shows "orders_evolve t t'"
  unfolding orders_evolve_def
proof
  assume ok: "order_table_ok t"
  then have new: "auto_ok o_id t'" "rows t' = rows t @ [r']" "\<not> list_ex (order_clash r) (rows t)"
      "r' = r\<lparr>o_id := sequence t\<rparr>"
    using auto_ok_persist [where key = o_id, OF _ _ assms] by (simp_all add: order_table_ok_def)
  have "order_table_ok t'"
    using ok new by (auto simp: order_table_ok_def list_ex_iff order_clash_def)
  moreover have "\<exists>r'\<in>set (rows t'). order_evolves s r'" if "s \<in> set (rows t)" for s
    using that new(2) by (intro bexI [of _ s]) simp_all
  ultimately show "order_table_ok t' \<and> (\<forall>r\<in>set (rows t). \<exists>r'\<in>set (rows t'). order_evolves r r')"
    by blast
qed

text \<open>The operations of the handlers, one rule each.\<close>

lemma ord_update_order:
  "keeps_from (\<lambda>db. \<exists>r\<in>set (rows (t_order db)). order_evolves r r2) orders_frame (update_order r2)"
  unfolding update_order_def
proof (rule ord.keeps_from_db_op)
  fix now x db and w :: server
  assume r: "\<exists>r\<in>set (rows (t_order (sv_db w))). order_evolves r r2"
    and run: "on_table t_order t_order_update (db_update o_id o_stamp r2) now (sv_db w) = Inr (x, db)"
  obtain t' where t': "odb_update o_id (o_stamp now r2) (t_order (sv_db w)) = Inr t'"
    "db = t_order_update (\<lambda>_. t') (sv_db w)"
    using run by (auto simp: on_table_Inr db_update_def split: sum.splits)
  have "\<exists>r\<in>set (rows (t_order (sv_db w))). order_evolves r (o_stamp now r2)"
    using r by (auto simp: order_evolves_def o_stamp_def)
  from order_update_evolves [OF this t'(1)] show "orders_frame w (w\<lparr>sv_db := db\<rparr>)"
    by (simp add: orders_frame_def t'(2))
qed

lemma ord_query_orders:
  assumes "\<And>rs. keeps_from (\<lambda>db. \<forall>r\<in>set rs. r \<in> set (rows (t_order db)) \<and> p r) orders_frame (f rs)"
  shows "keeps orders_frame (bindM (query_orders p) f)"
  unfolding query_orders_def
  by (rule ord.keeps_read_bind [where P = "\<lambda>rs db. \<forall>r\<in>set rs. r \<in> set (rows (t_order db)) \<and> p r"])
    (use assms in \<open>auto simp: on_table_Inr db_query_def odb_query_def\<close>)

lemma ord_query_order_one:
  assumes "keeps orders_frame (f None)"
    and "\<And>r. keeps_from (\<lambda>db. r \<in> set (rows (t_order db)) \<and> p r) orders_frame (f (Some r))"
  shows "keeps orders_frame (bindM (query_order_one p) f)"
  unfolding query_order_one_def
proof (rule ord.keeps_read_bind [where P = "\<lambda>x db. \<forall>r. x = Some r \<longrightarrow> r \<in> set (rows (t_order db)) \<and> p r"])
  show "keeps_from (\<lambda>db. \<forall>r. x = Some r \<longrightarrow> r \<in> set (rows (t_order db)) \<and> p r) orders_frame (f x)" for x
    using assms ord.keeps_from_keeps by (cases x) auto
qed (auto simp: on_table_Inr db_query_one_def odb_query_one_def dest: find_SomeD)

lemma ord_order_add:
  "keeps orders_frame (db_op d (on_table t_order t_order_update (db_add_auto (\<lambda>i r. r\<lparr>o_id := i\<rparr>) order_clash r)))"
  by (rule ord.frame_db_op)
    (auto simp: on_table_Inr db_add_auto_def orders_frame_def split: sum.splits
      intro: order_persist_evolves)

text \<open>Operations on the other tables.\<close>

lemma ord_other_tables [keeps_intros]:
  "keeps orders_frame (db_op d1 (on_table t_config t_config_update body1))"
  "keeps orders_frame (db_op d2 (on_table t_user t_user_update body2))"
  "keeps orders_frame (db_op d3 (on_table t_admin t_admin_update body3))"
  "keeps orders_frame (db_op d4 (on_table t_apptoken t_apptoken_update body4))"
  "keeps orders_frame (db_op d5 (on_table t_merchant t_merchant_update body5))"
  "keeps orders_frame (db_op d6 (on_table t_cart t_cart_update body6))"
  "keeps orders_frame (db_op d7 (on_table t_fav t_fav_update body7))"
  "keeps orders_frame (db_op d8 (on_table t_apply t_apply_update body8))"
  "keeps orders_frame (db_op d9 (on_table t_kv t_kv_update body9))"
  "keeps orders_frame (db_op d10 (on_table t_pubkv t_pubkv_update body10))"
  "keeps orders_frame (db_op d11 (on_table t_index t_index_update body11))"
  "keeps orders_frame (db_op d12 (on_table t_session t_session_update body12))"
  "keeps orders_frame (db_op d13 (load_admin uid))"
  "keeps orders_frame (db_op d14 (load_applies q))"
  by (rule ord.frame_db_op;
      auto simp: on_table_Inr orders_frame_def load_admin_def load_applies_def
        split: option.splits sum.splits)+

text \<open>Steps that do not touch the database.\<close>

lemma ord_modify:
  "(\<And>w. sv_db (f w) = sv_db w) \<Longrightarrow> keeps orders_frame (modify f)"
  by (rule ord.frame_modify) (simp add: orders_frame_def)

lemmas simple_steps = local_time_def gen_uuid_def draw_password_def numericM_def
  get_merchant_git_repo_def get_merchant_git_repo_ec_def this_client_def session_info_def
  this_user_def this_merchant_def baseurl_def wxpay_for_appid_def get_payurl_def

lemma ord_mark_payed:
  "keeps_from (\<lambda>db. order \<in> set (rows (t_order db))) orders_frame (order_mark_payed order seller)"
proof -
  have upd: "keeps_from (\<lambda>db. order \<in> set (rows (t_order db))) orders_frame
      (update_order (order\<lparr>o_payed_at := Some now\<rparr>))" for now
    by (rule keeps_from_weaken [OF ord_update_order]) (auto simp: order_evolves_def)
  show ?thesis
    unfolding order_mark_payed_def simple_steps
    by (intro ord.keeps_from_bind ord.keeps_from_then upd keeps_intros ord_modify) simp_all
qed

lemma ord_check_payment:
  "keeps_from (\<lambda>db. order \<in> set (rows (t_order db))) orders_frame (order_check_payment order seller)"
  unfolding order_check_payment_def simple_steps
  by (intro ord.keeps_from_bind keeps_from_cases ord_mark_payed keeps_intros
      ord.keeps_from_keeps)

lemma ord_wx_callback: "keeps orders_frame (handle_order_wx_callback msg)"
  unfolding handle_order_wx_callback_def
proof (rule ord_query_order_one)
  fix r
  let ?P = "\<lambda>db. r \<in> set (rows (t_order db)) \<and> o_oid r = nm_out_trade_no msg"
  have "keeps_from ?P orders_frame (update_order (r\<lparr>o_payed_at := Some (nm_success_time msg)\<rparr>))"
    by (rule keeps_from_weaken [OF ord_update_order]) (auto simp: order_evolves_def)
  then show "keeps_from ?P orders_frame
      (case Some r of None \<Rightarrow> ret False
       | Some payed_order \<Rightarrow>
           if nm_success msg then update_order (payed_order\<lparr>o_payed_at := Some (nm_success_time msg)\<rparr>)
           else ret False)"
    by (simp add: ord.keeps_from_keeps ord.frame_skip)
qed (simp add: ord.frame_skip)

section \<open>The notification of a payment\<close>

text \<open>A row of a well-formed order table is known by its key and by its number.\<close>

lemma order_row_unique:
  assumes "order_table_ok t" and "r \<in> set (rows t)" and "s \<in> set (rows t)"
  shows "(o_id s = o_id r) = (s = r)" "(o_oid s = o_oid r) = (s = r)"
proof -
  have "inj_on o_id (set (rows t))" "inj_on o_oid (set (rows t))"
    using assms(1) by (simp_all add: order_table_ok_def auto_ok_def table_ok_def distinct_map)
  then show "(o_id s = o_id r) = (s = r)" "(o_oid s = o_oid r) = (s = r)"
    using assms by (metis inj_on_contraD)+
qed

text \<open>(C5) The notification of WeChat Pay: an order with the notified number is marked as payed at the
  notified time and the handler returns true, and a notification that is not a success or names no
  order changes nothing and returns false.\<close>

theorem wx_callback_marks_payed:
  assumes "fault_free E" and "order_table_ok (t_order (sv_db w))"
  shows "\<exists>w'. handle_order_wx_callback msg E w =
      (Inr (nm_success msg \<and> (\<exists>r\<in>set (rows (t_order (sv_db w))). o_oid r = nm_out_trade_no msg)), w') \<and>
    (\<exists>now. rows (t_order (sv_db w')) =
       map (\<lambda>r. if nm_success msg \<and> o_oid r = nm_out_trade_no msg
                then r\<lparr>o_payed_at := Some (nm_success_time msg), o_updated_at := now\<rparr> else r)
         (rows (t_order (sv_db w))))"
proof (cases "List.find (\<lambda>r. o_oid r = nm_out_trade_no msg) (rows (t_order (sv_db w)))")
  case None
  then have no: "\<forall>r\<in>set (rows (t_order (sv_db w))). o_oid r \<noteq> nm_out_trade_no msg"
    by (simp add: find_None_iff)
  have "query_order_one (\<lambda>r. o_oid r = nm_out_trade_no msg) E w = (Inr None, w\<lparr>sv_ops := Suc (sv_ops w)\<rparr>)"
    using assms(1) None by (simp add: query_order_one_def db_op_ok on_table_def db_query_one_def odb_query_one_def)
  with no show ?thesis
    by (auto simp: handle_order_wx_callback_def bindM_Inr ret_def intro!: map_idI [symmetric])
next
  case (Some r)
  then have r: "r \<in> set (rows (t_order (sv_db w)))" "o_oid r = nm_out_trade_no msg"
    by (auto dest: find_SomeD)
  have q: "query_order_one (\<lambda>r. o_oid r = nm_out_trade_no msg) E w = (Inr (Some r), w\<lparr>sv_ops := Suc (sv_ops w)\<rparr>)"
    using assms(1) Some by (simp add: query_order_one_def db_op_ok on_table_def db_query_one_def odb_query_one_def)
  note same = order_row_unique [OF assms(2) r(1), unfolded r(2)]
  show ?thesis
  proof (cases "nm_success msg")
    case False
    then show ?thesis
      using q by (auto simp: handle_order_wx_callback_def bindM_Inr ret_def intro!: exI)
  next
    case True
    define now where "now = e_clock E (Suc (sv_ops w)) 0"
    have here: "odb_find o_id (o_id r) (t_order (sv_db w)) \<noteq> None"
      using r(1) by (auto simp: odb_find_def find_None_iff)
    have upd: "update_order (r\<lparr>o_payed_at := Some (nm_success_time msg)\<rparr>) E (w\<lparr>sv_ops := Suc (sv_ops w)\<rparr>) =
        (Inr True, w\<lparr>sv_db := (sv_db w)\<lparr>t_order := (t_order (sv_db w))\<lparr>rows :=
           map (\<lambda>s. if o_id s = o_id r then r\<lparr>o_payed_at := Some (nm_success_time msg), o_updated_at := now\<rparr> else s)
             (rows (t_order (sv_db w)))\<rparr>\<rparr>, sv_ops := Suc (Suc (sv_ops w))\<rparr>)"
      using assms(1) here
      by (simp add: update_order_def db_op_ok on_table_def db_update_def odb_update_def o_stamp_def now_def)
    have "map (\<lambda>s. if o_id s = o_id r then r\<lparr>o_payed_at := Some (nm_success_time msg), o_updated_at := now\<rparr> else s)
        (rows (t_order (sv_db w))) =
      map (\<lambda>s. if o_oid s = nm_out_trade_no msg
        then s\<lparr>o_payed_at := Some (nm_success_time msg), o_updated_at := now\<rparr> else s) (rows (t_order (sv_db w)))"
      using same by (intro map_cong) auto
    moreover have "handle_order_wx_callback msg E w =
        update_order (r\<lparr>o_payed_at := Some (nm_success_time msg)\<rparr>) E (w\<lparr>sv_ops := Suc (sv_ops w)\<rparr>)"
      using True by (simp add: handle_order_wx_callback_def bindM_def q)
    moreover have "\<exists>r\<in>set (rows (t_order (sv_db w))). o_oid r = nm_out_trade_no msg"
      using r by blast
    ultimately show ?thesis
      unfolding upd using True by (simp, intro exI [of _ now]) blast
  qed
qed

theorem wx_callback_marks_payed_witness:
  "\<exists>w'. handle_order_wx_callback \<lparr>nm_out_trade_no = ''o1'', nm_success = True, nm_success_time = 800\<rparr>
      sample_env sample_server = (Inr True, w') \<and>
    (\<exists>now. rows (t_order (sv_db w')) = [sample_order\<lparr>o_payed_at := Some 800, o_updated_at := now\<rparr>])"
  using wx_callback_marks_payed [of sample_env sample_server
      "\<lparr>nm_out_trade_no = ''o1'', nm_success = True, nm_success_time = 800\<rparr>"]
  by (simp add: order_table_ok_def auto_ok_def table_ok_def)

end
