(* ===== verification/Order_Api.thy ===== *)
theory Order_Api
  imports Order_Payment
begin

text \<open>
  The buyer's side of orders: \<^verbatim>\<open>handle_jsonrpc_order_api\<close> of
  \<^verbatim>\<open>cmall_impl/handle_jsonrpc_order_api.cpp\<close>, one definition per case of its switch.
\<close>

section \<open>Creating an order\<close>

text \<open>The search for the buyer's choice of one option among the options of the request. The
  accessors in the predicate of \<^verbatim>\<open>find_if\<close> throw on malformed elements before the match.\<close>

fun find_option :: "string \<Rightarrow> json list \<Rightarrow> json_object option result" where
  "find_option title [] = Inr None"
| "find_option title (v # vs) =
     (case as_object v of
        Inl e \<Rightarrow> Inl e
      | Inr ob \<Rightarrow>
          (case obj_at ob ''option'' of
             Inl e \<Rightarrow> Inl e
           | Inr t \<Rightarrow>
               (case as_string t of
                  Inl e \<Rightarrow> Inl e
                | Inr s \<Rightarrow> (if s = title then Inr (Some ob) else find_option title vs))))"

text \<open>The loop over the options of a goods: the price grows by the price of the selection, the
  selection string by \<^verbatim>\<open>option:select;\<close>.\<close>

fun pick_options :: "json list \<Rightarrow> product_option list \<Rightarrow> cpp_numeric \<Rightarrow> string \<Rightarrow> (cpp_numeric \<times> string) result" where
  "pick_options chosen [] price sel = Inr (price, sel)"
| "pick_options chosen (opt # opts) price sel =
     (case find_option (option_title opt) chosen of
        Inl e \<Rightarrow> Inl e
      | Inr None \<Rightarrow> Inl (System_error good_option_invalid)
      | Inr (Some ob) \<Rightarrow>
          (case obj_at ob ''select'' of
             Inl e \<Rightarrow> Inl e
           | Inr v \<Rightarrow>
               (case List.find (\<lambda>s. selection_name s = json_as_string v []) (po_selections opt) of
                  None \<Rightarrow> Inl (System_error good_option_invalid)
                | Some s \<Rightarrow>
                    pick_options chosen opts (price + selection_price s)
                      (sel @ print_selection_item
                         \<lparr>si_option = option_title opt, si_select = selection_name s\<rparr>))))"

definition priced_selection :: "product \<Rightarrow> json list \<Rightarrow> cpp_numeric \<Rightarrow> (cpp_numeric \<times> string) result" where
  "priced_selection p chosen price =
     (if options p = [] then Inr (price, [])
      else if length chosen \<noteq> length (options p) then Inl (System_error good_option_needed)
      else pick_options chosen (options p) price [])"

text \<open>The locals of the loop over the goods: the order, the totals and the cache of merchants.\<close>

record order_acc =
  oa_order :: cmall_order
  oa_price :: cpp_numeric
  oa_kuaidifei :: cpp_numeric
  oa_cache :: "(u64 \<times> cmall_merchant) list"

text \<open>The cache of the handlers: a miss loads the merchant, a missing merchant is not cached.\<close>

definition cached_merchant ::
  "u64 \<Rightarrow> (u64 \<times> cmall_merchant) list \<Rightarrow> (cmall_merchant option \<times> (u64 \<times> cmall_merchant) list) M" where
  "cached_merchant mid cache =
     (case map_of cache mid of
        Some m \<Rightarrow> ret (Some m, cache)
      | None \<Rightarrow>
          bindM (load_merchant mid) (\<lambda>r.
          (case r of None \<Rightarrow> ret (None, cache) | Some m \<Rightarrow> ret (Some m, (mid, m) # cache))))"

text \<open>One goods of a normal merchant enters the order.\<close>

definition good_snap :: "int \<Rightarrow> product \<Rightarrow> cpp_numeric \<Rightarrow> string \<Rightarrow> goods_snapshot" where
  "good_snap mid p price sel =
     \<lparr>gs_merchant_id = u64_of mid, gs_goods_id = product_id p, gs_name = product_title p,
      gs_price = price, gs_description = product_description p,
      gs_good_version_git = git_version p, gs_selection = sel\<rparr>"

definition add_goods :: "int \<Rightarrow> product \<Rightarrow> cpp_numeric \<Rightarrow> string \<Rightarrow> cpp_numeric \<Rightarrow> order_acc \<Rightarrow> order_acc" where
  "add_goods mid p price sel fee acc =
     acc\<lparr>oa_order := (oa_order acc)
           \<lparr>o_seller := (if o_seller (oa_order acc) = 0 then u64_of mid else o_seller (oa_order acc)),
            o_snap_git_version := git_version p,
            o_bought_goods := o_bought_goods (oa_order acc) @ [good_snap mid p price sel]\<rparr>,
         oa_price := oa_price acc + price,
         oa_kuaidifei := oa_kuaidifei acc + fee\<rparr>"

definition order_goods :: "int \<Rightarrow> string \<Rightarrow> json list \<Rightarrow> cmall_merchant \<Rightarrow> order_acc \<Rightarrow> order_acc M" where
  "order_goods mid goods_id chosen m acc =
     bindM (get_merchant_git_repo (u64_of mid)) (\<lambda>repo.
     bindM baseurl (\<lambda>base.
     bindM (asks e_num) (\<lambda>num.
     bindM (liftR (get_product_throw num repo goods_id (m_name m) base)) (\<lambda>product.
     bindM (require (o_seller (oa_order acc) = 0 \<or> sint (o_seller (oa_order acc)) = mid)
       should_be_same_merchant) (\<lambda>_.
     bindM (numericM (product_price product)) (\<lambda>base_price.
     bindM (liftR (priced_selection product chosen base_price)) (\<lambda>(price, sel).
     bindM (if pr_kuaidifei product = [] then ret 0 else numericM (pr_kuaidifei product)) (\<lambda>fee.
     ret (add_goods mid product price sel fee acc)))))))))"

definition order_item :: "json \<Rightarrow> order_acc \<Rightarrow> order_acc M" where
  "order_item goods_v acc =
     bindM (liftR (as_object goods_v)) (\<lambda>goods_ref.
     bindM (liftR (as_int64 (obj_index goods_ref ''merchant_id''))) (\<lambda>mid.
     bindM (liftR (as_string (obj_index goods_ref ''goods_id''))) (\<lambda>goods_id.
     bindM (if contains goods_ref ''options'' then liftR (as_array (obj_index goods_ref ''options''))
            else ret []) (\<lambda>chosen.
     bindM (cached_merchant (u64_of mid) (oa_cache acc)) (\<lambda>(mo, cache).
     (case mo of
        None \<Rightarrow> ret acc
      | Some m \<Rightarrow>
          if m_state m = Merchant_normal then order_goods mid goods_id chosen m (acc\<lparr>oa_cache := cache\<rparr>)
          else ret (acc\<lparr>oa_cache := cache\<rparr>)))))))"

definition reload_user_info :: "cmall_user M" where
  "reload_user_info =
     bindM session_info (\<lambda>s.
     bindM (deref (cs_user_info s)) (\<lambda>u.
     bindM (load_user (u_uid u)) (\<lambda>r.
     (case r of
        None \<Rightarrow> ret u
      | Some u' \<Rightarrow> bindM (set_session (s\<lparr>cs_user_info := Some u'\<rparr>)) (\<lambda>_. ret u')))))"

definition add_order :: "cmall_order \<Rightarrow> cmall_order option M" where
  "add_order r = db_op None (on_table t_order t_order_update
     (db_add_auto (\<lambda>i r. r\<lparr>o_id := i\<rparr>) order_clash r))"

definition start_order :: "ptime \<Rightarrow> cmall_user \<Rightarrow> int \<Rightarrow> string \<Rightarrow> order_acc" where
  "start_order now user_info rid oid =
     \<lparr>oa_order = (new_cmall_order now)
        \<lparr>o_recipient := [u_recipients user_info ! nat rid], o_buyer := u_uid user_info, o_oid := oid,
         o_stage := Order_unpay, o_seller := 0\<rparr>,
      oa_price = 0, oa_kuaidifei = 0, oa_cache = []\<rparr>"

definition close_order :: "order_acc \<Rightarrow> cmall_order" where
  "close_order acc = (oa_order acc)\<lparr>o_price := oa_price acc, o_kuaidifei := oa_kuaidifei acc\<rparr>"

definition order_create :: "json_object \<Rightarrow> json_object M" where
  "order_create params =
     bindM reload_user_info (\<lambda>user_info.
     bindM (liftR (as_array (json_get params ''goods'' (JArr [])))) (\<lambda>goods.
     bindM (liftR (as_int64 (json_get params ''recipient_id'' (JInt (-1))))) (\<lambda>rid.
     bindM (require (0 \<le> rid \<and> rid < int (length (u_recipients user_info))) recipient_id_out_of_range) (\<lambda>_.
     bindM local_time (\<lambda>now.
     bindM gen_uuid (\<lambda>oid.
     bindM (foldM order_item goods (start_order now user_info rid oid)) (\<lambda>acc.
     bindM (add_order (close_order acc)) (\<lambda>_.
     ret (reply (JObj [(''orderid'', JStr oid)]))))))))))"

section \<open>Reading orders\<close>

definition order_detail :: "json_object \<Rightarrow> json_object M" where
  "order_detail params =
     bindM this_user (\<lambda>u.
     bindM (query_orders (\<lambda>r. o_oid r = get_string params ''orderid'' \<and> o_buyer r = u_uid u \<and>
       o_deleted_at r = None)) (\<lambda>orders.
     (case orders of
        [r] \<Rightarrow> bindM (asks (\<lambda>E. json_of_order E r)) (\<lambda>v. ret (reply v))
      | _ \<Rightarrow> fail order_not_found)))"

definition status_filter :: "string \<Rightarrow> cmall_order \<Rightarrow> bool" where
  "status_filter status r \<longleftrightarrow>
     (status = ''unpay'' \<longrightarrow> o_payed_at r = None) \<and>
     (status = ''payed'' \<longrightarrow> o_payed_at r \<noteq> None) \<and>
     (status = ''closed'' \<longrightarrow> o_close_at r \<noteq> None)"

text \<open>\<^verbatim>\<open>page * page_size\<close> in signed 64-bit arithmetic.\<close>

definition mul_int64 :: "int \<Rightarrow> int \<Rightarrow> int result" where
  "mul_int64 a b = (if int64_range (a * b) then Inr (a * b) else Inl Undefined)"

definition list_orders :: "json_object \<Rightarrow> (cmall_order \<Rightarrow> bool) \<Rightarrow> json_object M" where
  "list_orders params mine =
     bindM (liftR (as_int64 (json_get params ''page'' (JInt 0)))) (\<lambda>page.
     bindM (liftR (as_int64 (json_get params ''page_size'' (JInt 20)))) (\<lambda>page_size.
     (let q = (\<lambda>r. mine r \<and> o_deleted_at r = None \<and> status_filter (get_string params ''status'') r)
      in bindM (query_orders q) (\<lambda>counted.
         bindM (liftR (mul_int64 page page_size)) (\<lambda>_.
         bindM (db_op [] (on_table t_order t_order_update (db_query_page o_created_at page page_size q))) (\<lambda>orders.
         bindM (asks (\<lambda>E. JArr (map (json_of_order E) orders))) (\<lambda>v.
         ret (reply (JObj [(''orders'', v), (''count'', JUint (word_of_nat (length counted)))])))))))))"

definition order_list :: "json_object \<Rightarrow> json_object M" where
  "order_list params = bindM this_user (\<lambda>u. list_orders params (\<lambda>r. o_buyer r = u_uid u))"

section \<open>Paying\<close>

text \<open>The lookup the payment handlers share: deleted orders are found as well.\<close>

definition order_to_pay :: "string \<Rightarrow> cmall_order M" where
  "order_to_pay orderid =
     bindM this_user (\<lambda>u.
     bindM (query_order_one (\<lambda>r. o_oid r = orderid \<and> o_buyer r = u_uid u)) (\<lambda>r.
     (case r of None \<Rightarrow> fail order_not_found | Some x \<Rightarrow> ret x)))"

definition first_goods :: "cmall_order \<Rightarrow> goods_snapshot result" where
  "first_goods r = (case o_bought_goods r of [] \<Rightarrow> Inl Undefined | g # _ \<Rightarrow> Inr g)"

definition single_merchant :: "cmall_order \<Rightarrow> unit M" where
  "single_merchant r =
     bindM (liftR (is_sigle_merchant_order r)) (\<lambda>b. require b combile_order_not_supported)"

definition order_get_paymethods :: "json_object \<Rightarrow> json_object M" where
  "order_get_paymethods params =
     bindM (order_to_pay (get_string params ''orderid'')) (\<lambda>r.
     bindM (single_merchant r) (\<lambda>_.
     bindM (liftR (first_goods r)) (\<lambda>g.
     bindM (get_merchant_git_repo (gs_merchant_id g)) (\<lambda>repo.
     bindM (asks e_ini) (\<lambda>ini.
     bindM (liftR (get_supported_payment ini repo)) (\<lambda>methods.
     bindM (require (methods \<noteq> []) merchant_has_no_payments_supported) (\<lambda>_.
     ret (reply (JArr (map JStr methods))))))))))"

definition order_get_pay_url :: "json_object \<Rightarrow> json_object M" where
  "order_get_pay_url params =
     bindM (order_to_pay (get_string params ''orderid'')) (\<lambda>r.
     bindM (single_merchant r) (\<lambda>_.
     bindM (liftR (first_goods r)) (\<lambda>g.
     bindM (get_merchant_git_repo (gs_merchant_id g)) (\<lambda>repo.
     bindM (liftR (get_file_content repo ''scripts/getpayurl.js'')) (\<lambda>(script, ec).
     bindM (asks (\<lambda>E. e_num_str E (o_price r + o_kuaidifei r))) (\<lambda>amount.
     bindM (get_payurl script (get_string params ''orderid'') amount (get_string params ''payment'')) (\<lambda>url.
     ret (reply (JObj [(''type'', JStr ''url''), (''url'', JStr url)])))))))))"

definition order_get_wxpay_prepay_id :: "json_object \<Rightarrow> json_object M" where
  "order_get_wxpay_prepay_id params =
     bindM (order_to_pay (get_string params ''orderid'')) (\<lambda>r.
     bindM (liftR (first_goods r)) (\<lambda>g.
     bindM (single_merchant r) (\<lambda>_.
     bindM (load_merchant (gs_merchant_id g)) (\<lambda>mo.
     (case mo of
        None \<Rightarrow> fail merchant_vanished
      | Some m \<Rightarrow>
          (case m_exinfo_wx_mchid m of
             None \<Rightarrow> fail merchant_does_not_support_microapp_wxpay
           | Some mchid \<Rightarrow>
               bindM (wxpay_for_appid (get_string params ''wx_microapp_appid'')) (\<lambda>cfg.
               bindM (external (\<lambda>E n. e_wx_prepay E n cfg mchid (get_string params ''orderid'')
                 (o_price r + o_kuaidifei r) (gs_description g) (get_string params ''payer_openid''))) (\<lambda>prepay_id.
               bindM (require (prepay_id \<noteq> []) wxpay_server_error) (\<lambda>_.
               ret (reply (JStr prepay_id))))))))))) "

definition order_get_wxpay_object :: "json_object \<Rightarrow> json_object M" where
  "order_get_wxpay_object params =
     bindM (wxpay_for_appid (get_string params ''wx_microapp_appid'')) (\<lambda>cfg.
     bindM (external (\<lambda>E n. e_wx_pay_object E n cfg (get_string params ''prepay_id''))) (\<lambda>v.
     ret (reply v)))"

definition order_check_payment_api :: "json_object \<Rightarrow> json_object M" where
  "order_check_payment_api params =
     bindM this_user (\<lambda>u.
     bindM (query_orders (\<lambda>r. o_oid r = get_string params ''orderid'' \<and> o_buyer r = u_uid u \<and>
       o_deleted_at r = None)) (\<lambda>orders.
     (case orders of
        [r] \<Rightarrow>
          if o_payed_at r = None then
            bindM (load_merchant (o_seller r)) (\<lambda>mo.
            (case mo of
               None \<Rightarrow> ret (reply (JBool False))
             | Some m \<Rightarrow> bindM (order_check_payment r m) (\<lambda>b. ret (reply (JBool b)))))
          else ret (reply (JBool True))
      | _ \<Rightarrow> fail order_not_found)))"

text \<open>\<^verbatim>\<open>order_close\<close> has an empty body.\<close>

definition order_close :: "json_object \<Rightarrow> json_object M" where
  "order_close params = ret []"

lemmas order_api_defs = order_create_def order_detail_def order_list_def order_get_paymethods_def
  order_get_pay_url_def order_get_wxpay_prepay_id_def order_get_wxpay_object_def
  order_check_payment_api_def order_close_def

section \<open>The order table under these handlers\<close>

lemma reads_only:
  "keeps (same sv_db) (load_user uid)" "keeps (same sv_db) (load_merchant uid)"
  "keeps (same sv_db) (query_orders p)" "keeps (same sv_db) (query_order_one p)"
  "keeps (same sv_db) (db_op [] (on_table t_order t_order_update (db_query_page o_created_at pg ps p)))"
  unfolding load_user_def load_merchant_def query_orders_def query_order_one_def
  by (rule on_table_read; simp add: db_read_defs db_query_page_def split: if_splits)+

lemma load_administrator_reads: "keeps (same sv_db) (load_administrator uid)"
  unfolding load_administrator_def
  by (rule db_same_read) (simp add: load_admin_def split: option.splits sum.splits)

lemma frame_session_steps [keeps_intros]:
  "keeps (same sv_db) (set_session s)" "keeps orders_frame (set_session s)"
  unfolding set_session_def by (simp_all add: db_same_modify ord_modify)

lemma db_same_to_ord: "keeps (same sv_db) m \<Longrightarrow> keeps orders_frame m"
  by (erule keeps_mono) (simp add: same_def orders_frame_def)

lemma create_reads:
  "keeps (same sv_db) reload_user_info" "keeps (same sv_db) (order_item v acc)"
  unfolding reload_user_info_def order_item_def cached_merchant_def order_goods_def simple_steps
  by (intro keeps_intros reads_only)+

lemma ord_api [keeps_intros]:
  "keeps orders_frame (order_create params)" "keeps orders_frame (order_detail params)"
  "keeps orders_frame (order_list params)" "keeps orders_frame (order_get_paymethods params)"
  "keeps orders_frame (order_get_pay_url params)"
  "keeps orders_frame (order_get_wxpay_prepay_id params)"
  "keeps orders_frame (order_get_wxpay_object params)"
  "keeps orders_frame (order_close params)"
  unfolding order_api_defs add_order_def order_to_pay_def single_merchant_def list_orders_def simple_steps
  by (intro keeps_intros ord_order_add db_same_to_ord [OF reads_only(1)] db_same_to_ord [OF reads_only(2)]
      db_same_to_ord [OF reads_only(3)] db_same_to_ord [OF reads_only(4)]
      db_same_to_ord [OF reads_only(5)] db_same_to_ord [OF create_reads(1)]
      db_same_to_ord [OF create_reads(2)])+

text \<open>The common shape: one order is looked up and worked on.\<close>

lemma ord_single_order:
  assumes "\<And>r. keeps_from (\<lambda>db. r \<in> set (rows (t_order db))) orders_frame (f r)"
  shows "keeps orders_frame (bindM (query_orders p) (\<lambda>orders.
    (case orders of [r] \<Rightarrow> f r | _ \<Rightarrow> fail c)))"
proof (rule ord_query_orders)
  fix rs
  let ?P = "\<lambda>db. \<forall>r\<in>set rs. r \<in> set (rows (t_order db)) \<and> p r"
  have "keeps_from ?P orders_frame (f r)" if "rs = [r]" for r
    by (rule keeps_from_weaken [OF assms]) (simp add: that)
  then show "keeps_from ?P orders_frame (case rs of [r] \<Rightarrow> f r | _ \<Rightarrow> fail c)"
    by (simp add: ord.keeps_from_keeps ord.frame_skip split: list.split)
qed

lemma ord_check_payment_api [keeps_intros]: "keeps orders_frame (order_check_payment_api params)"
proof -
  have "keeps_from (\<lambda>db. r \<in> set (rows (t_order db))) orders_frame
     (if o_payed_at r = None then
        bindM (load_merchant (o_seller r)) (\<lambda>mo.
        (case mo of
           None \<Rightarrow> ret (reply (JBool False))
         | Some m \<Rightarrow> bindM (order_check_payment r m) (\<lambda>b. ret (reply (JBool b)))))
      else ret (reply (JBool True)))" for r
    by (intro keeps_from_cases ord.keeps_from_bind [OF reads_only(2)] db_same_to_ord [OF reads_only(2)]
        ord.keeps_from_then [OF ord_check_payment] ord.keeps_from_keeps keeps_intros)
  then show ?thesis
    unfolding order_check_payment_api_def simple_steps
    by (intro keeps_intros ord_single_order)
qed

section \<open>What a created order contains\<close>

text \<open>A goods of the order is the product the merchant's repository holds at its head, priced
  with the selected options.\<close>

definition snapshot_of :: "env \<Rightarrow> (u64 \<times> git_repo) list \<Rightarrow> goods_snapshot \<Rightarrow> bool" where
  "snapshot_of E repos g \<longleftrightarrow>
     (\<exists>repo gid name base p q chosen.
        map_of repos (gs_merchant_id g) = Some repo \<and>
        get_product_throw (e_num E) repo gid name base = Inr p \<and>
        e_num E (product_price p) = Some q \<and>
        priced_selection p chosen q = Inr (gs_price g, gs_selection g) \<and>
        gs_goods_id g = product_id p \<and> gs_name g = product_title p \<and>
        gs_description g = product_description p \<and> gs_good_version_git g = git_version p)"

text \<open>The invariant of the loop over the goods; \<open>o0\<close> is the order before the loop.\<close>

definition order_acc_ok :: "env \<Rightarrow> (u64 \<times> git_repo) list \<Rightarrow> cmall_order \<Rightarrow> order_acc \<Rightarrow> bool" where
  "order_acc_ok E repos o0 acc \<longleftrightarrow>
     oa_price acc = sum_list (map gs_price (o_bought_goods (oa_order acc))) \<and>
     (\<forall>g\<in>set (o_bought_goods (oa_order acc)).
        gs_merchant_id g = o_seller (oa_order acc) \<and> snapshot_of E repos g) \<and>
     (o_bought_goods (oa_order acc) \<noteq> [] \<longrightarrow> o_seller (oa_order acc) \<noteq> 0) \<and>
     (\<forall>(k, m)\<in>set (oa_cache acc). k \<noteq> 0) \<and>
     oa_order acc = o0\<lparr>o_seller := o_seller (oa_order acc),
       o_snap_git_version := o_snap_git_version (oa_order acc),
       o_bought_goods := o_bought_goods (oa_order acc)\<rparr>"

definition read_frame :: "server \<Rightarrow> database \<times> (u64 \<times> git_repo) list" where
  "read_frame w = (sv_db w, sv_repos w)"

interpretation rd: server_frame "same read_frame"
  by unfold_locales (simp_all add: same_def read_frame_def)

lemma rd_db_read:
  assumes "\<And>now db x db'. body now db = Inr (x, db') \<Longrightarrow> db' = db"
  shows "keeps (same read_frame) (db_op d body)"
  using assms by (rule rd.frame_db_read)

lemma rd_load_merchant: "keeps (same read_frame) (load_merchant mid)"
  unfolding load_merchant_def
  by (rule rd_db_read) (auto simp: on_table_Inr db_get_def)

lemma rd_order_item: "keeps (same read_frame) (order_item v acc)"
  unfolding order_item_def cached_merchant_def order_goods_def simple_steps
  by (intro keeps_intros rd_load_merchant)

lemma u64_of_sint: "u64_of (sint x) = x"
  by (simp add: u64_of_def)

lemma order_goods_ok:
  assumes run: "order_goods mid gid chosen m acc E w = (Inr acc', w')"
    and ok: "order_acc_ok E repos o0 acc" and repos: "sv_repos w = repos" and mid: "u64_of mid \<noteq> 0"
  shows "order_acc_ok E repos o0 acc'"
proof -
  from run obtain repo base p q price sel fee where
    repo: "map_of (sv_repos w) (u64_of mid) = Some repo" and
    p: "get_product_throw (e_num E) repo gid (m_name m) base = Inr p" and
    same_m: "o_seller (oa_order acc) = 0 \<or> sint (o_seller (oa_order acc)) = mid" and
    q: "e_num E (product_price p) = Some q" and
    sel: "priced_selection p chosen q = Inr (price, sel)" and
    acc': "acc' = add_goods mid p price sel fee acc"
    unfolding order_goods_def get_merchant_git_repo_def baseurl_def this_client_def numericM_def deref_def
    by (auto elim!: bindM_InrE split: option.splits if_splits)
  have seller: "(if o_seller (oa_order acc) = 0 then u64_of mid else o_seller (oa_order acc)) = u64_of mid"
    using same_m u64_of_sint by force
  have old: "gs_merchant_id g = u64_of mid" if "g \<in> set (o_bought_goods (oa_order acc))" for g
    using ok that seller by (auto simp: order_acc_ok_def split: if_splits)
  let ?g = "good_snap mid p price sel"
  have snap: "snapshot_of E repos ?g"
    unfolding snapshot_of_def
    by (intro exI [of _ repo] exI [of _ gid] exI [of _ "m_name m"] exI [of _ base] exI [of _ p]
        exI [of _ q] exI [of _ chosen]) (simp add: repo [unfolded repos] p q sel good_snap_def)
  have eq: "oa_order acc = o0\<lparr>o_seller := o_seller (oa_order acc),
       o_snap_git_version := o_snap_git_version (oa_order acc),
       o_bought_goods := o_bought_goods (oa_order acc)\<rparr>"
    using ok by (simp add: order_acc_ok_def)
  have frame: "oa_order acc' = o0\<lparr>o_seller := u64_of mid, o_snap_git_version := git_version p,
      o_bought_goods := o_bought_goods (oa_order acc) @ [?g]\<rparr>"
    unfolding acc' add_goods_def seller by (subst eq) simp
  have "oa_price acc' = sum_list (map gs_price (o_bought_goods (oa_order acc'))) \<and> oa_cache acc' = oa_cache acc"
    using ok unfolding frame by (simp add: acc' add_goods_def order_acc_ok_def good_snap_def)
  moreover have "\<forall>g\<in>set (o_bought_goods (oa_order acc')). gs_merchant_id g = u64_of mid \<and> snapshot_of E repos g"
    using ok old snap unfolding frame by (simp add: order_acc_ok_def good_snap_def)
  ultimately show ?thesis
    using ok mid unfolding order_acc_ok_def by (simp add: frame)
qed

lemma cached_merchant_run:
  assumes "cached_merchant mid cache E w = (Inr (mo, cache'), w')"
    and "odb_find m_uid 0 (t_merchant (sv_db w)) = None"
    and "\<forall>(k, m)\<in>set cache. k \<noteq> 0"
  shows "\<forall>(k, m)\<in>set cache'. k \<noteq> 0" and "mo \<noteq> None \<Longrightarrow> mid \<noteq> 0"
proof -
  have "(\<forall>(k, m)\<in>set cache'. k \<noteq> 0) \<and> (mo \<noteq> None \<longrightarrow> mid \<noteq> 0)"
  proof (cases "map_of cache mid")
    case (Some m)
    then have "(mid, m) \<in> set cache" by (rule map_of_SomeD)
    with Some assms show ?thesis by (auto simp: cached_merchant_def)
  next
    case None
    with assms(1) obtain r w1 where r: "load_merchant mid E w = (Inr r, w1)"
      and res: "(mo, cache') = (case r of None \<Rightarrow> (None, cache) | Some m \<Rightarrow> (Some m, (mid, m) # cache))"
      by (auto simp: cached_merchant_def elim!: bindM_InrE split: option.splits)
    from r have "r = odb_find m_uid mid (t_merchant (sv_db w))"
      unfolding load_merchant_def by (cases rule: db_op_cases) (auto simp: on_table_Inr db_get_def)
    with assms(2) have "r \<noteq> None \<Longrightarrow> mid \<noteq> 0" by auto
    with res assms(3) show ?thesis by (cases r) auto
  qed
  then show "\<forall>(k, m)\<in>set cache'. k \<noteq> 0" and "mo \<noteq> None \<Longrightarrow> mid \<noteq> 0" by blast+
qed

lemma order_acc_ok_cache:
  "order_acc_ok E repos o0 acc \<Longrightarrow> \<forall>(k, m)\<in>set cache. k \<noteq> 0 \<Longrightarrow>
   order_acc_ok E repos o0 (acc\<lparr>oa_cache := cache\<rparr>)"
  by (simp add: order_acc_ok_def)

lemma order_item_ok:
  assumes run: "order_item v acc E w = (Inr acc', w')" and ok: "order_acc_ok E repos o0 acc"
    and w: "read_frame w = (db, repos)" and zero: "odb_find m_uid 0 (t_merchant db) = None"
  shows "order_acc_ok E repos o0 acc'"
proof -
  from run obtain mid gid chosen mo cache w1 where
    c: "cached_merchant (u64_of mid) (oa_cache acc) E w = (Inr (mo, cache), w1)" and
    rest: "(case mo of
        None \<Rightarrow> ret acc
      | Some m \<Rightarrow>
          if m_state m = Merchant_normal then order_goods mid gid chosen m (acc\<lparr>oa_cache := cache\<rparr>)
          else ret (acc\<lparr>oa_cache := cache\<rparr>)) E w1 = (Inr acc', w')"
    unfolding order_item_def by (auto elim!: bindM_InrE split: if_splits)
  have old: "\<forall>(k, m)\<in>set (oa_cache acc). k \<noteq> 0"
    using ok by (simp add: order_acc_ok_def)
  have zero': "odb_find m_uid 0 (t_merchant (sv_db w)) = None" and repos: "sv_repos w = repos"
    using w zero by (simp_all add: read_frame_def)
  note cache = cached_merchant_run [OF c zero' old]
  note ok' = order_acc_ok_cache [OF ok cache(1)]
  have "keeps (same read_frame) (cached_merchant (u64_of mid) (oa_cache acc))"
    unfolding cached_merchant_def by (intro keeps_intros rd_load_merchant)
  from keepsD [OF this c] have "sv_repos w1 = repos"
    using repos by (simp add: same_def read_frame_def)
  with rest ok ok' cache(2) show ?thesis
    by (auto split: option.splits if_splits intro: order_goods_ok)
qed

text \<open>The user a connection acts for, as the database knows it.\<close>

definition acting_user :: "server \<Rightarrow> cmall_user option" where
  "acting_user w = (case cc_session (sv_client w) of None \<Rightarrow> None | Some s \<Rightarrow> cs_user_info s)"

definition fresh_user :: "server \<Rightarrow> cmall_user \<Rightarrow> cmall_user" where
  "fresh_user w u = (case odb_find u_uid (u_uid u) (t_user (sv_db w)) of None \<Rightarrow> u | Some u' \<Rightarrow> u')"

lemma load_user_run:
  "load_user uid E w = (Inr r, w') \<Longrightarrow>
   r = odb_find u_uid uid (t_user (sv_db w)) \<and> sv_db w' = sv_db w \<and> sv_repos w' = sv_repos w \<and>
   sv_client w' = sv_client w"
  unfolding load_user_def
  by (erule db_op_cases) (auto simp: on_table_Inr db_get_def dest: arg_cong [where f = sv_repos] arg_cong [where f = sv_client])

lemma reload_user_info_run:
  assumes "reload_user_info E w = (Inr u, w')"
  shows "\<exists>u0. acting_user w = Some u0 \<and> u = fresh_user w u0 \<and> read_frame w' = read_frame w"
proof -
  from assms obtain s u0 r w1 where s: "cc_session (sv_client w) = Some s" "cs_user_info s = Some u0"
    and l: "load_user (u_uid u0) E w = (Inr r, w1)"
    and u: "u = (case r of None \<Rightarrow> u0 | Some u' \<Rightarrow> u')" and w': "read_frame w' = read_frame w1"
    unfolding reload_user_info_def session_info_def this_client_def deref_def set_session_def
    by (auto elim!: bindM_InrE simp: modify_def read_frame_def split: option.splits)
  from load_user_run [OF l] s u w' show ?thesis
    by (simp add: acting_user_def fresh_user_def read_frame_def)
qed

lemma add_order_run:
  assumes "add_order r E w = (Inr x, w')"
  shows "\<exists>i t. sv_db w' = t_order_update (\<lambda>_. t) (sv_db w) \<and> rows t = rows (t_order (sv_db w)) @ [r\<lparr>o_id := i\<rparr>]"
proof -
  from assms obtain now where
    "on_table t_order t_order_update (db_add_auto (\<lambda>i r. r\<lparr>o_id := i\<rparr>) order_clash r) now (sv_db w) = Inr (x, sv_db w')"
    unfolding add_order_def by (cases rule: db_op_cases) auto
  then obtain r' t where t: "odb_persist_auto (\<lambda>i r. r\<lparr>o_id := i\<rparr>) order_clash r (t_order (sv_db w)) = Inr (r', t)"
    and db: "sv_db w' = t_order_update (\<lambda>_. t) (sv_db w)"
    by (auto simp: on_table_Inr db_add_auto_def split: sum.splits)
  from t have "rows t = rows (t_order (sv_db w)) @ [r\<lparr>o_id := sequence (t_order (sv_db w))\<rparr>]"
    by (auto simp: odb_persist_auto_def Let_def split: if_splits)
  with db show ?thesis by blast
qed

text \<open>The order a successful creation leaves behind: for the acting user and the chosen recipient,
  unpayed, all goods from one seller with the prices of its repository, and their sum as its price.\<close>

definition order_for :: "env \<Rightarrow> server \<Rightarrow> cmall_user \<Rightarrow> int \<Rightarrow> cmall_order \<Rightarrow> bool" where
  "order_for E w u rid r \<longleftrightarrow>
     0 \<le> rid \<and> nat rid < length (u_recipients u) \<and>
     o_buyer r = u_uid u \<and> o_recipient r = [u_recipients u ! nat rid] \<and>
     o_stage r = Order_unpay \<and> o_payed_at r = None \<and> o_close_at r = None \<and> o_deleted_at r = None \<and>
     o_price r = sum_list (map gs_price (o_bought_goods r)) \<and>
     (\<forall>g\<in>set (o_bought_goods r). gs_merchant_id g = o_seller r \<and> snapshot_of E (sv_repos w) g)"

text \<open>(C4) A successful \<^verbatim>\<open>order_create_cart\<close> or \<^verbatim>\<open>order_create_direct\<close> appends exactly one order
  and changes nothing else in the database; the order is for the acting user and one of his stored
  recipients, is unpayed, holds goods of one seller at the prices of the seller's repository, costs
  their sum, and its id is the one in the reply. No merchant has the uid 0, which the handler uses as
  the mark of a seller not yet known.\<close>

theorem order_create_run:
  assumes run: "order_create params E w = (Inr rep, w')"
    and zero: "odb_find m_uid 0 (t_merchant (sv_db w)) = None"
  shows "\<exists>u0 rid r t.
    acting_user w = Some u0 \<and> as_int64 (json_get params ''recipient_id'' (JInt (-1))) = Inr rid \<and>
    order_for E w (fresh_user w u0) rid r \<and>
    sv_db w' = (sv_db w)\<lparr>t_order := t\<rparr> \<and> rows t = rows (t_order (sv_db w)) @ [r] \<and>
    rep = reply (JObj [(''orderid'', JStr (o_oid r))])"
proof -
  from run obtain u goods rid w1 n w3 now oid acc x where
    rep: "rep = reply (JObj [(''orderid'', JStr oid)])" and
    u: "reload_user_info E w = (Inr u, w1)" and
    fold: "foldM order_item goods (start_order now u rid oid) E (w1\<lparr>sv_ops := n\<rparr>) = (Inr acc, w3)" and
    add: "add_order (close_order acc) E w3 = (Inr x, w')" and
    rid: "as_int64 (json_get params ''recipient_id'' (JInt (-1))) = Inr rid"
      "0 \<le> rid" "rid < int (length (u_recipients u))"
    unfolding order_create_def local_time_def gen_uuid_def external_def
    by (auto elim!: bindM_InrE)
  from reload_user_info_run [OF u] obtain u0 where u0: "acting_user w = Some u0" "u = fresh_user w u0"
    and rf2: "read_frame (w1\<lparr>sv_ops := n\<rparr>) = (sv_db w, sv_repos w)" by (auto simp: read_frame_def)
  let ?o = "oa_order (start_order now u rid oid)"
  have ok: "order_acc_ok E (sv_repos w) ?o acc"
  proof (rule foldM_invariant [OF fold _ rf2 rd_order_item])
    show "order_acc_ok E (sv_repos w) ?o (start_order now u rid oid)"
      by (simp add: order_acc_ok_def start_order_def new_cmall_order_def)
  qed (use zero in \<open>blast intro: order_item_ok\<close>)
  have "keeps (same read_frame) (foldM order_item goods a)" for a
    by (intro keeps_intros rd_order_item)
  from keepsD [OF this fold] rf2 have db3: "sv_db w3 = sv_db w"
    by (simp add: same_def read_frame_def)
  from add_order_run [OF add] db3 obtain i t where
    t: "sv_db w' = (sv_db w)\<lparr>t_order := t\<rparr>" "rows t = rows (t_order (sv_db w)) @ [(close_order acc)\<lparr>o_id := i\<rparr>]"
    by auto
  have eq: "oa_order acc = ?o\<lparr>o_seller := o_seller (oa_order acc),
       o_snap_git_version := o_snap_git_version (oa_order acc),
       o_bought_goods := o_bought_goods (oa_order acc)\<rparr>"
    using ok by (simp add: order_acc_ok_def)
  have fields: "o_buyer (oa_order acc) = u_uid u" "o_recipient (oa_order acc) = [u_recipients u ! nat rid]"
    "o_stage (oa_order acc) = Order_unpay" "o_payed_at (oa_order acc) = None"
    "o_close_at (oa_order acc) = None" "o_deleted_at (oa_order acc) = None" "o_oid (oa_order acc) = oid"
    by (subst eq, simp add: start_order_def new_cmall_order_def)+
  have "order_for E w u rid ((close_order acc)\<lparr>o_id := i\<rparr>)"
    using ok rid fields by (simp add: order_for_def order_acc_ok_def close_order_def)
  then show ?thesis
    using u0 rid(1) t rep fields(7)
    by (intro exI [of _ u0] exI [of _ rid] exI [of _ "(close_order acc)\<lparr>o_id := i\<rparr>"] exI [of _ t])
      (simp add: close_order_def)
qed

lemmas order_steps = order_create_def reload_user_info_def start_order_def order_item_def
  cached_merchant_def order_goods_def priced_selection_def add_goods_def add_order_def
  close_order_def good_snap_def order_clash_def

lemma sample_order_create:
  "\<exists>w' r. order_create sample_order_params sample_env sample_server =
     (Inr (reply (JObj [(''orderid'', JStr (show_nat 2))])), w') \<and>
     rows (t_order (sv_db w')) = [sample_order, r] \<and> cc_ws (sv_client w') = Some [] \<and> cc_id (sv_client w') = 1"
  by (simp add: order_steps sample_order_params_def sample_get_product tea_product_def empty_product_def
      new_cmall_order_def show_nat.simps [of "Suc (Suc 0)"] show_nat.simps [of 2] run_simps numeral_2_eq_2
      cong: bindM_weak_cong)

theorem order_create_run_witness:
  "\<exists>w' r t. order_create sample_order_params sample_env sample_server =
      (Inr (reply (JObj [(''orderid'', JStr (show_nat 2))])), w') \<and>
    order_for sample_env sample_server sample_user 0 r \<and> o_oid r = show_nat 2 \<and>
    sv_db w' = sample_db\<lparr>t_order := t\<rparr> \<and> rows t = [sample_order, r]"
proof -
  have user: "acting_user sample_server = Some sample_user" "fresh_user sample_server sample_user = sample_user"
    by (simp_all add: acting_user_def fresh_user_def odb_find_def)
  have rid: "as_int64 (json_get sample_order_params ''recipient_id'' (JInt (-1))) = Inr 0"
    by (simp add: sample_order_params_def json_get_def)
  have zero: "odb_find m_uid 0 (t_merchant (sv_db sample_server)) = None"
    by (simp add: odb_find_def)
  obtain w' where run: "order_create sample_order_params sample_env sample_server =
      (Inr (reply (JObj [(''orderid'', JStr (show_nat 2))])), w')"
    using sample_order_create by blast
  show ?thesis
    using order_create_run [OF run zero] run user rid by (auto simp: reply_def)
qed

lemma order_create_atomic: "atomic (order_create params)"
proof -
  have read: "keeps (same sv_db) (foldM order_item goods a)" for goods a
    by (intro keeps_intros create_reads)
  show ?thesis
    unfolding order_create_def simple_steps add_order_def
    by (intro atomic_bind_read atomic_bind_last atomic_db_op never_throws_intros create_reads read keeps_intros)
qed

text \<open>(C8) When the creation of an order is refused or fails, whatever the cause, the database is as
  it was: no part of an order is left behind.\<close>

theorem order_create_all_or_nothing:
  assumes "order_create params E w = (Inl e, w')"
  shows "sv_db w' = sv_db w"
  using assms order_create_atomic unfolding atomic_def by blast

theorem order_create_all_or_nothing_witness:
  "\<exists>w'. order_create [] sample_env sample_server = (Inl (System_error recipient_id_out_of_range), w') \<and>
    sv_db w' = sample_db"
proof -
  have "\<exists>w'. order_create [] sample_env sample_server = (Inl (System_error recipient_id_out_of_range), w')"
    by (simp add: order_steps run_simps cong: bindM_weak_cong)
  then show ?thesis
    using order_create_all_or_nothing by fastforce
qed

end
