(* ===== verification/Cart_Api.thy ===== *)
theory Cart_Api
  imports Order_Api
begin

text \<open>
  The shopping cart: \<^verbatim>\<open>handle_jsonrpc_cart_api\<close> of \<^verbatim>\<open>cmall_impl/handle_jsonrpc_cart_api.cpp\<close>.
\<close>

section \<open>Handlers\<close>

text \<open>\<^verbatim>\<open>s.as_object()["option"]\<close> and \<^verbatim>\<open>["select"]\<close> of every selection, printed.\<close>

fun selection_string :: "json list \<Rightarrow> string result" where
  "selection_string [] = Inr []"
| "selection_string (v # vs) =
     (case as_object v of
        Inl e \<Rightarrow> Inl e
      | Inr ob \<Rightarrow>
          (case selection_string vs of
             Inl e \<Rightarrow> Inl e
           | Inr s \<Rightarrow>
               Inr (print_selection_item \<lparr>si_option = json_as_string (obj_index ob ''option'') [],
                                          si_select = json_as_string (obj_index ob ''select'') []\<rparr> @ s)))"

definition quoted :: "string \<Rightarrow> string" where
  "quoted s = [CHR 0x22] @ s @ [CHR 0x22]"

definition notify_cart_changed :: "u64 \<Rightarrow> unit M" where
  "notify_cart_changed uid =
     bindM this_client (\<lambda>c.
     bindM session_info (\<lambda>s.
     send_notify_message uid
       (''{'' @ quoted ''topic'' @ '':'' @ quoted ''cart_changed'' @ '', '' @
        quoted ''session_id'' @ '': '' @ quoted (cs_session_id s) @ ''}'') (cc_id c)))"

definition cart_match :: "u64 \<Rightarrow> u64 \<Rightarrow> string \<Rightarrow> string \<Rightarrow> cmall_cart \<Rightarrow> bool" where
  "cart_match uid mid gid sel c \<longleftrightarrow>
     c_uid c = uid \<and> c_merchant_id c = mid \<and> c_goods_id c = gid \<and> c_selection c = sel"

definition query_cart_one :: "(cmall_cart \<Rightarrow> bool) \<Rightarrow> cmall_cart option M" where
  "query_cart_one p = db_op None (on_table t_cart t_cart_update (db_query_one p))"

definition update_cart :: "cmall_cart \<Rightarrow> bool M" where
  "update_cart c = db_op False (on_table t_cart t_cart_update (db_update c_id c_stamp c))"

definition add_cart :: "cmall_cart \<Rightarrow> cmall_cart option M" where
  "add_cart c = db_op None (on_table t_cart t_cart_update
     (db_add_auto (\<lambda>i c. c\<lparr>c_id := i\<rparr>) no_clash c))"

definition cart_add :: "json_object \<Rightarrow> json_object M" where
  "cart_add params =
     bindM this_user (\<lambda>u.
     bindM (liftR (as_int64 (json_get params ''merchant_id'' (JInt (-1))))) (\<lambda>mid.
     bindM (require (\<not> (mid < 0 \<or> get_string params ''goods_id'' = [])) invalid_params) (\<lambda>_.
     bindM (if contains params ''selection'' then liftR (as_array (obj_index params ''selection''))
            else ret []) (\<lambda>sels.
     bindM (liftR (selection_string sels)) (\<lambda>sel.
     bindM (query_cart_one (cart_match (u_uid u) (u64_of mid) (get_string params ''goods_id'') sel)) (\<lambda>r.
     bindM (case r of
              Some item \<Rightarrow> bindM (update_cart (item\<lparr>c_count := c_count item + 1\<rparr>)) (\<lambda>_. ret ())
            | None \<Rightarrow>
                bindM local_time (\<lambda>now.
                bindM (add_cart ((new_cmall_cart now)
                  \<lparr>c_uid := u_uid u, c_merchant_id := u64_of mid,
                   c_goods_id := get_string params ''goods_id'', c_count := 1, c_selection := sel\<rparr>))
                (\<lambda>_. ret ()))) (\<lambda>_.
     bindM (notify_cart_changed (u_uid u)) (\<lambda>_.
     ret (reply (JBool True))))))))))"

definition load_cart :: "u64 \<Rightarrow> cmall_cart option M" where
  "load_cart i = db_op None (on_table t_cart t_cart_update (db_get c_id i))"

text \<open>The lookup of an item of one's own.\<close>

definition own_cart_item :: "u64 \<Rightarrow> u64 \<Rightarrow> cmall_cart option \<Rightarrow> unit M" where
  "own_cart_item uid i r =
     (case r of
        None \<Rightarrow> fail cart_goods_not_found
      | Some item \<Rightarrow> require (c_uid item = uid) invalid_params)"

definition set_cart_count :: "u64 \<Rightarrow> u64 \<Rightarrow> cmall_cart option M" where
  "set_cart_count i n = db_op None (on_table t_cart t_cart_update
     (db_update_id c_id c_stamp i (\<lambda>old. old\<lparr>c_count := n\<rparr>)))"

definition cart_mod :: "json_object \<Rightarrow> json_object M" where
  "cart_mod params =
     bindM this_user (\<lambda>u.
     bindM (liftR (as_int64 (json_get params ''item_id'' (JInt (-1))))) (\<lambda>item_id.
     bindM (liftR (as_int64 (json_get params ''count'' (JInt 0)))) (\<lambda>n.
     bindM (require (\<not> (item_id < 0 \<or> n \<le> 0)) invalid_params) (\<lambda>_.
     bindM (load_cart (u64_of item_id)) (\<lambda>r.
     bindM (own_cart_item (u_uid u) (u64_of item_id) r) (\<lambda>_.
     bindM (set_cart_count (u64_of item_id) (u64_of n)) (\<lambda>_.
     bindM (notify_cart_changed (u_uid u)) (\<lambda>_.
     ret (reply (JBool True))))))))))"

definition remove_cart :: "u64 \<Rightarrow> bool M" where
  "remove_cart i = db_op False (on_table t_cart t_cart_update (db_hard_remove c_id i))"

definition cart_del :: "json_object \<Rightarrow> json_object M" where
  "cart_del params =
     bindM this_user (\<lambda>u.
     bindM (liftR (as_int64 (json_get params ''item_id'' (JInt (-1))))) (\<lambda>item_id.
     bindM (require (\<not> item_id < 0) invalid_params) (\<lambda>_.
     bindM (load_cart (u64_of item_id)) (\<lambda>r.
     bindM (own_cart_item (u_uid u) (u64_of item_id) r) (\<lambda>_.
     bindM (remove_cart (u64_of item_id)) (\<lambda>_.
     bindM (notify_cart_changed (u_uid u)) (\<lambda>_.
     ret (reply (JBool True)))))))))"

text \<open>The loop of the lists of carts and favourites: names are filled in from the cached
  merchants, the ids of merchants that do not exist any more are collected.\<close>

record list_acc =
  la_cache :: "(u64 \<times> cmall_merchant) list"
  la_vanished :: "u64 list"

definition name_item :: "('r \<Rightarrow> u64) \<Rightarrow> (string \<Rightarrow> 'r \<Rightarrow> 'r) \<Rightarrow> 'r \<Rightarrow> 'r list \<times> list_acc \<Rightarrow> ('r list \<times> list_acc) M" where
  "name_item merchant set_name cc = (\<lambda>(done, acc).
     bindM (cached_merchant (merchant cc) (la_cache acc)) (\<lambda>(mo, cache).
     (case mo of
        None \<Rightarrow> ret (done @ [cc], acc\<lparr>la_vanished := merchant cc # la_vanished acc\<rparr>)
      | Some m \<Rightarrow> ret (done @ [set_name (m_name m) cc], acc\<lparr>la_cache := cache\<rparr>))))"

definition cart_list :: "json_object \<Rightarrow> json_object M" where
  "cart_list params =
     bindM this_user (\<lambda>u.
     bindM (liftR (as_int64 (json_get params ''page'' (JInt 0)))) (\<lambda>page.
     bindM (liftR (as_int64 (json_get params ''page_size'' (JInt 20)))) (\<lambda>page_size.
     bindM (liftR (mul_int64 page page_size)) (\<lambda>_.
     bindM (db_op [] (on_table t_cart t_cart_update
       (db_query_page c_created_at page page_size (\<lambda>c. c_uid c = u_uid u)))) (\<lambda>items.
     bindM (foldM (name_item c_merchant_id (\<lambda>n c. c\<lparr>c_merchant_name := n\<rparr>)) items
       ([], \<lparr>la_cache = [], la_vanished = []\<rparr>)) (\<lambda>(named, acc).
     bindM (foldM (\<lambda>mid _. bindM (db_op False (on_table t_cart t_cart_update
         (db_erase_query (\<lambda>c. c_merchant_id c = mid)))) (\<lambda>_. ret ()))
       (sort (remdups (la_vanished acc))) ()) (\<lambda>_.
     bindM (asks (\<lambda>E. JArr (map (json_of_cart E) named))) (\<lambda>v.
     ret (reply v)))))))))"

lemmas cart_api_defs = cart_add_def cart_mod_def cart_del_def cart_list_def

section \<open>What the cart handlers may change\<close>

definition cart_key :: "cmall_cart \<Rightarrow> u64 \<times> u64 \<times> string \<times> string" where
  "cart_key c = (c_uid c, c_merchant_id c, c_goods_id c, c_selection c)"

text \<open>A well-formed cart table: one row per user, merchant, goods and selection.\<close>

definition cart_ok :: "cmall_cart table \<Rightarrow> bool" where
  "cart_ok t \<longleftrightarrow> auto_ok c_id t \<and> distinct (map cart_key (rows t))"

definition others_cart :: "u64 \<Rightarrow> cmall_cart table \<Rightarrow> cmall_cart list" where
  "others_cart uid t = filter (\<lambda>c. c_uid c \<noteq> uid) (rows t)"

text \<open>The cart of user \<open>uid\<close> may change; the carts of everybody else, all other tables and the
  session stay, and the table stays well formed.\<close>

definition cart_frame :: "u64 \<Rightarrow> server \<Rightarrow> server \<Rightarrow> bool" where
  "cart_frame uid w w' \<longleftrightarrow>
     sv_db w' = (sv_db w)\<lparr>t_cart := t_cart (sv_db w')\<rparr> \<and> sv_client w' = sv_client w \<and>
     (cart_ok (t_cart (sv_db w)) \<longrightarrow>
        cart_ok (t_cart (sv_db w')) \<and> others_cart uid (t_cart (sv_db w')) = others_cart uid (t_cart (sv_db w)))"

lemma cart_frame_trans:
  assumes "cart_frame uid w w'" and "cart_frame uid w' w''"
  shows "cart_frame uid w w''"
proof -
  have "sv_db w'' = (sv_db w)\<lparr>t_cart := t_cart (sv_db w'')\<rparr>"
    using assms unfolding cart_frame_def by (metis database.update_convs(7) database.surjective)
  with assms show ?thesis by (simp add: cart_frame_def)
qed

interpretation cart: server_frame "cart_frame uid" for uid
proof unfold_locales
  show "cart_frame uid w w''" if "cart_frame uid w w'" "cart_frame uid w' w''" for w w' w''
    using that by (rule cart_frame_trans)
qed (simp_all add: cart_frame_def)

lemma cart_read:
  assumes "keeps (same sv_db) m" and "keeps (same sv_client) m"
  shows "keeps (cart_frame uid) m"
  using assms by (simp add: keeps_def same_def cart_frame_def)

lemma client_db_op: "keeps (same sv_client) (db_op d body)"
  by (rule client_same.frame_db_op) (simp add: same_def)

text \<open>One row changed in place, without touching its key.\<close>

lemma cart_update_frame:
  assumes old: "odb_find c_id (c_id c2) t = Some c" and key: "cart_key c2 = cart_key c" and mine: "c_uid c = uid"
    and upd: "odb_update c_id c2 t = Inr t'" and ok: "cart_ok t"
  shows "cart_ok t'" and "others_cart uid t' = others_cart uid t"
proof -
  have t': "rows t' = map (\<lambda>s. if c_id s = c_id c2 then c2 else s) (rows t)"
    using upd by (auto simp: odb_update_def split: if_splits)
  have inj: "s = c" if "s \<in> set (rows t)" "c_id s = c_id c2" for s
    using old that ok odb_find_iff [of c_id t "c_id c2" s] by (simp add: cart_ok_def auto_ok_def)
  have "map cart_key (rows t') = map cart_key (rows t)"
    unfolding t' using inj key by auto
  then show "cart_ok t'"
    using ok auto_ok_update [OF _ upd] by (simp add: cart_ok_def)
  have m2: "c_uid c2 = uid" using key mine by (simp add: cart_key_def)
  show "others_cart uid t' = others_cart uid t"
    unfolding others_cart_def t' using inj m2 mine by (intro filter_map_replace) auto
qed

lemma cart_frame_table:
  assumes "cart_ok (t_cart (sv_db w)) \<Longrightarrow> cart_ok t \<and> others_cart uid t = others_cart uid (t_cart (sv_db w))"
  shows "cart_frame uid w (w\<lparr>sv_db := (sv_db w)\<lparr>t_cart := t\<rparr>\<rparr>)"
  using assms by (simp add: cart_frame_def)

lemma cart_update_cart:
  assumes "cart_key c2 = cart_key c" and "c_id c2 = c_id c"
  shows "keeps_from (\<lambda>db. c \<in> set (rows (t_cart db)) \<and> c_uid c = uid) (cart_frame uid) (update_cart c2)"
  unfolding update_cart_def
proof (rule cart.keeps_from_db_op)
  fix now x db and w :: server
  assume c: "c \<in> set (rows (t_cart (sv_db w))) \<and> c_uid c = uid"
    and run: "on_table t_cart t_cart_update (db_update c_id c_stamp c2) now (sv_db w) = Inr (x, db)"
  then obtain t' where t': "odb_update c_id (c_stamp now c2) (t_cart (sv_db w)) = Inr t'"
    "db = (sv_db w)\<lparr>t_cart := t'\<rparr>"
    by (auto simp: on_table_Inr db_update_def split: sum.splits)
  have "cart_ok t' \<and> others_cart uid t' = others_cart uid (t_cart (sv_db w))" if ok: "cart_ok (t_cart (sv_db w))"
  proof -
    have "odb_find c_id (c_id (c_stamp now c2)) (t_cart (sv_db w)) = Some c"
      using c ok assms(2) odb_find_iff [of c_id "t_cart (sv_db w)"]
      by (simp add: cart_ok_def auto_ok_def c_stamp_def)
    then show ?thesis
      using cart_update_frame [OF _ _ _ t'(1) ok] c assms(1) by (simp add: cart_key_def c_stamp_def)
  qed
  then show "cart_frame uid w (w\<lparr>sv_db := db\<rparr>)"
    unfolding t'(2) by (intro cart_frame_table) simp
qed

lemma cart_add_cart:
  assumes "c_uid c = uid"
  shows "keeps_from (\<lambda>db. \<forall>c'\<in>set (rows (t_cart db)). cart_key c' \<noteq> cart_key c) (cart_frame uid) (add_cart c)"
  unfolding add_cart_def
proof (rule cart.keeps_from_db_op)
  fix now x db and w :: server
  assume new: "\<forall>c'\<in>set (rows (t_cart (sv_db w))). cart_key c' \<noteq> cart_key c"
    and run: "on_table t_cart t_cart_update (db_add_auto (\<lambda>i c. c\<lparr>c_id := i\<rparr>) no_clash c) now (sv_db w) = Inr (x, db)"
  then obtain c' t' where t': "odb_persist_auto (\<lambda>i c. c\<lparr>c_id := i\<rparr>) no_clash c (t_cart (sv_db w)) = Inr (c', t')"
    "db = (sv_db w)\<lparr>t_cart := t'\<rparr>"
    by (auto simp: on_table_Inr db_add_auto_def split: sum.splits)
  have "cart_ok t' \<and> others_cart uid t' = others_cart uid (t_cart (sv_db w))" if ok: "cart_ok (t_cart (sv_db w))"
  proof -
    have "auto_ok c_id t'" "rows t' = rows (t_cart (sv_db w)) @ [c\<lparr>c_id := sequence (t_cart (sv_db w))\<rparr>]"
      using auto_ok_persist [where key = c_id, OF _ _ t'(1)] ok by (simp_all add: cart_ok_def)
    with ok new assms show ?thesis by (auto simp: cart_ok_def others_cart_def cart_key_def)
  qed
  then show "cart_frame uid w (w\<lparr>sv_db := db\<rparr>)"
    unfolding t'(2) by (intro cart_frame_table) simp
qed

lemma cart_notify: "keeps (cart_frame uid) (notify_cart_changed u)"
  unfolding notify_cart_changed_def send_notify_message_def websocket_write_def simple_steps
  by (intro keeps_intros cart.frame_modify) (simp add: cart_frame_def)

lemma query_cart_bind:
  assumes "keeps_from (\<lambda>db. \<forall>c\<in>set (rows (t_cart db)). \<not> p c) R (f None)" and "server_frame R"
    and "\<And>c. keeps_from (\<lambda>db. c \<in> set (rows (t_cart db)) \<and> p c) R (f (Some c))"
  shows "keeps R (bindM (query_cart_one p) f)"
  unfolding query_cart_one_def
proof (rule server_frame.keeps_read_bind [OF assms(2), where
    P = "\<lambda>x db. x = List.find p (rows (t_cart db))"])
  show "keeps_from (\<lambda>db. x = List.find p (rows (t_cart db))) R (f x)" for x
  proof (cases x)
    case None
    show ?thesis
      unfolding None by (rule keeps_from_weaken [OF assms(1)]) (metis find_None_iff)
  next
    case (Some c)
    show ?thesis
      unfolding Some by (rule keeps_from_weaken [OF assms(3)]) (metis find_SomeD)
  qed
qed (auto simp: on_table_Inr db_query_one_def odb_query_one_def)

lemma cart_server_frame: "server_frame (cart_frame uid)"
  by (rule cart.server_frame_axioms)

lemma cart_add_body:
  fixes u :: cmall_user
  shows "keeps (cart_frame (u_uid u))
     (bindM (query_cart_one (cart_match (u_uid u) mid gid sel)) (\<lambda>r.
      bindM (case r of
              Some item \<Rightarrow> bindM (update_cart (item\<lparr>c_count := c_count item + 1\<rparr>)) (\<lambda>_. ret ())
            | None \<Rightarrow>
                bindM local_time (\<lambda>now.
                bindM (add_cart ((new_cmall_cart now)
                  \<lparr>c_uid := u_uid u, c_merchant_id := mid, c_goods_id := gid, c_count := 1, c_selection := sel\<rparr>))
                (\<lambda>_. ret ()))) (\<lambda>_.
      bindM (notify_cart_changed (u_uid u)) (\<lambda>_. ret (reply (JBool True))))))"
    (is "keeps _ (bindM _ (\<lambda>r. bindM (?write r) ?rest))")
proof (rule query_cart_bind [OF _ cart_server_frame])
  have rest: "keeps (cart_frame (u_uid u)) (?rest x)" for x
    by (intro keeps_intros cart_notify)
  show "keeps_from (\<lambda>db. \<forall>c\<in>set (rows (t_cart db)). \<not> cart_match (u_uid u) mid gid sel c)
      (cart_frame (u_uid u)) (bindM (?write None) ?rest)"
    unfolding simple_steps option.case
    by (intro cart.keeps_from_then [OF _ rest] cart.keeps_from_bind keeps_intros
        cart.keeps_from_then [OF keeps_from_weaken [OF cart_add_cart]])
      (auto simp: cart_match_def cart_key_def)
  show "keeps_from (\<lambda>db. c \<in> set (rows (t_cart db)) \<and> cart_match (u_uid u) mid gid sel c)
      (cart_frame (u_uid u)) (bindM (?write (Some c)) ?rest)" for c
    unfolding option.case
    by (intro cart.keeps_from_then [OF _ rest] keeps_intros
        cart.keeps_from_then [OF keeps_from_weaken [OF cart_update_cart [where c = c]]])
      (auto simp: cart_match_def cart_key_def)
qed

text \<open>For every handler: run by user \<open>u\<close>, it keeps the frame of \<open>u\<close>.\<close>

lemma this_user_bind:
  assumes "\<And>u. keeps (R (u_uid u)) (f u)" and "\<And>uid. server_frame (R uid)" and "acting_user w = Some u"
  shows "R (u_uid u) w (snd (bindM this_user f E w))"
proof -
  have "this_user E w = (Inr u, w)"
    using assms(3) by (auto simp: this_user_def session_info_def this_client_def deref_def M_defs
        acting_user_def split: option.splits)
  then have "bindM this_user f E w = f u E w" by (rule bindM_Inr)
  with assms(1) [of u] show ?thesis by (simp add: keeps_def)
qed

lemma cart_add_frame:
  assumes "acting_user w = Some u"
  shows "cart_frame (u_uid u) w (snd (cart_add params E w))"
  unfolding cart_add_def
  by (rule this_user_bind [OF _ cart_server_frame assms])
    (intro keeps_intros cart_add_body)

text \<open>Changing and deleting start by checking that the item belongs to the caller.\<close>

lemma cart_own_item:
  assumes "\<And>c. keeps_from (\<lambda>db. odb_find c_id i (t_cart db) = Some c \<and> c_uid c = uid) (cart_frame uid) write"
  shows "keeps (cart_frame uid)
    (bindM (load_cart i) (\<lambda>r. bindM (own_cart_item uid i r) (\<lambda>_. bindM write (\<lambda>_.
     bindM (notify_cart_changed uid) (\<lambda>_. ret (reply (JBool True)))))))"
  unfolding load_cart_def
proof (rule cart.keeps_read_bind [where P = "\<lambda>x db. x = odb_find c_id i (t_cart db)"])
  fix r
  have rest: "keeps (cart_frame uid) (bindM (notify_cart_changed uid) (\<lambda>_. ret (reply (JBool True))))"
    by (intro keeps_intros cart_notify)
  show "keeps_from (\<lambda>db. r = odb_find c_id i (t_cart db)) (cart_frame uid)
      (bindM (own_cart_item uid i r) (\<lambda>_. bindM write (\<lambda>_.
       bindM (notify_cart_changed uid) (\<lambda>_. ret (reply (JBool True))))))"
  proof (cases "\<exists>c. r = Some c \<and> c_uid c = uid")
    case True
    then obtain c where c: "r = Some c" "c_uid c = uid" by blast
    have "keeps_from (\<lambda>db. odb_find c_id i (t_cart db) = Some c \<and> c_uid c = uid) (cart_frame uid)
        (bindM write (\<lambda>_. bindM (notify_cart_changed uid) (\<lambda>_. ret (reply (JBool True)))))"
      by (rule cart.keeps_from_then [OF assms rest])
    from keeps_from_weaken [OF this, of "\<lambda>db. Some c = odb_find c_id i (t_cart db)"] show ?thesis
      unfolding c(1) by (simp add: own_cart_item_def require_def c(2))
  next
    case False
    then have "own_cart_item uid i r = fail cart_goods_not_found \<or> own_cart_item uid i r = fail invalid_params"
      by (cases r) (auto simp: own_cart_item_def require_def)
    then show ?thesis
      by (auto intro!: cart.keeps_from_keeps cart.frame_skip)
  qed
qed (auto simp: on_table_Inr db_get_def)

lemma cart_set_count:
  "keeps_from (\<lambda>db. odb_find c_id i (t_cart db) = Some c \<and> c_uid c = uid) (cart_frame uid)
     (set_cart_count i n)"
  unfolding set_cart_count_def
proof (rule cart.keeps_from_db_op)
  fix now x db and w :: server
  let ?t = "t_cart (sv_db w)" and ?c = "c_stamp now (c\<lparr>c_count := n\<rparr>)"
  assume c: "odb_find c_id i ?t = Some c \<and> c_uid c = uid"
    and run: "on_table t_cart t_cart_update (db_update_id c_id c_stamp i (\<lambda>old. old\<lparr>c_count := n\<rparr>)) now (sv_db w)
      = Inr (x, db)"
  then obtain t' where t': "db = (sv_db w)\<lparr>t_cart := t'\<rparr>" "t' = ?t \<or> odb_update c_id ?c ?t = Inr t'"
    by (auto simp: on_table_Inr db_update_id_def split: sum.splits odb_exn.splits)
  have "cart_ok t' \<and> others_cart uid t' = others_cart uid ?t" if ok: "cart_ok ?t"
  proof -
    have "c_id c = i"
      using c ok odb_find_iff [of c_id ?t] by (simp add: cart_ok_def auto_ok_def)
    then have "odb_find c_id (c_id ?c) ?t = Some c" "cart_key ?c = cart_key c"
      using c by (simp_all add: c_stamp_def cart_key_def)
    then show ?thesis
      using t'(2) cart_update_frame [of ?c ?t c uid t'] c ok by blast
  qed
  then show "cart_frame uid w (w\<lparr>sv_db := db\<rparr>)"
    unfolding t'(1) by (intro cart_frame_table) simp
qed

lemma cart_remove:
  "keeps_from (\<lambda>db. odb_find c_id i (t_cart db) = Some c \<and> c_uid c = uid) (cart_frame uid) (remove_cart i)"
  unfolding remove_cart_def
proof (rule cart.keeps_from_db_op)
  fix now x db and w :: server
  let ?t = "t_cart (sv_db w)"
  assume c: "odb_find c_id i ?t = Some c \<and> c_uid c = uid"
    and run: "on_table t_cart t_cart_update (db_hard_remove c_id i) now (sv_db w) = Inr (x, db)"
  then have db: "db = (sv_db w)\<lparr>t_cart := ?t\<lparr>rows := filter (\<lambda>s. c_id s \<noteq> i) (rows ?t)\<rparr>\<rparr>"
    by (auto simp: on_table_Inr db_hard_remove_def odb_erase_def split: sum.splits if_splits)
  have "cart_ok (?t\<lparr>rows := filter (\<lambda>s. c_id s \<noteq> i) (rows ?t)\<rparr>) \<and>
      others_cart uid (?t\<lparr>rows := filter (\<lambda>s. c_id s \<noteq> i) (rows ?t)\<rparr>) = others_cart uid ?t" if ok: "cart_ok ?t"
  proof -
    have "s = c" if "s \<in> set (rows ?t)" "c_id s = i" for s
      using that c ok odb_find_iff [of c_id ?t i s] by (simp add: cart_ok_def auto_ok_def)
    then show ?thesis
      using ok c auto_ok_erase [of c_id ?t]
      by (auto simp: cart_ok_def others_cart_def distinct_map_filter intro!: filter_cong)
  qed
  then show "cart_frame uid w (w\<lparr>sv_db := db\<rparr>)"
    unfolding db by (intro cart_frame_table) simp
qed

lemma cart_mod_frame:
  assumes "acting_user w = Some u"
  shows "cart_frame (u_uid u) w (snd (cart_mod params E w))"
  unfolding cart_mod_def
  by (rule this_user_bind [OF _ cart_server_frame assms])
    (intro cart.frame_bind cart.frame_skip cart_own_item cart_set_count)

lemma cart_del_frame:
  assumes "acting_user w = Some u"
  shows "cart_frame (u_uid u) w (snd (cart_del params E w))"
  unfolding cart_del_def
  by (rule this_user_bind [OF _ cart_server_frame assms])
    (intro cart.frame_bind cart.frame_skip cart_own_item cart_remove)


definition cart_mod_params :: json_object where
  "cart_mod_params = [(''item_id'', JInt 1), (''count'', JInt 4)]"


end
