(* ===== verification/Fav_Api.thy ===== *)
theory Fav_Api
  imports Cart_Api
begin

text \<open>
  The favourite merchants: \<^verbatim>\<open>handle_jsonrpc_fav_api\<close> of
  \<^verbatim>\<open>cmall_impl/handle_jsonrpc_fav_api.cpp\<close>.
\<close>

definition fav_match :: "u64 \<Rightarrow> u64 \<Rightarrow> cmall_user_fav \<Rightarrow> bool" where
  "fav_match uid mid f \<longleftrightarrow> f_uid f = uid \<and> f_merchant_id f = mid"

definition query_fav_one :: "(cmall_user_fav \<Rightarrow> bool) \<Rightarrow> cmall_user_fav option M" where
  "query_fav_one p = db_op None (on_table t_fav t_fav_update (db_query_one p))"

definition add_fav :: "cmall_user_fav \<Rightarrow> cmall_user_fav option M" where
  "add_fav f = db_op None (on_table t_fav t_fav_update (db_add_auto (\<lambda>i f. f\<lparr>f_id := i\<rparr>) no_clash f))"

definition erase_fav :: "(cmall_user_fav \<Rightarrow> bool) \<Rightarrow> bool M" where
  "erase_fav p = db_op False (on_table t_fav t_fav_update (db_erase_query p))"

definition fav_add :: "json_object \<Rightarrow> json_object M" where
  "fav_add params =
     bindM this_user (\<lambda>u.
     bindM (liftR (as_int64 (json_get params ''merchant_id'' (JInt (-1))))) (\<lambda>mid.
     bindM (require (\<not> mid \<le> 0) invalid_params) (\<lambda>_.
     bindM (query_fav_one (fav_match (u_uid u) (u64_of mid))) (\<lambda>r.
     bindM (case r of
              Some _ \<Rightarrow> ret ()
            | None \<Rightarrow>
                bindM local_time (\<lambda>now.
                bindM (add_fav ((new_cmall_user_fav now)\<lparr>f_uid := u_uid u, f_merchant_id := u64_of mid\<rparr>)) (\<lambda>_.
                ret ()))) (\<lambda>_.
     ret (reply (JBool True)))))))"

definition fav_del :: "json_object \<Rightarrow> json_object M" where
  "fav_del params =
     bindM this_user (\<lambda>u.
     bindM (liftR (as_int64 (json_get params ''merchant_id'' (JInt (-1))))) (\<lambda>mid.
     bindM (require (\<not> mid < 0) invalid_params) (\<lambda>_.
     bindM (erase_fav (fav_match (u_uid u) (u64_of mid))) (\<lambda>_.
     ret (reply (JBool True))))))"

definition fav_list :: "json_object \<Rightarrow> json_object M" where
  "fav_list params =
     bindM this_user (\<lambda>u.
     bindM (liftR (as_int64 (json_get params ''page'' (JInt 0)))) (\<lambda>page.
     bindM (liftR (as_int64 (json_get params ''page_size'' (JInt 20)))) (\<lambda>page_size.
     bindM (liftR (mul_int64 page page_size)) (\<lambda>_.
     bindM (db_op [] (on_table t_fav t_fav_update
       (db_query_page f_created_at page page_size (\<lambda>f. f_uid f = u_uid u)))) (\<lambda>items.
     bindM (foldM (name_item f_merchant_id (\<lambda>n f. f\<lparr>f_merchant_name := n\<rparr>)) items
       ([], \<lparr>la_cache = [], la_vanished = []\<rparr>)) (\<lambda>(named, acc).
     bindM (foldM (\<lambda>mid _. bindM (erase_fav (\<lambda>f. f_merchant_id f = mid)) (\<lambda>_. ret ()))
       (sort (remdups (la_vanished acc))) ()) (\<lambda>_.
     bindM (asks (\<lambda>E. JArr (map (json_of_fav E) named))) (\<lambda>v.
     ret (reply v)))))))))"

lemmas fav_api_defs = fav_add_def fav_del_def fav_list_def

section \<open>Adding twice and deleting\<close>

text \<open>Without faults: after \<open>fav_add\<close> there is exactly one favourite more than before if the
  merchant was none, and nothing changed if it was one; \<open>fav_del\<close> takes it away again.\<close>

lemma this_user_run: "acting_user w = Some u \<Longrightarrow> this_user E w = (Inr u, w)"
  by (auto simp: this_user_def session_info_def this_client_def deref_def M_defs acting_user_def
      split: option.splits)

lemma query_fav_run:
  "fault_free E \<Longrightarrow> query_fav_one p E w =
     (Inr (List.find p (rows (t_fav (sv_db w)))), w\<lparr>sv_ops := Suc (sv_ops w)\<rparr>)"
  unfolding query_fav_one_def
  by (subst db_op_ok) (auto simp: on_table_Inr db_query_one_def odb_query_one_def)

lemma fav_add_again:
  assumes "fault_free E" and "acting_user w = Some u"
    and "as_int64 (json_get params ''merchant_id'' (JInt (-1))) = Inr mid" and "0 < mid"
    and "list_ex (fav_match (u_uid u) (u64_of mid)) (rows (t_fav (sv_db w)))"
  shows "fav_add params E w = (Inr (reply (JBool True)), w\<lparr>sv_ops := Suc (sv_ops w)\<rparr>)"
proof -
  obtain f where "List.find (fav_match (u_uid u) (u64_of mid)) (rows (t_fav (sv_db w))) = Some f"
    using assms(5) list_ex_find by fastforce
  then show ?thesis
    using assms(3,4)
    by (simp add: fav_add_def this_user_run [OF assms(2)] M_defs
        query_fav_run [OF assms(1)])
qed

lemma fav_add_new:
  assumes "fault_free E" and "acting_user w = Some u"
    and "as_int64 (json_get params ''merchant_id'' (JInt (-1))) = Inr mid" and "0 < mid"
    and "\<not> list_ex (fav_match (u_uid u) (u64_of mid)) (rows (t_fav (sv_db w)))"
    and "uint (sequence (t_fav (sv_db w))) < 2 ^ 63"
  shows "\<exists>w' f. fav_add params E w = (Inr (reply (JBool True)), w') \<and> sv_client w' = sv_client w \<and>
    fav_match (u_uid u) (u64_of mid) f \<and> f_id f = sequence (t_fav (sv_db w)) \<and>
    rows (t_fav (sv_db w')) = rows (t_fav (sv_db w)) @ [f]"
proof -
  let ?t = "t_fav (sv_db w)"
  have none: "List.find (fav_match (u_uid u) (u64_of mid)) (rows ?t) = None"
    using assms(5) list_ex_find by fastforce
  show ?thesis
    using assms none
    by (simp add: fav_add_def this_user_run [OF assms(2)] M_defs
        query_fav_run [OF assms(1)] local_time_def add_fav_def db_op_ok on_table_def db_add_auto_def
        odb_persist_auto_def list_ex_iff no_clash_def fav_match_def Let_def new_cmall_user_fav_def)
qed

lemma fav_del_removes:
  assumes "fault_free E" and "acting_user w = Some u"
    and "as_int64 (json_get params ''merchant_id'' (JInt (-1))) = Inr mid" and "0 \<le> mid"
  shows "\<exists>w'. fav_del params E w = (Inr (reply (JBool True)), w') \<and>
    rows (t_fav (sv_db w')) = filter (\<lambda>f. \<not> fav_match (u_uid u) (u64_of mid) f) (rows (t_fav (sv_db w)))"
  using assms
  by (simp add: fav_del_def this_user_run [OF assms(2)] M_defs
      erase_fav_def db_op_ok on_table_def db_erase_query_def odb_erase_query_def)

text \<open>Adding a favourite twice and removing it: the first \<^verbatim>\<open>fav_add\<close> of a merchant appends one row
  for the acting user, a second one changes no table, and \<^verbatim>\<open>fav_del\<close> then gives back the favourites
  as they were; all three answer true.\<close>

theorem fav_add_del_roundtrip:
  assumes "fault_free E" and "acting_user w = Some u"
    and "as_int64 (json_get params ''merchant_id'' (JInt (-1))) = Inr mid" and "0 < mid"
    and "\<not> list_ex (fav_match (u_uid u) (u64_of mid)) (rows (t_fav (sv_db w)))"
    and "uint (sequence (t_fav (sv_db w))) < 2 ^ 63"
  shows "\<exists>w1 w2 w3 f. fav_add params E w = (Inr (reply (JBool True)), w1) \<and>
      rows (t_fav (sv_db w1)) = rows (t_fav (sv_db w)) @ [f] \<and> f_uid f = u_uid u \<and> f_merchant_id f = u64_of mid \<and>
    fav_add params E w1 = (Inr (reply (JBool True)), w2) \<and> sv_db w2 = sv_db w1 \<and>
    fav_del params E w2 = (Inr (reply (JBool True)), w3) \<and> rows (t_fav (sv_db w3)) = rows (t_fav (sv_db w))"
proof -
  obtain w1 f where w1: "fav_add params E w = (Inr (reply (JBool True)), w1)" "sv_client w1 = sv_client w"
    and f: "fav_match (u_uid u) (u64_of mid) f" "rows (t_fav (sv_db w1)) = rows (t_fav (sv_db w)) @ [f]"
    using fav_add_new [OF assms] by blast
  let ?w2 = "w1\<lparr>sv_ops := Suc (sv_ops w1)\<rparr>"
  have user: "acting_user w1 = Some u" "acting_user ?w2 = Some u"
    using assms(2) w1(2) by (simp_all add: acting_user_def)
  have w2: "fav_add params E w1 = (Inr (reply (JBool True)), ?w2)"
    using f by (intro fav_add_again [OF assms(1) user(1) assms(3,4)]) simp
  obtain w3 where w3: "fav_del params E ?w2 = (Inr (reply (JBool True)), w3)"
    "rows (t_fav (sv_db w3)) = filter (\<lambda>f. \<not> fav_match (u_uid u) (u64_of mid) f) (rows (t_fav (sv_db ?w2)))"
    using fav_del_removes [OF assms(1) user(2) assms(3)] assms(4) by auto
  have "rows (t_fav (sv_db w3)) = rows (t_fav (sv_db w))"
    using w3(2) f assms(5) by (simp add: list_ex_iff filter_id_conv)
  then show ?thesis
    using w1(1) w2 w3(1) f
    by (simp add: fav_match_def)
qed

theorem fav_add_del_roundtrip_witness:
  "\<exists>w1 w2 w3 f. fav_add [(''merchant_id'', JInt 5)] sample_env sample_server = (Inr (reply (JBool True)), w1) \<and>
      rows (t_fav (sv_db w1)) = [f] \<and> f_uid f = 7 \<and> f_merchant_id f = 5 \<and>
    fav_add [(''merchant_id'', JInt 5)] sample_env w1 = (Inr (reply (JBool True)), w2) \<and> sv_db w2 = sv_db w1 \<and>
    fav_del [(''merchant_id'', JInt 5)] sample_env w2 = (Inr (reply (JBool True)), w3) \<and> rows (t_fav (sv_db w3)) = []"
  using fav_add_del_roundtrip [of sample_env sample_server sample_user "[(''merchant_id'', JInt 5)]" 5]
  by (simp add: acting_user_def json_get_def u64_of_def)

end
