(* ===== verification/User_Api.thy ===== *)
theory User_Api
  imports Session Fav_Api
begin

text \<open>
  Login, profile, recipients and the key-value store of a user: \<^verbatim>\<open>handle_jsonrpc_user_api\<close> of
  \<^verbatim>\<open>cmall_impl/handle_jsonrpc_user_api.cpp\<close>, one definition per case of its switch and one for
  the local lambda \<^verbatim>\<open>handle_user_login\<close>.
\<close>

section \<open>Login\<close>

definition modify_session :: "(client_session \<Rightarrow> client_session) \<Rightarrow> unit M" where
  "modify_session f = bindM session_info (\<lambda>s. set_session (f s))"

definition save_session :: "unit M" where
  "save_session = bindM this_client (\<lambda>c. bindM session_info (\<lambda>s. session_save s (cc_x_real_ip c)))"

definition enter_active :: "unit M" where
  "enter_active =
     bindM this_client (\<lambda>c.
     bindM this_user (\<lambda>u.
     modify (\<lambda>w. w\<lparr>sv_active := active_push
       \<lparr>ae_conn = cc_id c, ae_uid = u_uid u, ae_ws = (cc_ws c \<noteq> None)\<rparr> (sv_active w)\<rparr>)))"

text \<open>The detached check behind \<^verbatim>\<open>std::call_once\<close>: the first user of an empty administrators
  table becomes administrator. \<^verbatim>\<open>administrators::uid_\<close> is an automatic key, so the value
  assigned to it is replaced by the sequence when the row is inserted.\<close>

fun all_admins :: "database \<Rightarrow> administrators_row list \<Rightarrow> odb_exn + administrators list" where
  "all_admins db [] = Inr []"
| "all_admins db (r # rs) =
     (case admin_of_row db r of
        Inl e \<Rightarrow> Inl e
      | Inr a \<Rightarrow> (case all_admins db rs of Inl e \<Rightarrow> Inl e | Inr as \<Rightarrow> Inr (a # as)))"

definition load_all_admins :: "administrators list M" where
  "load_all_admins = db_op [] (\<lambda>now db.
     (case all_admins db (rows (t_admin db)) of Inl e \<Rightarrow> Inl e | Inr as \<Rightarrow> Inr (as, db)))"

definition add_admin :: "administrators_row \<Rightarrow> administrators_row option M" where
  "add_admin r = db_op None (on_table t_admin t_admin_update
     (db_add_auto (\<lambda>i r. r\<lparr>ar_uid := i\<rparr>) no_clash r))"

definition check_first_admin :: "cmall_user \<Rightarrow> unit M" where
  "check_first_admin new_user =
     bindM (gets sv_admin_checked) (\<lambda>checked.
     if checked then ret ()
     else
       bindM (modify (\<lambda>w. w\<lparr>sv_admin_checked := True\<rparr>)) (\<lambda>_.
       catchM
         (bindM load_all_admins (\<lambda>admins.
          if admins = [] then
            bindM (add_admin \<lparr>ar_uid = u_uid new_user, ar_user = Some (u_uid new_user)\<rparr>) (\<lambda>_. ret ())
          else ret ()))
         (\<lambda>_. ret ())))"

definition add_user :: "cmall_user \<Rightarrow> cmall_user option M" where
  "add_user u = db_op None (on_table t_user t_user_update (db_add_auto (\<lambda>i u. u\<lparr>u_uid := i\<rparr>) no_clash u))"

definition login_known_user :: "cmall_user \<Rightarrow> unit M" where
  "login_known_user user =
     bindM (modify_session (\<lambda>s. s\<lparr>cs_user_info := Some user\<rparr>)) (\<lambda>_.
     bindM (load_merchant (u_uid user)) (\<lambda>mo.
     bindM (case mo of
              None \<Rightarrow> ret ()
            | Some m \<Rightarrow>
                if m_state m = Merchant_normal
                then modify_session (\<lambda>s. s\<lparr>cs_merchant_info := Some m, cs_isMerchant := True\<rparr>)
                else ret ()) (\<lambda>_.
     bindM (load_administrator (u_uid user)) (\<lambda>ao.
     (case ao of
        None \<Rightarrow> ret ()
      | Some a \<Rightarrow> modify_session (\<lambda>s. s\<lparr>cs_admin_info := Some a, cs_isAdmin := True\<rparr>))))))"

definition register_user :: "unit M" where
  "register_user =
     bindM session_info (\<lambda>s.
     bindM local_time (\<lambda>now.
     bindM (add_user ((new_cmall_user now)\<lparr>u_active_phone := cs_verify_telephone s\<rparr>)) (\<lambda>r.
     bindM (deref r) (\<lambda>new_user.
     bindM (modify_session (\<lambda>s. s\<lparr>cs_user_info := Some new_user\<rparr>)) (\<lambda>_.
     check_first_admin new_user)))))"

definition handle_user_login :: "string \<Rightarrow> json_object M" where
  "handle_user_login telephone =
     bindM (load_user_by_phone telephone) (\<lambda>r.
     bindM (case r of Some user \<Rightarrow> login_known_user user | None \<Rightarrow> register_user) (\<lambda>_.
     bindM (modify_session (\<lambda>s. s\<lparr>cs_verify_cookie := None\<rparr>)) (\<lambda>_.
     bindM save_session (\<lambda>_.
     bindM session_info (\<lambda>s.
     bindM enter_active (\<lambda>_.
     ret (reply (JObj [(''login'', JStr ''success''), (''isMerchant'', JBool (cs_isMerchant s)),
                       (''isAdmin'', JBool (cs_isAdmin s)), (''isSudo'', JBool (cs_sudo_mode s))]))))))))"

definition user_prelogin :: "json_object \<Rightarrow> json_object M" where
  "user_prelogin params =
     (let tel = json_as_string (json_get params ''telephone'' (JStr [])) []
      in bindM (load_user_by_phone tel) (\<lambda>r.
         bindM (case r of
                  None \<Rightarrow> ret ()
                | Some u \<Rightarrow> require (u_state u \<noteq> User_banned) user_banned) (\<lambda>_.
         bindM (modify_session (\<lambda>s. s\<lparr>cs_verify_telephone := tel\<rparr>)) (\<lambda>_.
         bindM (send_verify_code tel) (\<lambda>cookie.
         bindM (modify_session (\<lambda>s. s\<lparr>cs_verify_cookie := Some cookie\<rparr>)) (\<lambda>_.
         bindM save_session (\<lambda>_.
         ret (reply (JBool True)))))))))"

definition user_login :: "json_object \<Rightarrow> json_object M" where
  "user_login params =
     bindM session_info (\<lambda>s.
     (case cs_verify_cookie s of
        None \<Rightarrow> fail invalid_verify_code
      | Some cookie \<Rightarrow>
          bindM (verify_verify_code (get_string params ''verify_code'') cookie) (\<lambda>ok.
          if ok then handle_user_login (cs_verify_telephone s) else fail invalid_verify_code)))"

definition user_fastlogin :: "json_object \<Rightarrow> json_object M" where
  "user_fastlogin params =
     bindM (gets sv_config) (\<lambda>cfg.
     bindM (external (\<lambda>E n. e_netease_phone E n cfg (get_string params ''token'') (get_string params ''accessToken''))) (\<lambda>realphone.
     if realphone \<noteq> [] then
       bindM (modify_session (\<lambda>s. s\<lparr>cs_verify_telephone := realphone\<rparr>)) (\<lambda>_. handle_user_login realphone)
     else fail internal_server_error))"

definition user_logout :: "json_object \<Rightarrow> json_object M" where
  "user_logout params =
     bindM this_client (\<lambda>c.
     bindM (modify (\<lambda>w. w\<lparr>sv_active := filter (\<lambda>a. ae_conn a \<noteq> cc_id c) (sv_active w)\<rparr>)) (\<lambda>_.
     bindM (modify_session session_clear) (\<lambda>_.
     bindM session_info (\<lambda>s.
     bindM (if cs_session_id s = [] then ret () else save_session) (\<lambda>_.
     ret (reply (JArr [JStr ''status'', JStr ''success''])))))))"

definition user_islogin :: "json_object \<Rightarrow> json_object M" where
  "user_islogin params = bindM session_info (\<lambda>s. ret (reply (JBool (cs_user_info s \<noteq> None))))"

section \<open>Profile\<close>

definition user_info :: "json_object \<Rightarrow> json_object M" where
  "user_info params =
     bindM this_user (\<lambda>u.
     bindM local_time (\<lambda>now.
     bindM (load_user (u_uid u)) (\<lambda>r.
     bindM (asks (\<lambda>E. json_of_user E (case r of None \<Rightarrow> new_cmall_user now | Some x \<Rightarrow> x))) (\<lambda>v.
     ret (reply v)))))"

text \<open>\<^verbatim>\<open>max(seq)\<close> over the applications of a user; null values do not count.\<close>

definition max_application_seq :: "u64 \<Rightarrow> cmall_apply_for_mechant table \<Rightarrow> u64 option" where
  "max_application_seq uid t =
     (case List.map_filter ap_seq (filter (\<lambda>a. ap_applicant a = uid) (rows t)) of
        [] \<Rightarrow> None
      | x # xs \<Rightarrow> Some (fold max xs x))"

definition load_max_seq :: "u64 \<Rightarrow> u64 option M" where
  "load_max_seq uid = db_op None (on_table t_apply t_apply_update (\<lambda>now t. Inr (max_application_seq uid t, t)))"

definition add_apply :: "cmall_apply_for_mechant \<Rightarrow> cmall_apply_for_mechant option M" where
  "add_apply a = db_op None (on_table t_apply t_apply_update (db_add_auto (\<lambda>i a. a\<lparr>ap_id := i\<rparr>) apply_clash a))"

definition user_apply_merchant :: "json_object \<Rightarrow> json_object M" where
  "user_apply_merchant params =
     bindM this_user (\<lambda>u.
     bindM (load_merchant (u_uid u)) (\<lambda>mo.
     bindM (require (mo = None) already_a_merchant) (\<lambda>_.
     bindM local_time (\<lambda>now.
     bindM (load_max_seq (u_uid u)) (\<lambda>last_seq.
     bindM (db_op [] (load_applies (\<lambda>a. ap_applicant a = u_uid u \<and> ap_state a = Waiting))) (\<lambda>ws.
     bindM (require (ws = []) already_exist) (\<lambda>_.
     bindM (add_apply ((new_cmall_apply now)
       \<lparr>ap_seq := Some (case last_seq of None \<Rightarrow> 0 | Some n \<Rightarrow> n + 1), ap_applicant := u_uid u\<rparr>)) (\<lambda>_.
     ret (reply (JBool True))))))))))"

definition by_created_desc :: "('r \<Rightarrow> ptime) \<Rightarrow> 'r list \<Rightarrow> 'r list" where
  "by_created_desc created rs = sort_key (\<lambda>r. - created r) rs"

definition user_apply_info :: "json_object \<Rightarrow> json_object M" where
  "user_apply_info params =
     bindM this_user (\<lambda>u.
     bindM (db_op [] (load_applies (\<lambda>a. ap_applicant a = u_uid u \<and> ap_deleted_at a = None))) (\<lambda>as.
     bindM (asks (\<lambda>E. JArr (map (json_of_apply E) (by_created_desc (ap_created_at \<circ> fst) as)))) (\<lambda>v.
     ret (reply v))))"

section \<open>Faces\<close>

definition face_group_id :: string where
  "face_group_id = ''cmall#face''"

definition user_add_face :: "json_object \<Rightarrow> json_object M" where
  "user_add_face params =
     bindM this_user (\<lambda>u.
     bindM (gets sv_config) (\<lambda>cfg.
     (let pid = show_nat (unat (u_uid u)); image = get_string params ''image''
      in bindM (external (\<lambda>E n. e_face_groups E n cfg pid)) (\<lambda>groups.
         bindM (external (\<lambda>E n. e_face_add E n cfg (face_group_id \<in> set groups) pid image)) (\<lambda>_.
         ret (reply (JBool True)))))))"

text \<open>\<^verbatim>\<open>parse_number<uint64_t>\<close>, which is \<^verbatim>\<open>std::stoull\<close> with its exceptions turned into an
  empty optional: leading space, a sign and the longest run of digits; a negative number wraps.\<close>

definition parse_number :: "string \<Rightarrow> u64 option" where
  "parse_number str =
     (let s = dropWhile isspace str;
          (neg, body) = (case s of
             c # r \<Rightarrow> if c = CHR ''-'' then (True, r) else if c = CHR ''+'' then (False, r) else (False, s)
           | [] \<Rightarrow> (False, []));
          ds = takeWhile isdigit body;
          v = digits_val ds
      in if ds = [] \<or> 2 ^ 64 \<le> v then None
         else Some (if neg then - word_of_nat v else word_of_nat v))"

definition user_search_by_face :: "json_object \<Rightarrow> json_object M" where
  "user_search_by_face params =
     bindM (gets sv_config) (\<lambda>cfg.
     bindM (external (\<lambda>E n. e_face_search E n cfg (get_string params ''image''))) (\<lambda>pid.
     (case parse_number pid of
        None \<Rightarrow> ret (reply JNull)
      | Some uid \<Rightarrow>
          bindM (load_user uid) (\<lambda>r.
          (case r of
             None \<Rightarrow> ret (reply JNull)
           | Some u \<Rightarrow> bindM (asks (\<lambda>E. json_of_user E u)) (\<lambda>v. ret (reply v)))))))"

section \<open>Recipients\<close>

definition user_list_recipient_address :: "json_object \<Rightarrow> json_object M" where
  "user_list_recipient_address params =
     bindM reload_user_info (\<lambda>u.
     ret (reply (JArr (map (\<lambda>(i, r). JObj (json_of_recipient r @ [(''id'', JUint (word_of_nat i))]))
       (enumerate 0 (u_recipients u))))))"

definition update_user :: "u64 \<Rightarrow> (cmall_user \<Rightarrow> cmall_user) \<Rightarrow> cmall_user option M" where
  "update_user uid f = db_op None (on_table t_user t_user_update (db_update_id u_uid u_stamp uid f))"

text \<open>\<^verbatim>\<open>async_update\<close> with an updater that also assigns the new value to the session's user.\<close>

definition update_own_user :: "(cmall_user \<Rightarrow> cmall_user) \<Rightarrow> json_object M" where
  "update_own_user f =
     bindM this_user (\<lambda>u.
     bindM (update_user (u_uid u) f) (\<lambda>r.
     (case r of
        None \<Rightarrow> ret (reply (JBool False))
      | Some u' \<Rightarrow>
          bindM (modify_session (\<lambda>s. s\<lparr>cs_user_info := Some u'\<rparr>)) (\<lambda>_. ret (reply (JBool True))))))"

definition new_recipient :: "string \<Rightarrow> string \<Rightarrow> string \<Rightarrow> recipient" where
  "new_recipient telephone address name =
     \<lparr>r_name = name, r_telephone = telephone, r_address = address, r_province = None, r_city = None,
      r_district = None, r_specific_address = None, r_as_default = False\<rparr>"

definition user_add_recipient_address :: "json_object \<Rightarrow> json_object M" where
  "user_add_recipient_address params =
     bindM (liftR (as_string (obj_index params ''telephone''))) (\<lambda>telephone.
     bindM (liftR (as_string (obj_index params ''address''))) (\<lambda>address.
     bindM (liftR (as_string (obj_index params ''name''))) (\<lambda>name.
     update_own_user (\<lambda>u. u\<lparr>u_recipients := u_recipients u @ [new_recipient telephone address name]\<rparr>))))"

definition erase_nth :: "int \<Rightarrow> 'a list \<Rightarrow> 'a list" where
  "erase_nth i xs = (if 0 \<le> i \<and> i < int (length xs) then take (nat i) xs @ drop (Suc (nat i)) xs else xs)"

definition user_erase_receipt_address :: "json_object \<Rightarrow> json_object M" where
  "user_erase_receipt_address params =
     bindM (liftR (as_int64 (obj_index params ''recipient_id''))) (\<lambda>i.
     update_own_user (\<lambda>u. u\<lparr>u_recipients := erase_nth i (u_recipients u)\<rparr>))"

text \<open>\<^verbatim>\<open>user_modify_receipt_address\<close> has an empty body.\<close>

definition user_modify_receipt_address :: "json_object \<Rightarrow> json_object M" where
  "user_modify_receipt_address params = ret []"

definition user_get_wx_openid :: "json_object \<Rightarrow> json_object M" where
  "user_get_wx_openid params =
     bindM (wxpay_for_appid (get_string params ''appid'')) (\<lambda>cfg.
     bindM (external (\<lambda>E n. e_wx_openid E n cfg (get_string params ''jscode''))) (\<lambda>openid.
     ret (reply (JStr openid))))"

section \<open>Key-value store\<close>

definition kv_upset :: "cmall_3rd_kv_store \<Rightarrow> (cmall_3rd_kv_store table, bool) tx" where
  "kv_upset kv = db_upset kv_key (\<lambda>_ r. r) (\<lambda>_ r. r) kv"

definition kv_row :: "u64 \<Rightarrow> string \<Rightarrow> string \<Rightarrow> cmall_3rd_kv_store" where
  "kv_row uid k v = \<lparr>kv_key = \<lparr>kk_uid = uid, kk_key_value = k\<rparr>, kv_value = v\<rparr>"

definition user_3rd_kv_put :: "json_object \<Rightarrow> json_object M" where
  "user_3rd_kv_put params =
     bindM this_user (\<lambda>u.
     bindM (liftR (as_string (obj_index params ''key_value''))) (\<lambda>k.
     bindM (liftR (as_string (obj_index params ''value''))) (\<lambda>v.
     bindM (db_op False (on_table t_kv t_kv_update (kv_upset (kv_row (u_uid u) k v)))) (\<lambda>ok.
     ret (reply (JBool ok))))))"

definition kv_found :: "cmall_3rd_kv_store option \<Rightarrow> json_object M" where
  "kv_found r = (case r of None \<Rightarrow> fail kv_store_key_not_found | Some kv \<Rightarrow> ret (reply (JStr (kv_value kv))))"

definition user_3rd_kv_get :: "json_object \<Rightarrow> json_object M" where
  "user_3rd_kv_get params =
     bindM this_user (\<lambda>u.
     bindM (liftR (as_string (obj_index params ''key_value''))) (\<lambda>k.
     bindM (db_op None (on_table t_kv t_kv_update (db_reload kv_key (kv_row (u_uid u) k [])))) kv_found))"

definition user_3rd_kv_put_pubkey :: "json_object \<Rightarrow> json_object M" where
  "user_3rd_kv_put_pubkey params =
     bindM this_user (\<lambda>u.
     bindM (liftR (as_string (obj_index params ''key_value''))) (\<lambda>k.
     bindM (liftR (as_string (obj_index params ''value''))) (\<lambda>v.
     bindM (db_op False (on_table t_pubkv t_pubkv_update (kv_upset (kv_row (u_uid u) k v)))) (\<lambda>ok.
     ret (reply (JBool ok))))))"

definition user_3rd_kv_get_pubkey :: "json_object \<Rightarrow> json_object M" where
  "user_3rd_kv_get_pubkey params =
     bindM this_user (\<lambda>u.
     bindM (liftR (as_string (obj_index params ''key_value''))) (\<lambda>k.
     bindM (db_op None (on_table t_pubkv t_pubkv_update (db_reload kv_key (kv_row (u_uid u) k [])))) kv_found))"

lemmas user_api_defs = user_prelogin_def user_login_def user_fastlogin_def user_logout_def
  user_islogin_def user_info_def user_apply_merchant_def user_apply_info_def user_add_face_def
  user_search_by_face_def user_list_recipient_address_def user_add_recipient_address_def
  user_erase_receipt_address_def user_modify_receipt_address_def user_get_wx_openid_def
  user_3rd_kv_put_def user_3rd_kv_get_def user_3rd_kv_put_pubkey_def user_3rd_kv_get_pubkey_def

text \<open>(C19) Logging in takes the code that was sent: without a pending code in the session, or with a
  code that is not the stored and unexpired one, \<^verbatim>\<open>user_login\<close> answers \<^verbatim>\<open>invalid_verify_code\<close> and
  changes nothing.\<close>

theorem login_needs_the_code:
  assumes "cc_session (sv_client w) = Some s"
    and "\<And>cookie. cs_verify_cookie s = Some cookie \<Longrightarrow>
      tm_get cookie (sv_codes w) \<noteq> Some (get_string params ''verify_code'')"
  shows "user_login params E w = (Inl (System_error invalid_verify_code), w)"
proof (cases "cs_verify_cookie s")
  case None
  then show ?thesis
    using assms(1) by (simp add: user_login_def session_info_def this_client_def M_defs)
next
  case (Some cookie)
  then show ?thesis
    using assms by (simp add: user_login_def session_info_def this_client_def verify_verify_code_def M_defs)
qed

theorem login_needs_the_code_witness:
  "user_login [(''verify_code'', JStr ''0000'')] sample_env sample_server =
     (Inl (System_error invalid_verify_code), sample_server)"
  by (rule login_needs_the_code [of _ sample_session]) (simp_all add: sample_session_def new_client_session_def)

text \<open>The key-value store: what \<^verbatim>\<open>user_3rd_kv_put\<close> stored under a key \<^verbatim>\<open>user_3rd_kv_get\<close> returns to the
  same user, and the values of all other keys and of all other users are as before.\<close>

theorem kv_put_get:
  assumes "fault_free E" and "acting_user w = Some u" and "table_ok kv_key (t_kv (sv_db w))"
    and "as_string (obj_index params ''key_value'') = Inr k" and "as_string (obj_index params ''value'') = Inr v"
  shows "\<exists>w1 w2. user_3rd_kv_put params E w = (Inr (reply (JBool True)), w1) \<and>
    user_3rd_kv_get params E w1 = (Inr (reply (JStr v)), w2) \<and>
    (\<forall>i. i \<noteq> \<lparr>kk_uid = u_uid u, kk_key_value = k\<rparr> \<longrightarrow>
       odb_find kv_key i (t_kv (sv_db w1)) = odb_find kv_key i (t_kv (sv_db w)))"
proof -
  let ?r = "kv_row (u_uid u) k v" and ?now = "e_clock E (sv_ops w) 0"
  have key: "kv_key (kv_row (u_uid u) k x) = \<lparr>kk_uid = u_uid u, kk_key_value = k\<rparr>" for x
    by (simp add: kv_row_def)
  obtain t where t: "kv_upset ?r ?now (t_kv (sv_db w)) = Inr (True, t)"
    and found: "odb_find kv_key (kv_key ?r) t = Some ?r"
    and others: "\<forall>i. i \<noteq> kv_key ?r \<longrightarrow> odb_find kv_key i t = odb_find kv_key i (t_kv (sv_db w))"
    using db_upset_stores [OF assms(3), of "\<lambda>_ r. r" "\<lambda>_ r. r" ?r ?now] unfolding kv_upset_def by auto
  let ?w1 = "w\<lparr>sv_db := (sv_db w)\<lparr>t_kv := t\<rparr>, sv_ops := Suc (sv_ops w)\<rparr>"
  have user: "acting_user ?w1 = Some u"
    using assms(2) by (simp add: acting_user_def)
  have put: "user_3rd_kv_put params E w = (Inr (reply (JBool True)), ?w1)"
    using assms(1,4,5) t
    by (simp add: user_3rd_kv_put_def bindM_def this_user_run [OF assms(2)] liftR_def db_op_ok on_table_def ret_def)
  have "user_3rd_kv_get params E ?w1 = (Inr (reply (JStr v)), ?w1\<lparr>sv_ops := Suc (Suc (sv_ops w))\<rparr>)"
    using assms(1,4) found
    by (simp add: user_3rd_kv_get_def bindM_def this_user_run [OF user] liftR_def db_op_ok on_table_def
        db_reload_def key kv_found_def ret_def) (simp add: kv_row_def)
  with put others show ?thesis
    by (simp add: key)
qed

theorem kv_put_get_witness:
  "\<exists>w1 w2. user_3rd_kv_put [(''key_value'', JStr ''theme''), (''value'', JStr ''dark'')] sample_env sample_server =
      (Inr (reply (JBool True)), w1) \<and>
    user_3rd_kv_get [(''key_value'', JStr ''theme''), (''value'', JStr ''dark'')] sample_env w1 = (Inr (reply (JStr ''dark'')), w2)"
  using kv_put_get [of sample_env sample_server sample_user
      "[(''key_value'', JStr ''theme''), (''value'', JStr ''dark'')]" "''theme''" "''dark''"]
  by (auto simp: acting_user_def table_ok_def obj_index_def)

lemma update_own_user_run:
  assumes "fault_free E" and "acting_user w = Some y" and "table_ok u_uid (t_user (sv_db w))"
    and "odb_find u_uid (u_uid y) (t_user (sv_db w)) = Some y0" and "\<And>z. u_uid (f z) = u_uid z"
  shows "\<exists>w' now. update_own_user f E w = (Inr (reply (JBool True)), w') \<and> acting_user w' = Some (f y0) \<and>
    table_ok u_uid (t_user (sv_db w')) \<and>
    odb_find u_uid (u_uid y) (t_user (sv_db w')) = Some ((f y0)\<lparr>u_updated_at := now\<rparr>) \<and>
    (\<forall>i. i \<noteq> u_uid y \<longrightarrow> odb_find u_uid i (t_user (sv_db w')) = odb_find u_uid i (t_user (sv_db w)))"
proof -
  let ?now = "e_clock E (sv_ops w) 0"
  have y0: "u_uid y0 = u_uid y"
    using assms(3,4) by (simp add: odb_find_iff)
  obtain t where t: "odb_update u_uid (u_stamp ?now (f y0)) (t_user (sv_db w)) = Inr t" "table_ok u_uid t"
    "\<forall>j. odb_find u_uid j t = (if j = u_uid y then Some (u_stamp ?now (f y0)) else odb_find u_uid j (t_user (sv_db w)))"
    using tab.read_modify_write [OF assms(3,4), of "\<lambda>z. u_stamp ?now (f z)"] assms(5)
    by (auto simp: u_stamp_def)
  obtain s where s: "cc_session (sv_client w) = Some s"
    using assms(2) by (auto simp: acting_user_def split: option.splits)
  let ?w = "w\<lparr>sv_db := (sv_db w)\<lparr>t_user := t\<rparr>, sv_ops := Suc (sv_ops w),
    sv_client := (sv_client w)\<lparr>cc_session := Some (s\<lparr>cs_user_info := Some (f y0)\<rparr>)\<rparr>\<rparr>"
  have "update_own_user f E w = (Inr (reply (JBool True)), ?w)"
    using assms(1,4) t(1) s
    by (simp add: update_own_user_def bindM_def this_user_run [OF assms(2)] update_user_def db_op_ok on_table_def
        db_update_id_def modify_session_def session_info_def this_client_def gets_def set_session_def modify_def ret_def)
  then show ?thesis
    using t by (intro exI [of _ ?w] exI [of _ ?now]) (simp add: acting_user_def u_stamp_def)
qed

text \<open>Recipients: \<^verbatim>\<open>user_add_recipient_address\<close> appends the new address to the stored list of the
  acting user and leaves all other users alone, and erasing the last position gives back the list as it
  was.\<close>

theorem recipient_add_erase:
  assumes "fault_free E" and "acting_user w = Some u" and "table_ok u_uid (t_user (sv_db w))"
    and "odb_find u_uid (u_uid u) (t_user (sv_db w)) = Some u0"
    and "as_string (obj_index params ''telephone'') = Inr tel" and "as_string (obj_index params ''address'') = Inr addr"
    and "as_string (obj_index params ''name'') = Inr name"
    and "as_int64 (obj_index params ''recipient_id'') = Inr (int (length (u_recipients u0)))"
  shows "\<exists>w1 w2 u1 u2. user_add_recipient_address params E w = (Inr (reply (JBool True)), w1) \<and>
    odb_find u_uid (u_uid u) (t_user (sv_db w1)) = Some u1 \<and>
    u_recipients u1 = u_recipients u0 @ [new_recipient tel addr name] \<and>
    user_erase_receipt_address params E w1 = (Inr (reply (JBool True)), w2) \<and>
    odb_find u_uid (u_uid u) (t_user (sv_db w2)) = Some u2 \<and> u_recipients u2 = u_recipients u0 \<and>
    (\<forall>i. i \<noteq> u_uid u \<longrightarrow> odb_find u_uid i (t_user (sv_db w2)) = odb_find u_uid i (t_user (sv_db w)))"
proof -
  let ?add = "\<lambda>u. u\<lparr>u_recipients := u_recipients u @ [new_recipient tel addr name]\<rparr>"
  let ?erase = "\<lambda>v. v\<lparr>u_recipients := erase_nth (int (length (u_recipients u0))) (u_recipients v)\<rparr>"
  have u0: "u_uid u0 = u_uid u"
    using assms(3,4) by (simp add: odb_find_iff)
  obtain w1 n1 where w1: "update_own_user ?add E w = (Inr (reply (JBool True)), w1)"
    and user1: "acting_user w1 = Some (?add u0)" and ok1: "table_ok u_uid (t_user (sv_db w1))"
    and row1: "odb_find u_uid (u_uid u) (t_user (sv_db w1)) = Some ((?add u0)\<lparr>u_updated_at := n1\<rparr>)"
    and rest1: "\<forall>i. i \<noteq> u_uid u \<longrightarrow> odb_find u_uid i (t_user (sv_db w1)) = odb_find u_uid i (t_user (sv_db w))"
    using update_own_user_run [OF assms(1-4), of ?add] by auto
  have row1': "odb_find u_uid (u_uid (?add u0)) (t_user (sv_db w1)) = Some ((?add u0)\<lparr>u_updated_at := n1\<rparr>)"
    using row1 u0 by simp
  obtain w2 n2 where w2: "update_own_user ?erase E w1 = (Inr (reply (JBool True)), w2)"
    and row2: "odb_find u_uid (u_uid u) (t_user (sv_db w2)) =
      Some ((?erase ((?add u0)\<lparr>u_updated_at := n1\<rparr>))\<lparr>u_updated_at := n2\<rparr>)"
    and rest2: "\<forall>i. i \<noteq> u_uid u \<longrightarrow> odb_find u_uid i (t_user (sv_db w2)) = odb_find u_uid i (t_user (sv_db w1))"
    using update_own_user_run [OF assms(1) user1 ok1 row1', of ?erase] u0 by auto
  have "user_add_recipient_address params E w = (Inr (reply (JBool True)), w1)"
    "user_erase_receipt_address params E w1 = (Inr (reply (JBool True)), w2)"
    using w1 w2 assms(5-8)
    by (simp_all add: user_add_recipient_address_def user_erase_receipt_address_def bindM_def liftR_def)
  then show ?thesis
    using row1 row2 rest1 rest2 by (simp add: erase_nth_def)
qed

theorem recipient_add_erase_witness:
  "\<exists>w1 w2 u1 u2. user_add_recipient_address [(''telephone'', JStr ''1''), (''address'', JStr ''a''), (''name'', JStr ''n''),
      (''recipient_id'', JInt 1)] sample_env sample_server = (Inr (reply (JBool True)), w1) \<and>
    odb_find u_uid 7 (t_user (sv_db w1)) = Some u1 \<and>
    u_recipients u1 = [sample_recipient, new_recipient ''1'' ''a'' ''n''] \<and>
    user_erase_receipt_address [(''telephone'', JStr ''1''), (''address'', JStr ''a''), (''name'', JStr ''n''),
      (''recipient_id'', JInt 1)] sample_env w1 = (Inr (reply (JBool True)), w2) \<and>
    odb_find u_uid 7 (t_user (sv_db w2)) = Some u2 \<and> u_recipients u2 = [sample_recipient]"
proof -
  have user: "acting_user sample_server = Some sample_user"
    and ok: "table_ok u_uid (t_user (sv_db sample_server))"
    and row: "odb_find u_uid (u_uid sample_user) (t_user (sv_db sample_server)) = Some sample_user"
    by (simp_all add: acting_user_def table_ok_def odb_find_def)
  show ?thesis
    using recipient_add_erase [OF sample_fault_free user ok row, of "[(''telephone'', JStr ''1''), (''address'', JStr ''a''),
        (''name'', JStr ''n''), (''recipient_id'', JInt 1)]" "''1''" "''a''" "''n''"]
    by (simp add: obj_index_def) blast
qed

end
