(* ===== verification/Merchant_Api.thy ===== *)
theory Merchant_Api
  imports User_Api
begin

text \<open>
  The seller's side: \<^verbatim>\<open>handle_jsonrpc_merchant_api\<close> of
  \<^verbatim>\<open>cmall_impl/handle_jsonrpc_merchant_api.cpp\<close>, one definition per case of its switch.
\<close>

definition merchant_info :: "json_object \<Rightarrow> json_object M" where
  "merchant_info params =
     bindM this_merchant (\<lambda>m0.
     bindM (load_merchant (m_uid m0)) (\<lambda>r.
     (case r of
        None \<Rightarrow> fail merchant_vanished
      | Some m \<Rightarrow>
          bindM (modify_session (\<lambda>s. s\<lparr>cs_merchant_info := Some m\<rparr>)) (\<lambda>_.
          bindM (asks (\<lambda>E. json_of_merchant E m)) (\<lambda>v.
          ret (reply v))))))"

text \<open>The order of a request, if it was sold by the caller and is not deleted.\<close>

definition sold_order :: "json_object \<Rightarrow> u64 \<Rightarrow> cmall_order \<Rightarrow> bool" where
  "sold_order params uid r \<longleftrightarrow>
     o_oid r = get_string params ''orderid'' \<and> o_seller r = uid \<and> o_deleted_at r = None"

definition with_sold_order :: "json_object \<Rightarrow> (cmall_order \<Rightarrow> json_object M) \<Rightarrow> json_object M" where
  "with_sold_order params f =
     bindM this_user (\<lambda>u.
     bindM (query_orders (sold_order params (u_uid u))) (\<lambda>orders.
     (case orders of [r] \<Rightarrow> f r | _ \<Rightarrow> fail order_not_found)))"

definition merchant_get_sold_order_detail :: "json_object \<Rightarrow> json_object M" where
  "merchant_get_sold_order_detail params =
     with_sold_order params (\<lambda>r. bindM (asks (\<lambda>E. json_of_order E r)) (\<lambda>v. ret (reply v)))"

definition merchant_sold_orders_check_payment :: "json_object \<Rightarrow> json_object M" where
  "merchant_sold_orders_check_payment params =
     with_sold_order params (\<lambda>r.
       if o_payed_at r = None then
         bindM this_merchant (\<lambda>m. bindM (order_check_payment r m) (\<lambda>b. ret (reply (JBool b))))
       else ret (reply (JBool True)))"

definition merchant_sold_orders_mark_payed :: "json_object \<Rightarrow> json_object M" where
  "merchant_sold_orders_mark_payed params =
     with_sold_order params (\<lambda>r.
       if o_payed_at r = None then
         bindM this_merchant (\<lambda>m. bindM (order_mark_payed r m) (\<lambda>b. ret (reply (JBool b))))
       else ret (reply (JBool True)))"

definition new_amount :: "json_object \<Rightarrow> string \<Rightarrow> cpp_numeric \<Rightarrow> cpp_numeric M" where
  "new_amount params k old = (if get_string params k = [] then ret old else numericM (get_string params k))"

definition merchant_alter_order_price :: "json_object \<Rightarrow> json_object M" where
  "merchant_alter_order_price params =
     with_sold_order params (\<lambda>r.
       bindM (new_amount params ''new_price'' (o_price r)) (\<lambda>price.
       bindM (new_amount params ''new_kuaidifei'' (o_kuaidifei r)) (\<lambda>fee.
       bindM (update_order (r\<lparr>o_price := price, o_kuaidifei := fee\<rparr>)) (\<lambda>ok.
       ret (reply (JBool ok))))))"

definition merchant_goods_list :: "json_object \<Rightarrow> json_object M" where
  "merchant_goods_list params =
     bindM this_merchant (\<lambda>m.
     bindM (get_merchant_git_repo (m_uid m)) (\<lambda>repo.
     bindM baseurl (\<lambda>base.
     bindM (liftR (get_products repo (m_name m) base)) (\<lambda>ps.
     bindM (asks (\<lambda>E. JArr (map (json_of_product E) ps))) (\<lambda>v.
     ret (reply v))))))"

definition merchant_keywords_list :: "json_object \<Rightarrow> json_object M" where
  "merchant_keywords_list params =
     bindM this_merchant (\<lambda>m.
     bindM (gets (\<lambda>w. keywords_list (sv_search w) (m_uid m))) (\<lambda>ks.
     ret (reply (JArr (map JStr ks)))))"

definition merchant_list_sold_orders :: "json_object \<Rightarrow> json_object M" where
  "merchant_list_sold_orders params = bindM this_user (\<lambda>u. list_orders params (\<lambda>r. o_seller r = u_uid u))"

definition merchant_sold_orders_add_kuaidi :: "json_object \<Rightarrow> json_object M" where
  "merchant_sold_orders_add_kuaidi params =
     with_sold_order params (\<lambda>r.
       bindM (update_order (r\<lparr>o_kuaidi := o_kuaidi r @
         [\<lparr>kuaidihao = get_string params ''kuaidihao'', kuaidigongsi = get_string params ''kuaidigongsi''\<rparr>]\<rparr>)) (\<lambda>ok.
       ret (reply (JBool ok))))"

text \<open>The deletion sets \<^verbatim>\<open>payed_at_\<close> as well.\<close>

definition soft_remove_order :: "cmall_order \<Rightarrow> bool M" where
  "soft_remove_order r = db_op False (on_table t_order t_order_update (db_soft_remove o_id o_mark_deleted r))"

definition merchant_delete_sold_orders :: "json_object \<Rightarrow> json_object M" where
  "merchant_delete_sold_orders params =
     with_sold_order params (\<lambda>r.
       bindM local_time (\<lambda>now.
       bindM (soft_remove_order (r\<lparr>o_payed_at := Some now\<rparr>)) (\<lambda>ok.
       ret (reply (JBool ok)))))"

definition merchant_get_gitea_password :: "json_object \<Rightarrow> json_object M" where
  "merchant_get_gitea_password params =
     bindM this_merchant (\<lambda>m.
     ret (reply (case m_gitea_password m of None \<Rightarrow> JNull | Some p \<Rightarrow> JStr p)))"

definition update_merchant :: "u64 \<Rightarrow> (cmall_merchant \<Rightarrow> cmall_merchant) \<Rightarrow> cmall_merchant option M" where
  "update_merchant uid f = db_op None (on_table t_merchant t_merchant_update (db_update_id m_uid m_stamp uid f))"

definition modify_this_merchant :: "(cmall_merchant \<Rightarrow> cmall_merchant) \<Rightarrow> unit M" where
  "modify_this_merchant f = modify_session (\<lambda>s. s\<lparr>cs_merchant_info := map_option f (cs_merchant_info s)\<rparr>)"

definition merchant_reset_gitea_password :: "json_object \<Rightarrow> json_object M" where
  "merchant_reset_gitea_password params =
     bindM this_merchant (\<lambda>m.
     bindM draw_password (\<lambda>pw.
     bindM (external (\<lambda>E n. e_gitea_password E n (m_uid m) pw)) (\<lambda>ok.
     bindM (if ok then
              bindM (modify_this_merchant (\<lambda>m. m\<lparr>m_gitea_password := Some pw\<rparr>)) (\<lambda>_.
              bindM (update_merchant (m_uid m) (\<lambda>m. m\<lparr>m_gitea_password := Some pw\<rparr>)) (\<lambda>_. ret ()))
            else ret ()) (\<lambda>_.
     ret (reply (JBool ok))))))"

definition add_apptoken :: "cmall_apptoken \<Rightarrow> cmall_apptoken option M" where
  "add_apptoken t = db_op None (on_table t_apptoken t_apptoken_update (db_add apptoken t))"

definition merchant_create_apptoken :: "json_object \<Rightarrow> json_object M" where
  "merchant_create_apptoken params =
     bindM this_user (\<lambda>u.
     bindM gen_uuid (\<lambda>token.
     bindM (add_apptoken \<lparr>apptoken = token, at_uid = u_uid u\<rparr>) (\<lambda>r.
     ret (reply (JStr (if r \<noteq> None then token else []))))))"

definition merchant_list_apptoken :: "json_object \<Rightarrow> json_object M" where
  "merchant_list_apptoken params =
     bindM this_user (\<lambda>u.
     bindM (db_op [] (on_table t_apptoken t_apptoken_update (db_query (\<lambda>t. at_uid t = u_uid u)))) (\<lambda>ts.
     ret (reply (JArr (map (JStr \<circ> apptoken) ts)))))"

text \<open>The query names the token only, not its owner.\<close>

definition merchant_delete_apptoken :: "json_object \<Rightarrow> json_object M" where
  "merchant_delete_apptoken params =
     bindM (db_op False (on_table t_apptoken t_apptoken_update
       (db_erase_query (\<lambda>t. apptoken t = get_string params ''apptoken'')))) (\<lambda>ok.
     ret (reply (JBool ok)))"

definition merchant_alter_name :: "json_object \<Rightarrow> json_object M" where
  "merchant_alter_name params =
     bindM this_merchant (\<lambda>m.
     (let new_name = get_string params ''name''
      in bindM (update_merchant (m_uid m) (\<lambda>m. m\<lparr>m_name := new_name\<rparr>)) (\<lambda>r.
         bindM (if r \<noteq> None then modify_this_merchant (\<lambda>m. m\<lparr>m_name := new_name\<rparr>) else ret ()) (\<lambda>_.
         ret (reply (JBool (r \<noteq> None)))))))"

definition merchant_user_kv_get :: "json_object \<Rightarrow> json_object M" where
  "merchant_user_kv_get params =
     bindM (liftR (as_string (obj_index params ''key_value''))) (\<lambda>k.
     bindM (liftR (as_int64 (obj_index params ''user_id''))) (\<lambda>uid.
     bindM (db_op None (on_table t_pubkv t_pubkv_update (db_reload kv_key (kv_row (u64_of uid) k [])))) kv_found))"

lemmas merchant_api_defs = merchant_info_def merchant_get_sold_order_detail_def
  merchant_sold_orders_check_payment_def merchant_sold_orders_mark_payed_def
  merchant_alter_order_price_def merchant_goods_list_def merchant_keywords_list_def
  merchant_list_sold_orders_def merchant_sold_orders_add_kuaidi_def merchant_delete_sold_orders_def
  merchant_get_gitea_password_def merchant_reset_gitea_password_def merchant_create_apptoken_def
  merchant_list_apptoken_def merchant_delete_apptoken_def merchant_alter_name_def
  merchant_user_kv_get_def

section \<open>The order table under these handlers\<close>

lemma ord_modify_session [keeps_intros]: "keeps orders_frame (modify_session f)"
  unfolding modify_session_def simple_steps by (intro keeps_intros)

lemma ord_reads [keeps_intros]:
  "keeps orders_frame (load_user uid)" "keeps orders_frame (load_merchant uid)"
  "keeps orders_frame (load_administrator uid)" "keeps orders_frame (query_orders p)"
  "keeps orders_frame (load_user_by_phone tel)"
  "keeps orders_frame (list_orders params mine)"
  unfolding list_orders_def load_user_by_phone_def
  by (intro keeps_intros db_same_to_ord reads_only load_administrator_reads)+

lemma ord_with_sold_order:
  assumes "\<And>r. keeps_from (\<lambda>db. r \<in> set (rows (t_order db))) orders_frame (f r)"
  shows "keeps orders_frame (with_sold_order params f)"
  unfolding with_sold_order_def simple_steps
  by (intro keeps_intros ord_single_order assms)

lemma ord_update_evolving:
  assumes "order_evolves r r2"
  shows "keeps_from (\<lambda>db. r \<in> set (rows (t_order db))) orders_frame (update_order r2)"
  by (rule keeps_from_weaken [OF ord_update_order]) (use assms in blast)

lemma ord_soft_remove:
  "keeps_from (\<lambda>db. r \<in> set (rows (t_order db))) orders_frame (soft_remove_order (r\<lparr>o_payed_at := Some now\<rparr>))"
  unfolding soft_remove_order_def
proof (rule ord.keeps_from_db_op)
  fix t x db and w :: server
  let ?r = "o_mark_deleted t (r\<lparr>o_payed_at := Some now\<rparr>)"
  assume r: "r \<in> set (rows (t_order (sv_db w)))"
    and run: "on_table t_order t_order_update (db_soft_remove o_id o_mark_deleted (r\<lparr>o_payed_at := Some now\<rparr>)) t (sv_db w)
      = Inr (x, db)"
  then obtain t' where t': "odb_update o_id ?r (t_order (sv_db w)) = Inr t'" "db = (sv_db w)\<lparr>t_order := t'\<rparr>"
    by (auto simp: on_table_Inr db_soft_remove_def split: sum.splits)
  have "\<exists>r\<in>set (rows (t_order (sv_db w))). order_evolves r ?r"
    using r by (intro bexI [of _ r]) (simp_all add: order_evolves_def o_mark_deleted_def)
  from order_update_evolves [OF this t'(1)] show "orders_frame w (w\<lparr>sv_db := db\<rparr>)"
    by (simp add: orders_frame_def t'(2))
qed

lemma ord_merchant_orders [keeps_intros]:
  "keeps orders_frame (merchant_get_sold_order_detail params)"
  "keeps orders_frame (merchant_sold_orders_check_payment params)"
  "keeps orders_frame (merchant_sold_orders_mark_payed params)"
  "keeps orders_frame (merchant_alter_order_price params)"
  "keeps orders_frame (merchant_sold_orders_add_kuaidi params)"
  "keeps orders_frame (merchant_delete_sold_orders params)"
  unfolding merchant_api_defs new_amount_def simple_steps
  by (intro ord_with_sold_order keeps_from_cases ord.keeps_from_bind
      ord.keeps_from_then [OF ord_check_payment] ord.keeps_from_then [OF ord_mark_payed]
      ord.keeps_from_then [OF ord_update_evolving] ord.keeps_from_then [OF ord_soft_remove]
      ord.keeps_from_keeps keeps_intros; simp add: order_evolves_def)+

lemma ord_merchant_api [keeps_intros]:
  "keeps orders_frame (merchant_info params)" "keeps orders_frame (merchant_goods_list params)"
  "keeps orders_frame (merchant_keywords_list params)" "keeps orders_frame (merchant_list_sold_orders params)"
  "keeps orders_frame (merchant_get_gitea_password params)"
  "keeps orders_frame (merchant_reset_gitea_password params)"
  "keeps orders_frame (merchant_create_apptoken params)"
  "keeps orders_frame (merchant_list_apptoken params)"
  "keeps orders_frame (merchant_delete_apptoken params)" "keeps orders_frame (merchant_alter_name params)"
  "keeps orders_frame (merchant_user_kv_get params)"
  unfolding merchant_api_defs update_merchant_def modify_this_merchant_def add_apptoken_def kv_found_def simple_steps
  by (intro keeps_intros)+

end
