(* ===== verification/Http_Text.thy ===== *)
theory Http_Text
  imports Peg Json
begin

text \<open>
  The text formats of the HTTP layer: percent decoding and MIME types
  (\<^verbatim>\<open>httpd/http_misc_helper.cpp\<close>), the \<^verbatim>\<open>Cookie\<close> and \<^verbatim>\<open>Range\<close> headers
  (\<^verbatim>\<open>httpd/header_helper.cpp\<close>).
\<close>

section \<open>Hexadecimal digits\<close>

definition hex_val :: "char \<Rightarrow> nat option" where
  "hex_val c =
     (let n = of_char c :: nat
      in if 48 \<le> n \<and> n \<le> 57 then Some (n - 48)
         else if 65 \<le> n \<and> n \<le> 70 then Some (n - 65 + 10)
         else if 97 \<le> n \<and> n \<le> 102 then Some (n - 97 + 10)
         else None)"

text \<open>\<^verbatim>\<open>"0123456789abcdef"[d]\<close>.\<close>

definition hexdigit :: "nat \<Rightarrow> char" where
  "hexdigit d = char_of (if d < 10 then 48 + d else 87 + d)"

lemma hex_val_hexdigit [simp]: "d < 16 \<Longrightarrow> hex_val (hexdigit d) = Some d"
  by (auto simp: hex_val_def hexdigit_def Let_def)

lemma hex_val_bound: "hex_val c = Some d \<Longrightarrow> d < 16"
  by (auto simp: hex_val_def Let_def split: if_splits)

lemma byte_split [simp]: "char_of (of_char c div 16 * 16 + of_char c mod 16 :: nat) = c"
  by (simp add: div_mult_mod_eq)

lemma nibbles [simp]: "(of_char c :: nat) div 16 < 16" "(of_char c :: nat) mod 16 < 16"
proof -
  have "(of_char c :: nat) < 256" by simp
  then show "(of_char c :: nat) div 16 < 16" by (simp add: less_mult_imp_div_less)
qed simp

section \<open>Letters\<close>

definition isalpha :: "char \<Rightarrow> bool" where
  "isalpha c \<longleftrightarrow> (let n = of_char c :: nat in (97 \<le> n \<and> n \<le> 122) \<or> (65 \<le> n \<and> n \<le> 90))"

text \<open>Comparison without case: \<^verbatim>\<open>beast::iequals\<close>, \<^verbatim>\<open>strcasecmp\<close> in the C locale.\<close>

definition lower_char :: "char \<Rightarrow> char" where
  "lower_char c = (let n = of_char c :: nat in if 65 \<le> n \<and> n \<le> 90 then char_of (n + 32) else c)"

definition iequals :: "string \<Rightarrow> string \<Rightarrow> bool" where
  "iequals a b \<longleftrightarrow> map lower_char a = map lower_char b"

section \<open>Percent encoding\<close>

text \<open>\<^verbatim>\<open>c <<= 4\<close> and the addition are on a byte.\<close>

fun decodeURIComponent :: "string \<Rightarrow> string result" where
  "decodeURIComponent [] = Inr []"
| "decodeURIComponent (c # cs) =
     (if c = CHR ''%'' then
        (case cs of
           first # second # rest \<Rightarrow>
             (case (hex_val first, hex_val second) of
                (Some h, Some l) \<Rightarrow>
                  (case decodeURIComponent rest of
                     Inl e \<Rightarrow> Inl e
                   | Inr s \<Rightarrow> Inr (char_of (h * 16 + l) # s))
              | _ \<Rightarrow> Inl Invalid_argument)
         | _ \<Rightarrow> Inl Invalid_argument)
      else (case decodeURIComponent cs of Inl e \<Rightarrow> Inl e | Inr s \<Rightarrow> Inr (c # s)))"

text \<open>An encoder that leaves the characters in \<open>plain\<close> alone and writes the others as
  \<^verbatim>\<open>%xx\<close>.\<close>

definition uri_encode_char :: "(char \<Rightarrow> bool) \<Rightarrow> char \<Rightarrow> string" where
  "uri_encode_char plain c =
     (if plain c \<and> c \<noteq> CHR ''%'' then [c]
      else [CHR ''%'', hexdigit (of_char c div 16), hexdigit (of_char c mod 16)])"

definition uri_encode :: "(char \<Rightarrow> bool) \<Rightarrow> string \<Rightarrow> string" where
  "uri_encode plain s = concat (map (uri_encode_char plain) s)"

text \<open>\<^verbatim>\<open>decodeURIComponent\<close> inverts percent encoding: whatever characters the encoder leaves
  plain, as long as the percent sign is not one of them, every byte string is decoded to itself.\<close>

theorem decode_encode: "decodeURIComponent (uri_encode plain s) = Inr s"
proof (induction s)
  case Nil
  then show ?case by (simp add: uri_encode_def)
next
  case (Cons c s)
  then show ?case by (simp add: uri_encode_def uri_encode_char_def)
qed

lemma decode_length: "decodeURIComponent s = Inr r \<Longrightarrow> length r \<le> length s"
proof (induction s arbitrary: r rule: decodeURIComponent.induct)
  case (2 c cs)
  show ?case
  proof (cases "c = CHR ''%''")
    case True
    with "2.prems" obtain a b rest h l t where cs: "cs = a # b # rest" "hex_val a = Some h" "hex_val b = Some l"
      and t: "decodeURIComponent rest = Inr t" "r = char_of (h * 16 + l) # t"
      by (auto split: list.splits option.splits sum.splits)
    then have "length t \<le> length rest"
      using "2.IH"(1) [OF True cs(1) refl refl] by blast
    with cs(1) t(2) show ?thesis by simp
  next
    case False
    with "2.prems" obtain t where "decodeURIComponent cs = Inr t" "r = c # t"
      by (auto split: sum.splits)
    with "2.IH"(2) [OF False] show ?thesis by simp
  qed
qed simp

lemma decode_only_invalid_argument: "decodeURIComponent s = Inl e \<Longrightarrow> e = Invalid_argument"
proof (induction s rule: decodeURIComponent.induct)
  case (2 c cs)
  show ?case
  proof (cases "c = CHR ''%''")
    case True
    show ?thesis
    proof (cases "\<exists>a b rest h l. cs = a # b # rest \<and> hex_val a = Some h \<and> hex_val b = Some l")
      case ok: True
      then obtain a b rest h l where cs: "cs = a # b # rest" "hex_val a = Some h" "hex_val b = Some l"
        by blast
      have "decodeURIComponent rest = Inl e"
        using "2.prems" True cs by (simp split: sum.splits)
      then show ?thesis
        using "2.IH"(1) [OF True cs(1) refl refl] cs by blast
    next
      case False
      then show ?thesis
        using "2.prems" True by (simp split: list.splits option.splits)
    qed
  next
    case False
    then have "decodeURIComponent cs = Inl e"
      using "2.prems" by (simp split: sum.splits)
    then show ?thesis
      using "2.IH"(2) [OF False] by blast
  qed
qed simp

section \<open>MIME types\<close>

definition mime_map :: "(string \<times> string) list" where
  "mime_map =
     [(''.html'', ''text/html; charset=utf-8''), (''.js'', ''application/javascript''),
      (''.css'', ''text/css''), (''.woff'', ''application/x-font-woff''), (''.png'', ''image/png''),
      (''.svg'', ''image/svg+xml''), (''.md'', ''text/markdown''), (''.jpg'', ''image/jpeg''),
      (''.jpeg'', ''image/jpeg''), (''.mp4'', ''video/mp4''), (''.m4v'', ''video/mp4''),
      (''.mkv'', ''video/x-matroska''), (''.flv'', ''video/x-flv''), (''.webp'', ''images/webp'')]"

definition get_mime_type_from_extension :: "string \<Rightarrow> string" where
  "get_mime_type_from_extension e = (case map_of mime_map e of Some m \<Rightarrow> m | None \<Rightarrow> [])"

section \<open>Cookies\<close>

definition cookie_key_char :: "char \<Rightarrow> bool" where
  "cookie_key_char c \<longleftrightarrow> c \<noteq> CHR ''='' \<and> c \<noteq> CHR '';'' \<and> c \<noteq> CHR '' '' \<and> c \<noteq> CHR '':''"

definition cookie_value_char :: "char \<Rightarrow> bool" where
  "cookie_value_char c \<longleftrightarrow> c \<noteq> CHR '';'' \<and> c \<noteq> CHR 0x0A \<and> c \<noteq> CHR '' ''"

definition cookie_item :: "(string \<times> string) parser" where
  "cookie_item s =
     (case many1_chars cookie_key_char s of
        None \<Rightarrow> None
      | Some (k, s1) \<Rightarrow>
          (case lit ''='' s1 of
             None \<Rightarrow> None
           | Some s2 \<Rightarrow>
               (case many1_chars cookie_value_char s2 of
                  None \<Rightarrow> None
                | Some (v, s3) \<Rightarrow> Some ((k, v), s3))))"

definition cookie_next :: "(string \<times> string) parser" where
  "cookie_next s = (case lit '';'' s of None \<Rightarrow> None | Some s1 \<Rightarrow> cookie_item (skip_space s1))"

text \<open>\<^verbatim>\<open>std::map::insert\<close>: the first value of a key stays.\<close>

definition map_insert :: "(string \<times> string) list \<Rightarrow> string \<times> string \<Rightarrow> (string \<times> string) list" where
  "map_insert m kv = (if map_of m (fst kv) = None then m @ [kv] else m)"

definition parse_cookie :: "string \<Rightarrow> (string \<times> string) list" where
  "parse_cookie line =
     (case cookie_item line of
        None \<Rightarrow> []
      | Some (kv, s1) \<Rightarrow> (case many cookie_next s1 of (kvs, s2) \<Rightarrow> foldl map_insert [] (kv # kvs)))"

definition print_cookie_item :: "string \<times> string \<Rightarrow> string" where
  "print_cookie_item kv = fst kv @ ''='' @ snd kv"

definition print_cookie :: "(string \<times> string) list \<Rightarrow> string" where
  "print_cookie kvs =
     (case kvs of
        [] \<Rightarrow> []
      | kv # rest \<Rightarrow> print_cookie_item kv @ concat (map (\<lambda>x. ''; '' @ print_cookie_item x) rest))"

definition cookie_ok :: "string \<times> string \<Rightarrow> bool" where
  "cookie_ok kv \<longleftrightarrow>
     fst kv \<noteq> [] \<and> list_all (\<lambda>c. cookie_key_char c \<and> \<not> isspace c) (fst kv) \<and>
     snd kv \<noteq> [] \<and> list_all cookie_value_char (snd kv)"

lemma cookie_item_ok:
  assumes "cookie_ok kv" and "r = [] \<or> hd r = CHR '';''"
  shows "cookie_item (print_cookie_item kv @ r) = Some (kv, r)"
proof -
  have k: "many1_chars cookie_key_char (fst kv @ (CHR ''='' # snd kv @ r)) = Some (fst kv, CHR ''='' # snd kv @ r)"
    using assms(1) by (intro many1_chars_append) (auto simp: cookie_ok_def list_all_iff cookie_key_char_def)
  have v: "many1_chars cookie_value_char (snd kv @ r) = Some (snd kv, r)"
    using assms by (intro many1_chars_append) (auto simp: cookie_ok_def list_all_iff cookie_value_char_def)
  show ?thesis
    using k v by (simp add: cookie_item_def print_cookie_item_def)
qed

interpretation cookie_fmt: item_format "\<lambda>x. ''; '' @ print_cookie_item x" cookie_next cookie_ok
  "\<lambda>r. r = [] \<or> hd r = CHR '';''"
proof unfold_locales
  fix x r
  assume x: "cookie_ok x" and r: "r = [] \<or> hd r = CHR '';''"
  have "isspace (CHR '' '')" by (simp add: isspace_def)
  moreover have "skip_space (print_cookie_item x @ r) = print_cookie_item x @ r"
    using x by (cases "fst x") (auto simp: skip_space_id print_cookie_item_def cookie_ok_def)
  ultimately show "cookie_next ((''; '' @ print_cookie_item x) @ r) = Some (x, r)"
    using cookie_item_ok [OF x r] by (simp add: cookie_next_def)
qed simp_all

lemma foldl_map_insert_distinct:
  "distinct (map fst (m @ kvs)) \<Longrightarrow> foldl map_insert m kvs = m @ kvs"
proof (induction kvs arbitrary: m)
  case (Cons kv kvs)
  then have "map_of m (fst kv) = None"
    by (auto simp: map_of_eq_None_iff)
  with Cons show ?case by (simp add: map_insert_def)
qed simp

text \<open>Round trip of the cookie header: a list of cookies with distinct names is parsed back as it was.\<close>

theorem parse_print_cookie:
  assumes "\<forall>x\<in>set kvs. cookie_ok x" and "distinct (map fst kvs)"
  shows "parse_cookie (print_cookie kvs) = kvs"
proof (cases kvs)
  case Nil
  then show ?thesis by (simp add: parse_cookie_def print_cookie_def cookie_item_def many1_chars_None)
next
  case (Cons kv rest)
  let ?tail = "concat (map (\<lambda>x. ''; '' @ print_cookie_item x) rest)"
  have "?tail = [] \<or> hd ?tail = CHR '';''"
    by (cases rest) simp_all
  then have "cookie_item (print_cookie_item kv @ ?tail) = Some (kv, ?tail)"
    using assms(1) Cons by (intro cookie_item_ok) auto
  moreover have "many cookie_next (?tail @ []) = (rest, [])"
    using assms(1) Cons by (intro cookie_fmt.many_roundtrip) (auto simp: cookie_next_def)
  ultimately show ?thesis
    using foldl_map_insert_distinct [of "[]" kvs] assms(2) Cons
    by (simp add: parse_cookie_def print_cookie_def)
qed

section \<open>Ranges\<close>

record BytesRange =
  br_begin :: u64
  br_end :: u64

text \<open>\<^verbatim>\<open>qi::uint_\<close> reads a 32-bit unsigned number and fails on overflow.\<close>

definition qi_uint :: "nat parser" where
  "qi_uint s =
     (case many1_chars isdigit s of
        None \<Rightarrow> None
      | Some (ds, r) \<Rightarrow> if digits_val ds < 2 ^ 32 then Some (digits_val ds, r) else None)"

definition parse_range :: "string \<Rightarrow> BytesRange option" where
  "parse_range s =
     (case lit ''bytes='' s of
        None \<Rightarrow> None
      | Some s1 \<Rightarrow>
          (case qi_uint s1 of
             None \<Rightarrow> None
           | Some (b, s2) \<Rightarrow>
               (case lit ''-'' s2 of
                  None \<Rightarrow> None
                | Some s3 \<Rightarrow>
                    (case many qi_uint s3 of
                       (es, s4) \<Rightarrow>
                         Some \<lparr>br_begin = word_of_nat b,
                               br_end = (if es = [] then 0 else word_of_nat (last es))\<rparr>))))"

definition make_cpntent_range :: "BytesRange \<Rightarrow> u64 \<Rightarrow> string" where
  "make_cpntent_range r content_length =
     ''bytes '' @ show_nat (unat (br_begin r)) @ ''-'' @
     show_nat (unat (if br_end r = 0 then content_length else br_end r)) @ ''/'' @
     show_nat (unat content_length)"

lemma qi_uint_show:
  assumes "n < 2 ^ 32" and "r = [] \<or> \<not> isdigit (hd r)"
  shows "qi_uint (show_nat n @ r) = Some (n, r)"
proof -
  have "many1_chars isdigit (show_nat n @ r) = Some (show_nat n, r)"
    using assms(2) show_nat_digits by (intro many1_chars_append) simp_all
  with assms(1) show ?thesis by (simp add: qi_uint_def)
qed

text \<open>Round trip of the range header: the two bounds, each below \<^verbatim>\<open>2^32\<close>, are parsed back.\<close>

theorem parse_range_print:
  assumes "b < 2 ^ 32" and "e < 2 ^ 32"
  shows "parse_range (''bytes='' @ show_nat b @ ''-'' @ show_nat e) =
    Some \<lparr>br_begin = word_of_nat b, br_end = word_of_nat e\<rparr>"
proof -
  have "qi_uint (show_nat b @ (''-'' @ show_nat e)) = Some (b, ''-'' @ show_nat e)"
    using assms(1) by (intro qi_uint_show) (simp_all add: isdigit_def)
  moreover have "many qi_uint (show_nat e) = ([e], [])"
    using qi_uint_show [OF assms(2), of "[]"] many_Some [of qi_uint "show_nat e" e "[]"]
      many_None [of qi_uint "[]"]
    by (simp add: qi_uint_def many1_chars_None)
  ultimately show ?thesis
    by (simp add: parse_range_def)
qed

theorem parse_print_cookie_witness:
  "parse_cookie (print_cookie [(''Session'', ''abc''), (''lang'', ''en'')]) = [(''Session'', ''abc''), (''lang'', ''en'')]"
  by (rule parse_print_cookie) (simp_all add: cookie_ok_def cookie_key_char_def cookie_value_char_def isspace_def)

theorem parse_range_print_witness:
  "parse_range (''bytes='' @ show_nat 100 @ ''-'' @ show_nat 200) = Some \<lparr>br_begin = 100, br_end = 200\<rparr>"
  using parse_range_print [of 100 200] by simp

end
