(* ===== verification/Goods_Api.thy ===== *)
theory Goods_Api
  imports Merchant_Api Http_Text
begin

text \<open>
  Browsing: \<^verbatim>\<open>handle_jsonrpc_goods_api\<close> and \<^verbatim>\<open>list_index_goods\<close> of
  \<^verbatim>\<open>cmall_impl/handle_jsonrpc_goods_api.cpp\<close>, and the direct payment of
  \<^verbatim>\<open>handle_jsonrpc_misc_api.cpp\<close>.
\<close>

section \<open>The index page\<close>

text \<open>\<^verbatim>\<open>cache[gref.merchant_id].name_\<close> of a merchant that does not exist is empty; a goods that
  cannot be read is shown with its ids only.\<close>

definition index_product :: "(u64 \<times> cmall_merchant) list \<Rightarrow> string \<Rightarrow> cmall_index_page_goods \<Rightarrow> product M" where
  "index_product cache base gref =
     catchM
       (bindM (get_merchant_git_repo (ig_merchant_id gref)) (\<lambda>repo.
        bindM (asks e_num) (\<lambda>num.
        liftR (get_product_throw num repo (ig_goods gref)
          (case map_of cache (ig_merchant_id gref) of None \<Rightarrow> [] | Some m \<Rightarrow> m_name m) base))))
       (\<lambda>e. if is_std_exception e
            then ret (empty_product\<lparr>product_id := ig_goods gref, pr_merchant_id := ig_merchant_id gref\<rparr>)
            else throw e)"

definition list_index_goods :: "string \<Rightarrow> product list M" where
  "list_index_goods base =
     bindM (db_op [] (on_table t_merchant t_merchant_update (db_query (\<lambda>_. True)))) (\<lambda>ms.
     bindM (db_op [] (on_table t_index t_index_update (db_query (\<lambda>_. True)))) (\<lambda>grefs.
     foldM (\<lambda>g ps. bindM (index_product (map (\<lambda>m. (m_uid m, m)) ms) base g) (\<lambda>p. ret (ps @ [p])))
       (sort_key ig_order grefs) []))"

section \<open>Handlers\<close>

text \<open>A search hit becomes a product when its merchant is normal; a merchant that cannot be loaded
  is a default-constructed one, whose state is normal.\<close>

definition hit_product :: "goods_ref \<Rightarrow> product list \<times> (u64 \<times> cmall_merchant) list \<Rightarrow>
    (product list \<times> (u64 \<times> cmall_merchant) list) M" where
  "hit_product gref = (\<lambda>(ps, cache).
     bindM (case map_of cache (gr_ref_merchant gref) of
              Some m \<Rightarrow> ret (m, cache)
            | None \<Rightarrow>
                bindM local_time (\<lambda>now.
                bindM (load_merchant (gr_ref_merchant gref)) (\<lambda>r.
                (let m = (case r of None \<Rightarrow> new_cmall_merchant now | Some m \<Rightarrow> m)
                 in ret (m, (gr_ref_merchant gref, m) # cache))))) (\<lambda>(m, cache').
     if m_state m = Merchant_normal then
       bindM (get_merchant_git_repo (gr_ref_merchant gref)) (\<lambda>repo.
       bindM baseurl (\<lambda>base.
       bindM (asks e_num) (\<lambda>num.
       bindM (liftR (get_product_throw num repo (gr_ref_goods gref) (m_name m) base)) (\<lambda>p.
       ret (ps @ [p], cache')))))
     else ret (ps, cache')))"

definition search_goods_api :: "json_object \<Rightarrow> json_object M" where
  "search_goods_api params =
     bindM (gets (\<lambda>w. search_goods (sv_search w) (split_any [CHR '' ''] (get_string params ''q'')))) (\<lambda>hits.
     bindM (foldM hit_product hits ([], [])) (\<lambda>(ps, _).
     bindM (asks (\<lambda>E. JArr (map (json_of_product E) ps))) (\<lambda>v.
     ret (reply v))))"

definition goods_list :: "json_object \<Rightarrow> json_object M" where
  "goods_list params =
     (case parse_number (get_string params ''merchant'') of
        Some mid \<Rightarrow>
          bindM (db_op [] (on_table t_merchant t_merchant_update
            (db_query (\<lambda>m. m_uid m = mid \<and> m_state m = Merchant_normal \<and> m_deleted_at m = None)))) (\<lambda>ms.
          bindM (foldM (\<lambda>m ps.
              bindM (get_merchant_git_repo_ec (m_uid m)) (\<lambda>r.
              (case r of
                 None \<Rightarrow> ret ps
               | Some repo \<Rightarrow>
                   bindM baseurl (\<lambda>base.
                   bindM (liftR (get_products repo (m_name m) base)) (\<lambda>qs. ret (ps @ qs))))))
            ms []) (\<lambda>ps.
          bindM (asks (\<lambda>E. JArr (map (json_of_product E) ps))) (\<lambda>v. ret (reply v))))
      | None \<Rightarrow>
          bindM baseurl (\<lambda>base.
          bindM (list_index_goods base) (\<lambda>ps.
          bindM (asks (\<lambda>E. JArr (map (json_of_product E) ps))) (\<lambda>v. ret (reply v)))))"

text \<open>The handler turns \<^verbatim>\<open>std::invalid_argument\<close> into \<^verbatim>\<open>invalid_params\<close>.\<close>

definition goods_detail :: "json_object \<Rightarrow> json_object M" where
  "goods_detail params =
     catchM
       (bindM (liftR (as_int64 (json_get params ''merchant_id'' (JInt (-1))))) (\<lambda>mid.
        bindM (liftR (decodeURIComponent (get_string params ''goods_id''))) (\<lambda>goods_id.
        bindM (require (goods_id \<noteq> []) invalid_params) (\<lambda>_.
        bindM (load_merchant (u64_of mid)) (\<lambda>r.
        (case r of
           None \<Rightarrow> fail merchant_vanished
         | Some m \<Rightarrow>
             bindM (get_merchant_git_repo (u64_of mid)) (\<lambda>repo.
             bindM baseurl (\<lambda>base.
             bindM (asks e_num) (\<lambda>num.
             bindM (liftR (get_product_throw num repo goods_id (m_name m) base)) (\<lambda>p.
             bindM (asks (\<lambda>E. json_of_product E p)) (\<lambda>v.
             ret (reply v))))))))))))
       (\<lambda>e. if e = Invalid_argument then fail invalid_params else throw e)"

definition goods_markdown :: "json_object \<Rightarrow> json_object M" where
  "goods_markdown params =
     bindM (liftR (as_int64 (json_get params ''merchant_id'' (JInt (-1))))) (\<lambda>mid.
     bindM (require (get_string params ''goods_id'' \<noteq> []) invalid_params) (\<lambda>_.
     bindM (get_merchant_git_repo (u64_of mid)) (\<lambda>repo.
     bindM baseurl (\<lambda>base.
     bindM (asks e_render) (\<lambda>render.
     bindM (liftR (get_product_detail_throw render repo (get_string params ''goods_id'') base)) (\<lambda>d.
     ret (reply (JStr d))))))))"

definition goods_merchant_index :: "json_object \<Rightarrow> json_object M" where
  "goods_merchant_index params =
     bindM (liftR (as_int64 (json_get params ''merchant_id'' (JInt (-1))))) (\<lambda>mid.
     bindM (get_merchant_git_repo (u64_of mid)) (\<lambda>repo.
     bindM baseurl (\<lambda>base.
     bindM (asks e_render) (\<lambda>render.
     bindM (liftR (get_transpiled_md render repo ''index.md'' base)) (\<lambda>(md, ec).
     ret (reply (JStr md)))))))"

text \<open>The Chinese for \<^emph>\<open>direct payment to the merchant\<close>, as UTF-8 bytes.\<close>

definition direct_pay_text :: string where
  "direct_pay_text =
     [CHR 0xE5, CHR 0x90, CHR 0x91, CHR 0xE5, CHR 0x95, CHR 0x86, CHR 0xE6, CHR 0x88, CHR 0xB7,
      CHR 0xE7, CHR 0x9B, CHR 0xB4, CHR 0xE6, CHR 0x8E, CHR 0xA5, CHR 0xE4, CHR 0xBB, CHR 0x98,
      CHR 0xE6, CHR 0xAC, CHR 0xBE]"

definition wx_direct_pay :: "json_object \<Rightarrow> json_object M" where
  "wx_direct_pay params =
     bindM (wxpay_for_appid (get_string params ''appid'')) (\<lambda>cfg.
     bindM gen_uuid (\<lambda>orderid.
     bindM (numericM (get_string params ''amount'')) (\<lambda>amount.
     bindM (external (\<lambda>E n. e_wx_prepay E n cfg (get_string params ''sub_mchid'') orderid amount
       direct_pay_text (get_string params ''payer_openid''))) (\<lambda>prepay_id.
     bindM (require (prepay_id \<noteq> []) wxpay_server_error) (\<lambda>_.
     bindM (external (\<lambda>E n. e_wx_pay_object E n cfg prepay_id)) (\<lambda>v.
     ret (reply v)))))))"

lemmas goods_api_defs = search_goods_api_def goods_list_def goods_detail_def goods_markdown_def
  goods_merchant_index_def wx_direct_pay_def

lemma ord_index_goods [keeps_intros]: "keeps orders_frame (list_index_goods base)"
  unfolding list_index_goods_def index_product_def simple_steps
  by (intro keeps_intros)

lemma ord_goods_api [keeps_intros]:
  "keeps orders_frame (search_goods_api params)" "keeps orders_frame (goods_list params)"
  "keeps orders_frame (goods_detail params)" "keeps orders_frame (goods_markdown params)"
  "keeps orders_frame (goods_merchant_index params)" "keeps orders_frame (wx_direct_pay params)"
  unfolding goods_api_defs hit_product_def simple_steps
  by (intro keeps_intros)+

text \<open>Browsing changes no table at all.\<close>

lemma goods_reads [keeps_intros]:
  "keeps (same sv_db) (load_merchant uid)"
  "keeps (same sv_db) (db_op [] (on_table t_merchant t_merchant_update (db_query p)))"
  "keeps (same sv_db) (db_op [] (on_table t_index t_index_update (db_query q)))"
  by (rule reads_only) (rule on_table_read; simp add: db_read_defs)+

lemma goods_api_read_only:
  "keeps (same sv_db) (search_goods_api params)" "keeps (same sv_db) (goods_list params)"
  "keeps (same sv_db) (goods_detail params)" "keeps (same sv_db) (goods_markdown params)"
  "keeps (same sv_db) (goods_merchant_index params)" "keeps (same sv_db) (wx_direct_pay params)"
  unfolding goods_api_defs hit_product_def list_index_goods_def index_product_def simple_steps
  by (intro keeps_intros)+

text \<open>Browsing is read-only: no request of the goods group changes the database.\<close>

theorem browsing_is_read_only:
  assumes "handler \<in> {search_goods_api, goods_list, goods_detail, goods_markdown, goods_merchant_index}"
    and "handler params E w = (r, w')"
  shows "sv_db w' = sv_db w"
  using assms goods_api_read_only [THEN keepsD, of params E w r w'] by (auto simp: same_def)

theorem browsing_is_read_only_witness:
  "\<exists>r w'. goods_markdown [(''merchant_id'', JInt 5), (''goods_id'', JStr ''tea'')] sample_env sample_server = (r, w') \<and>
     sv_db w' = sample_db"
  using browsing_is_read_only [of goods_markdown "[(''merchant_id'', JInt 5), (''goods_id'', JStr ''tea'')]" sample_env sample_server]
  by (metis insertCI prod.collapse sample_server_simps(1))

end
