(* ===== verification/Admin_Api.thy ===== *)
theory Admin_Api
  imports Goods_Api
begin

text \<open>
  Administration: \<^verbatim>\<open>handle_jsonrpc_admin_api\<close> of \<^verbatim>\<open>cmall_impl/handle_jsonrpc_admin_api.cpp\<close>, one
  definition per case of its switch, and the loading of the configuration and of the merchants'
  repositories (\<^verbatim>\<open>load_configs\<close> and \<^verbatim>\<open>load_repos\<close> of \<^verbatim>\<open>cmall.cpp\<close>).
\<close>

section \<open>Configuration\<close>

definition apply_config :: "cmall_config \<Rightarrow> server_config \<Rightarrow> server_config" where
  "apply_config c cfg =
     (let v = config_value c
      in if config_name c = ''gitea_template_user'' then cfg\<lparr>sc_gitea_template_user := v\<rparr>
         else if config_name c = ''gitea_template_reponame'' then cfg\<lparr>sc_gitea_template_reponame := v\<rparr>
         else if config_name c = ''site_name'' then cfg\<lparr>sc_site_name := v\<rparr>
         else if config_name c = ''netease_secret_id'' then cfg\<lparr>sc_netease_secret_id := v\<rparr>
         else if config_name c = ''netease_secret_key'' then cfg\<lparr>sc_netease_secret_key := v\<rparr>
         else if config_name c = ''netease_business_id'' then cfg\<lparr>sc_netease_business_id := v\<rparr>
         else if config_name c = ''tencent_id'' then cfg\<lparr>sc_tencent_secret_id := v\<rparr>
         else if config_name c = ''tencent_key'' then cfg\<lparr>sc_tencent_secret_key := v\<rparr>
         else cfg)"

text \<open>The payment configuration being collected, with its counter \<^verbatim>\<open>complete\<close>.\<close>

definition apply_pay_config :: "cmall_config \<Rightarrow> microapp_pay_cfg \<times> nat \<Rightarrow> microapp_pay_cfg \<times> nat" where
  "apply_pay_config c = (\<lambda>(p, n).
     (let v = config_value c
      in if config_name c = ''wxpay_appid'' then (p\<lparr>wx_appid := v\<rparr>, Suc n)
         else if config_name c = ''wxpay_rsa_key'' then (p\<lparr>wx_rsa_key := v\<rparr>, Suc n)
         else if config_name c = ''wxpay_rsa_cert'' then (p\<lparr>wx_rsa_cert := v\<rparr>, Suc n)
         else if config_name c = ''wxpay_apiv3_key'' then (p\<lparr>wx_apiv3_key := v\<rparr>, Suc n)
         else if config_name c = ''wxpay_mchid'' then (p\<lparr>wx_mchid := v\<rparr>, Suc n)
         else if config_name c = ''wxpay_appSecret'' then (p\<lparr>wx_appSecret := v\<rparr>, Suc n)
         else if config_name c = ''wxpay_notify_url'' then (p\<lparr>wx_notify_url := v\<rparr>, Suc n)
         else (p, n)))"

definition empty_pay_cfg :: microapp_pay_cfg where
  "empty_pay_cfg =
     \<lparr>wx_appid = [], wx_rsa_key = [], wx_rsa_cert = [], wx_apiv3_key = [], wx_mchid = [],
      wx_appSecret = [], wx_notify_url = []\<rparr>"

text \<open>\<^verbatim>\<open>reinit\<close> of a known service and the creation of a new one both leave the service with the
  new configuration under its \<^verbatim>\<open>appid\<close>.\<close>

definition install_pay_cfg :: "microapp_pay_cfg \<times> nat \<Rightarrow> (string \<times> microapp_pay_cfg) list \<Rightarrow> (string \<times> microapp_pay_cfg) list" where
  "install_pay_cfg pc services =
     (if snd pc = 7 then (wx_appid (fst pc), fst pc) # filter (\<lambda>(a, _). a \<noteq> wx_appid (fst pc)) services
      else services)"

definition load_configs :: "bool M" where
  "load_configs =
     bindM (db_op [] (on_table t_config t_config_update (db_query (\<lambda>_. True)))) (\<lambda>cs.
     bindM (modify (\<lambda>w. w\<lparr>sv_config := fold apply_config cs (sv_config w),
       sv_wxpay := install_pay_cfg (fold apply_pay_config cs (empty_pay_cfg, 0)) (sv_wxpay w)\<rparr>)) (\<lambda>_.
     ret True))"

definition load_repos :: "bool M" where
  "load_repos =
     bindM (db_op [] (on_table t_merchant t_merchant_update (db_query (\<lambda>m. m_deleted_at m = None)))) (\<lambda>ms.
     bindM (foldM (\<lambda>m _. bindM (load_merchant_git (m_uid m)) (\<lambda>_. ret ())) ms ()) (\<lambda>_.
     ret True))"

section \<open>Users and merchants\<close>

definition admin_user_list :: "json_object \<Rightarrow> json_object M" where
  "admin_user_list params =
     bindM (db_op [] (on_table t_user t_user_update (db_query (\<lambda>u. u_deleted_at u = None)))) (\<lambda>us.
     bindM (asks (\<lambda>E. JArr (map (json_of_user E) (by_created_desc u_created_at us)))) (\<lambda>v.
     ret (reply v)))"

definition admin_user_ban :: "json_object \<Rightarrow> json_object M" where
  "admin_user_ban params =
     bindM (liftR (as_int64 (json_get params ''uid'' (JInt (-1))))) (\<lambda>uid.
     bindM (require (\<not> uid < 0) invalid_params) (\<lambda>_.
     bindM (update_user (u64_of uid) (\<lambda>u. u\<lparr>u_state := User_banned\<rparr>)) (\<lambda>_.
     bindM (update_merchant (u64_of uid) (\<lambda>m. m\<lparr>m_state := Merchant_banned\<rparr>)) (\<lambda>_.
     ret (reply (JBool True))))))"

definition admin_user_detail :: "json_object \<Rightarrow> json_object M" where
  "admin_user_detail params =
     bindM (liftR (as_int64 (json_get params ''uid'' (JInt (-1))))) (\<lambda>uid.
     bindM (require (\<not> uid < 0) invalid_params) (\<lambda>_.
     bindM (load_user (u64_of uid)) (\<lambda>r.
     (case r of
        None \<Rightarrow> fail user_not_found
      | Some u \<Rightarrow> bindM (asks (\<lambda>E. json_of_user E u)) (\<lambda>v. ret (reply v))))))"

definition admin_list_merchants :: "json_object \<Rightarrow> json_object M" where
  "admin_list_merchants params =
     bindM (db_op [] (on_table t_merchant t_merchant_update (db_query (\<lambda>m. m_deleted_at m = None)))) (\<lambda>ms.
     bindM (asks (\<lambda>E. JArr (map (json_of_merchant E) (by_created_desc m_created_at ms)))) (\<lambda>v.
     ret (reply v)))"

definition admin_list_applicants :: "json_object \<Rightarrow> json_object M" where
  "admin_list_applicants params =
     bindM (db_op [] (load_applies (\<lambda>_. True))) (\<lambda>as.
     bindM (asks (\<lambda>E. JArr (map (json_of_apply E) (by_created_desc (ap_created_at \<circ> fst) as)))) (\<lambda>v.
     ret (reply v)))"

section \<open>Applications\<close>

text \<open>The transaction of an approval: the application changes its state and the merchant is
  created, or nothing happens. \<open>created\<close> is the time the merchant object was constructed,
  \<open>pw\<close> its generated password.\<close>

definition approve_body :: "u64 \<Rightarrow> ptime \<Rightarrow> string \<Rightarrow> (database, cmall_merchant option) tx" where
  "approve_body apply_id created pw now db =
     (case odb_find ap_id apply_id (t_apply db) of
        None \<Rightarrow> Inr (None, db)
      | Some a \<Rightarrow>
          (case odb_find u_uid (ap_applicant a) (t_user db) of
             None \<Rightarrow> Inl Object_not_persistent
           | Some u \<Rightarrow>
               (if ap_state a \<noteq> Waiting then Inr (None, db)
                else
                  (case odb_update ap_id (a\<lparr>ap_state := Approved, ap_deleted_at := Some now\<rparr>) (t_apply db) of
                     Inl e \<Rightarrow> Inl e
                   | Inr ta \<Rightarrow>
                       (let m = (new_cmall_merchant created)
                              \<lparr>m_uid := u_uid u, m_name := u_name u, m_state := Merchant_normal,
                               m_gitea_password := Some pw\<rparr>
                        in case odb_persist m_uid m (t_merchant db) of
                             Inl e \<Rightarrow> Inl e
                           | Inr tm \<Rightarrow> Inr (Some m, db\<lparr>t_apply := ta, t_merchant := tm\<rparr>))))))"

text \<open>The raw string of the notification is not a format string: its braces stay doubled.\<close>

definition status_updated_text :: string where
  "status_updated_text = ''{{'' @ quoted ''topic'' @ '':'' @ quoted ''status_updated'' @ ''}}''"

definition admin_approve_merchant :: "json_object \<Rightarrow> json_object M" where
  "admin_approve_merchant params =
     bindM (liftR (as_int64 (json_get params ''apply_id'' (JInt (-1))))) (\<lambda>apply_id.
     bindM (require (\<not> apply_id < 0) invalid_params) (\<lambda>_.
     bindM local_time (\<lambda>created.
     bindM draw_password (\<lambda>pw.
     bindM (async_transacton (approve_body (u64_of apply_id) created pw)) (\<lambda>r.
     bindM (case r of
              None \<Rightarrow> ret ()
            | Some m \<Rightarrow>
                bindM (gets sv_config) (\<lambda>cfg.
                bindM (external (\<lambda>E n. e_gitea_init E n cfg (m_uid m) pw)) (\<lambda>_.
                bindM (load_merchant_git (m_uid m)) (\<lambda>_.
                bindM this_client (\<lambda>c.
                send_notify_message (u64_of apply_id) status_updated_text (cc_id c)))))) (\<lambda>_.
     ret (reply (JBool True))))))))"

definition admin_deny_applicant :: "json_object \<Rightarrow> json_object M" where
  "admin_deny_applicant params =
     bindM (liftR (as_int64 (json_get params ''apply_id'' (JInt (-1))))) (\<lambda>apply_id.
     bindM (require (\<not> apply_id < 0) invalid_params) (\<lambda>_.
     bindM (db_op False (on_table t_apply t_apply_update
       (db_update_query ap_id ap_stamp (\<lambda>a. ap_id a = u64_of apply_id \<and> ap_state a = Waiting)
         (\<lambda>a. a\<lparr>ap_state := Denied, ap_ext := get_string params ''reason''\<rparr>)))) (\<lambda>_.
     ret (reply (JBool True)))))"

fun merchant_ids :: "json list \<Rightarrow> u64 list" where
  "merchant_ids [] = []"
| "merchant_ids (v # vs) =
     (case v of JInt i \<Rightarrow> (if 0 \<le> i then u64_of i # merchant_ids vs else merchant_ids vs)
      | _ \<Rightarrow> merchant_ids vs)"

definition set_merchants_state :: "merchant_state_t \<Rightarrow> json_object \<Rightarrow> json_object M" where
  "set_merchants_state st params =
     (case json_get params ''merchants'' JNull of
        JArr marr \<Rightarrow>
          bindM (if merchant_ids marr = [] then ret False
                 else db_op False (on_table t_merchant t_merchant_update
                   (db_update_query m_uid m_stamp (\<lambda>m. m_uid m \<in> set (merchant_ids marr))
                     (\<lambda>m. m\<lparr>m_state := st\<rparr>)))) (\<lambda>_.
          ret (reply (JBool True)))
      | _ \<Rightarrow> fail invalid_params)"

definition admin_disable_merchants :: "json_object \<Rightarrow> json_object M" where
  "admin_disable_merchants = set_merchants_state Merchant_disabled"

definition admin_reenable_merchants :: "json_object \<Rightarrow> json_object M" where
  "admin_reenable_merchants = set_merchants_state Merchant_normal"

definition admin_set_merchant_wxpay_submchid :: "json_object \<Rightarrow> json_object M" where
  "admin_set_merchant_wxpay_submchid params =
     bindM (liftR (as_int64 (json_get params ''merchant_id'' (JInt (-1))))) (\<lambda>mid.
     bindM (load_merchant (u64_of mid)) (\<lambda>r.
     (case r of
        None \<Rightarrow> ret (reply (JBool False))
      | Some m \<Rightarrow>
          bindM (db_op False (on_table t_merchant t_merchant_update
            (db_update m_uid m_stamp (m\<lparr>m_exinfo_wx_mchid := Some (get_string params ''sub_mchid'')\<rparr>)))) (\<lambda>ok.
          ret (reply (JBool ok))))))"

definition wxpay_names :: "string list" where
  "wxpay_names = [''wxpay_appid'', ''wxpay_rsa_key'', ''wxpay_rsa_cert'', ''wxpay_apiv3_key'',
     ''wxpay_mchid'', ''wxpay_appSecret'', ''wxpay_notify_url'']"

definition wxpay_keys :: "string list" where
  "wxpay_keys = [''sp_appid'', ''rsa_key'', ''rsa_cert'', ''apiv3_key'', ''sp_mchid'', ''appSecret'', ''notify_url'']"

definition new_configs :: "json_object \<Rightarrow> cmall_config list" where
  "new_configs params =
     map (\<lambda>(n, k). \<lparr>cfg_id = 0, config_name = n, config_value = get_string params k\<rparr>) (zip wxpay_names wxpay_keys)"

text \<open>The reload runs detached; what it throws is not seen by the caller.\<close>

definition admin_set_wxpay_detail :: "json_object \<Rightarrow> json_object M" where
  "admin_set_wxpay_detail params =
     bindM (db_op False (on_table t_config t_config_update
       (db_erase_and_insert (\<lambda>i c. c\<lparr>cfg_id := i\<rparr>) no_clash (\<lambda>c. config_name c \<in> set wxpay_names)
         (new_configs params)))) (\<lambda>ok.
     bindM (if ok then catchM load_configs (\<lambda>_. ret False) else ret False) (\<lambda>_.
     ret (reply (JBool ok))))"

section \<open>Acting as another user\<close>

definition sudo_target :: "json \<Rightarrow> u64 option" where
  "sudo_target v = (case v of JInt i \<Rightarrow> Some (u64_of i) | JUint n \<Rightarrow> Some n | _ \<Rightarrow> None)"

definition sudo_reply :: "json_object M" where
  "sudo_reply =
     bindM session_info (\<lambda>s.
     ret (reply (JObj [(''sudo'', JStr ''success''), (''isMerchant'', JBool (cs_isMerchant s)),
                       (''isAdmin'', JBool (cs_isAdmin s))])))"

definition sudo_session :: "cmall_user \<Rightarrow> cmall_merchant option \<Rightarrow> client_session \<Rightarrow> client_session" where
  "sudo_session tgt m s =
     s\<lparr>cs_original_user := cs_admin_info s, cs_admin_info := None, cs_isAdmin := False,
       cs_isMerchant := (m \<noteq> None), cs_sudo_mode := True, cs_merchant_info := m,
       cs_user_info := Some tgt\<rparr>"

definition admin_sudo :: "json_object \<Rightarrow> json_object M" where
  "admin_sudo params =
     bindM this_user (\<lambda>u.
     (case sudo_target (json_get params ''target_uid'' JNull) of
        None \<Rightarrow> fail invalid_params
      | Some uid \<Rightarrow>
          bindM (require (uid \<noteq> u_uid u) cannot_sudo) (\<lambda>_.
          bindM (load_user uid) (\<lambda>r.
          (case r of
             None \<Rightarrow> fail internal_server_error
           | Some tgt \<Rightarrow>
               bindM (load_merchant uid) (\<lambda>m.
               bindM (modify_session (sudo_session tgt m)) (\<lambda>_.
               bindM save_session (\<lambda>_.
               sudo_reply))))))))"

definition unsudo_session :: "cmall_user \<Rightarrow> cmall_merchant option \<Rightarrow> client_session \<Rightarrow> client_session" where
  "unsudo_session user m s =
     s\<lparr>cs_isAdmin := True, cs_admin_info := cs_original_user s, cs_user_info := Some user,
       cs_sudo_mode := False, cs_isMerchant := (m \<noteq> None), cs_merchant_info := m,
       cs_original_user := None\<rparr>"

definition admin_sudo_cancel :: "json_object \<Rightarrow> json_object M" where
  "admin_sudo_cancel params =
     bindM session_info (\<lambda>s.
     bindM (deref (cs_original_user s)) (\<lambda>a.
     bindM (deref (a_user a)) (\<lambda>user.
     bindM (load_merchant (u_uid user)) (\<lambda>m.
     bindM (modify_session (unsudo_session user m)) (\<lambda>_.
     bindM save_session (\<lambda>_.
     sudo_reply))))))"

section \<open>Goods of the index page\<close>

definition admin_list_index_goods :: "json_object \<Rightarrow> json_object M" where
  "admin_list_index_goods params =
     bindM baseurl (\<lambda>base.
     bindM (list_index_goods base) (\<lambda>ps.
     bindM (asks (\<lambda>E. JArr (map (json_of_product E) ps))) (\<lambda>v. ret (reply v))))"

fun index_rows :: "nat \<Rightarrow> json list \<Rightarrow> cmall_index_page_goods list result" where
  "index_rows n [] = Inr []"
| "index_rows n (v # vs) =
     (case as_object v of
        Inl e \<Rightarrow> Inl e
      | Inr ob \<Rightarrow>
          (case as_int64 (json_get ob ''merchant_id'' (JInt (-1))) of
             Inl e \<Rightarrow> Inl e
           | Inr mid \<Rightarrow>
               (case index_rows (Suc n) vs of
                  Inl e \<Rightarrow> Inl e
                | Inr rs \<Rightarrow>
                    Inr (\<lparr>ig_id = 0, ig_merchant_id = u64_of mid, ig_goods = get_string ob ''goods_id'',
                          ig_order = int n\<rparr> # rs))))"

text \<open>The transaction: \<^verbatim>\<open>bool erased = db.erase_query<...>()\<close> is false when the table was empty.\<close>

definition set_index_body :: "cmall_index_page_goods list \<Rightarrow> (database, unit option) tx" where
  "set_index_body gs now db =
     (case odb_erase_query (\<lambda>_. True) (t_index db) of
        (n, t) \<Rightarrow>
          (if n = 0 then Inr (None, db)
           else (case persist_all (\<lambda>i g. g\<lparr>ig_id := i\<rparr>) no_clash gs t of
                   Inl e \<Rightarrow> Inl e
                 | Inr t' \<Rightarrow> Inr (Some (), db\<lparr>t_index := t'\<rparr>))))"

definition admin_set_index_goods :: "json_object \<Rightarrow> json_object M" where
  "admin_set_index_goods params =
     bindM (liftR (get_array params ''list'')) (\<lambda>vs.
     bindM (liftR (index_rows 0 vs)) (\<lambda>gs.
     bindM (async_transacton (set_index_body gs)) (\<lambda>r.
     ret (reply (JBool (r \<noteq> None))))))"

text \<open>\<^verbatim>\<open>max(order)\<close> of an empty table is null, which the view reads as 0.\<close>

definition max_order :: "cmall_index_page_goods table \<Rightarrow> int" where
  "max_order t = (case map ig_order (rows t) of [] \<Rightarrow> 0 | x # xs \<Rightarrow> fold max xs x)"

definition admin_add_index_goods :: "json_object \<Rightarrow> json_object M" where
  "admin_add_index_goods params =
     bindM (liftR (as_int64 (json_get params ''merchant_id'' (JInt (-1))))) (\<lambda>mid.
     bindM (get_merchant_git_repo (u64_of mid)) (\<lambda>repo.
     bindM (asks e_num) (\<lambda>num.
     bindM (liftR (get_product_throw num repo (get_string params ''goods_id'') ''x'' [])) (\<lambda>_.
     bindM (db_op 0 (on_table t_index t_index_update (\<lambda>now t. Inr (max_order t, t)))) (\<lambda>n.
     bindM (db_op None (on_table t_index t_index_update
       (db_add_auto (\<lambda>i g. g\<lparr>ig_id := i\<rparr>) no_clash
         \<lparr>ig_id = 0, ig_merchant_id = u64_of mid, ig_goods = get_string params ''goods_id'', ig_order = n + 1\<rparr>))) (\<lambda>_.
     ret (reply (JBool True))))))))"

definition admin_remove_index_goods :: "json_object \<Rightarrow> json_object M" where
  "admin_remove_index_goods params =
     bindM (liftR (as_int64 (json_get params ''merchant_id'' (JInt (-1))))) (\<lambda>mid.
     bindM (db_op False (on_table t_index t_index_update
       (db_erase_query (\<lambda>g. ig_merchant_id g = u64_of mid \<and> ig_goods g = get_string params ''goods_id'')))) (\<lambda>_.
     ret (reply (JBool True))))"

lemmas admin_api_defs = admin_user_list_def admin_user_ban_def admin_user_detail_def
  admin_list_merchants_def admin_list_applicants_def admin_approve_merchant_def
  admin_deny_applicant_def admin_disable_merchants_def admin_reenable_merchants_def
  admin_set_merchant_wxpay_submchid_def admin_set_wxpay_detail_def admin_sudo_def
  admin_sudo_cancel_def admin_list_index_goods_def admin_set_index_goods_def
  admin_add_index_goods_def admin_remove_index_goods_def

text \<open>The approval of an application happens at most once: an approval that goes through takes a
  waiting application of an existing user, marks it as approved and appends exactly one merchant in normal
  state under the applicant's uid and name; a second approval of the same application then finds nothing to
  do and leaves the database as it is.\<close>

theorem approve_once:
  assumes "table_ok ap_id (t_apply db)" and "approve_body i created pw now db = Inr (Some m, db')"
  shows "(\<exists>a u. odb_find ap_id i (t_apply db) = Some a \<and> ap_state a = Waiting \<and>
      odb_find u_uid (ap_applicant a) (t_user db) = Some u \<and>
      m_uid m = u_uid u \<and> m_name m = u_name u \<and> m_state m = Merchant_normal \<and>
      rows (t_merchant db') = rows (t_merchant db) @ [m] \<and>
      db' = db\<lparr>t_apply := t_apply db', t_merchant := t_merchant db'\<rparr> \<and>
      (\<forall>j. odb_find ap_id j (t_apply db') =
         (if j = i then Some (a\<lparr>ap_state := Approved, ap_deleted_at := Some now\<rparr>) else odb_find ap_id j (t_apply db)))) \<and>
    (\<forall>created2 pw2 now2. approve_body i created2 pw2 now2 db' = Inr (None, db'))"
proof -
  obtain a u ta tm where a: "odb_find ap_id i (t_apply db) = Some a" "ap_state a = Waiting"
    and u: "odb_find u_uid (ap_applicant a) (t_user db) = Some u"
    and ta: "odb_update ap_id (a\<lparr>ap_state := Approved, ap_deleted_at := Some now\<rparr>) (t_apply db) = Inr ta"
    and m: "m = (new_cmall_merchant created)\<lparr>m_uid := u_uid u, m_name := u_name u, m_state := Merchant_normal,
        m_gitea_password := Some pw\<rparr>"
    and tm: "odb_persist m_uid m (t_merchant db) = Inr tm" and db': "db' = db\<lparr>t_apply := ta, t_merchant := tm\<rparr>"
    using assms(2) by (auto simp: approve_body_def Let_def split: option.splits sum.splits if_splits)
  have key: "ap_id a = i"
    using a(1) assms(1) by (simp add: odb_find_iff)
  have find: "odb_find ap_id j ta =
      (if j = i then Some (a\<lparr>ap_state := Approved, ap_deleted_at := Some now\<rparr>) else odb_find ap_id j (t_apply db))" for j
    using tab.update_cases(3) [OF assms(1) ta] key by simp
  have "rows tm = rows (t_merchant db) @ [m]"
    using tm by (auto simp: odb_persist_def split: if_splits)
  moreover have "approve_body i created2 pw2 now2 db' = Inr (None, db')" for created2 pw2 now2
    using find [of i] u by (simp add: approve_body_def db')
  ultimately show ?thesis
    using a u find by (simp add: db' m)
qed

definition sample_apply_db :: database where
  "sample_apply_db = sample_db\<lparr>t_apply := \<lparr>rows = [(new_cmall_apply 500)\<lparr>ap_id := 1, ap_applicant := 7, ap_seq := Some 0\<rparr>],
     sequence = 2\<rparr>\<rparr>"

theorem approve_once_witness:
  "\<exists>m db'. approve_body 1 900 ''pw'' 1000 sample_apply_db = Inr (Some m, db') \<and> m_uid m = 7 \<and>
     rows (t_merchant db') = [sample_merchant, m] \<and> approve_body 1 901 ''pw2'' 1001 db' = Inr (None, db')"
proof -
  have ok: "table_ok ap_id (t_apply sample_apply_db)"
    by (simp add: sample_apply_db_def table_ok_def)
  obtain m db' where run: "approve_body 1 900 ''pw'' 1000 sample_apply_db = Inr (Some m, db')" and m: "m_uid m = 7"
    by (simp add: approve_body_def sample_apply_db_def odb_defs new_cmall_apply_def Let_def)
  show ?thesis
    using approve_once [OF ok run] run m by (auto simp: sample_apply_db_def)
qed

text \<open>Setting the goods of the index page when there are none yet does nothing: the transaction takes
  the empty result of the deletion for a failure, so the request answers false and the table stays empty,
  whatever goods were given.\<close>

theorem set_index_goods_on_empty_table:
  assumes "fault_free E" and "rows (t_index (sv_db w)) = []"
    and "get_array params ''list'' = Inr vs" and "index_rows 0 vs = Inr gs"
  shows "\<exists>w'. admin_set_index_goods params E w = (Inr (reply (JBool False)), w') \<and> sv_db w' = sv_db w"
  using assms
  by (simp add: admin_set_index_goods_def bindM_def liftR_def ret_def async_transacton_def attempt_def
      fault_free_def set_index_body_def odb_erase_query_def Let_def)

theorem set_index_goods_on_empty_table_witness:
  "\<exists>w'. admin_set_index_goods [(''list'', JArr [JObj [(''merchant_id'', JInt 5), (''goods_id'', JStr ''tea'')]])]
      sample_env sample_server = (Inr (reply (JBool False)), w') \<and> sv_db w' = sample_db"
  using set_index_goods_on_empty_table [of sample_env sample_server
      "[(''list'', JArr [JObj [(''merchant_id'', JInt 5), (''goods_id'', JStr ''tea'')]])]"]
  by (simp add: get_array_def json_get_def)

lemma db_update_id_ok:
  assumes "\<And>z. key (stamp now (f z)) = key z"
  shows "\<exists>x t'. db_update_id key stamp i f now t = Inr (x, t')"
proof (cases "odb_find key i t")
  case None
  then show ?thesis by (simp add: db_update_id_def)
next
  case (Some r)
  then have "key r = i" by (auto simp: odb_find_def dest: find_SomeD)
  with Some show ?thesis by (simp add: db_update_id_def odb_update_def assms)
qed

text \<open>After a change of one row the row that a query for an unchanged, unique value finds is the changed
  one.\<close>

lemma find_after_update:
  assumes "table_ok key t" and "odb_find key i t = Some u" and "odb_update key u' t = Inr t'" and "key u' = i"
    and "p u'" and "\<And>v. v \<in> set (rows t) \<Longrightarrow> p v \<Longrightarrow> v = u"
  shows "List.find p (rows t') = Some u'"
proof -
  have t': "rows t' = map (\<lambda>s. if key s = i then u' else s) (rows t)"
    using assms(3,4) by (auto simp: odb_update_def split: if_splits)
  have u: "u \<in> set (rows t)" "key u = i"
    using assms(1,2) by (simp_all add: odb_find_iff)
  have only: "v = u'" if "v \<in> set (rows t')" "p v" for v
    using that assms(6) u by (fastforce simp: t' split: if_splits)
  have "u' \<in> set (rows t')"
    using u by (auto simp: t' intro!: image_eqI [of _ _ u])
  then obtain v where "List.find p (rows t') = Some v"
    using assms(5) by (metis find_None_iff not_None_eq)
  with only show ?thesis by (metis find_SomeD)
qed

text \<open>A banned user cannot start a login: after \<^verbatim>\<open>admin_user_ban\<close> of a user, \<^verbatim>\<open>user_prelogin\<close> with
  his telephone number is answered with \<^verbatim>\<open>user_banned\<close>.\<close>

theorem banned_user_cannot_login:
  assumes "fault_free E" and "table_ok u_uid (t_user (sv_db w))"
    and "as_int64 (json_get params ''uid'' (JInt (-1))) = Inr uid" and "0 \<le> uid"
    and "odb_find u_uid (u64_of uid) (t_user (sv_db w)) = Some u"
    and "\<And>v. v \<in> set (rows (t_user (sv_db w))) \<Longrightarrow> u_active_phone v = u_active_phone u \<Longrightarrow> v = u"
    and "json_as_string (json_get tparams ''telephone'' (JStr [])) [] = u_active_phone u"
  shows "\<exists>w1 w2. admin_user_ban params E w = (Inr (reply (JBool True)), w1) \<and>
    user_prelogin tparams E w1 = (Inl (System_error user_banned), w2) \<and> cc_session (sv_client w2) = cc_session (sv_client w)"
proof -
  let ?ban = "\<lambda>u. u\<lparr>u_state := User_banned\<rparr>"
  let ?tel = "json_as_string (json_get tparams ''telephone'' (JStr [])) []"
  define now1 now2 where "now1 = e_clock E (sv_ops w) 0" and "now2 = e_clock E (Suc (sv_ops w)) 0"
  define u' where "u' = u_stamp now1 (?ban u)"
  have u: "u_uid u = u64_of uid"
    using assms(2,5) by (simp add: odb_find_iff)
  obtain tu where tu: "odb_update u_uid u' (t_user (sv_db w)) = Inr tu"
    using assms(5) u by (auto simp: odb_update_def u'_def u_stamp_def)
  obtain x tm where tm: "db_update_id m_uid m_stamp (u64_of uid) (\<lambda>m. m\<lparr>m_state := Merchant_banned\<rparr>) now2
      (t_merchant (sv_db w)) = Inr (x, tm)"
    using db_update_id_ok [of m_uid m_stamp now2 "\<lambda>m. m\<lparr>m_state := Merchant_banned\<rparr>" "u64_of uid" "t_merchant (sv_db w)"]
    by (auto simp: m_stamp_def)
  let ?w1 = "w\<lparr>sv_db := (sv_db w)\<lparr>t_user := tu, t_merchant := tm\<rparr>, sv_ops := Suc (Suc (sv_ops w))\<rparr>"
  have ban: "admin_user_ban params E w = (Inr (reply (JBool True)), ?w1)"
    using assms(1,3-5) tu tm
    by (simp add: admin_user_ban_def bindM_def liftR_def require_def ret_def update_user_def update_merchant_def
        db_op_ok on_table_def db_update_id_def [of u_uid] u'_def now1_def now2_def)
  have "List.find (\<lambda>v. u_active_phone v = ?tel) (rows tu) = Some u'"
    using assms(6,7) u by (intro find_after_update [OF assms(2,5) tu]) (simp_all add: u'_def u_stamp_def)
  then have "user_prelogin tparams E ?w1 = (Inl (System_error user_banned), ?w1\<lparr>sv_ops := Suc (Suc (Suc (sv_ops w)))\<rparr>)"
    using assms(1)
    by (simp add: user_prelogin_def Let_def bindM_def load_user_by_phone_def db_op_ok on_table_def db_query_one_def
        odb_query_one_def require_def throw_def u'_def u_stamp_def)
  with ban show ?thesis by simp
qed

theorem banned_user_cannot_login_witness:
  "\<exists>w1 w2. admin_user_ban [(''uid'', JInt 7)] sample_env sample_server = (Inr (reply (JBool True)), w1) \<and>
    user_prelogin [(''telephone'', JStr ''123'')] sample_env w1 = (Inl (System_error user_banned), w2)"
proof -
  have ok: "table_ok u_uid (t_user (sv_db sample_server))"
    and uid: "as_int64 (json_get [(''uid'', JInt 7)] ''uid'' (JInt (-1))) = Inr 7" "(0::int) \<le> 7"
    and row: "odb_find u_uid (u64_of 7) (t_user (sv_db sample_server)) = Some sample_user"
    and tel: "json_as_string (json_get [(''telephone'', JStr ''123'')] ''telephone'' (JStr [])) [] = u_active_phone sample_user"
    by (simp_all add: table_ok_def json_get_def json_as_string_def odb_find_def u64_of_def)
  have one: "v = sample_user" if "v \<in> set (rows (t_user (sv_db sample_server)))" "u_active_phone v = u_active_phone sample_user" for v
    using that by auto
  show ?thesis
    using banned_user_cannot_login [OF sample_fault_free ok uid row one tel] by blast
qed

lemma save_session_run:
  assumes "fault_free E" and "table_ok s_cache_key (t_session (sv_db w))" and "cc_session (sv_client w) = Some s"
  shows "\<exists>t n. save_session E w = (Inr (), w\<lparr>sv_db := (sv_db w)\<lparr>t_session := t\<rparr>, sv_ops := n\<rparr>) \<and>
    table_ok s_cache_key t"
  using session_save_run [OF assms(1,2), of s "cc_x_real_ip (sv_client w)"] assms(3)
  by (simp add: save_session_def this_client_def session_info_def M_defs)

text \<open>What an administrator's session looks like after a login.\<close>

definition admin_session :: "database \<Rightarrow> client_session \<Rightarrow> administrators \<Rightarrow> cmall_user \<Rightarrow> bool" where
  "admin_session db s a u \<longleftrightarrow>
     cs_user_info s = Some u \<and> cs_isAdmin s \<and> cs_admin_info s = Some a \<and> a_user a = Some u \<and>
     \<not> cs_sudo_mode s \<and> cs_original_user s = None \<and>
     cs_merchant_info s = odb_find m_uid (u_uid u) (t_merchant db) \<and> cs_isMerchant s = (cs_merchant_info s \<noteq> None)"

lemma sudo_run:
  assumes "fault_free E" and "table_ok s_cache_key (t_session (sv_db w))" and "cc_session (sv_client w) = Some s"
    and "cs_user_info s = Some u" and "sudo_target (json_get params ''target_uid'' JNull) = Some uid" and "uid \<noteq> u_uid u"
    and "odb_find u_uid uid (t_user (sv_db w)) = Some tgt"
  shows "\<exists>rep w' t. admin_sudo params E w = (Inr rep, w') \<and> sv_db w' = (sv_db w)\<lparr>t_session := t\<rparr> \<and>
    table_ok s_cache_key t \<and>
    cc_session (sv_client w') = Some (sudo_session tgt (odb_find m_uid uid (t_merchant (sv_db w))) s)"
proof -
  let ?s = "sudo_session tgt (odb_find m_uid uid (t_merchant (sv_db w))) s"
  let ?w = "w\<lparr>sv_ops := Suc (Suc (sv_ops w)), sv_client := (sv_client w)\<lparr>cc_session := Some ?s\<rparr>\<rparr>"
  obtain t n where "save_session E ?w = (Inr (), ?w\<lparr>sv_db := (sv_db w)\<lparr>t_session := t\<rparr>, sv_ops := n\<rparr>)" "table_ok s_cache_key t"
    using save_session_run [OF assms(1), of ?w ?s] assms(2) by auto
  then show ?thesis
    using assms(1,3-7)
    by (simp add: admin_sudo_def bindM_def this_user_def deref_def session_info_def this_client_def gets_def ret_def
        require_def load_user_def load_merchant_def db_op_ok on_table_def db_get_def modify_session_def set_session_def
        modify_def sudo_reply_def) (rule exI [of _ t], simp)
qed

lemma sudo_cancel_run:
  assumes "fault_free E" and "table_ok s_cache_key (t_session (sv_db w))" and "cc_session (sv_client w) = Some s"
    and "cs_original_user s = Some a" and "a_user a = Some u"
  shows "\<exists>rep w' t. admin_sudo_cancel params E w = (Inr rep, w') \<and> sv_db w' = (sv_db w)\<lparr>t_session := t\<rparr> \<and>
    cc_session (sv_client w') = Some (unsudo_session u (odb_find m_uid (u_uid u) (t_merchant (sv_db w))) s)"
proof -
  let ?s = "unsudo_session u (odb_find m_uid (u_uid u) (t_merchant (sv_db w))) s"
  let ?w = "w\<lparr>sv_ops := Suc (sv_ops w), sv_client := (sv_client w)\<lparr>cc_session := Some ?s\<rparr>\<rparr>"
  obtain t n where "save_session E ?w = (Inr (), ?w\<lparr>sv_db := (sv_db w)\<lparr>t_session := t\<rparr>, sv_ops := n\<rparr>)" "table_ok s_cache_key t"
    using save_session_run [OF assms(1), of ?w ?s] assms(2) by auto
  then show ?thesis
    using assms(1,3-5)
    by (simp add: admin_sudo_cancel_def bindM_def deref_def session_info_def this_client_def gets_def ret_def
        load_merchant_def db_op_ok on_table_def db_get_def modify_session_def set_session_def
        modify_def sudo_reply_def) (rule exI, rule refl)
qed

text \<open>(C32) Acting as another user and returning: \<^verbatim>\<open>admin_sudo\<close> makes an administrator's session the
  session of the target user, without the administrator flag and with the merchant flag of the target, and
  \<^verbatim>\<open>admin_sudo_cancel\<close> gives back exactly the session there was.\<close>

theorem sudo_and_back:
  assumes "fault_free E" and "table_ok s_cache_key (t_session (sv_db w))" and "cc_session (sv_client w) = Some s"
    and "admin_session (sv_db w) s a u" and "sudo_target (json_get params ''target_uid'' JNull) = Some uid"
    and "uid \<noteq> u_uid u" and "odb_find u_uid uid (t_user (sv_db w)) = Some tgt"
  shows "\<exists>rep1 w1 s1 rep2 w2. admin_sudo params E w = (Inr rep1, w1) \<and> cc_session (sv_client w1) = Some s1 \<and>
    cs_user_info s1 = Some tgt \<and> \<not> cs_isAdmin s1 \<and> cs_sudo_mode s1 \<and>
    cs_isMerchant s1 = (odb_find m_uid uid (t_merchant (sv_db w)) \<noteq> None) \<and>
    admin_sudo_cancel params2 E w1 = (Inr rep2, w2) \<and> cc_session (sv_client w2) = Some s"
proof -
  note u = assms(4) [unfolded admin_session_def]
  let ?s1 = "sudo_session tgt (odb_find m_uid uid (t_merchant (sv_db w))) s"
  obtain rep1 w1 t where w1: "admin_sudo params E w = (Inr rep1, w1)" "sv_db w1 = (sv_db w)\<lparr>t_session := t\<rparr>"
    "table_ok s_cache_key t" "cc_session (sv_client w1) = Some ?s1"
    using sudo_run [OF assms(1-3) _ assms(5-7)] u by blast
  have "cs_original_user ?s1 = Some a" "a_user a = Some u"
    using u by (simp_all add: sudo_session_def)
  from sudo_cancel_run [OF assms(1) _ w1(4) this, of params2] obtain rep2 w2 where
    w2: "admin_sudo_cancel params2 E w1 = (Inr rep2, w2)"
    "cc_session (sv_client w2) = Some (unsudo_session u (odb_find m_uid (u_uid u) (t_merchant (sv_db w))) ?s1)"
    using w1(2,3) by auto
  have "unsudo_session u (odb_find m_uid (u_uid u) (t_merchant (sv_db w))) ?s1 = s"
    using u by (simp add: sudo_session_def unsudo_session_def)
  then show ?thesis
    using w1 w2 by (auto simp: sudo_session_def)
qed

definition sample_admin :: administrators where
  "sample_admin = \<lparr>a_uid = 9, a_user = Some sample_boss\<rparr>"

definition sample_admin_session :: client_session where
  "sample_admin_session = (new_client_session ''s9'')\<lparr>cs_user_info := Some sample_boss,
     cs_admin_info := Some sample_admin, cs_isAdmin := True\<rparr>"

definition with_session :: "client_session \<Rightarrow> server" where
  "with_session s = sample_server\<lparr>sv_client := sample_client\<lparr>cc_session := Some s\<rparr>\<rparr>"

lemma with_session_simps [simp]:
  "sv_db (with_session s) = sample_db" "cc_session (sv_client (with_session s)) = Some s"
  by (simp_all add: with_session_def)

theorem sudo_and_back_witness:
  "\<exists>rep1 w1 s1 rep2 w2. admin_sudo [(''target_uid'', JInt 7)] sample_env (with_session sample_admin_session) = (Inr rep1, w1) \<and>
    cc_session (sv_client w1) = Some s1 \<and> cs_user_info s1 = Some sample_user \<and> \<not> cs_isAdmin s1 \<and>
    admin_sudo_cancel [] sample_env w1 = (Inr rep2, w2) \<and> cc_session (sv_client w2) = Some sample_admin_session"
proof -
  have "table_ok s_cache_key (t_session (sv_db (with_session sample_admin_session)))"
    "cc_session (sv_client (with_session sample_admin_session)) = Some sample_admin_session"
    "admin_session (sv_db (with_session sample_admin_session)) sample_admin_session sample_admin sample_boss"
    "sudo_target (json_get [(''target_uid'', JInt 7)] ''target_uid'' JNull) = Some 7" "7 \<noteq> u_uid sample_boss"
    "odb_find u_uid 7 (t_user (sv_db (with_session sample_admin_session))) = Some sample_user"
    by (simp_all add: table_ok_def admin_session_def sample_admin_session_def sample_admin_def new_client_session_def
        odb_find_def json_get_def sudo_target_def u64_of_def)
  from sudo_and_back [OF sample_fault_free this, of "[]"] show ?thesis by blast
qed

end
