(* ===== verification/Dispatch.thy ===== *)
theory Dispatch
  imports Admin_Api
begin

text \<open>
  The entry point of every request: the methods (\<^verbatim>\<open>req_method\<close> of \<^verbatim>\<open>cmall.hpp\<close>),
  \<^verbatim>\<open>handle_jsonrpc_call\<close> of \<^verbatim>\<open>cmall.cpp\<close> with its checks of session, login and role, the
  recovery of a session and the temporary tokens of the user scripts.
\<close>

section \<open>Methods\<close>

datatype (plugins only:) req_method =
    Rq_recover_session
  | Rq_ping
  | Rq_user_fastlogin
  | Rq_user_prelogin
  | Rq_user_login
  | Rq_user_logout
  | Rq_user_islogin
  | Rq_user_info
  | Rq_user_apply_merchant
  | Rq_user_apply_info
  | Rq_user_add_face
  | Rq_user_search_by_face
  | Rq_user_list_recipient_address
  | Rq_user_add_recipient_address
  | Rq_user_modify_receipt_address
  | Rq_user_erase_receipt_address
  | Rq_user_get_wx_openid
  | Rq_user_3rd_kv_put
  | Rq_user_3rd_kv_get
  | Rq_user_3rd_kv_put_pubkey
  | Rq_user_3rd_kv_get_pubkey
  | Rq_cart_add
  | Rq_cart_mod
  | Rq_cart_del
  | Rq_cart_list
  | Rq_fav_add
  | Rq_fav_del
  | Rq_fav_list
  | Rq_order_create_cart
  | Rq_order_create_direct
  | Rq_order_detail
  | Rq_order_list
  | Rq_order_close
  | Rq_order_get_paymethods
  | Rq_order_get_pay_url
  | Rq_order_check_payment
  | Rq_order_get_wxpay_prepay_id
  | Rq_order_get_wxpay_object
  | Rq_search_goods
  | Rq_goods_list
  | Rq_goods_detail
  | Rq_goods_markdown
  | Rq_goods_merchant_index
  | Rq_merchant_info
  | Rq_merchant_get_sold_order_detail
  | Rq_merchant_sold_orders_check_payment
  | Rq_merchant_sold_orders_mark_payed
  | Rq_merchant_alter_order_price
  | Rq_merchant_goods_list
  | Rq_merchant_keywords_list
  | Rq_merchant_list_sold_orders
  | Rq_merchant_sold_orders_add_kuaidi
  | Rq_merchant_delete_sold_orders
  | Rq_merchant_get_gitea_password
  | Rq_merchant_reset_gitea_password
  | Rq_merchant_create_apptoken
  | Rq_merchant_list_apptoken
  | Rq_merchant_delete_apptoken
  | Rq_merchant_alter_name
  | Rq_merchant_user_kv_get
  | Rq_admin_user_detail
  | Rq_admin_user_list
  | Rq_admin_user_ban
  | Rq_admin_list_applicants
  | Rq_admin_approve_merchant
  | Rq_admin_deny_applicant
  | Rq_admin_list_merchants
  | Rq_admin_disable_merchants
  | Rq_admin_reenable_merchants
  | Rq_admin_set_merchant_wxpay_submchid
  | Rq_admin_set_wxpay_detail
  | Rq_admin_sudo
  | Rq_admin_sudo_cancel
  | Rq_admin_list_index_goods
  | Rq_admin_set_index_goods
  | Rq_admin_add_index_goods
  | Rq_admin_remove_index_goods
  | Rq_admin_set_profit_sharing
  | Rq_wx_direct_pay

text \<open>The enumerators in declaration order with their names, which is what \<^verbatim>\<open>magic_enum\<close> reflects.\<close>

definition req_methods :: "(string \<times> req_method) list" where
  "req_methods = [
     (''recover_session'', Rq_recover_session),
     (''ping'', Rq_ping),
     (''user_fastlogin'', Rq_user_fastlogin),
     (''user_prelogin'', Rq_user_prelogin),
     (''user_login'', Rq_user_login),
     (''user_logout'', Rq_user_logout),
     (''user_islogin'', Rq_user_islogin),
     (''user_info'', Rq_user_info),
     (''user_apply_merchant'', Rq_user_apply_merchant),
     (''user_apply_info'', Rq_user_apply_info),
     (''user_add_face'', Rq_user_add_face),
     (''user_search_by_face'', Rq_user_search_by_face),
     (''user_list_recipient_address'', Rq_user_list_recipient_address),
     (''user_add_recipient_address'', Rq_user_add_recipient_address),
     (''user_modify_receipt_address'', Rq_user_modify_receipt_address),
     (''user_erase_receipt_address'', Rq_user_erase_receipt_address),
     (''user_get_wx_openid'', Rq_user_get_wx_openid),
     (''user_3rd_kv_put'', Rq_user_3rd_kv_put),
     (''user_3rd_kv_get'', Rq_user_3rd_kv_get),
     (''user_3rd_kv_put_pubkey'', Rq_user_3rd_kv_put_pubkey),
     (''user_3rd_kv_get_pubkey'', Rq_user_3rd_kv_get_pubkey),
     (''cart_add'', Rq_cart_add),
     (''cart_mod'', Rq_cart_mod),
     (''cart_del'', Rq_cart_del),
     (''cart_list'', Rq_cart_list),
     (''fav_add'', Rq_fav_add),
     (''fav_del'', Rq_fav_del),
     (''fav_list'', Rq_fav_list),
     (''order_create_cart'', Rq_order_create_cart),
     (''order_create_direct'', Rq_order_create_direct),
     (''order_detail'', Rq_order_detail),
     (''order_list'', Rq_order_list),
     (''order_close'', Rq_order_close),
     (''order_get_paymethods'', Rq_order_get_paymethods),
     (''order_get_pay_url'', Rq_order_get_pay_url),
     (''order_check_payment'', Rq_order_check_payment),
     (''order_get_wxpay_prepay_id'', Rq_order_get_wxpay_prepay_id),
     (''order_get_wxpay_object'', Rq_order_get_wxpay_object),
     (''search_goods'', Rq_search_goods),
     (''goods_list'', Rq_goods_list),
     (''goods_detail'', Rq_goods_detail),
     (''goods_markdown'', Rq_goods_markdown),
     (''goods_merchant_index'', Rq_goods_merchant_index),
     (''merchant_info'', Rq_merchant_info),
     (''merchant_get_sold_order_detail'', Rq_merchant_get_sold_order_detail),
     (''merchant_sold_orders_check_payment'', Rq_merchant_sold_orders_check_payment),
     (''merchant_sold_orders_mark_payed'', Rq_merchant_sold_orders_mark_payed),
     (''merchant_alter_order_price'', Rq_merchant_alter_order_price),
     (''merchant_goods_list'', Rq_merchant_goods_list),
     (''merchant_keywords_list'', Rq_merchant_keywords_list),
     (''merchant_list_sold_orders'', Rq_merchant_list_sold_orders),
     (''merchant_sold_orders_add_kuaidi'', Rq_merchant_sold_orders_add_kuaidi),
     (''merchant_delete_sold_orders'', Rq_merchant_delete_sold_orders),
     (''merchant_get_gitea_password'', Rq_merchant_get_gitea_password),
     (''merchant_reset_gitea_password'', Rq_merchant_reset_gitea_password),
     (''merchant_create_apptoken'', Rq_merchant_create_apptoken),
     (''merchant_list_apptoken'', Rq_merchant_list_apptoken),
     (''merchant_delete_apptoken'', Rq_merchant_delete_apptoken),
     (''merchant_alter_name'', Rq_merchant_alter_name),
     (''merchant_user_kv_get'', Rq_merchant_user_kv_get),
     (''admin_user_detail'', Rq_admin_user_detail),
     (''admin_user_list'', Rq_admin_user_list),
     (''admin_user_ban'', Rq_admin_user_ban),
     (''admin_list_applicants'', Rq_admin_list_applicants),
     (''admin_approve_merchant'', Rq_admin_approve_merchant),
     (''admin_deny_applicant'', Rq_admin_deny_applicant),
     (''admin_list_merchants'', Rq_admin_list_merchants),
     (''admin_disable_merchants'', Rq_admin_disable_merchants),
     (''admin_reenable_merchants'', Rq_admin_reenable_merchants),
     (''admin_set_merchant_wxpay_submchid'', Rq_admin_set_merchant_wxpay_submchid),
     (''admin_set_wxpay_detail'', Rq_admin_set_wxpay_detail),
     (''admin_sudo'', Rq_admin_sudo),
     (''admin_sudo_cancel'', Rq_admin_sudo_cancel),
     (''admin_list_index_goods'', Rq_admin_list_index_goods),
     (''admin_set_index_goods'', Rq_admin_set_index_goods),
     (''admin_add_index_goods'', Rq_admin_add_index_goods),
     (''admin_remove_index_goods'', Rq_admin_remove_index_goods),
     (''admin_set_profit_sharing'', Rq_admin_set_profit_sharing),
     (''wx_direct_pay'', Rq_wx_direct_pay)]"

definition enum_cast :: "string \<Rightarrow> req_method option" where
  "enum_cast s = map_of req_methods s"

section \<open>Recovering a session\<close>

text \<open>\<^verbatim>\<open>load_user_info\<close>. A flag that is set stays set when the row is gone; the \<^verbatim>\<open>uid_\<close> of a
  default-constructed \<^verbatim>\<open>administrators\<close> is indeterminate and taken as 0.\<close>

definition load_merchant_flag :: "u64 \<Rightarrow> unit M" where
  "load_merchant_flag uid =
     bindM (load_merchant uid) (\<lambda>r.
     (case r of
        None \<Rightarrow> ret ()
      | Some m \<Rightarrow> modify_session (\<lambda>s. s\<lparr>cs_merchant_info := Some m, cs_isMerchant := True\<rparr>)))"

definition load_admin_flag :: "u64 \<Rightarrow> unit M" where
  "load_admin_flag uid =
     bindM (load_administrator uid) (\<lambda>r.
     (case r of
        None \<Rightarrow> ret ()
      | Some a \<Rightarrow> modify_session (\<lambda>s. s\<lparr>cs_admin_info := Some a, cs_isAdmin := True\<rparr>)))"

definition reload_original_user :: "unit M" where
  "reload_original_user =
     bindM session_info (\<lambda>s.
     if cs_sudo_mode s then
       bindM (deref (cs_original_user s)) (\<lambda>a.
       bindM (load_administrator (a_uid a)) (\<lambda>r.
       modify_session (\<lambda>s. s\<lparr>cs_original_user :=
         Some (case r of None \<Rightarrow> \<lparr>a_uid = 0, a_user = None\<rparr> | Some a \<Rightarrow> a)\<rparr>)))
     else ret ())"

definition load_user_info :: "unit M" where
  "load_user_info =
     bindM this_user (\<lambda>u.
     bindM (load_user (u_uid u)) (\<lambda>r.
     (case r of
        None \<Rightarrow> modify_session (\<lambda>s. s\<lparr>cs_user_info := None\<rparr>)
      | Some u' \<Rightarrow>
          bindM (modify_session (\<lambda>s. s\<lparr>cs_user_info := Some u'\<rparr>)) (\<lambda>_.
          bindM (load_merchant_flag (u_uid u')) (\<lambda>_.
          bindM (load_admin_flag (u_uid u')) (\<lambda>_.
          bindM reload_original_user (\<lambda>_.
          enter_active)))))))"

definition cookie_line :: "client_session \<Rightarrow> string" where
  "cookie_line s = ''Session='' @ cs_session_id s"

definition set_baseurl :: "string \<Rightarrow> unit M" where
  "set_baseurl b =
     bindM baseurl (\<lambda>_. modify (\<lambda>w. w\<lparr>sv_client := sv_client w\<lparr>cc_ws := Some b\<rparr>\<rparr>))"

definition find_session :: "string \<Rightarrow> unit M" where
  "find_session sessionid =
     (if sessionid = [] then alloca_sessionid
      else
        bindM (session_exist sessionid) (\<lambda>found.
        if \<not> found then alloca_sessionid
        else
          bindM (session_load sessionid) (\<lambda>s.
          bindM (set_session s) (\<lambda>_.
          bindM this_client (\<lambda>c.
          session_update_lifetime sessionid (cc_x_real_ip c))))))"

definition recover_by_session :: "json_object \<Rightarrow> json_object M" where
  "recover_by_session params =
     bindM this_client (\<lambda>c.
     bindM (if cc_session c = None then find_session (get_string params ''sessionid'') else ret ()) (\<lambda>_.
     bindM session_info (\<lambda>s.
     bindM (if cs_user_info s \<noteq> None then load_user_info else ret ()) (\<lambda>_.
     bindM session_info (\<lambda>s.
     bindM (gets sv_config) (\<lambda>cfg.
     ret (reply (JObj [(''session_id'', JStr (cs_session_id s)), (''isAdmin'', JBool (cs_isAdmin s)),
       (''isMerchant'', JBool (cs_isMerchant s)), (''isLogin'', JBool (cs_user_info s \<noteq> None)),
       (''isSudo'', JBool (cs_sudo_mode s)), (''site_name'', JStr (sc_site_name cfg)),
       (''cookie'', JStr (cookie_line s))]))))))))"

text \<open>\<^verbatim>\<open>in_temp_api_token\<close>, \<^verbatim>\<open>gen_temp_api_token\<close> and \<^verbatim>\<open>drop_temp_api_token\<close>.\<close>

definition in_temp_api_token :: "string \<Rightarrow> bool M" where
  "in_temp_api_token t = gets (\<lambda>w. t \<in> set (sv_temp_token w))"

definition gen_temp_api_token :: "string \<Rightarrow> string M" where
  "gen_temp_api_token merchant =
     bindM (external (\<lambda>E n. Inr (e_rand_string E n))) (\<lambda>rnd.
     bindM (modify (\<lambda>w. w\<lparr>sv_temp_token := List.insert (merchant @ ''-'' @ rnd) (sv_temp_token w)\<rparr>)) (\<lambda>_.
     ret (merchant @ ''-'' @ rnd)))"

definition drop_temp_api_token :: "string \<Rightarrow> unit M" where
  "drop_temp_api_token t = modify (\<lambda>w. w\<lparr>sv_temp_token := filter (\<lambda>x. x \<noteq> t) (sv_temp_token w)\<rparr>)"

text \<open>The regular expression \<^verbatim>\<open>([0-9]+)-(.+)\<close> and \<^verbatim>\<open>std::stoull\<close> of its first group.\<close>

definition token_uid :: "string \<Rightarrow> u64 result" where
  "token_uid t =
     (let ds = takeWhile isdigit t
      in (case dropWhile isdigit t of
            c # _ # _ \<Rightarrow>
              (if c = CHR ''-'' \<and> ds \<noteq> [] then
                 (if digits_val ds < 2 ^ 64 then Inr (word_of_nat (digits_val ds)) else Inl Out_of_range)
               else Inl (System_error internal_server_error))
          | _ \<Rightarrow> Inl (System_error internal_server_error)))"

definition api_token_uid :: "string \<Rightarrow> u64 M" where
  "api_token_uid api_token =
     bindM (in_temp_api_token api_token) (\<lambda>temp.
     if temp then liftR (token_uid api_token)
     else
       bindM (db_op None (on_table t_apptoken t_apptoken_update (db_query_one (\<lambda>a. apptoken a = api_token)))) (\<lambda>r.
       (case r of None \<Rightarrow> fail apitoken_invalid | Some a \<Rightarrow> ret (at_uid a))))"

definition recover_by_token :: "string \<Rightarrow> json_object M" where
  "recover_by_token api_token =
     bindM (api_token_uid api_token) (\<lambda>uid.
     bindM (load_user uid) (\<lambda>r.
     (case r of
        None \<Rightarrow> ret (reply (JObj [(''login'', JStr ''failed'')]))
      | Some u \<Rightarrow>
          bindM gen_uuid (\<lambda>uuid.
          bindM (set_session ((new_client_session uuid)\<lparr>cs_user_info := Some u\<rparr>)) (\<lambda>_.
          bindM (load_merchant_flag uid) (\<lambda>_.
          bindM (load_admin_flag uid) (\<lambda>_.
          bindM session_info (\<lambda>s.
          bindM (gets sv_config) (\<lambda>cfg.
          ret (reply (JObj [(''login'', JStr ''success''), (''isMerchant'', JBool (cs_isMerchant s)),
            (''isAdmin'', JBool (cs_isAdmin s)), (''isSudo'', JBool (cs_sudo_mode s)),
            (''site_name'', JStr (sc_site_name cfg)), (''cookie'', JStr (cookie_line s))])))))))))))"

definition recover_session :: "json_object \<Rightarrow> json_object M" where
  "recover_session params =
     bindM (set_baseurl (get_string params ''baseurl'')) (\<lambda>_.
     if get_string params ''api-token'' = [] then recover_by_session params
     else recover_by_token (get_string params ''api-token''))"

section \<open>Dispatch\<close>

text \<open>The \<^verbatim>\<open>switch\<close> of each group of handlers; its default throws a string literal.\<close>

definition handle_jsonrpc_user_api :: "req_method \<Rightarrow> json_object \<Rightarrow> json_object M" where
  "handle_jsonrpc_user_api m params =
     (case m of
        Rq_user_prelogin \<Rightarrow> user_prelogin params
      | Rq_user_login \<Rightarrow> user_login params
      | Rq_user_fastlogin \<Rightarrow> user_fastlogin params
      | Rq_user_logout \<Rightarrow> user_logout params
      | Rq_user_islogin \<Rightarrow> user_islogin params
      | Rq_user_info \<Rightarrow> user_info params
      | Rq_user_apply_merchant \<Rightarrow> user_apply_merchant params
      | Rq_user_apply_info \<Rightarrow> user_apply_info params
      | Rq_user_add_face \<Rightarrow> user_add_face params
      | Rq_user_search_by_face \<Rightarrow> user_search_by_face params
      | Rq_user_list_recipient_address \<Rightarrow> user_list_recipient_address params
      | Rq_user_add_recipient_address \<Rightarrow> user_add_recipient_address params
      | Rq_user_modify_receipt_address \<Rightarrow> user_modify_receipt_address params
      | Rq_user_erase_receipt_address \<Rightarrow> user_erase_receipt_address params
      | Rq_user_get_wx_openid \<Rightarrow> user_get_wx_openid params
      | Rq_user_3rd_kv_put \<Rightarrow> user_3rd_kv_put params
      | Rq_user_3rd_kv_get \<Rightarrow> user_3rd_kv_get params
      | Rq_user_3rd_kv_put_pubkey \<Rightarrow> user_3rd_kv_put_pubkey params
      | Rq_user_3rd_kv_get_pubkey \<Rightarrow> user_3rd_kv_get_pubkey params
      | _ \<Rightarrow> throw Literal_thrown)"

definition handle_jsonrpc_cart_api :: "req_method \<Rightarrow> json_object \<Rightarrow> json_object M" where
  "handle_jsonrpc_cart_api m params =
     (case m of
        Rq_cart_add \<Rightarrow> cart_add params
      | Rq_cart_mod \<Rightarrow> cart_mod params
      | Rq_cart_del \<Rightarrow> cart_del params
      | Rq_cart_list \<Rightarrow> cart_list params
      | _ \<Rightarrow> throw Literal_thrown)"

definition handle_jsonrpc_fav_api :: "req_method \<Rightarrow> json_object \<Rightarrow> json_object M" where
  "handle_jsonrpc_fav_api m params =
     (case m of
        Rq_fav_add \<Rightarrow> fav_add params
      | Rq_fav_del \<Rightarrow> fav_del params
      | Rq_fav_list \<Rightarrow> fav_list params
      | _ \<Rightarrow> throw Literal_thrown)"

definition handle_jsonrpc_order_api :: "req_method \<Rightarrow> json_object \<Rightarrow> json_object M" where
  "handle_jsonrpc_order_api m params =
     (case m of
        Rq_order_create_cart \<Rightarrow> order_create params
      | Rq_order_create_direct \<Rightarrow> order_create params
      | Rq_order_detail \<Rightarrow> order_detail params
      | Rq_order_close \<Rightarrow> order_close params
      | Rq_order_list \<Rightarrow> order_list params
      | Rq_order_get_paymethods \<Rightarrow> order_get_paymethods params
      | Rq_order_get_pay_url \<Rightarrow> order_get_pay_url params
      | Rq_order_get_wxpay_prepay_id \<Rightarrow> order_get_wxpay_prepay_id params
      | Rq_order_get_wxpay_object \<Rightarrow> order_get_wxpay_object params
      | Rq_order_check_payment \<Rightarrow> order_check_payment_api params
      | _ \<Rightarrow> throw Literal_thrown)"

definition handle_jsonrpc_goods_api :: "req_method \<Rightarrow> json_object \<Rightarrow> json_object M" where
  "handle_jsonrpc_goods_api m params =
     (case m of
        Rq_search_goods \<Rightarrow> search_goods_api params
      | Rq_goods_list \<Rightarrow> goods_list params
      | Rq_goods_detail \<Rightarrow> goods_detail params
      | Rq_goods_markdown \<Rightarrow> goods_markdown params
      | Rq_goods_merchant_index \<Rightarrow> goods_merchant_index params
      | _ \<Rightarrow> throw Literal_thrown)"

definition handle_jsonrpc_merchant_api :: "req_method \<Rightarrow> json_object \<Rightarrow> json_object M" where
  "handle_jsonrpc_merchant_api m params =
     (case m of
        Rq_merchant_info \<Rightarrow> merchant_info params
      | Rq_merchant_get_sold_order_detail \<Rightarrow> merchant_get_sold_order_detail params
      | Rq_merchant_sold_orders_check_payment \<Rightarrow> merchant_sold_orders_check_payment params
      | Rq_merchant_sold_orders_mark_payed \<Rightarrow> merchant_sold_orders_mark_payed params
      | Rq_merchant_alter_order_price \<Rightarrow> merchant_alter_order_price params
      | Rq_merchant_goods_list \<Rightarrow> merchant_goods_list params
      | Rq_merchant_keywords_list \<Rightarrow> merchant_keywords_list params
      | Rq_merchant_list_sold_orders \<Rightarrow> merchant_list_sold_orders params
      | Rq_merchant_sold_orders_add_kuaidi \<Rightarrow> merchant_sold_orders_add_kuaidi params
      | Rq_merchant_delete_sold_orders \<Rightarrow> merchant_delete_sold_orders params
      | Rq_merchant_get_gitea_password \<Rightarrow> merchant_get_gitea_password params
      | Rq_merchant_reset_gitea_password \<Rightarrow> merchant_reset_gitea_password params
      | Rq_merchant_create_apptoken \<Rightarrow> merchant_create_apptoken params
      | Rq_merchant_list_apptoken \<Rightarrow> merchant_list_apptoken params
      | Rq_merchant_delete_apptoken \<Rightarrow> merchant_delete_apptoken params
      | Rq_merchant_alter_name \<Rightarrow> merchant_alter_name params
      | Rq_merchant_user_kv_get \<Rightarrow> merchant_user_kv_get params
      | _ \<Rightarrow> throw Literal_thrown)"

definition handle_jsonrpc_admin_api :: "req_method \<Rightarrow> json_object \<Rightarrow> json_object M" where
  "handle_jsonrpc_admin_api m params =
     (case m of
        Rq_admin_user_detail \<Rightarrow> admin_user_detail params
      | Rq_admin_user_list \<Rightarrow> admin_user_list params
      | Rq_admin_user_ban \<Rightarrow> admin_user_ban params
      | Rq_admin_list_applicants \<Rightarrow> admin_list_applicants params
      | Rq_admin_approve_merchant \<Rightarrow> admin_approve_merchant params
      | Rq_admin_deny_applicant \<Rightarrow> admin_deny_applicant params
      | Rq_admin_list_merchants \<Rightarrow> admin_list_merchants params
      | Rq_admin_disable_merchants \<Rightarrow> admin_disable_merchants params
      | Rq_admin_reenable_merchants \<Rightarrow> admin_reenable_merchants params
      | Rq_admin_set_merchant_wxpay_submchid \<Rightarrow> admin_set_merchant_wxpay_submchid params
      | Rq_admin_set_wxpay_detail \<Rightarrow> admin_set_wxpay_detail params
      | Rq_admin_sudo \<Rightarrow> admin_sudo params
      | Rq_admin_sudo_cancel \<Rightarrow> admin_sudo_cancel params
      | Rq_admin_list_index_goods \<Rightarrow> admin_list_index_goods params
      | Rq_admin_set_index_goods \<Rightarrow> admin_set_index_goods params
      | Rq_admin_add_index_goods \<Rightarrow> admin_add_index_goods params
      | Rq_admin_remove_index_goods \<Rightarrow> admin_remove_index_goods params
      | _ \<Rightarrow> throw Literal_thrown)"

definition handle_jsonrpc_misc_api :: "req_method \<Rightarrow> json_object \<Rightarrow> json_object M" where
  "handle_jsonrpc_misc_api m params =
     (case m of
        Rq_wx_direct_pay \<Rightarrow> wx_direct_pay params
      | _ \<Rightarrow> throw Literal_thrown)"

text \<open>The label groups of the \<^verbatim>\<open>switch\<close> of \<^verbatim>\<open>handle_jsonrpc_call\<close>.\<close>

definition public_user_methods :: "req_method list" where
  "public_user_methods = [
     Rq_user_fastlogin, Rq_user_prelogin, Rq_user_login, Rq_user_islogin, Rq_user_logout]"

definition login_user_methods :: "req_method list" where
  "login_user_methods = [
     Rq_user_info, Rq_user_apply_merchant, Rq_user_apply_info, Rq_user_list_recipient_address,
     Rq_user_add_recipient_address, Rq_user_modify_receipt_address,
     Rq_user_erase_receipt_address, Rq_user_get_wx_openid, Rq_user_3rd_kv_put,
     Rq_user_3rd_kv_get, Rq_user_3rd_kv_put_pubkey, Rq_user_3rd_kv_get_pubkey, Rq_user_add_face]"

definition cart_methods :: "req_method list" where
  "cart_methods = [
     Rq_cart_add, Rq_cart_mod, Rq_cart_del, Rq_cart_list]"

definition fav_methods :: "req_method list" where
  "fav_methods = [
     Rq_fav_add, Rq_fav_del, Rq_fav_list]"

definition order_methods :: "req_method list" where
  "order_methods = [
     Rq_order_create_cart, Rq_order_create_direct, Rq_order_detail, Rq_order_close,
     Rq_order_list, Rq_order_get_paymethods, Rq_order_get_pay_url, Rq_order_get_wxpay_prepay_id,
     Rq_order_get_wxpay_object, Rq_order_check_payment]"

definition goods_methods :: "req_method list" where
  "goods_methods = [
     Rq_search_goods, Rq_goods_list, Rq_goods_detail, Rq_goods_markdown,
     Rq_goods_merchant_index]"

definition merchant_methods :: "req_method list" where
  "merchant_methods = [
     Rq_merchant_info, Rq_merchant_get_sold_order_detail, Rq_merchant_sold_orders_check_payment,
     Rq_merchant_sold_orders_mark_payed, Rq_merchant_alter_order_price, Rq_merchant_goods_list,
     Rq_merchant_keywords_list, Rq_merchant_list_sold_orders,
     Rq_merchant_sold_orders_add_kuaidi, Rq_merchant_delete_sold_orders,
     Rq_merchant_get_gitea_password, Rq_merchant_reset_gitea_password,
     Rq_merchant_create_apptoken, Rq_merchant_list_apptoken, Rq_merchant_delete_apptoken,
     Rq_merchant_alter_name, Rq_merchant_user_kv_get]"

definition admin_methods :: "req_method list" where
  "admin_methods = [
     Rq_admin_user_detail, Rq_admin_user_list, Rq_admin_user_ban, Rq_admin_list_applicants,
     Rq_admin_approve_merchant, Rq_admin_deny_applicant, Rq_admin_list_merchants,
     Rq_admin_disable_merchants, Rq_admin_reenable_merchants,
     Rq_admin_set_merchant_wxpay_submchid, Rq_admin_set_wxpay_detail, Rq_admin_sudo]"

definition index_methods :: "req_method list" where
  "index_methods = [
     Rq_admin_list_index_goods, Rq_admin_set_index_goods, Rq_admin_add_index_goods,
     Rq_admin_remove_index_goods]"

definition ensure_login :: "bool \<Rightarrow> bool \<Rightarrow> unit M" where
  "ensure_login check_admin check_merchant =
     bindM session_info (\<lambda>s.
     bindM (require (cs_user_info s \<noteq> None) login_required) (\<lambda>_.
     bindM (require (check_admin \<longrightarrow> cs_isAdmin s) admin_user_required) (\<lambda>_.
     require (check_merchant \<longrightarrow> cs_isMerchant s) merchant_user_required)))"

definition dispatch :: "req_method \<Rightarrow> json_object \<Rightarrow> json_object M" where
  "dispatch m params =
     (if m = Rq_recover_session then recover_session params
      else if m = Rq_ping then ret (reply (JStr ''pong''))
      else if m \<in> set public_user_methods then handle_jsonrpc_user_api m params
      else if m \<in> set login_user_methods then
        bindM (ensure_login False False) (\<lambda>_. handle_jsonrpc_user_api m params)
      else if m = Rq_user_search_by_face then handle_jsonrpc_user_api m params
      else if m \<in> set cart_methods then
        bindM (ensure_login False False) (\<lambda>_. handle_jsonrpc_cart_api m params)
      else if m \<in> set fav_methods then
        bindM (ensure_login False False) (\<lambda>_. handle_jsonrpc_fav_api m params)
      else if m \<in> set order_methods then
        bindM (ensure_login False False) (\<lambda>_. handle_jsonrpc_order_api m params)
      else if m \<in> set goods_methods then handle_jsonrpc_goods_api m params
      else if m \<in> set merchant_methods then
        bindM (ensure_login False True) (\<lambda>_. handle_jsonrpc_merchant_api m params)
      else if m \<in> set admin_methods then
        bindM (ensure_login True False) (\<lambda>_. handle_jsonrpc_admin_api m params)
      else if m = Rq_admin_sudo_cancel then
        bindM session_info (\<lambda>s.
        if cs_sudo_mode s \<and> cs_original_user s \<noteq> None then handle_jsonrpc_admin_api m params
        else fail not_in_sudo_mode)
      else if m \<in> set index_methods then
        bindM (ensure_login True False) (\<lambda>_. handle_jsonrpc_admin_api m params)
      else if m = Rq_wx_direct_pay then handle_jsonrpc_misc_api m params
      else fail not_implemented)"

definition handle_jsonrpc_call :: "string \<Rightarrow> json_object \<Rightarrow> json_object M" where
  "handle_jsonrpc_call methodstr params =
     (case enum_cast methodstr of
        None \<Rightarrow> fail unknown_method
      | Some m \<Rightarrow>
          bindM this_client (\<lambda>c.
          bindM (require (m = Rq_recover_session \<or> cc_session c \<noteq> None) session_needed) (\<lambda>_.
          dispatch m params)))"

lemmas method_groups = public_user_methods_def login_user_methods_def cart_methods_def fav_methods_def
  order_methods_def goods_methods_def merchant_methods_def admin_methods_def index_methods_def

end
