(* ===== verification/Api_Orders.thy ===== *)
theory Api_Orders
  imports Dispatch
begin

text \<open>
  The order table under every request: no method of the interface loses an order, changes what was
  bought or makes a payed order unpayed.
\<close>

section \<open>The remaining handlers\<close>

lemma ord_session_ops [keeps_intros]:
  "keeps orders_frame (set_session s)" "keeps orders_frame (session_row sid)"
  "keeps orders_frame (session_save s ip)" "keeps orders_frame (session_update_lifetime sid ip)"
  "keeps orders_frame save_session" "keeps orders_frame enter_active"
  unfolding session_row_def session_save_def session_update_lifetime_def save_session_def
    enter_active_def set_session_def simple_steps
  by (intro keeps_intros ord_modify; simp)+

lemma ord_notify [keeps_intros]:
  "keeps orders_frame (websocket_write a msg)" "keeps orders_frame (send_notify_message uid msg c)"
  unfolding send_notify_message_def websocket_write_def
  by (intro keeps_intros ord_modify; simp)+

lemma ord_cart_api [keeps_intros]:
  "keeps orders_frame (cart_add params)" "keeps orders_frame (cart_mod params)"
  "keeps orders_frame (cart_del params)"
  unfolding cart_add_def cart_mod_def cart_del_def query_cart_one_def update_cart_def add_cart_def
    load_cart_def own_cart_item_def set_cart_count_def remove_cart_def notify_cart_changed_def simple_steps
  by (intro keeps_intros)+

lemma ord_listings [keeps_intros]:
  "keeps orders_frame (cart_list params)" "keeps orders_frame (fav_list params)"
  unfolding cart_list_def fav_list_def name_item_def erase_fav_def cached_merchant_def simple_steps
  by (intro keeps_intros)+

lemma ord_fav_api [keeps_intros]:
  "keeps orders_frame (fav_add params)" "keeps orders_frame (fav_del params)"
  unfolding fav_add_def fav_del_def query_fav_one_def add_fav_def erase_fav_def simple_steps
  by (intro keeps_intros)+

lemma ord_load_all_admins [keeps_intros]: "keeps orders_frame load_all_admins"
  unfolding load_all_admins_def
  by (rule ord.frame_db_read) (auto split: sum.splits)

lemma ord_first_admin [keeps_intros]: "keeps orders_frame (check_first_admin u)"
  unfolding check_first_admin_def add_admin_def
  by (intro keeps_intros ord_modify) simp_all

lemma ord_login [keeps_intros]: "keeps orders_frame (handle_user_login tel)"
  unfolding handle_user_login_def login_known_user_def register_user_def add_user_def simple_steps
  by (intro keeps_intros)

lemma ord_verify [keeps_intros]:
  "keeps orders_frame (send_verify_code tel)" "keeps orders_frame (verify_verify_code code cookie)"
  unfolding send_verify_code_def verify_verify_code_def simple_steps
  by (intro keeps_intros ord_modify; simp)+

lemma ord_own_user [keeps_intros]:
  "keeps orders_frame reload_user_info" "keeps orders_frame (update_user uid f)"
  "keeps orders_frame (update_own_user f)"
  unfolding reload_user_info_def update_own_user_def update_user_def simple_steps
  by (intro keeps_intros)+

lemma ord_user_login_api [keeps_intros]:
  "keeps orders_frame (user_prelogin params)" "keeps orders_frame (user_login params)"
  "keeps orders_frame (user_fastlogin params)" "keeps orders_frame (user_logout params)"
  "keeps orders_frame (user_islogin params)"
  unfolding user_api_defs Let_def simple_steps
  by (intro keeps_intros ord_modify; simp)+

lemma ord_user_api [keeps_intros]:
  "keeps orders_frame (user_info params)" "keeps orders_frame (user_apply_merchant params)"
  "keeps orders_frame (user_apply_info params)" "keeps orders_frame (user_add_face params)"
  "keeps orders_frame (user_search_by_face params)" "keeps orders_frame (user_list_recipient_address params)"
  "keeps orders_frame (user_add_recipient_address params)"
  "keeps orders_frame (user_erase_receipt_address params)"
  "keeps orders_frame (user_modify_receipt_address params)" "keeps orders_frame (user_get_wx_openid params)"
  "keeps orders_frame (user_3rd_kv_put params)" "keeps orders_frame (user_3rd_kv_get params)"
  "keeps orders_frame (user_3rd_kv_put_pubkey params)" "keeps orders_frame (user_3rd_kv_get_pubkey params)"
  unfolding user_api_defs load_max_seq_def add_apply_def kv_found_def Let_def simple_steps
  by (intro keeps_intros)+

lemma ord_load_git [keeps_intros]: "keeps orders_frame (load_merchant_git uid)"
  unfolding load_merchant_git_def by (intro keeps_intros ord_modify) simp_all

lemma ord_load_configs [keeps_intros]:
  "keeps orders_frame load_configs" "keeps orders_frame load_repos"
  unfolding load_configs_def load_repos_def by (intro keeps_intros ord_modify; simp)+

lemma ord_transactions [keeps_intros]:
  "keeps orders_frame (async_transacton (approve_body aid created pw))"
  "keeps orders_frame (async_transacton (set_index_body gs))"
  by (rule ord.frame_transaction;
      auto simp: approve_body_def set_index_body_def orders_frame_def Let_def
        split: option.splits sum.splits if_splits prod.splits)+

lemma ord_sudo [keeps_intros]:
  "keeps orders_frame (admin_sudo params)" "keeps orders_frame (admin_sudo_cancel params)"
  unfolding admin_api_defs sudo_reply_def simple_steps
  by (intro keeps_intros)+

lemma ord_admin_api [keeps_intros]:
  "keeps orders_frame (admin_user_list params)" "keeps orders_frame (admin_user_ban params)"
  "keeps orders_frame (admin_user_detail params)" "keeps orders_frame (admin_list_merchants params)"
  "keeps orders_frame (admin_list_applicants params)" "keeps orders_frame (admin_approve_merchant params)"
  "keeps orders_frame (admin_deny_applicant params)"
  "keeps orders_frame (admin_set_merchant_wxpay_submchid params)"
  "keeps orders_frame (admin_set_wxpay_detail params)"
  "keeps orders_frame (admin_list_index_goods params)" "keeps orders_frame (admin_set_index_goods params)"
  "keeps orders_frame (admin_add_index_goods params)" "keeps orders_frame (admin_remove_index_goods params)"
  unfolding admin_api_defs update_merchant_def simple_steps
  by (intro keeps_intros)+

lemma ord_merchants_state [keeps_intros]: "keeps orders_frame (set_merchants_state st params)"
proof -
  have "keeps orders_frame (case v of
      JArr marr \<Rightarrow>
        bindM (if merchant_ids marr = [] then ret False
               else db_op False (on_table t_merchant t_merchant_update (body marr))) (\<lambda>_. ret y)
    | _ \<Rightarrow> fail invalid_params)" for v body and y :: json_object
    by (cases v; simp only: json.case; intro keeps_intros)
  then show ?thesis unfolding set_merchants_state_def by simp
qed

section \<open>Every request\<close>

lemma ord_recover [keeps_intros]: "keeps orders_frame (recover_session params)"
  unfolding recover_session_def recover_by_session_def recover_by_token_def api_token_uid_def
    in_temp_api_token_def set_baseurl_def find_session_def load_user_info_def load_merchant_flag_def
    load_admin_flag_def reload_original_user_def alloca_sessionid_def session_exist_def
    session_load_def simple_steps
  by (intro keeps_intros ord_modify) simp_all

lemma ord_api_groups [keeps_intros]:
  "keeps orders_frame (handle_jsonrpc_user_api m params)"
  "keeps orders_frame (handle_jsonrpc_cart_api m params)"
  "keeps orders_frame (handle_jsonrpc_fav_api m params)"
  "keeps orders_frame (handle_jsonrpc_order_api m params)"
  "keeps orders_frame (handle_jsonrpc_goods_api m params)"
  "keeps orders_frame (handle_jsonrpc_merchant_api m params)"
  "keeps orders_frame (handle_jsonrpc_admin_api m params)"
  "keeps orders_frame (handle_jsonrpc_misc_api m params)"
  unfolding handle_jsonrpc_user_api_def handle_jsonrpc_cart_api_def handle_jsonrpc_fav_api_def
    handle_jsonrpc_order_api_def handle_jsonrpc_goods_api_def handle_jsonrpc_merchant_api_def
    handle_jsonrpc_admin_api_def handle_jsonrpc_misc_api_def admin_disable_merchants_def
    admin_reenable_merchants_def
  by (cases m; simp only: req_method.case; intro keeps_intros ord_api)+

lemma ord_dispatch: "keeps orders_frame (dispatch m params)"
  unfolding dispatch_def ensure_login_def simple_steps
  by (intro keeps_intros)

lemma ord_handle_jsonrpc_call: "keeps orders_frame (handle_jsonrpc_call methodstr params)"
  unfolding handle_jsonrpc_call_def simple_steps
  by (intro keeps_intros ord_dispatch)

end
