(* ===== verification/Access.thy ===== *)
theory Access
  imports Dispatch
begin

text \<open>
  Who may call what. The first part is the access table of \<^verbatim>\<open>handle_jsonrpc_call\<close>: a request
  without the session, the login or the role its method needs is answered with the matching error
  and leaves the server as it was. The second part is about where the role of an administrator
  comes from: every session that has it, or can get it back from sudo mode, belongs to a row
  of the administrators table.
\<close>

section \<open>The access table\<close>

definition needs_login :: "req_method \<Rightarrow> bool" where
  "needs_login m \<longleftrightarrow> m \<in> set (login_user_methods @ cart_methods @ fav_methods @ order_methods @
     merchant_methods @ admin_methods @ index_methods)"

definition needs_merchant :: "req_method \<Rightarrow> bool" where
  "needs_merchant m \<longleftrightarrow> m \<in> set merchant_methods"

definition needs_admin :: "req_method \<Rightarrow> bool" where
  "needs_admin m \<longleftrightarrow> m \<in> set (admin_methods @ index_methods)"

lemma call_unknown:
  "enum_cast s = None \<Longrightarrow> handle_jsonrpc_call s params E w = (Inl (System_error unknown_method), w)"
  by (simp add: handle_jsonrpc_call_def M_defs)

lemma call_dispatch:
  assumes "enum_cast str = Some m" and "m = Rq_recover_session \<or> cc_session (sv_client w) \<noteq> None"
  shows "handle_jsonrpc_call str params E w = dispatch m params E w"
  using assms by (simp add: handle_jsonrpc_call_def this_client_def M_defs)

lemma call_session_needed:
  assumes "enum_cast str = Some m" and "m \<noteq> Rq_recover_session" and "cc_session (sv_client w) = None"
  shows "handle_jsonrpc_call str params E w = (Inl (System_error session_needed), w)"
  using assms by (simp add: handle_jsonrpc_call_def this_client_def M_defs)

lemma session_info_run:
  "cc_session (sv_client w) = Some s \<Longrightarrow> session_info E w = (Inr s, w)"
  by (simp add: session_info_def this_client_def M_defs)

lemma ensure_login_run:
  assumes "cc_session (sv_client w) = Some s"
  shows "ensure_login ca cm E w =
    (if cs_user_info s = None then Inl (System_error login_required)
     else if ca \<and> \<not> cs_isAdmin s then Inl (System_error admin_user_required)
     else if cm \<and> \<not> cs_isMerchant s then Inl (System_error merchant_user_required)
     else Inr (), w)"
  using assms by (simp add: ensure_login_def session_info_run M_defs)

text \<open>The group of a method determines the checks before its handler.\<close>

lemma dispatch_login:
  assumes "needs_login m"
  shows "\<exists>h. dispatch m params = bindM (ensure_login (needs_admin m) (needs_merchant m)) (\<lambda>_. h)"
  using assms
  by (cases m; simp add: needs_login_def needs_admin_def needs_merchant_def dispatch_def method_groups;
      blast)

section \<open>Claims under a condition on the session\<close>

definition keeps_when :: "(server \<Rightarrow> bool) \<Rightarrow> (server \<Rightarrow> server \<Rightarrow> bool) \<Rightarrow> 'a M \<Rightarrow> bool" where
  "keeps_when Q R m \<longleftrightarrow> (\<forall>E w. Q w \<longrightarrow> R w (snd (m E w)))"

definition has_session :: "client_session \<Rightarrow> server \<Rightarrow> bool" where
  "has_session s w \<longleftrightarrow> cc_session (sv_client w) = Some s"

context server_frame
begin

lemma keeps_when_keeps: "keeps R m \<Longrightarrow> keeps_when Q R m"
  by (simp add: keeps_def keeps_when_def)

lemma keeps_when_bind:
  assumes "keeps (same sv_client) m" and "keeps R m" and "\<And>x. keeps_when (has_session s) R (f x)"
  shows "keeps_when (has_session s) R (bindM m f)"
  unfolding keeps_when_def
proof (intro allI impI)
  fix E :: env and w :: server
  assume s: "has_session s w"
  obtain r w' where m: "m E w = (r, w')" by (cases "m E w")
  have "R w w'" and "has_session s w'"
    using keepsD [OF assms(2) m] keepsD [OF assms(1) m] s by (simp_all add: same_def has_session_def)
  moreover have "R w' (snd (f x E w'))" for x
    using assms(3) calculation(2) by (simp add: keeps_when_def)
  ultimately show "R w (snd (bindM m f E w))"
    using m frame_trans by (auto simp: bindM_def split: sum.splits)
qed

lemma keeps_when_then:
  assumes "keeps_when Q R m" and "\<And>x. keeps R (f x)"
  shows "keeps_when Q R (bindM m f)"
  unfolding keeps_when_def
proof (intro allI impI)
  fix E :: env and w :: server
  assume "Q w"
  obtain r w' where m: "m E w = (r, w')" by (cases "m E w")
  have "R w w'" using assms(1) \<open>Q w\<close> m by (metis keeps_when_def snd_conv)
  moreover have "R w' (snd (f x E w'))" for x using assms(2) by (simp add: keeps_def)
  ultimately show "R w (snd (bindM m f E w))"
    using m frame_trans by (auto simp: bindM_def split: sum.splits)
qed

lemma keeps_session_bind:
  assumes "\<And>s. keeps_when (has_session s) R (f s)"
  shows "keeps R (bindM session_info f)"
  unfolding keeps_def
proof (intro allI)
  fix E :: env and w :: server
  show "R w (snd (bindM session_info f E w))"
    using assms by (cases "cc_session (sv_client w)")
      (simp_all add: bindM_def session_info_def this_client_def gets_def throw_def ret_def frame_refl
        keeps_when_def has_session_def)
qed

lemma keeps_post_bind:
  assumes "keeps R m" and "\<And>E w x w'. m E w = (Inr x, w') \<Longrightarrow> P x" and "\<And>x. P x \<Longrightarrow> keeps R (f x)"
  shows "keeps R (bindM m f)"
  unfolding keeps_def
proof (intro allI)
  fix E :: env and w :: server
  obtain r w' where m: "m E w = (r, w')" by (cases "m E w")
  have "R w w'" using keepsD [OF assms(1) m] .
  moreover have "R w' (snd (f x E w'))" if "r = Inr x" for x
    using assms(2) [of E w x w'] assms(3) [of x] m that by (simp add: keeps_def)
  ultimately show "R w (snd (bindM m f E w))"
    using m frame_trans by (auto simp: bindM_def split: sum.splits)
qed

end

lemma keeps_when_cases:
  "(b \<Longrightarrow> keeps_when Q R m) \<Longrightarrow> (\<not> b \<Longrightarrow> keeps_when Q R n) \<Longrightarrow> keeps_when Q R (if b then m else n)"
  "(x = None \<Longrightarrow> keeps_when Q R m) \<Longrightarrow> (\<And>y. x = Some y \<Longrightarrow> keeps_when Q R (f y)) \<Longrightarrow>
   keeps_when Q R (case x of None \<Rightarrow> m | Some y \<Rightarrow> f y)"
  by (simp, cases x, auto)

text \<open>No database operation touches the connection.\<close>

declare client_db_op [keeps_intros]

lemma client_reads [keeps_intros]:
  "keeps (same sv_client) (load_user uid)" "keeps (same sv_client) (load_merchant uid)"
  "keeps (same sv_client) (load_administrator uid)"
  unfolding load_user_def load_merchant_def load_administrator_def by (rule client_db_op)+

section \<open>Administrators come from the administrators table\<close>

definition admin_uids :: "database \<Rightarrow> u64 list" where
  "admin_uids db = map ar_uid (rows (t_admin db))"

text \<open>The role flags have their information; the administrator of a session, and the one it would
  return to from sudo mode once his user is loaded, is in the table.\<close>

definition session_priv_ok :: "database \<Rightarrow> client_session \<Rightarrow> bool" where
  "session_priv_ok db s \<longleftrightarrow>
     (cs_isMerchant s \<longrightarrow> cs_merchant_info s \<noteq> None) \<and>
     (case cs_admin_info s of None \<Rightarrow> \<not> cs_isAdmin s | Some a \<Rightarrow> a_uid a \<in> set (admin_uids db)) \<and>
     (case cs_original_user s of
        None \<Rightarrow> True
      | Some a \<Rightarrow> a_user a = None \<or> a_uid a \<in> set (admin_uids db))"

definition priv_ok :: "server \<Rightarrow> bool" where
  "priv_ok w \<longleftrightarrow> (case cc_session (sv_client w) of None \<Rightarrow> True | Some s \<Rightarrow> session_priv_ok (sv_db w) s)"

definition priv_frame :: "server \<Rightarrow> server \<Rightarrow> bool" where
  "priv_frame w w' \<longleftrightarrow>
     set (admin_uids (sv_db w)) \<subseteq> set (admin_uids (sv_db w')) \<and> (priv_ok w \<longrightarrow> priv_ok w')"

lemma session_priv_ok_mono:
  "session_priv_ok db s \<Longrightarrow> set (admin_uids db) \<subseteq> set (admin_uids db') \<Longrightarrow> session_priv_ok db' s"
  by (auto simp: session_priv_ok_def split: option.splits)

interpretation priv: server_frame priv_frame
  by unfold_locales (auto simp: priv_frame_def priv_ok_def split: option.splits)

lemma priv_db_op:
  assumes "\<And>now db x db'. body now db = Inr (x, db') \<Longrightarrow> set (admin_uids db) \<subseteq> set (admin_uids db')"
  shows "keeps priv_frame (db_op d body)"
proof (rule priv.frame_db_op)
  fix now x db and w :: server
  assume "body now (sv_db w) = Inr (x, db)"
  then have "set (admin_uids (sv_db w)) \<subseteq> set (admin_uids db)" by (rule assms)
  then show "priv_frame w (w\<lparr>sv_db := db\<rparr>)"
    by (auto simp: priv_frame_def priv_ok_def session_priv_ok_mono split: option.splits)
qed

lemma priv_tables [keeps_intros]:
  "keeps priv_frame (db_op d1 (on_table t_config t_config_update body1))"
  "keeps priv_frame (db_op d2 (on_table t_user t_user_update body2))"
  "keeps priv_frame (db_op d3 (on_table t_order t_order_update body3))"
  "keeps priv_frame (db_op d4 (on_table t_apptoken t_apptoken_update body4))"
  "keeps priv_frame (db_op d5 (on_table t_merchant t_merchant_update body5))"
  "keeps priv_frame (db_op d6 (on_table t_cart t_cart_update body6))"
  "keeps priv_frame (db_op d7 (on_table t_fav t_fav_update body7))"
  "keeps priv_frame (db_op d8 (on_table t_apply t_apply_update body8))"
  "keeps priv_frame (db_op d9 (on_table t_kv t_kv_update body9))"
  "keeps priv_frame (db_op d10 (on_table t_pubkv t_pubkv_update body10))"
  "keeps priv_frame (db_op d11 (on_table t_index t_index_update body11))"
  "keeps priv_frame (db_op d12 (on_table t_session t_session_update body12))"
  "keeps priv_frame (db_op d13 (load_admin uid))"
  "keeps priv_frame (db_op d14 (load_applies q))"
  by (rule priv_db_op; auto simp: on_table_Inr admin_uids_def load_admin_def load_applies_def
        split: option.splits sum.splits)+

lemma priv_modify:
  assumes "\<And>w. sv_db (f w) = sv_db w" and "\<And>w. cc_session (sv_client (f w)) = cc_session (sv_client w)"
  shows "keeps priv_frame (modify f)"
  by (rule priv.frame_modify) (simp add: assms priv_frame_def priv_ok_def split: option.splits)

lemma priv_set_session:
  assumes "\<And>db. session_priv_ok db s \<Longrightarrow> session_priv_ok db s'"
  shows "keeps_when (has_session s) priv_frame (set_session s')"
  using assms by (simp add: keeps_when_def has_session_def set_session_def M_defs priv_frame_def priv_ok_def)

lemma priv_new_session:
  assumes "\<And>db. session_priv_ok db s"
  shows "keeps priv_frame (set_session s)"
  using assms by (simp add: keeps_def set_session_def M_defs priv_frame_def priv_ok_def)

lemma priv_modify_session:
  assumes "\<And>db s. session_priv_ok db s \<Longrightarrow> session_priv_ok db (f s)"
  shows "keeps priv_frame (modify_session f)"
  unfolding modify_session_def
  by (intro priv.keeps_session_bind priv_set_session assms)

text \<open>An administrator that was just loaded may be put into the session.\<close>

lemma priv_load_administrator:
  assumes "keeps priv_frame (f None)"
    and "\<And>a. keeps_from (\<lambda>db. a_uid a \<in> set (admin_uids db)) priv_frame (f (Some a))"
  shows "keeps priv_frame (bindM (load_administrator uid) f)"
  unfolding load_administrator_def
proof (rule priv.keeps_read_bind [where P = "\<lambda>x db. \<forall>a. x = Some a \<longrightarrow> a_uid a \<in> set (admin_uids db)"])
  fix now db x db'
  assume "load_admin uid now db = Inr (x, db')"
  then show "db' = db \<and> (\<forall>a. x = Some a \<longrightarrow> a_uid a \<in> set (admin_uids db))"
    by (auto simp: load_admin_def admin_of_row_def admin_uids_def odb_find_def
        split: option.splits sum.splits dest: find_SomeD)
next
  fix x
  show "keeps_from (\<lambda>db. \<forall>a. x = Some a \<longrightarrow> a_uid a \<in> set (admin_uids db)) priv_frame (f x)"
    using assms by (cases x) (auto simp: priv.keeps_from_keeps)
qed

lemma priv_enter_admin:
  assumes "\<And>db s. session_priv_ok db s \<Longrightarrow> a_uid a \<in> set (admin_uids db) \<Longrightarrow> session_priv_ok db (f s)"
  shows "keeps_from (\<lambda>db. a_uid a \<in> set (admin_uids db)) priv_frame (modify_session f)"
  using assms
  by (auto simp: keeps_from_def modify_session_def session_info_def this_client_def set_session_def M_defs
      priv_frame_def priv_ok_def split: option.splits)

text \<open>(C2) The access table of the JSON-RPC interface. A name that is no method is answered with
  \<^verbatim>\<open>unknown_method\<close>, and any request but \<^verbatim>\<open>recover_session\<close> on a connection without a session with
  \<^verbatim>\<open>session_needed\<close>. With a session, the cart, favourites, order, merchant, admin and index methods and the
  methods on the own account need a logged-in user, the admin and index methods the administrator flag, the
  merchant methods the merchant flag; a request that lacks what it needs is answered with exactly the matching
  error, in this order, and changes nothing.\<close>

theorem refused_requests_change_nothing:
  "(enum_cast str = None \<longrightarrow> handle_jsonrpc_call str params E w = (Inl (System_error unknown_method), w)) \<and>
   (\<forall>m. enum_cast str = Some m \<longrightarrow>
      (case cc_session (sv_client w) of
         None \<Rightarrow> m \<noteq> Rq_recover_session \<longrightarrow> handle_jsonrpc_call str params E w = (Inl (System_error session_needed), w)
       | Some s \<Rightarrow>
           (needs_login m \<and> cs_user_info s = None \<longrightarrow>
              handle_jsonrpc_call str params E w = (Inl (System_error login_required), w)) \<and>
           (needs_admin m \<and> cs_user_info s \<noteq> None \<and> \<not> cs_isAdmin s \<longrightarrow>
              handle_jsonrpc_call str params E w = (Inl (System_error admin_user_required), w)) \<and>
           (needs_merchant m \<and> cs_user_info s \<noteq> None \<and> \<not> cs_isMerchant s \<longrightarrow>
              handle_jsonrpc_call str params E w = (Inl (System_error merchant_user_required), w))))"
proof (intro conjI allI impI)
  assume "enum_cast str = None"
  then show "handle_jsonrpc_call str params E w = (Inl (System_error unknown_method), w)"
    by (rule call_unknown)
next
  fix m
  assume m: "enum_cast str = Some m"
  have roles: "needs_login m" "\<not> (needs_admin m \<and> needs_merchant m)" if "needs_admin m \<or> needs_merchant m"
    using that by (auto simp: needs_login_def needs_admin_def needs_merchant_def method_groups)
  show "case cc_session (sv_client w) of
         None \<Rightarrow> m \<noteq> Rq_recover_session \<longrightarrow> handle_jsonrpc_call str params E w = (Inl (System_error session_needed), w)
       | Some s \<Rightarrow>
           (needs_login m \<and> cs_user_info s = None \<longrightarrow>
              handle_jsonrpc_call str params E w = (Inl (System_error login_required), w)) \<and>
           (needs_admin m \<and> cs_user_info s \<noteq> None \<and> \<not> cs_isAdmin s \<longrightarrow>
              handle_jsonrpc_call str params E w = (Inl (System_error admin_user_required), w)) \<and>
           (needs_merchant m \<and> cs_user_info s \<noteq> None \<and> \<not> cs_isMerchant s \<longrightarrow>
              handle_jsonrpc_call str params E w = (Inl (System_error merchant_user_required), w))"
  proof (cases "cc_session (sv_client w)")
    case None
    then show ?thesis using m call_session_needed by simp
  next
    case (Some s)
    have "handle_jsonrpc_call str params E w = dispatch m params E w"
      using call_dispatch [OF m] Some by simp
    moreover have "\<exists>h. dispatch m params E w = bindM (ensure_login (needs_admin m) (needs_merchant m)) (\<lambda>_. h) E w"
      if "needs_login m" using dispatch_login [OF that, of params] by metis
    ultimately show ?thesis
      using Some roles ensure_login_run [OF Some, of "needs_admin m" "needs_merchant m" E] by (auto simp: bindM_def)
  qed
qed

theorem refused_requests_change_nothing_witness:
  "handle_jsonrpc_call ''admin_user_ban'' [(''uid'', JInt 5)] sample_env sample_server =
     (Inl (System_error admin_user_required), sample_server)"
proof -
  have "enum_cast ''admin_user_ban'' = Some Rq_admin_user_ban" "needs_admin Rq_admin_user_ban"
    by (simp_all add: enum_cast_def req_methods_def needs_admin_def method_groups)
  then show ?thesis
    using refused_requests_change_nothing [of "''admin_user_ban''" _ sample_env sample_server] by simp
qed

text \<open>(C33) Logging out does not end sudo mode: after \<^verbatim>\<open>user_logout\<close> of a session in sudo mode nobody is
  logged in, yet \<^verbatim>\<open>admin_sudo_cancel\<close>, which no login check guards, makes it the administrator's
  session again.\<close>

theorem logout_leaves_sudo_open:
  assumes "fault_free E" and "table_ok s_cache_key (t_session (sv_db w))" and "cc_session (sv_client w) = Some s"
    and "cs_sudo_mode s" and "cs_original_user s = Some a" and "a_user a = Some u"
  shows "\<exists>rep1 w1 s1 rep2 w2 s2. handle_jsonrpc_call ''user_logout'' params E w = (Inr rep1, w1) \<and>
    cc_session (sv_client w1) = Some s1 \<and> cs_user_info s1 = None \<and> \<not> cs_isAdmin s1 \<and>
    handle_jsonrpc_call ''admin_sudo_cancel'' params2 E w1 = (Inr rep2, w2) \<and>
    cc_session (sv_client w2) = Some s2 \<and> cs_user_info s2 = Some u \<and> cs_isAdmin s2"
proof -
  have names: "enum_cast ''user_logout'' = Some Rq_user_logout" "enum_cast ''admin_sudo_cancel'' = Some Rq_admin_sudo_cancel"
    by (simp_all add: enum_cast_def req_methods_def)
  let ?s1 = "session_clear s"
  let ?w = "w\<lparr>sv_active := filter (\<lambda>a. ae_conn a \<noteq> cc_id (sv_client w)) (sv_active w),
    sv_client := (sv_client w)\<lparr>cc_session := Some ?s1\<rparr>\<rparr>"
  obtain t n where t: "save_session E ?w = (Inr (), ?w\<lparr>sv_db := (sv_db w)\<lparr>t_session := t\<rparr>, sv_ops := n\<rparr>)" "table_ok s_cache_key t"
    using save_session_run [OF assms(1), of ?w ?s1] assms(2) by auto
  have sid: "cs_session_id ?s1 = cs_session_id s" by (simp add: session_clear_def)
  have "\<exists>rep1 w1. user_logout params E w = (Inr rep1, w1) \<and> cc_session (sv_client w1) = Some ?s1 \<and>
      table_ok s_cache_key (t_session (sv_db w1))"
    using t assms(2,3)
    by (cases "cs_session_id s = []")
      (simp_all add: user_logout_def bindM_def this_client_def gets_def modify_session_def session_info_def set_session_def
        modify_def ret_def sid)
  then obtain rep1 w1 where w1: "user_logout params E w = (Inr rep1, w1)" "cc_session (sv_client w1) = Some ?s1"
    "table_ok s_cache_key (t_session (sv_db w1))" by blast
  have "cs_original_user ?s1 = Some a"
    using assms(5) by (simp add: session_clear_def)
  from sudo_cancel_run [OF assms(1) w1(3,2) this assms(6), of params2] obtain rep2 w2 where
    w2: "admin_sudo_cancel params2 E w1 = (Inr rep2, w2)"
    "cc_session (sv_client w2) = Some (unsudo_session u (odb_find m_uid (u_uid u) (t_merchant (sv_db w1))) ?s1)"
    by blast
  have "handle_jsonrpc_call ''user_logout'' params E w = (Inr rep1, w1)"
    using w1(1) assms(3) call_dispatch [OF names(1), of w params E]
    by (simp add: dispatch_def method_groups handle_jsonrpc_user_api_def)
  moreover have "handle_jsonrpc_call ''admin_sudo_cancel'' params2 E w1 = (Inr rep2, w2)"
    using w2(1) w1(2) call_dispatch [OF names(2), of w1 params2 E] assms(4,5)
    by (simp add: dispatch_def method_groups handle_jsonrpc_admin_api_def bindM_def session_info_run session_clear_def)
  ultimately show ?thesis
    using w1(2) w2(2) by (simp add: session_clear_def unsudo_session_def)
qed

theorem logout_leaves_sudo_open_witness:
  "\<exists>rep1 w1 s1 rep2 w2 s2.
    handle_jsonrpc_call ''user_logout'' [] sample_env (with_session (sudo_session sample_user None sample_admin_session)) = (Inr rep1, w1) \<and>
    cc_session (sv_client w1) = Some s1 \<and> cs_user_info s1 = None \<and>
    handle_jsonrpc_call ''admin_sudo_cancel'' [] sample_env w1 = (Inr rep2, w2) \<and>
    cc_session (sv_client w2) = Some s2 \<and> cs_user_info s2 = Some sample_boss \<and> cs_isAdmin s2"
proof -
  let ?s = "sudo_session sample_user None sample_admin_session"
  have "table_ok s_cache_key (t_session (sv_db (with_session ?s)))" "cc_session (sv_client (with_session ?s)) = Some ?s"
    "cs_sudo_mode ?s" "cs_original_user ?s = Some sample_admin" "a_user sample_admin = Some sample_boss"
    by (simp_all add: table_ok_def sudo_session_def sample_admin_session_def sample_admin_def)
  from logout_leaves_sudo_open [OF sample_fault_free this, of "[]" "[]"] show ?thesis by blast
qed

end
