(* ===== verification/Api_Roles.thy ===== *)
theory Api_Roles
  imports Access
begin

text \<open>
  The session invariant \<open>priv_ok\<close> under every request: no method of the interface puts a
  connection into the role of an administrator that is not in the administrators table, and no row
  of that table is ever taken away.
\<close>

section \<open>Shared steps\<close>

lemma priv_steps [keeps_intros]:
  "keeps priv_frame (load_user uid)" "keeps priv_frame (load_user_by_phone tel)"
  "keeps priv_frame (load_merchant uid)" "keeps priv_frame (load_administrator uid)"
  "keeps priv_frame (query_orders p)" "keeps priv_frame (query_order_one p)"
  "keeps priv_frame (update_order r)" "keeps priv_frame (update_user uid f)"
  "keeps priv_frame (update_merchant uid g)" "keeps priv_frame (session_row sid)"
  "keeps priv_frame (session_save s ip)" "keeps priv_frame (session_update_lifetime sid ip)"
  unfolding load_user_def load_user_by_phone_def load_merchant_def load_administrator_def
    query_orders_def query_order_one_def update_order_def update_user_def update_merchant_def
    session_row_def session_save_def session_update_lifetime_def local_time_def
  by (intro keeps_intros)+

lemma priv_writes [keeps_intros]:
  "keeps priv_frame (websocket_write a msg)" "keeps priv_frame (send_notify_message uid msg c)"
  "keeps priv_frame (load_merchant_git uid)"
  "keeps priv_frame save_session" "keeps priv_frame enter_active"
  unfolding send_notify_message_def websocket_write_def load_merchant_git_def save_session_def
    enter_active_def simple_steps
  by (intro keeps_intros priv_modify; simp)+

text \<open>Assignments to fields of the session that do not matter for the roles.\<close>

lemma priv_fields [keeps_intros]:
  "keeps priv_frame (modify_session (\<lambda>s. s\<lparr>cs_user_info := u\<rparr>))"
  "keeps priv_frame (modify_session (\<lambda>s. s\<lparr>cs_verify_telephone := tel\<rparr>))"
  "keeps priv_frame (modify_session (\<lambda>s. s\<lparr>cs_verify_cookie := c\<rparr>))"
  "keeps priv_frame (modify_session (\<lambda>s. s\<lparr>cs_merchant_info := Some m, cs_isMerchant := True\<rparr>))"
  "keeps priv_frame (modify_session (\<lambda>s. s\<lparr>cs_merchant_info := Some m\<rparr>))"
  "keeps priv_frame (modify_this_merchant f)"
  "keeps priv_frame (modify_session session_clear)"
  unfolding modify_this_merchant_def
  by (rule priv_modify_session; auto simp: session_priv_ok_def session_clear_def split: option.splits)+

lemma priv_admin_flag:
  "keeps_from (\<lambda>db. a_uid a \<in> set (admin_uids db)) priv_frame
     (modify_session (\<lambda>s. s\<lparr>cs_admin_info := Some a, cs_isAdmin := True\<rparr>))"
  by (rule priv_enter_admin) (simp add: session_priv_ok_def split: option.splits)

lemma priv_load_admin_flag [keeps_intros]: "keeps priv_frame (load_admin_flag uid)"
  unfolding load_admin_flag_def
  by (rule priv_load_administrator) (simp_all add: priv_admin_flag priv.frame_skip)

section \<open>Users\<close>

lemma priv_reload_user [keeps_intros]: "keeps priv_frame reload_user_info"
  unfolding reload_user_info_def
proof (rule priv.keeps_session_bind)
  fix s
  have upd: "keeps_when (has_session s) priv_frame (set_session (s\<lparr>cs_user_info := Some u'\<rparr>))" for u'
    by (rule priv_set_session) (simp add: session_priv_ok_def split: option.splits)
  show "keeps_when (has_session s) priv_frame
     (bindM (deref (cs_user_info s)) (\<lambda>u. bindM (load_user (u_uid u)) (\<lambda>r.
       (case r of None \<Rightarrow> ret u
        | Some u' \<Rightarrow> bindM (set_session (s\<lparr>cs_user_info := Some u'\<rparr>)) (\<lambda>_. ret u')))))"
    by (intro priv.keeps_when_bind keeps_when_cases priv.keeps_when_then [OF upd]
        priv.keeps_when_keeps keeps_intros)
qed

lemma priv_load_all_admins [keeps_intros]: "keeps priv_frame load_all_admins"
  unfolding load_all_admins_def
  by (rule priv.frame_db_read) (auto split: sum.splits)

lemma priv_add_admin [keeps_intros]: "keeps priv_frame (add_admin r)"
  unfolding add_admin_def
  by (rule priv_db_op)
    (auto simp: on_table_Inr db_add_auto_def odb_persist_auto_def admin_uids_def Let_def
      split: if_splits sum.splits)

lemma priv_first_admin [keeps_intros]: "keeps priv_frame (check_first_admin u)"
  unfolding check_first_admin_def by (intro keeps_intros priv_modify) simp_all

lemma priv_login_known [keeps_intros]: "keeps priv_frame (login_known_user u)"
  unfolding login_known_user_def load_admin_flag_def [symmetric] by (intro keeps_intros)

lemma priv_login [keeps_intros]: "keeps priv_frame (handle_user_login tel)"
  unfolding handle_user_login_def register_user_def add_user_def simple_steps
  by (intro keeps_intros)

lemma priv_verify [keeps_intros]:
  "keeps priv_frame (send_verify_code tel)" "keeps priv_frame (verify_verify_code code cookie)"
  unfolding send_verify_code_def verify_verify_code_def simple_steps
  by (intro keeps_intros priv_modify; simp)+

lemma priv_own_user [keeps_intros]: "keeps priv_frame (update_own_user f)"
  unfolding update_own_user_def simple_steps by (intro keeps_intros)

lemma priv_user_api [keeps_intros]:
  "keeps priv_frame (user_prelogin params)" "keeps priv_frame (user_login params)"
  "keeps priv_frame (user_fastlogin params)" "keeps priv_frame (user_logout params)"
  "keeps priv_frame (user_islogin params)"
  "keeps priv_frame (user_info params)" "keeps priv_frame (user_apply_merchant params)"
  "keeps priv_frame (user_apply_info params)" "keeps priv_frame (user_add_face params)"
  "keeps priv_frame (user_search_by_face params)" "keeps priv_frame (user_list_recipient_address params)"
  "keeps priv_frame (user_add_recipient_address params)"
  "keeps priv_frame (user_erase_receipt_address params)"
  "keeps priv_frame (user_modify_receipt_address params)" "keeps priv_frame (user_get_wx_openid params)"
  "keeps priv_frame (user_3rd_kv_put params)" "keeps priv_frame (user_3rd_kv_get params)"
  "keeps priv_frame (user_3rd_kv_put_pubkey params)" "keeps priv_frame (user_3rd_kv_get_pubkey params)"
  unfolding user_api_defs load_max_seq_def add_apply_def kv_found_def Let_def simple_steps
  by (intro keeps_intros priv_modify; simp)+

section \<open>Sudo\<close>

text \<open>Into sudo mode the administrator becomes the original user; back out he is the administrator
  again. What the session had at the start of the handler is what it is set from at the end.\<close>

lemma priv_sudo [keeps_intros]: "keeps priv_frame (admin_sudo params)"
proof -
  have "keeps priv_frame (modify_session (sudo_session tgt m))" for tgt m
    by (rule priv_modify_session) (auto simp: session_priv_ok_def sudo_session_def split: option.splits)
  then show ?thesis
    unfolding admin_sudo_def sudo_reply_def simple_steps by (intro keeps_intros)
qed

lemma priv_sudo_cancel [keeps_intros]: "keeps priv_frame (admin_sudo_cancel params)"
proof -
  have cancel: "keeps_when (has_session s) priv_frame (modify_session (unsudo_session user m))"
    if "cs_original_user s = Some a" "a_user a \<noteq> None" for s a user m
    using that
    by (auto simp: keeps_when_def has_session_def modify_session_def session_info_def this_client_def
        set_session_def M_defs priv_frame_def priv_ok_def session_priv_ok_def unsudo_session_def
        split: option.splits)
  have "keeps_when (has_session s) priv_frame
     (bindM (deref (cs_original_user s)) (\<lambda>a. bindM (deref (a_user a)) (\<lambda>user.
      bindM (load_merchant (u_uid user)) (\<lambda>m. bindM (modify_session (unsudo_session user m)) (\<lambda>_.
      bindM save_session (\<lambda>_. sudo_reply))))))" for s
  proof (cases "\<exists>a. cs_original_user s = Some a \<and> a_user a \<noteq> None")
    case True
    then obtain a u where a: "cs_original_user s = Some a" "a_user a = Some u" by blast
    show ?thesis
      unfolding a deref_def option.case bindM_simps sudo_reply_def simple_steps
      by (intro priv.keeps_when_bind priv.keeps_when_then [OF cancel [OF a(1)]] keeps_intros) (simp add: a)
  next
    case False
    then show ?thesis
      by (auto simp: deref_def priv.keeps_when_keeps priv.frame_skip split: option.splits)
  qed
  then show ?thesis
    unfolding admin_sudo_cancel_def by (rule priv.keeps_session_bind)
qed

section \<open>The other groups\<close>

lemma priv_cart_fav [keeps_intros]:
  "keeps priv_frame (cart_add params)" "keeps priv_frame (cart_mod params)"
  "keeps priv_frame (cart_del params)" "keeps priv_frame (cart_list params)"
  "keeps priv_frame (fav_add params)" "keeps priv_frame (fav_del params)" "keeps priv_frame (fav_list params)"
  unfolding cart_add_def cart_mod_def cart_del_def cart_list_def query_cart_one_def update_cart_def
    add_cart_def load_cart_def own_cart_item_def set_cart_count_def remove_cart_def
    notify_cart_changed_def fav_add_def fav_del_def fav_list_def query_fav_one_def add_fav_def
    erase_fav_def name_item_def cached_merchant_def simple_steps
  by (intro keeps_intros)+

lemma priv_payment [keeps_intros]:
  "keeps priv_frame (order_mark_payed r m)" "keeps priv_frame (order_check_payment r m)"
  "keeps priv_frame (handle_order_wx_callback msg)"
  unfolding order_check_payment_def order_mark_payed_def handle_order_wx_callback_def simple_steps
  by (intro keeps_intros priv_modify; simp)+

lemma priv_order_api [keeps_intros]:
  "keeps priv_frame (order_create params)" "keeps priv_frame (order_detail params)"
  "keeps priv_frame (order_list params)" "keeps priv_frame (order_get_paymethods params)"
  "keeps priv_frame (order_get_pay_url params)" "keeps priv_frame (order_get_wxpay_prepay_id params)"
  "keeps priv_frame (order_get_wxpay_object params)" "keeps priv_frame (order_check_payment_api params)"
  "keeps priv_frame (order_close params)"
  unfolding order_api_defs add_order_def order_to_pay_def single_merchant_def list_orders_def
    order_item_def cached_merchant_def order_goods_def simple_steps
  by (intro keeps_intros)+

lemma priv_goods_api [keeps_intros]:
  "keeps priv_frame (search_goods_api params)" "keeps priv_frame (goods_list params)"
  "keeps priv_frame (goods_detail params)" "keeps priv_frame (goods_markdown params)"
  "keeps priv_frame (goods_merchant_index params)" "keeps priv_frame (wx_direct_pay params)"
  unfolding goods_api_defs hit_product_def list_index_goods_def index_product_def simple_steps
  by (intro keeps_intros)+

lemma priv_merchant_api [keeps_intros]:
  "keeps priv_frame (merchant_info params)" "keeps priv_frame (merchant_get_sold_order_detail params)"
  "keeps priv_frame (merchant_sold_orders_check_payment params)"
  "keeps priv_frame (merchant_sold_orders_mark_payed params)"
  "keeps priv_frame (merchant_alter_order_price params)" "keeps priv_frame (merchant_goods_list params)"
  "keeps priv_frame (merchant_keywords_list params)" "keeps priv_frame (merchant_list_sold_orders params)"
  "keeps priv_frame (merchant_sold_orders_add_kuaidi params)"
  "keeps priv_frame (merchant_delete_sold_orders params)"
  "keeps priv_frame (merchant_get_gitea_password params)"
  "keeps priv_frame (merchant_reset_gitea_password params)"
  "keeps priv_frame (merchant_create_apptoken params)" "keeps priv_frame (merchant_list_apptoken params)"
  "keeps priv_frame (merchant_delete_apptoken params)" "keeps priv_frame (merchant_alter_name params)"
  "keeps priv_frame (merchant_user_kv_get params)"
  unfolding merchant_api_defs with_sold_order_def list_orders_def soft_remove_order_def new_amount_def
    add_apptoken_def kv_found_def simple_steps
  by (intro keeps_intros)+

lemma priv_load_configs [keeps_intros]: "keeps priv_frame load_configs" "keeps priv_frame load_repos"
  unfolding load_configs_def load_repos_def by (intro keeps_intros priv_modify; simp)+

lemma priv_transactions [keeps_intros]:
  "keeps priv_frame (async_transacton (approve_body aid created pw))"
  "keeps priv_frame (async_transacton (set_index_body gs))"
  by (rule priv.frame_transaction;
      auto simp: approve_body_def set_index_body_def priv_frame_def priv_ok_def session_priv_ok_def
        admin_uids_def Let_def split: option.splits sum.splits if_splits prod.splits)+

lemma priv_merchants_state [keeps_intros]: "keeps priv_frame (set_merchants_state st params)"
  unfolding set_merchants_state_def
  by (cases "json_get params ''merchants'' JNull"; simp only: json.case; intro keeps_intros)

lemma priv_admin_api [keeps_intros]:
  "keeps priv_frame (admin_user_list params)" "keeps priv_frame (admin_user_ban params)"
  "keeps priv_frame (admin_user_detail params)" "keeps priv_frame (admin_list_merchants params)"
  "keeps priv_frame (admin_list_applicants params)" "keeps priv_frame (admin_approve_merchant params)"
  "keeps priv_frame (admin_deny_applicant params)"
  "keeps priv_frame (admin_set_merchant_wxpay_submchid params)"
  "keeps priv_frame (admin_set_wxpay_detail params)"
  "keeps priv_frame (admin_list_index_goods params)" "keeps priv_frame (admin_set_index_goods params)"
  "keeps priv_frame (admin_add_index_goods params)" "keeps priv_frame (admin_remove_index_goods params)"
  unfolding admin_api_defs list_index_goods_def index_product_def simple_steps
  by (intro keeps_intros)+

section \<open>Recovery and dispatch\<close>

lemma session_of_json_priv:
  "session_of_json sid now (new_client_session uuid) jv = Inr s \<Longrightarrow> session_priv_ok db s"
  by (auto simp: session_of_json_def new_client_session_def session_priv_ok_def Let_def
      split: sum.splits if_splits)

lemma session_load_priv:
  assumes "session_load sid E w = (Inr s, w')"
  shows "session_priv_ok db s"
  using assms unfolding session_load_def
  by (elim bindM_InrE) (auto split: option.splits elim!: bindM_InrE intro: session_of_json_priv)

lemma priv_session_load [keeps_intros]: "keeps priv_frame (session_load sid)"
  unfolding session_load_def simple_steps by (intro keeps_intros)

lemma priv_find_session [keeps_intros]: "keeps priv_frame (find_session sid)"
proof -
  have "keeps priv_frame (bindM (set_session s) (\<lambda>_. bindM (gets sv_client) (\<lambda>c.
      session_update_lifetime sid (cc_x_real_ip c))))" if "\<And>db. session_priv_ok db s" for s
    by (intro priv.frame_bind priv_new_session that keeps_intros)
  then have loaded: "keeps priv_frame (bindM (session_load sid) (\<lambda>s. bindM (set_session s) (\<lambda>_.
      bindM (gets sv_client) (\<lambda>c. session_update_lifetime sid (cc_x_real_ip c)))))"
    by (rule priv.keeps_post_bind [where P = "\<lambda>s. \<forall>db. session_priv_ok db s", rotated 2])
      (auto simp: session_load_priv priv_session_load)
  have fresh: "keeps priv_frame (set_session (new_client_session uuid))" for uuid
    by (rule priv_new_session) (simp add: session_priv_ok_def new_client_session_def)
  show ?thesis
    unfolding find_session_def alloca_sessionid_def session_exist_def this_client_def gen_uuid_def
    by (intro keeps_intros fresh loaded)
qed

lemma priv_original_user [keeps_intros]: "keeps priv_frame reload_original_user"
proof -
  have found: "keeps_from (\<lambda>db. a_uid a \<in> set (admin_uids db)) priv_frame
      (modify_session (\<lambda>s. s\<lparr>cs_original_user := Some a\<rparr>))" for a
    by (rule priv_enter_admin) (auto simp: session_priv_ok_def split: option.splits)
  have gone: "keeps priv_frame (modify_session (\<lambda>s. s\<lparr>cs_original_user := Some \<lparr>a_uid = 0, a_user = None\<rparr>\<rparr>))"
    by (rule priv_modify_session) (auto simp: session_priv_ok_def split: option.splits)
  have load: "keeps priv_frame (bindM (load_administrator uid) (\<lambda>r.
      modify_session (\<lambda>s. s\<lparr>cs_original_user :=
        Some (case r of None \<Rightarrow> \<lparr>a_uid = 0, a_user = None\<rparr> | Some a \<Rightarrow> a)\<rparr>)))" for uid
    by (rule priv_load_administrator) (simp_all add: found gone)
  show ?thesis
    unfolding reload_original_user_def session_info_def this_client_def by (intro keeps_intros load)
qed

lemma priv_load_user_info [keeps_intros]: "keeps priv_frame load_user_info"
  unfolding load_user_info_def load_merchant_flag_def simple_steps by (intro keeps_intros)

lemma priv_recover [keeps_intros]: "keeps priv_frame (recover_session params)"
proof -
  have "keeps priv_frame (set_session ((new_client_session uuid)\<lparr>cs_user_info := Some u\<rparr>))" for uuid u
    by (rule priv_new_session) (simp add: session_priv_ok_def new_client_session_def)
  then show ?thesis
    unfolding recover_session_def recover_by_session_def recover_by_token_def api_token_uid_def
      in_temp_api_token_def set_baseurl_def load_merchant_flag_def simple_steps
    by (intro keeps_intros priv_modify) simp_all
qed

lemma priv_api_groups [keeps_intros]:
  "keeps priv_frame (handle_jsonrpc_user_api m params)"
  "keeps priv_frame (handle_jsonrpc_cart_api m params)"
  "keeps priv_frame (handle_jsonrpc_fav_api m params)"
  "keeps priv_frame (handle_jsonrpc_order_api m params)"
  "keeps priv_frame (handle_jsonrpc_goods_api m params)"
  "keeps priv_frame (handle_jsonrpc_merchant_api m params)"
  "keeps priv_frame (handle_jsonrpc_admin_api m params)"
  "keeps priv_frame (handle_jsonrpc_misc_api m params)"
  unfolding handle_jsonrpc_user_api_def handle_jsonrpc_cart_api_def handle_jsonrpc_fav_api_def
    handle_jsonrpc_order_api_def handle_jsonrpc_goods_api_def handle_jsonrpc_merchant_api_def
    handle_jsonrpc_admin_api_def handle_jsonrpc_misc_api_def admin_disable_merchants_def
    admin_reenable_merchants_def
  by (cases m; simp only: req_method.case; intro keeps_intros)+

lemma priv_dispatch: "keeps priv_frame (dispatch m params)"
  unfolding dispatch_def ensure_login_def simple_steps by (intro keeps_intros)

lemma priv_handle_jsonrpc_call: "keeps priv_frame (handle_jsonrpc_call methodstr params)"
  unfolding handle_jsonrpc_call_def simple_steps by (intro keeps_intros priv_dispatch)

end
