(* ===== verification/Websocket.thy ===== *)
theory Websocket
  imports Api_Orders Api_Roles
begin

text \<open>
  The websocket connection of \<^verbatim>\<open>cmall_impl/cmall_do_websocket.cpp\<close>: one round of
  \<^verbatim>\<open>do_ws_read\<close>, the turning of exceptions into JSON-RPC errors, and the reply. A round either
  ends the connection, answers at once (malformed requests, and every request before there is a
  session), or spawns the request; spawned requests are answered in any order.
\<close>

section \<open>Replies\<close>

text \<open>\<^verbatim>\<open>object::insert_or_assign\<close>.\<close>

fun obj_assign :: "json_object \<Rightarrow> string \<Rightarrow> json \<Rightarrow> json_object" where
  "obj_assign [] k v = [(k, v)]"
| "obj_assign ((k', v') # ob) k v = (if k' = k then (k, v) # ob else (k', v') # obj_assign ob k v)"

definition error_object :: "int \<Rightarrow> string \<Rightarrow> json_object" where
  "error_object code msg = [(''error'', JObj [(''code'', JInt code), (''message'', JStr msg)])]"

text \<open>The two catch clauses; \<open>asio_message\<close> is \<^verbatim>\<open>message()\<close> of the error categories outside the
  program. \<open>None\<close> is an exception that passes both.\<close>

definition error_reply :: "(int \<Rightarrow> string) \<Rightarrow> exn \<Rightarrow> json_object option" where
  "error_reply asio_message e =
     (case e of
        System_error c \<Rightarrow> Some (error_object (errc_value c) (error_message (errc_value c)))
      | Asio_error n \<Rightarrow> Some (error_object n (asio_message n))
      | _ \<Rightarrow> if is_std_exception e then Some (error_object 502 ''internal server error'') else None)"

definition with_id :: "json_object \<Rightarrow> json_object \<Rightarrow> json_object" where
  "with_id request rep = (case map_of request ''id'' of None \<Rightarrow> rep | Some i \<Rightarrow> obj_assign rep ''id'' i)"

definition write_client :: "json_object \<Rightarrow> unit M" where
  "write_client ob =
     bindM this_client (\<lambda>c.
     bindM (asks e_serialize) (\<lambda>ser.
     if cc_ws c \<noteq> None then modify (\<lambda>w. w\<lparr>sv_sent := sv_sent w @ [(cc_id c, ser (JObj ob) @ [nl])]\<rparr>)
     else throw Runtime_error))"

text \<open>One request: the call under its catch clauses, the id of the request put into the reply, the
  reply written.\<close>

definition serve_request :: "(int \<Rightarrow> string) \<Rightarrow> json_object \<Rightarrow> string \<Rightarrow> json_object \<Rightarrow> unit M" where
  "serve_request asio_message jv meth params =
     bindM (catchM (handle_jsonrpc_call meth params)
       (\<lambda>e. (case error_reply asio_message e of None \<Rightarrow> throw e | Some r \<Rightarrow> ret r))) (\<lambda>rep.
     write_client (with_id jv rep))"

section \<open>The read loop\<close>

datatype ws_round =
    Ws_close
  | Ws_continue
  | Ws_spawn json_object string json_object

definition do_ws_read_round :: "(int \<Rightarrow> string) \<Rightarrow> string \<Rightarrow> ws_round M" where
  "do_ws_read_round asio_message body =
     bindM (asks (\<lambda>E. e_parse E body)) (\<lambda>parsed.
     (case parsed of
        Some (JObj jv) \<Rightarrow>
          (case maybe_jsonrpc_request (JObj jv) of
             None \<Rightarrow>
               bindM (write_client ((case map_of jv ''id'' of None \<Rightarrow> [] | Some i \<Rightarrow> [(''id'', i)]) @
                 error_object (- 32600) ''Invalid Request'')) (\<lambda>_.
               ret Ws_continue)
           | Some req \<Rightarrow>
               bindM this_client (\<lambda>c.
               if cc_session c = None then
                 bindM (require (rq_method req = ''recover_session'') session_needed) (\<lambda>_.
                 bindM (serve_request asio_message jv (rq_method req) (rq_params req)) (\<lambda>_.
                 ret Ws_continue))
               else ret (Ws_spawn jv (rq_method req) (rq_params req))))
      | _ \<Rightarrow> ret Ws_close))"

section \<open>Every request is answered once, under its id\<close>

lemma obj_assign_get [simp]: "map_of (obj_assign ob k v) = (map_of ob)(k \<mapsto> v)"
  by (induction ob k v rule: obj_assign.induct) auto

lemma with_id_id: "map_of jv ''id'' = Some i \<Longrightarrow> map_of (with_id jv rep) ''id'' = Some i"
  by (simp add: with_id_def)

lemma with_id_keeps: "k \<noteq> ''id'' \<Longrightarrow> map_of (with_id jv rep) k = map_of rep k"
  by (simp add: with_id_def split: option.split)

text \<open>Whatever a request does, a handler that ends with a value or a standard exception is followed by
  exactly one message to its own connection.\<close>

lemma serve_request_run:
  assumes "handle_jsonrpc_call meth params E w = (r, w1)" and "cc_ws (sv_client w1) \<noteq> None"
    and "case r of Inr x \<Rightarrow> rep = x | Inl e \<Rightarrow> error_reply am e = Some rep"
  shows "serve_request am jv meth params E w =
    (Inr (), w1\<lparr>sv_sent := sv_sent w1 @
       [(cc_id (sv_client w1), e_serialize E (JObj (with_id jv rep)) @ [nl])]\<rparr>)"
  using assms
  by (cases r) (simp_all add: serve_request_def write_client_def this_client_def M_defs)

lemma ord_serve_request: "keeps orders_frame (serve_request am jv meth params)"
  unfolding serve_request_def write_client_def this_client_def
  by (intro keeps_intros ord_handle_jsonrpc_call ord_modify) simp_all

lemma priv_serve_request: "keeps priv_frame (serve_request am jv meth params)"
  unfolding serve_request_def write_client_def this_client_def
  by (intro keeps_intros priv_handle_jsonrpc_call priv_modify) simp_all



end
