(* ===== verification/Http_Date.thy ===== *)
theory Http_Date
  imports Http_Text
begin

unbundle bit_operations_syntax

text \<open>
  Dates of the HTTP layer: the date parser \<^verbatim>\<open>parse_gmt_time_fmt\<close> with its tables of names and
  \<^verbatim>\<open>short_tm_time_t\<close>, the printer \<^verbatim>\<open>make_http_last_modified\<close> (both of
  \<^verbatim>\<open>httpd/header_helper.cpp\<close>) and the times of a zip archive (\<^verbatim>\<open>dos2unixtime\<close> of
  \<^verbatim>\<open>httpd/http_misc_helper.cpp\<close>). Positions in the text stand for pointers. The parser takes at most six
  parts, so its loop is a recursion over their number.
\<close>

section \<open>Seconds since 1970\<close>

record short_tm =
  tm_sec :: int
  tm_min :: int
  tm_hour :: int
  tm_mday :: int
  tm_mon :: int
  tm_year :: int

text \<open>Division of \<^verbatim>\<open>int\<close>, which rounds towards zero, by a positive number.\<close>

definition cdiv :: "int \<Rightarrow> int \<Rightarrow> int" where
  "cdiv a b = (if a < 0 then - (- a div b) else a div b)"

definition month_days_cumulative :: "int list" where
  "month_days_cumulative = [0, 31, 59, 90, 120, 151, 181, 212, 243, 273, 304, 334]"

definition leap_count :: "int \<Rightarrow> int" where
  "leap_count y = cdiv y 4 - cdiv y 100 + cdiv y 400 - 1969 div 4 + 1969 div 100 - 1969 div 400"

definition short_tm_time_t :: "short_tm \<Rightarrow> int" where
  "short_tm_time_t tm =
     (if tm_year tm < 70 then - 1
      else
        (let y = tm_year tm + 1900;
             m = tm_mon tm;
             (year, month) =
               (if m < 0 then (y + (11 - m) div 12, 11 - (11 - m) mod 12)
                else if 12 \<le> m then (y - m div 12, m mod 12)
                else (y, m));
             leap_days = leap_count (year - (if tm_mon tm \<le> 1 then 1 else 0))
         in ((((year - 1970) * 365 + leap_days + month_days_cumulative ! nat month + tm_mday tm - 1) * 24
              + tm_hour tm) * 60 + tm_min tm) * 60 + tm_sec tm))"

text \<open>The calendar: the days of the years and months before a date.\<close>

definition is_leap :: "int \<Rightarrow> bool" where
  "is_leap y \<longleftrightarrow> 4 dvd y \<and> (\<not> 100 dvd y \<or> 400 dvd y)"

definition year_days :: "int \<Rightarrow> int" where
  "year_days y = (if is_leap y then 366 else 365)"

definition month_days :: "int \<Rightarrow> nat \<Rightarrow> int" where
  "month_days y m = (if m = 1 then (if is_leap y then 29 else 28) else if m \<in> {3, 5, 8, 10} then 30 else 31)"

definition calendar_days :: "nat \<Rightarrow> nat \<Rightarrow> int \<Rightarrow> int" where
  "calendar_days k m d =
     sum_list (map (\<lambda>j. year_days (1970 + int j)) [0..<k]) +
     sum_list (map (month_days (1970 + int k)) [0..<m]) + d"

definition leaps :: "int \<Rightarrow> int" where
  "leaps y = y div 4 - y div 100 + y div 400"

lemma div_step: "0 < (n::int) \<Longrightarrow> y div n - (y - 1) div n = (if n dvd y then 1 else 0)"
proof -
  assume n: "0 < n"
  show ?thesis
  proof (cases "n dvd y")
    case True
    then obtain k where y: "y = n * k" by blast
    have "(n * k - 1) div n = k - 1"
      using n by (intro int_div_pos_eq [of _ _ _ "n - 1"]) (simp_all add: algebra_simps)
    then show ?thesis using n y by simp
  next
    case False
    then have "0 < y mod n" using n by (metis dvd_eq_mod_eq_0 le_less pos_mod_sign)
    then have "(y - 1) div n = y div n"
      using n by (intro int_div_pos_eq [of _ _ _ "y mod n - 1"]) (use pos_mod_bound [OF n, of y] in \<open>simp_all add: algebra_simps\<close>)
    then show ?thesis using False by simp
  qed
qed

lemma diff_add_diff: "(a - b + c) - (a' - b' + c') = (a - a') - (b - b') + (c - c' :: int)"
  by simp

lemma leap_bool:
  "(B \<Longrightarrow> A) \<Longrightarrow> (C \<Longrightarrow> B) \<Longrightarrow>
   (if A then 1 else 0) - (if B then 1 else 0) + (if C then 1 else 0) = (if A \<and> (\<not> B \<or> C) then 1 else 0 :: int)"
  by (cases A; cases B; cases C) simp_all

lemma leaps_step: "leaps y - leaps (y - 1) = (if is_leap y then 1 else 0)"
proof -
  have d: "(100::int) dvd y \<Longrightarrow> 4 dvd y" "(400::int) dvd y \<Longrightarrow> 100 dvd y"
    using dvd_trans [of 4 100 y] dvd_trans [of 100 400 y] by simp_all
  have "leaps y - leaps (y - 1) =
      (y div 4 - (y - 1) div 4) - (y div 100 - (y - 1) div 100) + (y div 400 - (y - 1) div 400)"
    unfolding leaps_def by (rule diff_add_diff)
  also have "\<dots> = (if 4 dvd y then 1 else 0) - (if 100 dvd y then 1 else 0) + (if 400 dvd y then 1 else 0)"
    unfolding div_step [OF zero_less_numeral] ..
  also have "\<dots> = (if 4 dvd y \<and> (\<not> 100 dvd y \<or> 400 dvd y) then 1 else 0)"
    using d by (rule leap_bool)
  finally show ?thesis by (simp only: is_leap_def)
qed

lemma years_days:
  "sum_list (map (\<lambda>j. year_days (1970 + int j)) [0..<k]) = 365 * int k + leaps (1969 + int k) - leaps 1969"
proof (induction k)
  case (Suc k)
  have "leaps (1970 + int k) - leaps (1969 + int k) = (if is_leap (1970 + int k) then 1 else 0)"
    using leaps_step [of "1970 + int k"] by (simp add: algebra_simps)
  then show ?case using Suc by (auto simp: year_days_def algebra_simps split: if_splits)
qed simp

lemma month_days_step:
  assumes "m < 11"
  shows "month_days_cumulative ! Suc m =
    month_days_cumulative ! m + month_days y m - (if is_leap y \<and> m = 1 then 1 else 0)"
proof -
  have "m \<in> set [0..<11]" using assms by simp
  moreover have "[0..<11] = [0, 1, 2, 3, 4, 5, 6, 7, 8, 9, 10 :: nat]" by code_simp
  ultimately show ?thesis by (auto simp: month_days_def month_days_cumulative_def)
qed

lemma month_days_sum:
  "m < 12 \<Longrightarrow> sum_list (map (month_days y) [0..<m]) =
    month_days_cumulative ! m + (if is_leap y \<and> 1 < m then 1 else 0)"
proof (induction m)
  case 0
  show ?case by (simp add: month_days_cumulative_def)
next
  case (Suc m)
  then show ?case using month_days_step [of m y] by (auto split: if_splits)
qed

lemma seconds_calendar:
  assumes "70 \<le> tm_year tm" "0 \<le> tm_mon tm" "tm_mon tm < 12"
  shows "short_tm_time_t tm =
    86400 * calendar_days (nat (tm_year tm - 70)) (nat (tm_mon tm)) (tm_mday tm - 1) +
    3600 * tm_hour tm + 60 * tm_min tm + tm_sec tm"
proof -
  define y where "y = tm_year tm + 1900"
  have y: "1970 \<le> y" "1970 + int (nat (tm_year tm - 70)) = y" using assms(1) by (simp_all add: y_def)
  have L: "leap_count z = leaps z - leaps 1969" if "0 \<le> z" for z
    using that by (simp add: leap_count_def leaps_def cdiv_def)
  have m: "nat (tm_mon tm) < 12" "1 < nat (tm_mon tm) \<longleftrightarrow> \<not> tm_mon tm \<le> 1" using assms(2,3) by auto
  have "leap_count (y - (if tm_mon tm \<le> 1 then 1 else 0)) =
      leaps (y - 1) - leaps 1969 + (if is_leap y \<and> 1 < nat (tm_mon tm) then 1 else 0)"
    using leaps_step [of y] y(1) L m(2) by (auto split: if_splits)
  moreover have "short_tm_time_t tm = ((((y - 1970) * 365 + leap_count (y - (if tm_mon tm \<le> 1 then 1 else 0)) +
      month_days_cumulative ! nat (tm_mon tm) + tm_mday tm - 1) * 24
      + tm_hour tm) * 60 + tm_min tm) * 60 + tm_sec tm"
    using assms by (simp add: short_tm_time_t_def y_def Let_def)
  moreover have "calendar_days (nat (tm_year tm - 70)) (nat (tm_mon tm)) (tm_mday tm - 1) =
      365 * (y - 1970) + leaps (y - 1) - leaps 1969 + month_days_cumulative ! nat (tm_mon tm) +
      (if is_leap y \<and> 1 < nat (tm_mon tm) then 1 else 0) + (tm_mday tm - 1)"
  proof -
    define k where "k = nat (tm_year tm - 70)"
    have "1969 + int k = y - 1" "int k = y - 1970"
      using y(2) unfolding k_def by linarith+
    then show ?thesis
      unfolding calendar_days_def years_days y(2) month_days_sum [OF m(1)] k_def [symmetric] by simp
  qed
  ultimately show ?thesis by (simp only:) (simp add: algebra_simps)
qed

text \<open>(C40) The conversion of a date to seconds agrees with the calendar: for every year from 1970 on and every
  month of the year it is the number of days of the years and months before, counted one by one with
  their leap days, turned into seconds.\<close>

theorem short_tm_time_t_calendar:
  assumes "70 \<le> tm_year tm" "0 \<le> tm_mon tm" "tm_mon tm < 12"
  shows "short_tm_time_t tm =
    86400 * calendar_days (nat (tm_year tm - 70)) (nat (tm_mon tm)) (tm_mday tm - 1) +
    3600 * tm_hour tm + 60 * tm_min tm + tm_sec tm"
  using assms by (rule seconds_calendar)

theorem short_tm_time_t_calendar_witness:
  "short_tm_time_t \<lparr>tm_sec = 5, tm_min = 4, tm_hour = 3, tm_mday = 2, tm_mon = 2, tm_year = 72\<rparr> =
     86400 * calendar_days 2 2 1 + 3600 * 3 + 60 * 4 + 5 \<and> calendar_days 2 2 1 = 365 + 365 + 31 + 29 + 1"
proof
  show "short_tm_time_t \<lparr>tm_sec = 5, tm_min = 4, tm_hour = 3, tm_mday = 2, tm_mon = 2, tm_year = 72\<rparr> =
     86400 * calendar_days 2 2 1 + 3600 * 3 + 60 * 4 + 5"
    using short_tm_time_t_calendar [of "\<lparr>tm_sec = 5, tm_min = 4, tm_hour = 3, tm_mday = 2, tm_mon = 2, tm_year = 72\<rparr>"]
    by simp
qed code_simp

section \<open>Names in dates\<close>

definition gwkday :: "string list" where
  "gwkday = [''Mon'', ''Tue'', ''Wed'', ''Thu'', ''Fri'', ''Sat'', ''Sun'']"

definition gweekday :: "string list" where
  "gweekday = [''Monday'', ''Tuesday'', ''Wednesday'', ''Thursday'', ''Friday'', ''Saturday'', ''Sunday'']"

definition gmonth :: "string list" where
  "gmonth = [''Jan'', ''Feb'', ''Mar'', ''Apr'', ''May'', ''Jun'', ''Jul'', ''Aug'', ''Sep'', ''Oct'', ''Nov'', ''Dec'']"

definition tz_dayzone :: int where
  "tz_dayzone = - 60"

definition tz_names :: "(string \<times> int) list" where
  "tz_names =
     [(''GMT'', 0), (''UTC'', 0), (''WET'', 0), (''BST'', 0 + tz_dayzone), (''WAT'', 60), (''AST'', 240),
      (''ADT'', 240 + tz_dayzone), (''EST'', 300), (''EDT'', 300 + tz_dayzone), (''CST'', 360),
      (''CDT'', 360 + tz_dayzone), (''MST'', 420), (''MDT'', 420 + tz_dayzone), (''PST'', 480),
      (''PDT'', 480 + tz_dayzone), (''YST'', 540), (''YDT'', 540 + tz_dayzone), (''HST'', 600),
      (''HDT'', 600 + tz_dayzone), (''CAT'', 600), (''AHST'', 600), (''NT'', 660), (''IDLW'', 720), (''CET'', - 60),
      (''MET'', - 60), (''MEWT'', - 60), (''MEST'', - 60 + tz_dayzone), (''CEST'', - 60 + tz_dayzone),
      (''MESZ'', - 60 + tz_dayzone), (''FWT'', - 60), (''FST'', - 60 + tz_dayzone), (''EET'', - 120),
      (''WAST'', - 420), (''WADT'', - 420 + tz_dayzone), (''CCT'', - 480), (''JST'', - 540), (''EAST'', - 600),
      (''EADT'', - 600 + tz_dayzone), (''GST'', - 600), (''NZT'', - 720), (''NZST'', - 720),
      (''NZDT'', - 720 + tz_dayzone), (''IDLE'', - 720), (''A'', 60), (''B'', 120), (''C'', 180), (''D'', 240),
      (''E'', 300), (''F'', 360), (''G'', 420), (''H'', 480), (''I'', 540), (''K'', 600), (''L'', 660), (''M'', 720),
      (''N'', - 60), (''O'', - 120), (''P'', - 180), (''Q'', - 240), (''R'', - 300), (''S'', - 360), (''T'', - 420),
      (''U'', - 480), (''V'', - 540), (''W'', - 600), (''X'', - 660), (''Y'', - 720), (''Z'', 0)]"

text \<open>The position of a name in a table, or \<open>- 1\<close>.\<close>

fun index_ci :: "string \<Rightarrow> string list \<Rightarrow> int" where
  "index_ci x [] = - 1"
| "index_ci x (y # ys) =
     (if iequals x y then 0 else let r = index_ci x ys in if r = - 1 then - 1 else r + 1)"

definition checkday :: "string \<Rightarrow> int" where
  "checkday check = index_ci check (if 3 < length check then gweekday else gwkday)"

definition checkmonth :: "string \<Rightarrow> int" where
  "checkmonth check = index_ci check gmonth"

definition checktz :: "string \<Rightarrow> int" where
  "checktz check =
     (case List.find (\<lambda>(n, _). iequals check n) tz_names of Some (_, offset) \<Rightarrow> offset * 60 | None \<Rightarrow> - 1)"

section \<open>The parser\<close>

text \<open>\<^verbatim>\<open>%02d\<close> of \<^verbatim>\<open>sscanf\<close>: spaces, then at most two characters of a signed number.\<close>

definition scan_02d :: "string \<Rightarrow> (int \<times> string) option" where
  "scan_02d s =
     (case dropWhile isspace s of
        [] \<Rightarrow> None
      | c # r \<Rightarrow>
          (if c = CHR ''-'' \<or> c = CHR ''+'' then
             (case r of
                d # r' \<Rightarrow> if isdigit d then Some ((if c = CHR ''-'' then - 1 else 1) * int (digit_val d), r') else None
              | [] \<Rightarrow> None)
           else if isdigit c then
             (case r of
                d # r' \<Rightarrow> if isdigit d then Some (int (10 * digit_val c + digit_val d), r') else Some (int (digit_val c), r)
              | [] \<Rightarrow> Some (int (digit_val c), r))
           else None))"

text \<open>The numbers that \<^verbatim>\<open>sscanf(date, "%02d:%02d ...", ...)\<close> with \<open>n\<close> conversions stores; their number is its
  result.\<close>

fun scan_ints :: "nat \<Rightarrow> string \<Rightarrow> int list" where
  "scan_ints 0 s = []"
| "scan_ints (Suc n) s =
     (case scan_02d s of
        None \<Rightarrow> []
      | Some (v, r) \<Rightarrow>
          v # (case r of c # r' \<Rightarrow> if c = CHR '':'' then scan_ints n r' else [] | [] \<Rightarrow> []))"

datatype date_assume = DATE_MDAY | DATE_YEAR | DATE_TIME

record date_state =
  d_date :: nat
  d_wdaynum :: int
  d_monnum :: int
  d_mdaynum :: int
  d_hournum :: int
  d_minnum :: int
  d_secnum :: int
  d_yearnum :: int
  d_tzoff :: int
  d_dignext :: date_assume

definition date_start :: date_state where
  "date_start = \<lparr>d_date = 0, d_wdaynum = - 1, d_monnum = - 1, d_mdaynum = - 1, d_hournum = - 1, d_minnum = - 1,
     d_secnum = - 1, d_yearnum = - 1, d_tzoff = - 1, d_dignext = DATE_MDAY\<rparr>"

text \<open>A name: a day of the week, a month or a time zone, each at most once. \<open>None\<close> is \<^verbatim>\<open>return false\<close>.\<close>

definition name_part :: "string \<Rightarrow> date_state \<Rightarrow> date_state option" where
  "name_part buf d =
     (let wday = (if d_wdaynum d = - 1 then checkday buf else d_wdaynum d);
          found_day = (d_wdaynum d = - 1 \<and> wday \<noteq> - 1);
          mon = (if \<not> found_day \<and> d_monnum d = - 1 then checkmonth buf else d_monnum d);
          found_mon = (found_day \<or> (d_monnum d = - 1 \<and> mon \<noteq> - 1));
          zone = (if \<not> found_mon \<and> d_tzoff d = - 1 then checktz buf else d_tzoff d);
          found = (found_mon \<or> (d_tzoff d = - 1 \<and> zone \<noteq> - 1))
      in if found
         then Some (d\<lparr>d_wdaynum := wday, d_monnum := mon, d_tzoff := zone, d_date := d_date d + length buf\<rparr>)
         else None)"

definition store_scan :: "int list \<Rightarrow> date_state \<Rightarrow> date_state" where
  "store_scan vs d =
     (case vs of
        [] \<Rightarrow> d
      | [h] \<Rightarrow> d\<lparr>d_hournum := h\<rparr>
      | [h, m] \<Rightarrow> d\<lparr>d_hournum := h, d_minnum := m\<rparr>
      | h # m # s # _ \<Rightarrow> d\<lparr>d_hournum := h, d_minnum := m, d_secnum := s\<rparr>)"

text \<open>\<^verbatim>\<open>date += n\<close>, whatever \<^verbatim>\<open>sscanf\<close> read: it may step over the terminating zero.\<close>

definition advance :: "nat \<Rightarrow> string \<Rightarrow> date_state \<Rightarrow> date_state option result" where
  "advance n s d = (if d_date d + n \<le> length s then Inr (Some (d\<lparr>d_date := d_date d + n\<rparr>)) else Inl Undefined)"

text \<open>\<^verbatim>\<open>strtol\<close> saturates, \<^verbatim>\<open>sltosi\<close> keeps the low 31 bits.\<close>

definition sltosi_strtol :: "string \<Rightarrow> int" where
  "sltosi_strtol digits = int (min (digits_val digits) (2 ^ 63 - 1) mod 2 ^ 31)"

definition zone_part :: "string \<Rightarrow> nat \<Rightarrow> int \<Rightarrow> date_state \<Rightarrow> date_state option" where
  "zone_part s n val d =
     (if d_tzoff d = - 1 \<and> n = 4 \<and> val \<le> 1400 \<and> 0 < d_date d \<and> s ! (d_date d - 1) \<in> {CHR ''+'', CHR ''-''} then
        (let tzoff = (val div 100 * 60 + val mod 100) * 60
         in Some (d\<lparr>d_tzoff := (if s ! (d_date d - 1) = CHR ''+'' then - tzoff else tzoff)\<rparr>))
      else None)"

definition full_part :: "nat \<Rightarrow> int \<Rightarrow> date_state \<Rightarrow> date_state option" where
  "full_part n val d =
     (if n = 8 \<and> d_yearnum d = - 1 \<and> d_monnum d = - 1 \<and> d_mdaynum d = - 1 then
        Some (d\<lparr>d_yearnum := val div 10000, d_monnum := val mod 10000 div 100 - 1, d_mdaynum := val mod 100\<rparr>)
      else None)"

definition mday_part :: "int \<Rightarrow> date_state \<Rightarrow> bool \<times> date_state" where
  "mday_part val d =
     (if d_dignext d = DATE_MDAY \<and> d_mdaynum d = - 1 then
        (if 0 < val \<and> val < 32 then (True, d\<lparr>d_mdaynum := val, d_dignext := DATE_YEAR\<rparr>)
         else (False, d\<lparr>d_dignext := DATE_YEAR\<rparr>))
      else (False, d))"

definition year_part :: "int \<Rightarrow> date_state \<Rightarrow> date_state option" where
  "year_part val d =
     (if d_dignext d = DATE_YEAR \<and> d_yearnum d = - 1 then
        (let y = (if val < 1900 then (if 70 < val then val + 1900 else val + 2000) else val)
         in Some (d\<lparr>d_yearnum := y, d_dignext := (if d_mdaynum d = - 1 then DATE_MDAY else d_dignext d)\<rparr>))
      else None)"

definition plain_number :: "string \<Rightarrow> date_state \<Rightarrow> date_state option" where
  "plain_number s d =
     (let digits = takeWhile isdigit (drop (d_date d) s);
          n = length digits;
          val = sltosi_strtol digits;
          zone = zone_part s n val d;
          d1 = (case zone of None \<Rightarrow> d | Some d' \<Rightarrow> d');
          full = full_part n val d1;
          d2 = (case full of None \<Rightarrow> d1 | Some d' \<Rightarrow> d');
          r = (if zone \<noteq> None \<or> full \<noteq> None then Some d2
               else case mday_part val d2 of
                 (True, d3) \<Rightarrow> Some d3
               | (False, d3) \<Rightarrow> year_part val d3)
      in case r of None \<Rightarrow> None | Some d4 \<Rightarrow> Some (d4\<lparr>d_date := d_date d + n\<rparr>))"

definition number_part :: "string \<Rightarrow> date_state \<Rightarrow> date_state option result" where
  "number_part s d =
     (let rest = drop (d_date d) s;
          v3 = (if d_secnum d = - 1 then scan_ints 3 rest else []);
          d1 = store_scan v3 d
      in if length v3 = 3 then advance 8 s d1
         else
           (let v2 = (if d_secnum d1 = - 1 then scan_ints 2 rest else []);
                d2 = store_scan v2 d1
            in if length v2 = 2 then advance 5 s (d2\<lparr>d_secnum := 0\<rparr>)
               else Inr (plain_number s d2)))"

definition isalnum :: "char \<Rightarrow> bool" where
  "isalnum c \<longleftrightarrow> isalpha c \<or> isdigit c"

definition date_round :: "string \<Rightarrow> date_state \<Rightarrow> date_state option result" where
  "date_round s d0 =
     (let d = d0\<lparr>d_date := d_date d0 + length (takeWhile (\<lambda>c. \<not> isalnum c) (drop (d_date d0) s))\<rparr>;
          p = d_date d
      in if p < length s \<and> isalpha (s ! p) then Inr (name_part (take 31 (takeWhile isalpha (drop p s))) d)
         else if p < length s \<and> isdigit (s ! p) then number_part s d
         else Inr (Some d))"

text \<open>\<^verbatim>\<open>while (*date && (part < 6))\<close>; the number counts the parts that are left.\<close>

fun date_loop :: "nat \<Rightarrow> string \<Rightarrow> date_state \<Rightarrow> date_state option result" where
  "date_loop 0 s d = Inr (Some d)"
| "date_loop (Suc n) s d =
     (if d_date d < length s then
        (case date_round s d of
           Inl e \<Rightarrow> Inl e
         | Inr None \<Rightarrow> Inr None
         | Inr (Some d') \<Rightarrow> date_loop n s d')
      else Inr (Some d))"

text \<open>What follows the loop. \<^verbatim>\<open>SIZEOF_TIME_T\<close> is defined nowhere, so the preprocessor takes it for 0 and
  the check of the year is compiled in. The result is the return value and \<^verbatim>\<open>*output\<close>, which \<open>out\<close> was
  before.\<close>

definition date_finish :: "int \<Rightarrow> date_state \<Rightarrow> bool \<times> int" where
  "date_finish out d0 =
     (let d = (if d_secnum d0 = - 1 then d0\<lparr>d_secnum := 0, d_minnum := 0, d_hournum := 0\<rparr> else d0)
      in if d_mdaynum d = - 1 \<or> d_monnum d = - 1 \<or> d_yearnum d = - 1 then (False, out)
         else if 2037 < d_yearnum d then (False, 0x7fffffff)
         else if d_yearnum d < 1970 then (False, 0)
         else
           (let t = short_tm_time_t \<lparr>tm_sec = d_secnum d, tm_min = d_minnum d, tm_hour = d_hournum d,
                      tm_mday = d_mdaynum d, tm_mon = d_monnum d, tm_year = d_yearnum d - 1900\<rparr>;
                delta = (if d_tzoff d \<noteq> - 1 then d_tzoff d else 0)
            in if t mod 2 ^ 32 \<noteq> 2 ^ 32 - 1 then
                 (if 0 < delta \<and> t + delta < t then (False, out) else (True, t + delta))
               else (True, t)))"

text \<open>The parser gets a \<^verbatim>\<open>string_view\<close> and reads from its start up to the next zero byte: \<open>after\<close> is what
  the memory holds between the end of the view and that byte.\<close>

definition parse_gmt_time_fmt :: "string \<Rightarrow> string \<Rightarrow> int \<Rightarrow> (bool \<times> int) result" where
  "parse_gmt_time_fmt date_str after out =
     (if date_str = [] then Inr (False, 0)
      else
        (case date_loop 6 (date_str @ after) date_start of
           Inl e \<Rightarrow> Inl e
         | Inr None \<Rightarrow> Inr (False, out)
         | Inr (Some d) \<Rightarrow> Inr (date_finish out d)))"

section \<open>Printing\<close>

text \<open>\<^verbatim>\<open>gmtime\<close>: the calendar repeats every 400 years, which are 146097 days.\<close>

function year_walk :: "int \<Rightarrow> nat \<Rightarrow> nat \<times> int" where
  "year_walk d k = (if d < year_days (1970 + int k) then (k, d) else year_walk (d - year_days (1970 + int k)) (Suc k))"
  by pat_completeness auto
termination
  by (relation "measure (\<lambda>(d, k). nat d)") (auto simp: year_days_def split: if_splits)

function month_walk :: "int \<Rightarrow> int \<Rightarrow> nat \<Rightarrow> nat \<times> int" where
  "month_walk y d m = (if d < month_days y m then (m, d) else month_walk y (d - month_days y m) (Suc m))"
  by pat_completeness auto
termination
  by (relation "measure (\<lambda>(y, d, m). nat d)") (auto simp: month_days_def split: if_splits)

declare year_walk.simps [simp del] month_walk.simps [simp del]

definition gmtime :: "int \<Rightarrow> short_tm \<times> int" where
  "gmtime t =
     (let days = t div 86400; s = t mod 86400;
          (k, yday) = year_walk (days mod 146097) 0;
          y = 1970 + 400 * (days div 146097) + int k;
          (m, mday) = month_walk y yday 0
      in (\<lparr>tm_sec = s mod 60, tm_min = s div 60 mod 60, tm_hour = s div 3600, tm_mday = mday + 1, tm_mon = int m,
           tm_year = y - 1900\<rparr>, (days + 4) mod 7))"

definition two_digits :: "int \<Rightarrow> string" where
  "two_digits n = [digit_char (nat n div 10), digit_char (nat n mod 10)]"

definition show_year :: "int \<Rightarrow> string" where
  "show_year y = (if y < 0 then CHR ''-'' # show_nat (nat (- y)) else show_nat (nat y))"

definition strftime_day :: "int \<Rightarrow> string" where
  "strftime_day wday = [''Sun'', ''Mon'', ''Tue'', ''Wed'', ''Thu'', ''Fri'', ''Sat''] ! nat wday"

text \<open>\<^verbatim>\<open>"%a, %d %b %Y %H:%M:%S GMT"\<close>; \<^verbatim>\<open>gmtime\<close> gives a null pointer where the year is no
  \<^verbatim>\<open>int\<close>.\<close>

definition make_http_last_modified :: "int \<Rightarrow> string result" where
  "make_http_last_modified t =
     (let (tm, wday) = gmtime t
      in if tm_year tm < - (2 ^ 31) \<or> 2 ^ 31 \<le> tm_year tm then Inl Undefined
         else Inr (strftime_day wday @ '', '' @ two_digits (tm_mday tm) @ '' '' @ gmonth ! nat (tm_mon tm) @ '' '' @
                show_year (tm_year tm + 1900) @ '' '' @ two_digits (tm_hour tm) @ '':'' @ two_digits (tm_min tm) @ '':'' @
                two_digits (tm_sec tm) @ '' GMT''))"

section \<open>A printed date is read back\<close>

lemma year_walk_spec:
  "year_walk d k = (k', r) \<Longrightarrow> 0 \<le> d \<Longrightarrow>
    k \<le> k' \<and> 0 \<le> r \<and> r < year_days (1970 + int k') \<and>
    d + sum_list (map (\<lambda>j. year_days (1970 + int j)) [0..<k]) =
      sum_list (map (\<lambda>j. year_days (1970 + int j)) [0..<k']) + r"
proof (induction d k rule: year_walk.induct)
  case (1 d k)
  show ?case
  proof (cases "d < year_days (1970 + int k)")
    case True
    then show ?thesis using "1.prems" by (simp add: year_walk.simps [of d k])
  next
    case False
    then show ?thesis using "1.IH" [OF False] "1.prems" by (simp add: year_walk.simps [of d k])
  qed
qed

lemma month_walk_spec:
  "month_walk y d m = (m', r) \<Longrightarrow> 0 \<le> d \<Longrightarrow>
    m \<le> m' \<and> 0 \<le> r \<and> r < month_days y m' \<and>
    d + sum_list (map (month_days y) [0..<m]) = sum_list (map (month_days y) [0..<m']) + r"
proof (induction y d m rule: month_walk.induct)
  case (1 y d m)
  show ?case
  proof (cases "d < month_days y m")
    case True
    then show ?thesis using "1.prems" by (simp add: month_walk.simps [of y d m])
  next
    case False
    then show ?thesis using "1.IH" [OF False] "1.prems" by (simp add: month_walk.simps [of y d m])
  qed
qed

lemma month_days_pos: "0 \<le> month_days y m" "month_days y m \<le> 31"
  by (simp_all add: month_days_def)

lemma sum_list_mono_upt:
  fixes f :: "nat \<Rightarrow> int"
  assumes "a \<le> b" "\<And>j. 0 \<le> f j"
  shows "sum_list (map f [0..<a]) \<le> sum_list (map f [0..<b])"
  using assms(1) by (induction rule: dec_induct) (use assms(2) in \<open>auto intro: order_trans\<close>)

lemma twelve_months: "sum_list (map (month_days y) [0..<12]) = year_days y"
proof -
  have "[0..<12] = [0..<11] @ [11 :: nat]" by code_simp
  then show ?thesis
    using month_days_sum [of 11 y] by (simp add: month_days_cumulative_def month_days_def year_days_def)
qed

text \<open>The fields of \<^verbatim>\<open>gmtime\<close> are in their ranges and name the second they were made from.\<close>

lemma gmtime_fields:
  assumes "0 \<le> t" "t < 2145916800" "gmtime t = (tm, wday)"
  shows "0 \<le> wday" "wday < 7" "0 \<le> tm_sec tm" "tm_sec tm < 60" "0 \<le> tm_min tm" "tm_min tm < 60"
    "0 \<le> tm_hour tm" "tm_hour tm < 24" "1 \<le> tm_mday tm" "tm_mday tm \<le> 31" "0 \<le> tm_mon tm" "tm_mon tm < 12"
    "70 \<le> tm_year tm" "tm_year tm \<le> 137" "short_tm_time_t tm = t"
proof -
  define days s where "days = t div 86400" and "s = t mod 86400"
  have ds: "0 \<le> days" "days < 24837" "0 \<le> s" "s < 86400" "t = 86400 * days + s"
    using assms(1,2) by (simp_all add: days_def s_def)
  obtain k yday where yw: "year_walk days 0 = (k, yday)" by fastforce
  obtain m mday where mw: "month_walk (1970 + int k) yday 0 = (m, mday)" by fastforce
  have y: "0 \<le> yday" "yday < year_days (1970 + int k)"
    "days = sum_list (map (\<lambda>j. year_days (1970 + int j)) [0..<k]) + yday"
    using year_walk_spec [OF yw] ds(1) by simp_all
  have m: "0 \<le> mday" "mday < month_days (1970 + int k) m"
    "yday = sum_list (map (month_days (1970 + int k)) [0..<m]) + mday"
    using month_walk_spec [OF mw] y(1) by simp_all
  have "m < 12"
  proof (rule ccontr)
    assume "\<not> m < 12"
    then have "year_days (1970 + int k) \<le> sum_list (map (month_days (1970 + int k)) [0..<m])"
      using sum_list_mono_upt [of 12 m "month_days (1970 + int k)"] month_days_pos(1) twelve_months by simp
    then show False using m y by simp
  qed
  have "k < 68"
  proof (rule ccontr)
    assume "\<not> k < 68"
    then have "sum_list (map (\<lambda>j. year_days (1970 + int j)) [0..<68]) \<le>
        sum_list (map (\<lambda>j. year_days (1970 + int j)) [0..<k])"
      by (intro sum_list_mono_upt) (simp_all add: year_days_def)
    moreover have "sum_list (map (\<lambda>j. year_days (1970 + int j)) [0..<68]) = 24837"
      unfolding years_days by (simp add: leaps_def)
    ultimately show False using y ds(2) by simp
  qed
  have tm: "tm = \<lparr>tm_sec = s mod 60, tm_min = s div 60 mod 60, tm_hour = s div 3600, tm_mday = mday + 1,
      tm_mon = int m, tm_year = 70 + int k\<rparr>" "wday = (days + 4) mod 7"
    using assms(3) ds yw mw unfolding gmtime_def days_def [symmetric] s_def [symmetric]
    by (simp_all add: Let_def)
  show "0 \<le> wday" "wday < 7" "0 \<le> tm_sec tm" "tm_sec tm < 60" "0 \<le> tm_min tm" "tm_min tm < 60"
    "0 \<le> tm_hour tm" "tm_hour tm < 24" "1 \<le> tm_mday tm" "0 \<le> tm_mon tm" "tm_mon tm < 12"
    "70 \<le> tm_year tm" "tm_year tm \<le> 137"
    using ds m(1) \<open>m < 12\<close> \<open>k < 68\<close> by (simp_all add: tm)
  show "tm_mday tm \<le> 31"
    using m(2) month_days_pos(2) [of "1970 + int k" m] by (simp add: tm)
  have "short_tm_time_t tm = 86400 * calendar_days k m mday + 3600 * (s div 3600) + 60 * (s div 60 mod 60) + s mod 60"
    using \<open>m < 12\<close> by (subst seconds_calendar) (simp_all add: tm)
  also have "calendar_days k m mday = days"
    using y(3) m(3) by (simp add: calendar_days_def)
  finally have "short_tm_time_t tm = 86400 * days + 3600 * (s div 3600) + 60 * (s div 60 mod 60) + s mod 60" .
  moreover have "s div 3600 = s div 60 div 60" using zdiv_zmult2_eq [of 60 s 60] by simp
  ultimately show "short_tm_time_t tm = t"
    using ds(5) mult_div_mod_eq [of 60 s] mult_div_mod_eq [of 60 "s div 60"] by linarith
qed

text \<open>One round of the loop on a text whose next item is a name or a number.\<close>

lemma round_item:
  assumes "drop (d_date d) s = sep @ w @ r" "\<forall>c\<in>set sep. \<not> isalnum c" "w \<noteq> []"
  defines "d' \<equiv> d\<lparr>d_date := d_date d + length sep\<rparr>"
  shows round_name: "\<forall>c\<in>set w. isalpha c \<Longrightarrow> length w \<le> 31 \<Longrightarrow> r = [] \<or> \<not> isalpha (hd r) \<Longrightarrow>
      date_round s d = Inr (name_part w d')"
    and round_number: "isdigit (hd w) \<Longrightarrow> date_round s d = number_part s d'"
proof -
  obtain c cs where w: "w = c # cs" using assms(3) by (cases w) auto
  have len: "d_date d + length sep < length s"
    using arg_cong [OF assms(1), of length] w by (simp add: Suc_le_eq)
  have dr: "drop (d_date d + length sep) s = w @ r"
    using assms(1) drop_drop [of "length sep" "d_date d" s] by (simp add: add.commute)
  then have nth: "s ! (d_date d + length sep) = c"
    using len w by (metis append_Cons hd_drop_conv_nth list.sel(1))
  have tw: "takeWhile (\<lambda>c. \<not> isalnum c) (drop (d_date d) s) = sep" if "isalnum c"
    using assms(1,2) w that by simp
  show "date_round s d = Inr (name_part w d')"
    if "\<forall>c\<in>set w. isalpha c" "length w \<le> 31" "r = [] \<or> \<not> isalpha (hd r)"
  proof -
    have "isalnum c" "isalpha c" using that(1) w by (simp_all add: isalnum_def)
    moreover have "takeWhile isalpha (w @ r) = w"
      using that(1,3) by (cases r) (simp_all add: takeWhile_append2)
    ultimately show ?thesis
      unfolding date_round_def Let_def using tw len nth dr that(2) by (simp add: d'_def)
  qed
  show "date_round s d = number_part s d'" if "isdigit (hd w)"
  proof -
    have c: "isdigit c" "isalnum c" "\<not> isalpha c"
      using that w by (auto simp: isalnum_def isdigit_def isalpha_def Let_def)
    then show ?thesis unfolding date_round_def Let_def using tw len nth by (simp add: d'_def)
  qed
qed

lemma date_loop_step:
  "d_date d < length s \<Longrightarrow> date_round s d = Inr (Some d') \<Longrightarrow> date_loop (Suc n) s d = date_loop n s d'"
  by simp

lemma digit_not_space: "isdigit c \<Longrightarrow> \<not> isspace c \<and> c \<noteq> CHR ''-'' \<and> c \<noteq> CHR ''+'' \<and> c \<noteq> CHR '':''"
  by (auto simp: isdigit_def isspace_def)

lemma scan_02d_digits:
  "isdigit a \<Longrightarrow> isdigit b \<Longrightarrow> scan_02d (a # b # r) = Some (int (10 * digit_val a + digit_val b), r)"
  using digit_not_space by (simp add: scan_02d_def)

lemma scan_date_number:
  "isdigit a \<Longrightarrow> isdigit b \<Longrightarrow> c \<noteq> CHR '':'' \<Longrightarrow>
   scan_ints (Suc n) (a # b # c # r) = [int (10 * digit_val a + digit_val b)]"
  by (simp add: scan_02d_digits)

lemma two_digits_scan:
  assumes "0 \<le> n" "n < 100"
  obtains a b where "two_digits n = [a, b]" "isdigit a" "isdigit b" "int (10 * digit_val a + digit_val b) = n"
proof -
  have "nat n div 10 < 10" using assms by linarith
  moreover have "int (10 * (nat n div 10) + nat n mod 10) = n" using assms by simp
  ultimately show ?thesis using that [of "digit_char (nat n div 10)" "digit_char (nat n mod 10)"]
    by (simp add: two_digits_def)
qed

lemma show_nat_4:
  assumes "1000 \<le> y" "y < 10000"
  obtains a b c d where "show_nat y = [a, b, c, d]" "isdigit a" "isdigit b" "isdigit c" "isdigit d"
proof -
  have "\<not> y < 10" "\<not> y div 10 < 10" "\<not> y div 10 div 10 < 10" "y div 10 div 10 div 10 < 10"
    using assms by simp_all
  then have "show_nat y = [digit_char (y div 10 div 10 div 10), digit_char (y div 10 div 10 mod 10),
      digit_char (y div 10 mod 10), digit_char (y mod 10)]"
    by (simp add: show_nat.simps [of y] show_nat.simps [of "y div 10"] show_nat.simps [of "y div 10 div 10"]
        show_nat.simps [of "y div 10 div 10 div 10"] del: div_mult2_eq)
  then show ?thesis using that \<open>y div 10 div 10 div 10 < 10\<close> by simp
qed

lemma day_names:
  assumes "0 \<le> wday" "wday < 7"
  shows "length (strftime_day wday) = 3" "list_all isalpha (strftime_day wday)" "checkday (strftime_day wday) \<noteq> - 1"
proof -
  have "list_all (\<lambda>w. length w = 3 \<and> list_all isalpha w \<and> checkday w \<noteq> - 1)
      [''Sun'', ''Mon'', ''Tue'', ''Wed'', ''Thu'', ''Fri'', ''Sat'']" by code_simp
  moreover have "strftime_day wday \<in> set [''Sun'', ''Mon'', ''Tue'', ''Wed'', ''Thu'', ''Fri'', ''Sat'']"
    using assms unfolding strftime_day_def by (intro nth_mem) simp
  ultimately have "length (strftime_day wday) = 3 \<and> list_all isalpha (strftime_day wday) \<and>
      checkday (strftime_day wday) \<noteq> - 1"
    unfolding list_all_iff by blast
  then show "length (strftime_day wday) = 3" "list_all isalpha (strftime_day wday)" "checkday (strftime_day wday) \<noteq> - 1"
    by simp_all
qed

lemma index_ci_nth:
  "distinct (map (map lower_char) ys) \<Longrightarrow> i < length ys \<Longrightarrow> index_ci (ys ! i) ys = int i"
proof (induction ys arbitrary: i)
  case (Cons y ys)
  show ?case
  proof (cases i)
    case 0
    then show ?thesis by (simp add: iequals_def)
  next
    case (Suc j)
    then have "index_ci (ys ! j) ys = int j" using Cons.prems by (intro Cons.IH) auto
    moreover have "\<not> iequals (ys ! j) y"
    proof
      assume "iequals (ys ! j) y"
      moreover have "map lower_char (ys ! j) \<in> map lower_char ` set ys"
        using Cons.prems(2) Suc by (intro imageI nth_mem) simp
      ultimately show False using Cons.prems(1) by (simp add: iequals_def)
    qed
    ultimately show ?thesis using Suc by (simp add: Let_def)
  qed
qed simp

lemma month_names:
  assumes "m < 12"
  shows "length (gmonth ! m) = 3" "list_all isalpha (gmonth ! m)" "checkmonth (gmonth ! m) = int m"
proof -
  have "map (map lower_char) gmonth =
      [''jan'', ''feb'', ''mar'', ''apr'', ''may'', ''jun'', ''jul'', ''aug'', ''sep'', ''oct'', ''nov'', ''dec'']"
    and len: "length gmonth = 12" and all: "list_all (\<lambda>w. length w = 3 \<and> list_all isalpha w) gmonth"
    by code_simp+
  then have "distinct (map (map lower_char) gmonth)" by simp
  then show "checkmonth (gmonth ! m) = int m"
    using index_ci_nth assms len by (simp add: checkmonth_def)
  have "gmonth ! m \<in> set gmonth" using assms len by simp
  then have "length (gmonth ! m) = 3 \<and> list_all isalpha (gmonth ! m)"
    using all unfolding list_all_iff by blast
  then show "length (gmonth ! m) = 3" "list_all isalpha (gmonth ! m)" by simp_all
qed

lemma three_letters:
  assumes "length w = 3" "list_all isalpha w"
  obtains a b c where "w = [a, b, c]" "isalpha a" "isalpha b" "isalpha c"
  using assms by (auto simp: length_Suc_conv numeral_3_eq_3)

lemma separators: "\<not> isalnum (CHR '' '')" "\<not> isalnum (CHR '','')" "isalpha (CHR ''G'')" "isalpha (CHR ''M'')"
  "isalpha (CHR ''T'')" "\<not> isalpha (CHR '' '')" "\<not> isalpha (CHR '','')" "\<not> isdigit (CHR '' '')" "checktz ''GMT'' = 0"
  by code_simp+

lemma sltosi_small: "digits_val w < 2 ^ 31 \<Longrightarrow> sltosi_strtol w = int (digits_val w)"
  by (simp add: sltosi_strtol_def)

text \<open>A day of the month and a year where the parser expects them.\<close>

lemma number_mday:
  assumes "drop (d_date d) s = [a, b] @ c # r" "isdigit a" "isdigit b" "\<not> isdigit c" "c \<noteq> CHR '':''"
    and "int (10 * digit_val a + digit_val b) = v" "0 < v" "v < 32"
    and "d_secnum d = - 1" "d_dignext d = DATE_MDAY" "d_mdaynum d = - 1"
  shows "number_part s d =
    Inr (Some (d\<lparr>d_hournum := v, d_mdaynum := v, d_dignext := DATE_YEAR, d_date := d_date d + 2\<rparr>))"
proof -
  have v: "sltosi_strtol [a, b] = v"
    using assms(6,8) by (subst sltosi_small) (auto simp: digits_val_def)
  have "scan_ints (Suc n) (drop (d_date d) s) = [v]" for n
    using assms(1-6) scan_date_number [of a b c n r] by simp
  note scan = this [of 2, simplified] this [of 1, simplified]
  show ?thesis
    using assms v scan
    by (simp add: number_part_def store_scan_def plain_number_def zone_part_def full_part_def mday_part_def
        numeral_3_eq_3 numeral_2_eq_2 Let_def)
qed

lemma number_year:
  assumes "drop (d_date d) s = [a, b, c, e] @ CHR '' '' # r" "isdigit a" "isdigit b" "isdigit c" "isdigit e"
    and "[a, b, c, e] = show_nat y" "1970 \<le> y" "y < 10000"
    and "d_secnum d = - 1" "d_dignext d = DATE_YEAR" "d_yearnum d = - 1" "d_mdaynum d \<noteq> - 1"
  shows "number_part s d = Inr (Some (d\<lparr>d_hournum := int (10 * digit_val a + digit_val b),
    d_yearnum := int y, d_date := d_date d + 4\<rparr>))"
proof -
  have v: "sltosi_strtol [a, b, c, e] = int y"
    using assms(6,8) by (subst sltosi_small) simp_all
  have "scan_ints (Suc n) (drop (d_date d) s) = [int (10 * digit_val a + digit_val b)]" for n
    using assms(1-4) scan_date_number [of a b c n] digit_not_space [of c] by simp
  note scan = this [of 2, simplified] this [of 1, simplified]
  have tw: "takeWhile isdigit (drop (d_date d) s) = [a, b, c, e]"
    using assms(1-5) separators by simp
  show ?thesis
    using assms(7,9-) v scan tw
    by (simp add: number_part_def store_scan_def plain_number_def zone_part_def full_part_def mday_part_def
        year_part_def numeral_3_eq_3 numeral_2_eq_2 Let_def)
qed

lemma number_time:
  assumes "drop (d_date d) s = [a, b, CHR '':'', c, e, CHR '':'', f, g] @ r" "d_secnum d = - 1"
    and "isdigit a" "isdigit b" "isdigit c" "isdigit e" "isdigit f" "isdigit g"
  shows "number_part s d = Inr (Some (d\<lparr>d_hournum := int (10 * digit_val a + digit_val b),
    d_minnum := int (10 * digit_val c + digit_val e), d_secnum := int (10 * digit_val f + digit_val g),
    d_date := d_date d + 8\<rparr>))"
proof -
  have "d_date d + 8 \<le> length s"
    using arg_cong [OF assms(1), of length] by simp
  moreover have "scan_ints 3 (drop (d_date d) s) = [int (10 * digit_val a + digit_val b),
      int (10 * digit_val c + digit_val e), int (10 * digit_val f + digit_val g)]"
    using assms by (simp add: numeral_3_eq_3 scan_02d_digits split: list.split)
  ultimately show ?thesis
    using assms(2) by (simp add: number_part_def store_scan_def advance_def)
qed

text \<open>The six rounds on the text of a date.\<close>

lemma date_loop_text:
  assumes day: "length D = 3" "list_all isalpha D" "checkday D \<noteq> - 1"
    and mon: "m < 12" and mday: "1 \<le> md" "md \<le> 31" and year: "1970 \<le> y" "y < 10000"
    and time: "0 \<le> h" "h < 24" "0 \<le> mi" "mi < 60" "0 \<le> se" "se < 60"
    and rest: "after = [] \<or> \<not> isalpha (hd after)"
    and s: "s = D @ '', '' @ two_digits md @ '' '' @ gmonth ! m @ '' '' @ show_nat y @ '' '' @ two_digits h @ '':'' @
      two_digits mi @ '':'' @ two_digits se @ '' GMT'' @ after"
  shows "date_loop 6 s date_start = Inr (Some \<lparr>d_date = 29, d_wdaynum = checkday D, d_monnum = int m,
    d_mdaynum = md, d_hournum = h, d_minnum = mi, d_secnum = se, d_yearnum = int y, d_tzoff = 0,
    d_dignext = DATE_YEAR\<rparr>)"
proof -
  obtain D1 D2 D3 where D: "D = [D1, D2, D3]" "isalpha D1" "isalpha D2" "isalpha D3"
    using day(1,2) by (rule three_letters)
  obtain M1 M2 M3 where M: "gmonth ! m = [M1, M2, M3]" "isalpha M1" "isalpha M2" "isalpha M3"
    using month_names(1,2) [OF mon] by (rule three_letters)
  obtain a b where md: "two_digits md = [a, b]" "isdigit a" "isdigit b" "int (10 * digit_val a + digit_val b) = md"
    using two_digits_scan [of md] mday by auto
  obtain y1 y2 y3 y4 where y: "show_nat y = [y1, y2, y3, y4]" "isdigit y1" "isdigit y2" "isdigit y3" "isdigit y4"
    using year by (auto intro: show_nat_4 [of y])
  obtain h1 h2 where hh: "two_digits h = [h1, h2]" "isdigit h1" "isdigit h2" "int (10 * digit_val h1 + digit_val h2) = h"
    using two_digits_scan [of h] time by auto
  obtain i1 i2 where ii: "two_digits mi = [i1, i2]" "isdigit i1" "isdigit i2" "int (10 * digit_val i1 + digit_val i2) = mi"
    using two_digits_scan [of mi] time by auto
  obtain s1 s2 where ss: "two_digits se = [s1, s2]" "isdigit s1" "isdigit s2" "int (10 * digit_val s1 + digit_val s2) = se"
    using two_digits_scan [of se] time by auto
  define r5 where "r5 = CHR '' '' # ''GMT'' @ after"
  define r4 where "r4 = CHR '' '' # [h1, h2, CHR '':'', i1, i2, CHR '':'', s1, s2] @ r5"
  define r3 where "r3 = CHR '' '' # [y1, y2, y3, y4] @ r4"
  define r2 where "r2 = CHR '' '' # [M1, M2, M3] @ r3"
  define r1 where "r1 = '', '' @ [a, b] @ r2"
  note defs = r1_def r2_def r3_def r4_def r5_def
  have s': "s = [D1, D2, D3] @ r1"
    unfolding s D(1) M(1) md(1) y(1) hh(1) ii(1) ss(1) defs by simp
  have drops: "drop 0 s = [] @ [D1, D2, D3] @ r1" "drop 3 s = r1" "drop 7 s = r2" "drop 11 s = r3" "drop 16 s = r4"
    "drop 25 s = r5" "drop 5 s = [a, b] @ r2" "drop 12 s = [y1, y2, y3, y4] @ r4"
    "drop 17 s = [h1, h2, CHR '':'', i1, i2, CHR '':'', s1, s2] @ r5"
    by (simp_all add: s' defs)
  define d1 where "d1 = date_start\<lparr>d_date := 3, d_wdaynum := checkday D\<rparr>"
  define d2 where "d2 = d1\<lparr>d_hournum := md, d_mdaynum := md, d_dignext := DATE_YEAR, d_date := 7\<rparr>"
  define d3 where "d3 = d2\<lparr>d_monnum := int m, d_date := 11\<rparr>"
  define d4 where "d4 = d3\<lparr>d_hournum := int (10 * digit_val y1 + digit_val y2), d_yearnum := int y, d_date := 16\<rparr>"
  define d5 where "d5 = d4\<lparr>d_hournum := h, d_minnum := mi, d_secnum := se, d_date := 25\<rparr>"
  define d6 where "d6 = d5\<lparr>d_tzoff := 0, d_date := 29\<rparr>"
  note ds = d1_def d2_def d3_def d4_def d5_def d6_def date_start_def
  have c1: "date_round s date_start = Inr (Some d1)"
    using D day(3) separators
    by (subst round_name [of _ _ "[]" "[D1, D2, D3]" r1]) (simp_all add: s' ds name_part_def r1_def Let_def)
  have c2: "date_round s d1 = Inr (Some d2)"
    using md mday separators
    by (subst round_number [of _ _ "'', ''" "[a, b]" r2], simp_all add: drops ds r1_def)
      (subst number_mday [of _ _ a b "CHR '' ''"], simp_all add: drops r2_def)
  have c3: "date_round s d2 = Inr (Some d3)"
    using M day(3) month_names(3) [OF mon] separators
    by (subst round_name [of _ _ "'' ''" "[M1, M2, M3]" r3])
      (simp_all add: drops ds name_part_def r2_def Let_def, simp_all add: r3_def)
  have c4: "date_round s d3 = Inr (Some d4)"
    using y year mday separators
    by (subst round_number [of _ _ "'' ''" "[y1, y2, y3, y4]" r4], simp_all add: drops ds r3_def)
      (subst number_year [of _ _ y1 y2 y3 y4 _ y], simp_all add: drops r4_def)
  have c5: "date_round s d4 = Inr (Some d5)"
    using hh ii ss separators
    by (subst round_number [of _ _ "'' ''" "[h1, h2, CHR '':'', i1, i2, CHR '':'', s1, s2]" r5], simp_all add: drops ds r4_def)
      (subst number_time [of _ _ h1 h2 i1 i2 s1 s2], simp_all add: drops)
  have c6: "date_round s d5 = Inr (Some d6)"
    using day(3) mon separators rest
    by (subst round_name [of _ _ "'' ''" "''GMT''" after]) (simp_all add: drops ds name_part_def r5_def Let_def)
  have "length s = 29 + length after" by (simp add: s' defs)
  then have "d_date x < length s" if "x \<in> {date_start, d1, d2, d3, d4, d5}" for x
    using that by (auto simp: ds)
  then have "date_loop (Suc (Suc (Suc (Suc (Suc (Suc 0)))))) s date_start = Inr (Some d6)"
    using c1 c2 c3 c4 c5 c6 by simp
  then have "date_loop 6 s date_start = Inr (Some d6)" by (simp add: numeral_eq_Suc)
  then show ?thesis by (simp add: ds)
qed

lemma date_read_back:
  assumes "0 \<le> t" "t < 2145916800" "after = [] \<or> \<not> isalpha (hd after)"
  shows "\<exists>line. make_http_last_modified t = Inr line \<and> parse_gmt_time_fmt line after out = Inr (True, t)"
proof -
  obtain tm wday where g: "gmtime t = (tm, wday)" by fastforce
  note f = gmtime_fields [OF assms(1,2) g]
  define m y where "m = nat (tm_mon tm)" and "y = nat (tm_year tm + 1900)"
  define line where "line = strftime_day wday @ '', '' @ two_digits (tm_mday tm) @ '' '' @ gmonth ! m @ '' '' @
    show_nat y @ '' '' @ two_digits (tm_hour tm) @ '':'' @ two_digits (tm_min tm) @ '':'' @ two_digits (tm_sec tm) @ '' GMT''"
  have "make_http_last_modified t = Inr line"
    using f(13,14) by (simp add: make_http_last_modified_def g line_def show_year_def m_def y_def)
  moreover have "date_loop 6 (line @ after) date_start = Inr (Some \<lparr>d_date = 29, d_wdaynum = checkday (strftime_day wday),
      d_monnum = int m, d_mdaynum = tm_mday tm, d_hournum = tm_hour tm, d_minnum = tm_min tm, d_secnum = tm_sec tm,
      d_yearnum = int y, d_tzoff = 0, d_dignext = DATE_YEAR\<rparr>)"
    using f day_names [OF f(1,2)] assms(3) by (intro date_loop_text) (simp_all add: line_def m_def y_def)
  moreover have "date_finish out \<lparr>d_date = 29, d_wdaynum = checkday (strftime_day wday),
      d_monnum = int m, d_mdaynum = tm_mday tm, d_hournum = tm_hour tm, d_minnum = tm_min tm, d_secnum = tm_sec tm,
      d_yearnum = int y, d_tzoff = 0, d_dignext = DATE_YEAR\<rparr> = (True, t)"
  proof -
    have "short_tm_time_t \<lparr>tm_sec = tm_sec tm, tm_min = tm_min tm, tm_hour = tm_hour tm, tm_mday = tm_mday tm, tm_mon = tm_mon tm,
        tm_year = tm_year tm\<rparr> = t" using f(15) by (cases tm) simp
    then show ?thesis using f assms(1,2) by (simp add: date_finish_def m_def y_def Let_def)
  qed
  moreover have "line \<noteq> []" by (simp add: line_def)
  ultimately show ?thesis by (simp add: parse_gmt_time_fmt_def)
qed

text \<open>A date printed into an \<^verbatim>\<open>Expires\<close> or \<^verbatim>\<open>Last-Modified\<close> header is read back: for every second from
  1970 to the end of 2037, the text that \<^verbatim>\<open>make_http_last_modified\<close> writes is parsed by
  \<^verbatim>\<open>parse_gmt_time_fmt\<close> to the same second, whatever stands in the memory behind the text as long as it does not
  go on with a letter.\<close>

theorem last_modified_roundtrip:
  assumes "0 \<le> t" "t < 2145916800" "after = [] \<or> \<not> isalpha (hd after)"
  shows "\<exists>line. make_http_last_modified t = Inr line \<and> parse_gmt_time_fmt line after out = Inr (True, t)"
  using assms by (rule date_read_back)

theorem last_modified_roundtrip_witness:
  "\<exists>line. make_http_last_modified 784111777 = Inr line \<and> parse_gmt_time_fmt line [] 0 = Inr (True, 784111777)"
  by (rule last_modified_roundtrip) simp_all

text \<open>Corners of the parser: a time with one-digit fields at the end of the text makes it step over the
  terminating zero, and a month that is carried over goes back a year instead of forward.\<close>

lemma date_overrun: "parse_gmt_time_fmt ''1:2:3'' [] out = Inl Undefined"
  by code_simp

lemma month_carry: "short_tm_time_t \<lparr>tm_sec = 0, tm_min = 0, tm_hour = 0, tm_mday = 1, tm_mon = 12, tm_year = 71\<rparr> = 0"
  by code_simp

section \<open>Times of a zip archive\<close>

text \<open>The conversion of an \<^verbatim>\<open>unsigned long\<close> to \<^verbatim>\<open>int\<close>.\<close>

definition ulong_to_int :: "u64 \<Rightarrow> int" where
  "ulong_to_int w = sint (ucast w :: 32 word)"

definition dos_tm :: "u64 \<Rightarrow> short_tm" where
  "dos_tm dostime =
     \<lparr>tm_sec = ulong_to_int (push_bit 1 (dostime AND 0x1f)),
      tm_min = ulong_to_int (drop_bit 5 dostime AND 0x3f),
      tm_hour = ulong_to_int (drop_bit 11 dostime AND 0x0f),
      tm_mday = ulong_to_int ((drop_bit 16 dostime AND 0x1f) + 1),
      tm_mon = ulong_to_int ((drop_bit 21 dostime AND 0x0f) - 1),
      tm_year = ulong_to_int (drop_bit 25 dostime + 80)\<rparr>"

text \<open>\<^verbatim>\<open>mktime\<close>, which depends on the time zone of the machine, is a parameter.\<close>

definition dos2unixtime :: "(short_tm \<Rightarrow> int) \<Rightarrow> u64 \<Rightarrow> int" where
  "dos2unixtime mktime dostime = mktime (dos_tm dostime)"

text \<open>The packed time of the zip format.\<close>

definition dos_time :: "nat \<Rightarrow> nat \<Rightarrow> nat \<Rightarrow> nat \<Rightarrow> nat \<Rightarrow> nat \<Rightarrow> nat" where
  "dos_time y mon d h mi s = (((((y - 1980) * 16 + mon) * 32 + d) * 32 + h) * 64 + mi) * 32 + s div 2"

lemma ulong_to_int_small: "unat w < 2 ^ 31 \<Longrightarrow> ulong_to_int w = int (unat w)"
proof -
  assume w: "unat w < 2 ^ 31"
  have "unat (ucast w :: 32 word) = unat w"
    using w by (simp add: unsigned_ucast_eq take_bit_nat_eq_self)
  then have "uint (ucast w :: 32 word) = int (unat w)"
    unfolding uint_nat by (rule arg_cong)
  moreover have "uint w < 2 ^ 31" using w nat_less_iff [of "uint w" "2 ^ 31"] by simp
  moreover from this have "signed_take_bit 31 (uint w) = uint w"
    by (intro signed_take_bit_int_eq_self) (simp_all add: order_trans [OF _ uint_ge_0])
  ultimately show ?thesis by (simp add: ulong_to_int_def sint_uint)
qed

lemma unat_field: "unat (drop_bit k w AND mask j :: u64) = unat w div 2 ^ k mod 2 ^ j"
proof -
  have "unat (drop_bit k w AND mask j) = take_bit j (unat (drop_bit k w))"
    unfolding take_bit_eq_mask [symmetric] by (rule unsigned_take_bit_eq)
  also have "unat (drop_bit k w) = drop_bit k (unat w)" by (rule unat_drop_bit_eq)
  finally show ?thesis by (simp add: take_bit_eq_mod drop_bit_eq_div)
qed

lemma masks: "(0x0f :: u64) = mask 4" "(0x1f :: u64) = mask 5" "(0x3f :: u64) = mask 6"
  by (simp_all add: mask_eq_exp_minus_1)

lemma div_step_nat: "b < c \<Longrightarrow> (a * c + b) div c = (a :: nat)"
  by simp

lemma mod_step_nat: "b < c \<Longrightarrow> (a * c + b) mod c = (b :: nat)"
  by simp

lemma dos_time_fields:
  assumes "y < 2108" "mon < 16" "d < 32" "h < 32" "mi < 64" "s < 64"
  defines "n \<equiv> dos_time y mon d h mi s"
  shows "n div 2 ^ 25 = y - 1980" "n div 2 ^ 21 mod 2 ^ 4 = mon" "n div 2 ^ 16 mod 2 ^ 5 = d"
    "n div 2 ^ 11 mod 2 ^ 4 = h mod 16" "n div 2 ^ 5 mod 2 ^ 6 = mi" "n div 2 ^ 0 mod 2 ^ 5 = s div 2" "n < 2 ^ 32"
proof -
  let ?n1 = "(y - 1980) * 2 ^ 4 + mon"
  let ?n2 = "?n1 * 2 ^ 5 + d"
  let ?n3 = "?n2 * 2 ^ 5 + h"
  let ?n4 = "?n3 * 2 ^ 6 + mi"
  have n: "n = ?n4 * 2 ^ 5 + s div 2" by (simp add: n_def dos_time_def)
  have b: "mon < 2 ^ 4" "d < 2 ^ 5" "h < 2 ^ 5" "mi < 2 ^ 6" "s div 2 < 2 ^ 5" using assms by simp_all
  have n5: "n div 2 ^ 5 = ?n4" unfolding n by (rule div_step_nat [OF b(5)])
  have n11: "n div 2 ^ 11 = ?n3"
    using div_mult2_eq [of n "2 ^ 5" "2 ^ 6"] div_step_nat [OF b(4), of ?n3] unfolding n5 by simp
  have n16: "n div 2 ^ 16 = ?n2"
    using div_mult2_eq [of n "2 ^ 11" "2 ^ 5"] div_step_nat [OF b(3), of ?n2] unfolding n11 by simp
  have n21: "n div 2 ^ 21 = ?n1"
    using div_mult2_eq [of n "2 ^ 16" "2 ^ 5"] div_step_nat [OF b(2), of ?n1] unfolding n16 by simp
  show "n div 2 ^ 25 = y - 1980"
    using div_mult2_eq [of n "2 ^ 21" "2 ^ 4"] div_step_nat [OF b(1), of "y - 1980"] unfolding n21 by simp
  show "n div 2 ^ 21 mod 2 ^ 4 = mon" unfolding n21 by (rule mod_step_nat [OF b(1)])
  show "n div 2 ^ 16 mod 2 ^ 5 = d" unfolding n16 by (rule mod_step_nat [OF b(2)])
  have e: "?n3 = (?n2 * 2) * 2 ^ 4 + h" by simp
  show "n div 2 ^ 11 mod 2 ^ 4 = h mod 16" unfolding n11 e mod_mult_self3 by simp
  show "n div 2 ^ 5 mod 2 ^ 6 = mi" unfolding n5 by (rule mod_step_nat [OF b(4)])
  show "n div 2 ^ 0 mod 2 ^ 5 = s div 2" unfolding n power_0 div_by_1 by (rule mod_step_nat [OF b(5)])
  have "y - 1980 \<le> 127" using assms(1) by simp
  then show "n < 2 ^ 32" using assms(2-6) unfolding n by simp
qed

text \<open>Reading the time of a zip entry: for every packed time, the minute, the even second, the month and the
  year are those that were packed, but the day is one too late and the hour loses its highest bit, so that
  an entry written in the evening seems to be from the morning of the next day.\<close>

theorem dos_tm_fields:
  assumes "1980 \<le> y" "y < 2108" "1 \<le> mon" "mon \<le> 12" "d < 32" "h < 24" "mi < 60" "s < 60"
  shows "dos_tm (word_of_nat (dos_time y mon d h mi s)) =
    \<lparr>tm_sec = int (s - s mod 2), tm_min = int mi, tm_hour = int (h mod 16), tm_mday = int d + 1,
     tm_mon = int mon - 1, tm_year = int y - 1900\<rparr>"
proof -
  define n where "n = dos_time y mon d h mi s"
  define w :: u64 where "w = word_of_nat n"
  have f: "n div 2 ^ 25 = y - 1980" "n div 2 ^ 21 mod 2 ^ 4 = mon" "n div 2 ^ 16 mod 2 ^ 5 = d"
    "n div 2 ^ 11 mod 2 ^ 4 = h mod 16" "n div 2 ^ 5 mod 2 ^ 6 = mi" "n div 2 ^ 0 mod 2 ^ 5 = s div 2" "n < 2 ^ 32"
    unfolding n_def using assms by (intro dos_time_fields; simp)+
  have w: "unat w = n"
    using f(7) by (simp add: w_def unsigned_of_nat take_bit_nat_eq_self)
  have fields: "unat (drop_bit 21 w AND 0x0f) = mon" "unat (drop_bit 16 w AND 0x1f) = d"
    "unat (drop_bit 11 w AND 0x0f) = h mod 16" "unat (drop_bit 5 w AND 0x3f) = mi" "unat (drop_bit 0 w AND 0x1f) = s div 2"
    unfolding masks unat_field w f by simp_all
  have year: "unat (drop_bit 25 w) = y - 1980"
    using unat_drop_bit_eq [of 25 w] f(1) unfolding w by (simp only: drop_bit_eq_div [of 25 n])
  have "unat (push_bit 1 (w AND 0x1f)) = s - s mod 2"
    using fields(5) assms(8) minus_mod_eq_mult_div [of s 2] by (simp add: push_bit_eq_mult unat_word_ariths)
  moreover have "unat ((drop_bit 16 w AND 0x1f) + 1) = d + 1"
    using fields(2) assms(5) by (simp add: unat_word_ariths)
  moreover have "unat ((drop_bit 21 w AND 0x0f) - 1) = mon - 1"
  proof -
    have "drop_bit 21 w AND 0x0f \<noteq> 0" using fields(1) assms(3) by (metis not_one_le_zero unat_0)
    then show ?thesis using fields(1) by (simp add: unat_minus_one)
  qed
  moreover have "unat (drop_bit 25 w + 80) = y - 1900"
    using year assms(1,2) by (simp add: unat_word_ariths)
  ultimately show ?thesis
    using assms fields unfolding n_def [symmetric] w_def [symmetric]
    by (simp add: dos_tm_def ulong_to_int_small of_nat_diff)
qed

theorem dos_tm_fields_witness:
  "dos_tm (word_of_nat (dos_time 2023 5 6 20 30 9)) =
    \<lparr>tm_sec = 8, tm_min = 30, tm_hour = 4, tm_mday = 7, tm_mon = 4, tm_year = 123\<rparr>"
  using dos_tm_fields [of 2023 5 6 20 30 9] by simp

end
