(* ===== verification/Http_Site.thy ===== *)
theory Http_Site
  imports Http_Date Merchant_Repo
begin

text \<open>
  HTTP messages, and the bundled web site: the memory file that holds its zip archive
  (\<^verbatim>\<open>bundle_file.hpp\<close>) and \<^verbatim>\<open>http_handle_static_file\<close> of \<^verbatim>\<open>http_static_file_handle.cpp\<close>, which
  answers a request from the archive. The zip library is a parameter: what it finds under a name, the sizes and
  the time it reports for an entry and the bytes it unpacks.
\<close>

section \<open>Requests and responses\<close>

text \<open>The fields of a request in the order they came; names compare without case.\<close>

record http_request =
  hq_method :: string
  hq_target :: string
  hq_fields :: "(string \<times> string) list"
  hq_body :: string
  hq_upgrade :: bool

record http_response =
  hs_status :: int
  hs_fields :: "(string \<times> string) list"
  hs_body :: string

definition lower :: "string \<Rightarrow> string" where
  "lower = map (\<lambda>c. if (65::nat) \<le> of_char c \<and> of_char c \<le> (90::nat) then char_of ((of_char c :: nat) + 32) else c)"

definition hq_field :: "http_request \<Rightarrow> string \<Rightarrow> string" where
  "hq_field req k = (case List.find (\<lambda>(n, _). lower n = k) (hq_fields req) of None \<Rightarrow> [] | Some (_, v) \<Rightarrow> v)"

definition path_filename :: "string \<Rightarrow> string" where
  "path_filename p = last (split_any ''/'' p)"

section \<open>The archive in memory\<close>

record exe_bundle_file =
  bf_base :: string
  bf_offset :: u64
  bf_fsize :: u64
  bf_error :: int

definition bundle_open :: "string \<Rightarrow> exe_bundle_file" where
  "bundle_open site = \<lparr>bf_base = site, bf_offset = 0, bf_fsize = word_of_nat (length site), bf_error = 0\<rparr>"

text \<open>\<^verbatim>\<open>zread_file\<close>: the return value, the bytes copied and the file. The number of bytes left is computed
  with unsigned numbers, so behind the end of the file it wraps around and the copy leaves the array.\<close>

definition bundle_read :: "u64 \<Rightarrow> exe_bundle_file \<Rightarrow> (u64 \<times> string \<times> exe_bundle_file) result" where
  "bundle_read n f =
     (if bf_error f = 0 then
        (let copyable_size = min n (bf_fsize f - bf_offset f)
         in if 0 < copyable_size then
              (if unat (bf_offset f) + unat copyable_size \<le> length (bf_base f)
               then Inr (copyable_size, take (unat copyable_size) (drop (unat (bf_offset f)) (bf_base f)),
                         f\<lparr>bf_offset := bf_offset f + copyable_size\<rparr>)
               else Inl Undefined)
            else Inr (0, [], f\<lparr>bf_error := - 1\<rparr>))
      else Inr (- 1, [], f))"

definition bundle_write :: "u64 \<Rightarrow> exe_bundle_file \<Rightarrow> u64" where
  "bundle_write n f = - 1"

definition bundle_tell :: "exe_bundle_file \<Rightarrow> u64" where
  "bundle_tell f = bf_offset f"

text \<open>The origins 0, 1 and 2 are \<^verbatim>\<open>SEEK_SET\<close>, \<^verbatim>\<open>SEEK_CUR\<close> and \<^verbatim>\<open>SEEK_END\<close>.\<close>

definition bundle_seek :: "u64 \<Rightarrow> int \<Rightarrow> exe_bundle_file \<Rightarrow> int \<times> exe_bundle_file" where
  "bundle_seek offset origin f =
     (if origin = 1 then (0, f\<lparr>bf_offset := bf_offset f + offset\<rparr>)
      else if origin = 2 then (0, f\<lparr>bf_offset := bf_fsize f - offset\<rparr>)
      else if origin = 0 then (0, f\<lparr>bf_offset := offset\<rparr>)
      else (- 1, f))"

text \<open>The file as it was opened, with the position somewhere inside.\<close>

definition bundle_ok :: "string \<Rightarrow> exe_bundle_file \<Rightarrow> bool" where
  "bundle_ok site f \<longleftrightarrow> length site < 2 ^ 64 \<and> bf_base f = site \<and> bf_fsize f = word_of_nat (length site) \<and>
     bf_offset f \<le> bf_fsize f"

lemma bundle_open_ok: "length site < 2 ^ 64 \<Longrightarrow> bundle_ok site (bundle_open site)"
  by (simp add: bundle_ok_def bundle_open_def)

lemma take_length_take: "take (length (take n xs)) xs = take n xs"
  by (cases "n \<le> length xs") simp_all

lemma bundle_read_step:
  fixes n :: u64
  assumes "bundle_ok site f" "bf_error f = 0"
  defines "got \<equiv> take (unat n) (drop (unat (bf_offset f)) site)"
  shows "\<exists>f'. bundle_read n f = Inr (word_of_nat (length got), got, f') \<and> bundle_ok site f' \<and>
    unat (bf_offset f') = unat (bf_offset f) + length got \<and> (bf_error f' = 0 \<longleftrightarrow> got \<noteq> [])"
proof -
  have len: "unat (bf_fsize f) = length site" "unat (bf_offset f) \<le> length site"
    using assms(1) by (auto simp: bundle_ok_def unsigned_of_nat take_bit_nat_eq_self word_le_nat_alt)
  let ?c = "min n (bf_fsize f - bf_offset f)"
  have left: "unat (bf_fsize f - bf_offset f) = length site - unat (bf_offset f)"
    using unat_sub [of "bf_offset f" "bf_fsize f"] assms(1) len(1) unfolding bundle_ok_def by metis
  have c: "unat ?c = length got"
    using left by (simp add: got_def min_def word_le_nat_alt)
  have w: "?c = word_of_nat (length got)" unfolding c [symmetric] by simp
  have fits: "unat (bf_offset f) + unat ?c \<le> length site" using c len(2) by (simp add: got_def)
  have off: "unat (bf_offset f + ?c) = unat (bf_offset f) + unat ?c"
    using fits assms(1) by (intro unat_add_lem [THEN iffD1]) (simp add: bundle_ok_def)
  show ?thesis
  proof (cases "0 < ?c")
    case True
    have "bundle_ok site (f\<lparr>bf_offset := bf_offset f + ?c\<rparr>)"
      using assms(1) off fits len(1) by (simp add: bundle_ok_def word_le_nat_alt)
    moreover have "got \<noteq> []" using True c by (auto simp: word_less_nat_alt)
    moreover have "take (unat ?c) (drop (unat (bf_offset f)) site) = got"
      unfolding c unfolding got_def by (rule take_length_take)
    moreover from this have "bundle_read n f = Inr (?c, got, f\<lparr>bf_offset := bf_offset f + ?c\<rparr>)"
      using True assms(1,2) fits unfolding bundle_read_def Let_def bundle_ok_def by (simp only: if_True if_P)
    ultimately show ?thesis
      using off c assms(2) unfolding w by (intro exI [of _ "f\<lparr>bf_offset := bf_offset f + word_of_nat (length got)\<rparr>"]) simp
  next
    case False
    then have "?c = 0" using word_gt_0 [of ?c] by metis
    then have "got = []" using c by simp
    then show ?thesis
      using \<open>?c = 0\<close> assms(1,2) by (auto simp: bundle_read_def bundle_ok_def Let_def)
  qed
qed

text \<open>The memory file behaves like a file: after a seek to a position inside the archive a read of any
  size gives exactly the bytes from there, as many as are left at most, leaves the position behind them,
  and only a read at the end sets the error.\<close>

theorem bundle_seek_read:
  assumes "bundle_ok site f" "bf_error f = 0" "i \<le> bf_fsize f"
  shows "\<exists>f'. bundle_read n (snd (bundle_seek i 0 f)) =
      Inr (word_of_nat (length (take (unat n) (drop (unat i) site))), take (unat n) (drop (unat i) site), f') \<and>
    unat (bundle_tell f') = unat i + length (take (unat n) (drop (unat i) site)) \<and>
    (bf_error f' = 0 \<longleftrightarrow> take (unat n) (drop (unat i) site) \<noteq> [])"
proof -
  have "bundle_ok site (f\<lparr>bf_offset := i\<rparr>)" "bf_error (f\<lparr>bf_offset := i\<rparr>) = 0"
    using assms by (simp_all add: bundle_ok_def)
  from bundle_read_step [OF this, of n] show ?thesis
    by (auto simp: bundle_seek_def bundle_tell_def)
qed

theorem bundle_seek_read_witness:
  "\<exists>f'. bundle_read 3 (snd (bundle_seek 2 0 (bundle_open ''archive''))) =
      Inr (word_of_nat (length (take (unat (3 :: u64)) (drop (unat (2 :: u64)) ''archive''))),
        take (unat (3 :: u64)) (drop (unat (2 :: u64)) ''archive''), f') \<and>
    unat (bundle_tell f') = unat (2 :: u64) + length (take (unat (3 :: u64)) (drop (unat (2 :: u64)) ''archive'')) \<and>
    (bf_error f' = 0 \<longleftrightarrow> take (unat (3 :: u64)) (drop (unat (2 :: u64)) ''archive'') \<noteq> [])"
  by (rule bundle_seek_read) (simp_all add: bundle_ok_def bundle_open_def)

section \<open>Answering from the archive\<close>

text \<open>What the zip library tells of an entry. \<open>ze_open raw\<close> is \<^verbatim>\<open>unzOpenCurrentFile2\<close>: the compression
  method, the bytes that reading gives, and where it fails, if it does.\<close>

record zip_entry =
  ze_dosDate :: u64
  ze_compressed_size :: u64
  ze_uncompressed_size :: u64
  ze_open :: "bool \<Rightarrow> (int \<times> string \<times> nat option) option"

text \<open>The archive: whether its directory can be read, the lookup of a name, and the entry that is current when a
  lookup fails (the first one, if there is any).\<close>

record site_archive =
  sa_info_ok :: bool
  sa_locate :: "string \<Rightarrow> zip_entry option"
  sa_first :: "zip_entry option"

text \<open>The archive, if the program was built with one; \<^verbatim>\<open>mktime\<close>; and what the memory holds behind the value of
  the field \<^verbatim>\<open>If-Modified-Since\<close> of a request.\<close>

record site_env =
  se_archive :: "site_archive option"
  se_mktime :: "short_tm \<Rightarrow> int"
  se_behind :: "http_request \<Rightarrow> string"

text \<open>The loop that copies the file through a buffer of 2048 bytes. A negative number of bytes becomes the size of
  the buffer.\<close>

function copy_file :: "nat option \<Rightarrow> string \<Rightarrow> nat \<Rightarrow> string result" where
  "copy_file fails data off =
     (if fails = Some off then Inl Undefined
      else
        (let chunk = take 2048 (drop off data)
         in if chunk = [] then Inr []
            else case copy_file fails data (off + length chunk) of
              Inl e \<Rightarrow> Inl e
            | Inr rest \<Rightarrow> Inr (chunk @ rest)))"
  by pat_completeness auto
termination
  by (relation "measure (\<lambda>(fails, data, off). length data - off)") auto

declare copy_file.simps [simp del]

definition site_path :: "string \<Rightarrow> string result" where
  "site_path target =
     (if target = ''/'' then Inr ''index.html''
      else case target of [] \<Rightarrow> Inl Out_of_range | _ # path \<Rightarrow> Inr path)"

definition site_entry :: "site_archive \<Rightarrow> string \<Rightarrow> string \<times> zip_entry option" where
  "site_entry A path =
     (case sa_locate A path of
        Some e \<Rightarrow> (path, Some e)
      | None \<Rightarrow>
          (''index.html'', case sa_locate A ''index.html'' of Some e \<Rightarrow> Some e | None \<Rightarrow> sa_first A))"

text \<open>The two calls of \<^verbatim>\<open>std::time\<close> that count are \<open>now 0\<close> and \<open>now 1\<close>.\<close>

definition site_fields :: "(nat \<Rightarrow> int) \<Rightarrow> int \<Rightarrow> string \<Rightarrow> bool \<Rightarrow> (string \<times> string) list result" where
  "site_fields now modified path not_modified =
     (case make_http_last_modified (now 0 + 60) of
        Inl e \<Rightarrow> Inl e
      | Inr expires \<Rightarrow>
          (case make_http_last_modified modified of
             Inl e \<Rightarrow> Inl e
           | Inr last_modified \<Rightarrow>
               (case (if not_modified then make_http_last_modified (now 1 + 60) else Inr expires) of
                  Inl e \<Rightarrow> Inl e
                | Inr expires' \<Rightarrow>
                    Inr [(''server'', ''cmall/1.0''), (''expires'', expires'), (''last-modified'', last_modified),
                         (''content-type'', get_mime_type_from_extension (path_extension (path_filename path)))])))"

definition deflated :: int where
  "deflated = 8"

definition site_file :: "zip_entry \<Rightarrow> bool \<Rightarrow> (string \<times> string) list \<Rightarrow> (int \<times> http_response list) result" where
  "site_file e accept_deflate hs =
     (case ze_open e accept_deflate of
        None \<Rightarrow> Inr (500, [])
      | Some (compression, data, fails) \<Rightarrow>
          (let extra = (if compression = deflated \<and> accept_deflate
                        then [(''content-encoding'', ''deflate''),
                              (''content-length'', show_nat (unat (ze_compressed_size e)))]
                        else [(''content-length'', show_nat (unat (ze_uncompressed_size e)))])
           in case copy_file fails data 0 of
                Inl x \<Rightarrow> Inl x
              | Inr body \<Rightarrow> Inr (200, [\<lparr>hs_status = 200, hs_fields = hs @ extra, hs_body = body\<rparr>])))"

text \<open>The status the caller gets and the responses written.\<close>

definition http_handle_static_file :: "site_env \<Rightarrow> (nat \<Rightarrow> int) \<Rightarrow> http_request \<Rightarrow> (int \<times> http_response list) result" where
  "http_handle_static_file S now req =
     (case se_archive S of
        None \<Rightarrow> Inr (404, [])
      | Some A \<Rightarrow>
          (case parse_gmt_time_fmt (hq_field req ''if-modified-since'') (se_behind S req) 0 of
             Inl e \<Rightarrow> Inl e
           | Inr (have_if_modified_since, if_modified_since) \<Rightarrow>
               (let accept_deflate = (find_sub (hq_field req ''accept-encoding'') ''deflate'' \<noteq> None)
                in if \<not> sa_info_ok A then Inr (502, [])
                   else case site_path (hq_target req) of
                     Inl e \<Rightarrow> Inl e
                   | Inr p \<Rightarrow>
                       (case site_entry A p of
                          (path, None) \<Rightarrow> Inl Undefined
                        | (path, Some e) \<Rightarrow>
                            (let modified = dos2unixtime (se_mktime S) (ze_dosDate e);
                                 not_modified = (have_if_modified_since \<and> modified \<le> if_modified_since)
                             in case site_fields now modified path not_modified of
                                  Inl x \<Rightarrow> Inl x
                                | Inr hs \<Rightarrow>
                                    (if not_modified
                                     then Inr (200, [\<lparr>hs_status = 304, hs_fields = hs, hs_body = []\<rparr>])
                                     else site_file e accept_deflate hs))))))"

subsection \<open>What a visitor gets\<close>

text \<open>The buffer does not matter: the whole file is sent.\<close>

lemma copy_file_all: "copy_file None data off = Inr (drop off data)"
proof (induction "length data - off" arbitrary: off rule: less_induct)
  case less
  show ?case
  proof (cases "off < length data")
    case True
    define chunk where "chunk = take 2048 (drop off data)"
    have "chunk \<noteq> []" using True by (simp add: chunk_def)
    then have "copy_file None data (off + length chunk) = Inr (drop (off + length chunk) data)"
      using True by (intro less) (simp add: chunk_def)
    moreover have "chunk @ drop (off + length chunk) data = drop off data"
    proof -
      have "chunk @ drop (length chunk) (drop off data) = drop off data"
        unfolding chunk_def by (metis append_take_drop_id take_length_take)
      then show ?thesis by (simp add: add.commute)
    qed
    ultimately show ?thesis
      using \<open>chunk \<noteq> []\<close> by (simp add: copy_file.simps [of None data off] chunk_def [symmetric] Let_def)
  qed (simp add: copy_file.simps [of None data off])
qed

lemma last_modified_printed: "0 \<le> t \<Longrightarrow> t < 2145916800 \<Longrightarrow> \<exists>line. make_http_last_modified t = Inr line"
  using date_read_back [of t "[]"] by blast

lemma site_fields_ok:
  assumes "\<forall>k. 0 \<le> now k + 60 \<and> now k + 60 < 2145916800" "make_http_last_modified modified = Inr d"
  shows "\<exists>hs. site_fields now modified path nm = Inr hs \<and> map_of hs ''last-modified'' = Some d \<and>
    map_of hs ''content-type'' = Some (get_mime_type_from_extension (path_extension (path_filename path)))"
proof -
  obtain e0 e1 where "make_http_last_modified (now 0 + 60) = Inr e0" "make_http_last_modified (now 1 + 60) = Inr e1"
    using assms(1) last_modified_printed by meson
  then show ?thesis using assms(2) by (cases nm) (simp_all add: site_fields_def)
qed

text \<open>A file of the bundled site is sent whole: a request without a date for a name of the archive is answered
  with status 200, the modification time of the entry, the media type of its name and exactly the bytes that
  unpacking it gives, whatever the size of the copy buffer; with the packed bytes and the announced size of
  those when the client accepts them.\<close>

theorem site_sends_file:
  assumes archive: "se_archive S = Some A" "sa_info_ok A"
    and path: "site_path (hq_target req) = Inr path" "sa_locate A path = Some e"
    and date: "hq_field req ''if-modified-since'' = []"
    and modified: "0 \<le> dos2unixtime (se_mktime S) (ze_dosDate e)" "dos2unixtime (se_mktime S) (ze_dosDate e) < 2145916800"
    and clock: "\<forall>k. 0 \<le> now k + 60 \<and> now k + 60 < 2145916800"
    and opened: "ze_open e (find_sub (hq_field req ''accept-encoding'') ''deflate'' \<noteq> None) = Some (m, data, None)"
  shows "\<exists>r. http_handle_static_file S now req = Inr (200, [r]) \<and> hs_status r = 200 \<and> hs_body r = data \<and>
    map_of (hs_fields r) ''content-type'' = Some (get_mime_type_from_extension (path_extension (path_filename path))) \<and>
    make_http_last_modified (dos2unixtime (se_mktime S) (ze_dosDate e)) = Inr (the (map_of (hs_fields r) ''last-modified''))"
proof -
  obtain d where d: "make_http_last_modified (dos2unixtime (se_mktime S) (ze_dosDate e)) = Inr d"
    using last_modified_printed modified by blast
  obtain hs where hs: "site_fields now (dos2unixtime (se_mktime S) (ze_dosDate e)) path False = Inr hs"
    "map_of hs ''last-modified'' = Some d"
    "map_of hs ''content-type'' = Some (get_mime_type_from_extension (path_extension (path_filename path)))"
    using site_fields_ok [OF clock d] by blast
  show ?thesis
    using archive path date d hs opened
    by (simp add: http_handle_static_file_def parse_gmt_time_fmt_def site_entry_def site_file_def copy_file_all Let_def
        map_add_def split: option.split)
qed

text \<open>A browser that sends back the date it got is not sent the file again: when the field
  \<^verbatim>\<open>If-Modified-Since\<close> of a request is the \<^verbatim>\<open>Last-Modified\<close> text of the entry, the answer is 304 with an empty
  body.\<close>

theorem site_not_modified:
  assumes archive: "se_archive S = Some A" "sa_info_ok A"
    and path: "site_path (hq_target req) = Inr path" "sa_locate A path = Some e"
    and modified: "0 \<le> dos2unixtime (se_mktime S) (ze_dosDate e)" "dos2unixtime (se_mktime S) (ze_dosDate e) < 2145916800"
    and clock: "\<forall>k. 0 \<le> now k + 60 \<and> now k + 60 < 2145916800"
    and date: "make_http_last_modified (dos2unixtime (se_mktime S) (ze_dosDate e)) =
      Inr (hq_field req ''if-modified-since'')"
    and behind: "se_behind S req = [] \<or> \<not> isalpha (hd (se_behind S req))"
  shows "\<exists>r. http_handle_static_file S now req = Inr (200, [r]) \<and> hs_status r = 304 \<and> hs_body r = []"
proof -
  let ?t = "dos2unixtime (se_mktime S) (ze_dosDate e)"
  have "parse_gmt_time_fmt (hq_field req ''if-modified-since'') (se_behind S req) 0 = Inr (True, ?t)"
    using date_read_back [OF modified behind, of 0] date by auto
  moreover obtain hs where "site_fields now ?t path True = Inr hs"
    using site_fields_ok [OF clock date] by blast
  ultimately show ?thesis
    using archive path by (simp add: http_handle_static_file_def site_entry_def)
qed

definition sample_site :: site_env where
  "sample_site =
     \<lparr>se_archive = Some \<lparr>sa_info_ok = True,
        sa_locate = (\<lambda>n. if n = ''index.html''
          then Some \<lparr>ze_dosDate = 0, ze_compressed_size = 3, ze_uncompressed_size = 5, ze_open = (\<lambda>raw. Some (0, ''hello'', None))\<rparr>
          else None), sa_first = None\<rparr>,
      se_mktime = (\<lambda>tm. 86400), se_behind = (\<lambda>_. [])\<rparr>"

definition site_request :: "(string \<times> string) list \<Rightarrow> http_request" where
  "site_request hs = \<lparr>hq_method = ''GET'', hq_target = ''/'', hq_fields = hs, hq_body = [], hq_upgrade = False\<rparr>"

theorem site_sends_file_witness:
  "\<exists>r. http_handle_static_file sample_site (\<lambda>k. 0) (site_request []) = Inr (200, [r]) \<and> hs_status r = 200 \<and>
    hs_body r = ''hello''"
  using site_sends_file [of sample_site _ "site_request []" "''index.html''" _ "\<lambda>k. 0" 0 "''hello''"]
  by (fastforce simp: sample_site_def site_request_def site_path_def hq_field_def dos2unixtime_def)

theorem site_not_modified_witness:
  "\<exists>d r. make_http_last_modified 86400 = Inr d \<and>
    http_handle_static_file sample_site (\<lambda>k. 0) (site_request [(''if-modified-since'', d)]) = Inr (200, [r]) \<and>
    hs_status r = 304"
proof -
  obtain d where d: "make_http_last_modified 86400 = Inr d" using last_modified_printed [of 86400] by auto
  have "hq_field (site_request [(''if-modified-since'', d)]) ''if-modified-since'' = d"
    by (simp add: hq_field_def site_request_def lower_def)
  then have "\<exists>r. http_handle_static_file sample_site (\<lambda>k. 0) (site_request [(''if-modified-since'', d)]) = Inr (200, [r]) \<and>
    hs_status r = 304 \<and> hs_body r = []"
    using d by (intro site_not_modified [of sample_site _ _ "''index.html''"])
      (auto simp: sample_site_def site_request_def site_path_def dos2unixtime_def)
  then show ?thesis using d by blast
qed

end
