(* ===== verification/Http_Server.thy ===== *)
theory Http_Server
  imports Websocket Http_Site
begin

text \<open>
  The HTTP side of a connection: \<^verbatim>\<open>client_connected\<close> of \<^verbatim>\<open>cmall_impl/cmall_do_http_server.cpp\<close>
  (the address of the client, the session from a cookie, the upgrade to a websocket, the routes of
  plain requests) and the two routines of \<^verbatim>\<open>cmall.cpp\<close> that answer from a merchant's repository.
\<close>

section \<open>Surroundings\<close>

text \<open>What is outside the program here: \<^verbatim>\<open>std::time\<close> at the calls of a run, the script runner, the bundled site
  with its zip library, and the decryption of a payment notification.\<close>

record http_env =
  he_time :: "nat \<Rightarrow> int"
  he_run_script :: "nat \<Rightarrow> string \<Rightarrow> string \<Rightarrow> (string \<times> string) list \<Rightarrow> string result"
  he_site :: site_env
  he_decode_notify :: "nat \<Rightarrow> microapp_pay_cfg \<Rightarrow> http_request \<Rightarrow> notify_message option"

definition expires_in :: "int \<Rightarrow> http_env \<Rightarrow> string M" where
  "expires_in seconds H = external (\<lambda>_ n. make_http_last_modified (he_time H n + seconds))"

definition error_page :: "string \<Rightarrow> int \<Rightarrow> http_response" where
  "error_page body status =
     \<lparr>hs_status = status, hs_fields = [(''content-type'', ''text/html'')], hs_body = body\<rparr>"

section \<open>Who is calling\<close>

definition is_browser :: "string \<Rightarrow> string \<Rightarrow> bool" where
  "is_browser ua proto \<longleftrightarrow> ua \<noteq> [] \<and>
     ((proto = ''request_cookie'' \<and> find_sub ua ''Mozilla'' \<noteq> None) \<or> starts_with ua ''Mozilla/5.0 ('')"

definition is_microapp :: "string \<Rightarrow> string \<Rightarrow> bool" where
  "is_microapp ua proto \<longleftrightarrow> ua \<noteq> [] \<and>
     ((proto = ''request_cookie'' \<and> find_sub ua ''Mozilla'' \<noteq> None) \<or>
      find_sub ua ''ToutiaoMicroApp'' \<noteq> None \<or> find_sub ua ''wechat'' \<noteq> None)"

definition real_ip :: "string \<Rightarrow> http_request \<Rightarrow> string" where
  "real_ip remote_host req =
     (let ip = (if hq_field req ''x-real-ip'' = [] then remote_host else hq_field req ''x-real-ip'');
          fwd = hq_field req ''x-forwarded-for''
      in if fwd = [] then ip else hd (split_any '', '' fwd))"

definition set_real_ip :: "string \<Rightarrow> unit M" where
  "set_real_ip ip = modify (\<lambda>w. w\<lparr>sv_client := sv_client w\<lparr>cc_x_real_ip := ip\<rparr>\<rparr>)"

text \<open>The first cookie line that names a stored session restores it.\<close>

fun recover_from_cookies :: "string list \<Rightarrow> unit M" where
  "recover_from_cookies [] = ret ()"
| "recover_from_cookies (line # ls) =
     (let sid = (case map_of (parse_cookie line) ''Session'' of None \<Rightarrow> [] | Some s \<Rightarrow> s)
      in bindM (if sid = [] then ret False else session_exist sid) (\<lambda>found.
         if \<not> found then recover_from_cookies ls
         else
           bindM (session_load sid) (\<lambda>s.
           bindM (set_session s) (\<lambda>_.
           bindM (if cs_user_info s \<noteq> None then load_user_info else ret ()) (\<lambda>_.
           bindM this_client (\<lambda>c.
           session_update_lifetime sid (cc_x_real_ip c)))))))"

definition cookie_lines :: "http_request \<Rightarrow> string list" where
  "cookie_lines req = map snd (filter (\<lambda>(k, _). lower k = ''cookie'') (hq_fields req))"

definition recover_cookies :: "http_request \<Rightarrow> unit M" where
  "recover_cookies req =
     bindM this_client (\<lambda>c.
     if cc_session c = None then recover_from_cookies (cookie_lines req) else ret ())"

section \<open>Upgrade to a websocket\<close>

text \<open>\<open>Some line\<close> is the value of \<^verbatim>\<open>Set-Cookie\<close>, empty when none is sent; \<open>None\<close> is the
  refusal with status 403.\<close>

definition ws_upgrade :: "http_env \<Rightarrow> http_request \<Rightarrow> string option M" where
  "ws_upgrade H req =
     (if \<not> starts_with (hq_target req) ''/api'' then ret None
      else
        bindM (modify (\<lambda>w. w\<lparr>sv_client := sv_client w\<lparr>cc_ws := Some []\<rparr>\<rparr>)) (\<lambda>_.
        bindM this_client (\<lambda>c.
        (let ua = hq_field req ''user-agent''; proto = hq_field req ''sec-websocket-protocol''
         in if (is_browser ua proto \<or> is_microapp ua proto) \<and> cc_session c = None then
              bindM alloca_sessionid (\<lambda>_.
              bindM session_info (\<lambda>s.
              bindM (expires_in 31536000 H) (\<lambda>ex.
              ret (Some (cookie_line s @ ''; Path=/api; Expires='' @ ex)))))
            else ret (Some [])))))"

section \<open>Routes\<close>

datatype route =
    Repo_file string string
  | Script string string string
  | Page string string
  | Goods_page string string
  | Goods_denied
  | Wx_pay
  | Site

text \<open>\<^verbatim>\<open>prefix([0-9]+)/(.*)\<close>.\<close>

definition merchant_target :: "string \<Rightarrow> string \<Rightarrow> (string \<times> string) option" where
  "merchant_target prefix t =
     (if starts_with t prefix then
        (let r = drop (length prefix) t; ds = takeWhile isdigit r
         in (case dropWhile isdigit r of
               c # rest \<Rightarrow> if ds \<noteq> [] \<and> c = CHR ''/'' then Some (ds, rest) else None
             | [] \<Rightarrow> None))
      else None)"

definition longer_than :: "string \<Rightarrow> string \<Rightarrow> bool" where
  "longer_than p r \<longleftrightarrow> starts_with r p \<and> length p < length r"

text \<open>\<^verbatim>\<open>([?/](.+))?\<close> to the end: the text after the separator, empty when the group is absent.\<close>

definition tail_group :: "string \<Rightarrow> string option" where
  "tail_group r =
     (case r of
        [] \<Rightarrow> Some []
      | c # rest \<Rightarrow> if (c = CHR ''?'' \<or> c = CHR ''/'') \<and> rest \<noteq> [] then Some rest else None)"

text \<open>\<^verbatim>\<open>([^\.]+\.js)([?/](.+))?\<close>.\<close>

definition script_target :: "string \<Rightarrow> (string \<times> string) option" where
  "script_target r =
     (let name = takeWhile (\<lambda>c. c \<noteq> CHR ''.'') r; rest = dropWhile (\<lambda>c. c \<noteq> CHR ''.'') r
      in if name \<noteq> [] \<and> starts_with rest ''.js''
         then map_option (\<lambda>t. (name @ ''.js'', t)) (tail_group (drop 3 rest)) else None)"

text \<open>The expression of \<^verbatim>\<open>callback.js\<close> has three groups, so the test \<^verbatim>\<open>w.size() == 5\<close> fails and
  the path stays empty.\<close>

definition callback_target :: "string \<Rightarrow> bool" where
  "callback_target r \<longleftrightarrow> starts_with r ''callback.js'' \<and> tail_group (drop 11 r) \<noteq> None"

definition goods_target :: "string \<Rightarrow> (string \<times> string) option" where
  "goods_target t =
     (if starts_with t ''/goods/'' then
        (case split_any ''/'' (drop 7 t) of
           [m, g] \<Rightarrow> if m \<noteq> [] \<and> g \<noteq> [] then Some (m, g) else None
         | _ \<Rightarrow> None)
      else None)"

definition cut_query :: "string \<Rightarrow> string" where
  "cut_query s = takeWhile (\<lambda>c. c \<noteq> CHR ''?'') s"

definition script_route :: "string \<Rightarrow> route result option" where
  "script_route t =
     (let repo = (case merchant_target ''/repos/'' t of
                    Some (m, r) \<Rightarrow> if starts_with r ''scripts/''
                      then map_option (Pair m) (script_target (drop 8 r)) else None
                  | None \<Rightarrow> None);
          cgi = (case merchant_target ''/api/cgi-scripts/'' t of
                   Some (m, r) \<Rightarrow> map_option (Pair m) (script_target r) | None \<Rightarrow> None)
      in map_option (\<lambda>(m, name, tail). map_sum id (Script m (''scripts/'' @ name)) (decodeURIComponent tail))
           (case repo of Some x \<Rightarrow> Some x | None \<Rightarrow> cgi))"

definition repo_route :: "string \<Rightarrow> route result option" where
  "repo_route t =
     (case merchant_target ''/repos/'' t of
        None \<Rightarrow> None
      | Some (m, r) \<Rightarrow>
          (if longer_than ''images/'' r \<or> longer_than ''css/'' r
           then Some (map_sum id (Repo_file m) (decodeURIComponent r))
           else if callback_target r then Some (Inr (Script m ''scripts/callback.js'' []))
           else None))"

definition page_route :: "string \<Rightarrow> route result option" where
  "page_route t =
     (case merchant_target ''/repos/'' t of
        None \<Rightarrow> None
      | Some (m, r) \<Rightarrow>
          (if longer_than ''pages/'' r
           then Some (map_sum id (\<lambda>s. Page m (cut_query s)) (decodeURIComponent r))
           else if r = ''pages/'' then Some (Inr (Page m ''pages/index.html''))
           else None))"

definition goods_route :: "string \<Rightarrow> route result option" where
  "goods_route t =
     (if starts_with t ''/goods'' then
        Some (case goods_target t of
                Some (m, g) \<Rightarrow> map_sum id (Goods_page m) (decodeURIComponent g)
              | None \<Rightarrow> Inr Goods_denied)
      else None)"

definition route_of :: "string \<Rightarrow> route result" where
  "route_of t =
     (case repo_route t of
        Some r \<Rightarrow> r
      | None \<Rightarrow>
          (case script_route t of
             Some r \<Rightarrow> r
           | None \<Rightarrow>
               (case page_route t of
                  Some r \<Rightarrow> r
                | None \<Rightarrow>
                    (case goods_route t of
                       Some r \<Rightarrow> r
                     | None \<Rightarrow> if t = ''/api/wx/pay.action'' then Inr Wx_pay else Inr Site))))"

text \<open>\<^verbatim>\<open>strtoll(s, nullptr, 10)\<close>: it stops at the first other character and saturates.\<close>

definition strtoll :: "string \<Rightarrow> int" where
  "strtoll str =
     (let s = dropWhile isspace str;
          (neg, body) = (case s of
             c # r \<Rightarrow> if c = CHR ''-'' then (True, r) else if c = CHR ''+'' then (False, r) else (False, s)
           | [] \<Rightarrow> (False, []));
          v = int (digits_val (takeWhile isdigit body))
      in if neg then max (- v) (- (2 ^ 63)) else min v (2 ^ 63 - 1))"

section \<open>Answers\<close>

text \<open>The last component of a path.\<close>

definition substr :: "string \<Rightarrow> u64 \<Rightarrow> u64 \<Rightarrow> string result" where
  "substr s b n = (if length s < unat b then Inl Out_of_range else Inr (take (unat n) (drop (unat b) s)))"

text \<open>\<^verbatim>\<open>render_git_repo_files\<close>: the status, and the response when one was written.\<close>

definition partial_body :: "BytesRange \<Rightarrow> string \<Rightarrow> string result" where
  "partial_body r body =
     substr body (br_begin r) (if br_end r = 0 then - 1 else br_end r - br_begin r)"

definition wants_partial :: "BytesRange \<Rightarrow> string \<Rightarrow> bool" where
  "wants_partial r body \<longleftrightarrow> length body \<noteq> unat (br_end r) \<and> br_begin r \<noteq> 0"

definition file_response :: "string \<Rightarrow> string \<Rightarrow> http_request \<Rightarrow> string \<Rightarrow> http_response result" where
  "file_response expires path req body =
     (let hs = [(''accept-ranges'', ''bytes''), (''expires'', expires),
                (''content-type'', get_mime_type_from_extension (path_extension (path_filename path)))]
      in case parse_range (hq_field req ''range'') of
           None \<Rightarrow> Inr \<lparr>hs_status = 200, hs_fields = hs, hs_body = body\<rparr>
         | Some r \<Rightarrow>
             (if wants_partial r body then
                map_sum id (\<lambda>part. \<lparr>hs_status = 206,
                  hs_fields = hs @ [(''content-range'', make_cpntent_range r (word_of_nat (length body)))],
                  hs_body = part\<rparr>) (partial_body r body)
              else Inr \<lparr>hs_status = 200, hs_fields = hs, hs_body = body\<rparr>))"

definition render_git_repo_files :: "http_env \<Rightarrow> string \<Rightarrow> string \<Rightarrow> http_request \<Rightarrow> (int \<times> http_response option) M" where
  "render_git_repo_files H merchant path req =
     bindM (get_merchant_git_repo_ec (u64_of (strtoll merchant))) (\<lambda>ro.
     (case ro of
        None \<Rightarrow> ret (404, None)
      | Some repo \<Rightarrow>
          bindM (liftR (get_file_content repo path)) (\<lambda>(body, ec).
          (case ec of
             Some e \<Rightarrow> ret (if e = System_error object_too_large then 413 else 404, None)
           | None \<Rightarrow>
               bindM (expires_in 60 H) (\<lambda>expires.
               bindM (liftR (file_response expires path req body)) (\<lambda>r.
               ret (hs_status r, Some r)))))))"

definition render_goods_detail_content :: "http_env \<Rightarrow> string \<Rightarrow> string \<Rightarrow> http_request \<Rightarrow> (int \<times> http_response option) M" where
  "render_goods_detail_content H merchant goods_id req =
     bindM (get_merchant_git_repo_ec (u64_of (strtoll merchant))) (\<lambda>ro.
     (case ro of
        None \<Rightarrow> ret (404, None)
      | Some repo \<Rightarrow>
          (let base = (if find_sub (hq_field req ''user-agent'') ''Electron'' \<noteq> None
                       then ''https://'' @ hq_field req ''host'' else [])
           in bindM (expires_in 60 H) (\<lambda>expires.
              bindM (asks e_render) (\<lambda>render.
              bindM (liftR (get_product_detail_throw render repo goods_id base)) (\<lambda>md.
              ret (200, Some \<lparr>hs_status = 200,
                hs_fields = [(''expires'', expires), (''content-type'', ''text/markdown; charset=utf-8'')],
                hs_body = md\<rparr>)))))))"

text \<open>The variables of a script: the fields of the request first, and \<^verbatim>\<open>map::insert\<close> does not
  replace a name that is there.\<close>

definition script_vars :: "http_request \<Rightarrow> string \<Rightarrow> string \<Rightarrow> client_session option \<Rightarrow> (string \<times> string) list" where
  "script_vars req path token s =
     foldl map_insert []
       (hq_fields req @ [(''_METHOD'', hq_method req), (''_PATH'', path), (''_API_TOKEN'', token)] @
        (case s of
           None \<Rightarrow> []
         | Some s \<Rightarrow>
             (case cs_user_info s of
                None \<Rightarrow> []
              | Some u \<Rightarrow> [(''_VISITOR'', show_nat (unat (u_uid u)))])))"

text \<open>An answer is a response, whether it closed the stream, and whether the round ends with it.\<close>

type_synonym answer = "http_response \<times> bool \<times> bool"

definition page_answer :: "string \<Rightarrow> int \<Rightarrow> bool \<Rightarrow> answer" where
  "page_answer body status ends = (error_page body status, True, ends)"

definition serve_script :: "http_env \<Rightarrow> http_request \<Rightarrow> string \<Rightarrow> string \<Rightarrow> string \<Rightarrow> answer M" where
  "serve_script H req merchant script path =
     bindM (get_merchant_git_repo_ec (u64_of (strtoll merchant))) (\<lambda>ro.
     (case ro of
        None \<Rightarrow> ret (page_answer ''ERRORED'' 404 True)
      | Some repo \<Rightarrow>
          bindM (liftR (get_file_content repo script)) (\<lambda>(js, ec).
          (case ec of
             Some _ \<Rightarrow> ret (page_answer ''ERRORED'' 404 True)
           | None \<Rightarrow>
               bindM (gen_temp_api_token merchant) (\<lambda>token.
               bindM this_client (\<lambda>c.
               bindM (external (\<lambda>_ n. he_run_script H n js (hq_body req)
                 (script_vars req path token (cc_session c)))) (\<lambda>out.
               bindM (drop_temp_api_token token) (\<lambda>_.
               bindM (expires_in 60 H) (\<lambda>expires.
               ret (\<lparr>hs_status = 200,
                     hs_fields = [(''expires'', expires), (''content-type'', ''text/plain'')],
                     hs_body = out\<rparr>, False, False))))))))))"

definition answer_file :: "int \<times> http_response option \<Rightarrow> answer" where
  "answer_file x = (case x of (st, Some r) \<Rightarrow> (r, False, False) | (st, None) \<Rightarrow> page_answer ''ERRORED'' st False)"

fun wx_notify :: "http_env \<Rightarrow> http_request \<Rightarrow> (string \<times> microapp_pay_cfg) list \<Rightarrow> bool M" where
  "wx_notify H req [] = ret False"
| "wx_notify H req ((_, cfg) # cfgs) =
     bindM (external (\<lambda>_ n. Inr (he_decode_notify H n cfg req))) (\<lambda>msg.
     (case msg of
        None \<Rightarrow> wx_notify H req cfgs
      | Some m \<Rightarrow>
          bindM (handle_order_wx_callback m) (\<lambda>ok. if ok then ret True else wx_notify H req cfgs)))"

definition wx_fail_text :: string where
  "wx_fail_text = ''{'' @ quoted ''code'' @ '': '' @ quoted ''FAIL'' @ '', '' @ quoted ''message'' @ '': '' @
     quoted [CHR 0xE5, CHR 0xA4, CHR 0xB1, CHR 0xE8, CHR 0xB4, CHR 0xA5] @ ''}''"

definition serve_route :: "http_env \<Rightarrow> http_request \<Rightarrow> route \<Rightarrow> answer option M" where
  "serve_route H req rt =
     (case rt of
        Repo_file m path \<Rightarrow>
          bindM (render_git_repo_files H m path req) (\<lambda>x. ret (Some (answer_file x)))
      | Script m name path \<Rightarrow> bindM (serve_script H req m name path) (\<lambda>a. ret (Some a))
      | Page m path \<Rightarrow>
          bindM (render_git_repo_files H m path req) (\<lambda>x.
          bindM (if fst x = 404 then render_git_repo_files H m ''pages/index.html'' req else ret x) (\<lambda>y.
          ret (Some (answer_file y))))
      | Goods_page m g \<Rightarrow>
          bindM (render_goods_detail_content H m g req) (\<lambda>x.
          ret (Some (case x of (st, Some r) \<Rightarrow> (r, False, True)
                     | (st, None) \<Rightarrow> page_answer ''ERRORED'' st True)))
      | Goods_denied \<Rightarrow> ret (Some (page_answer ''access denied'' 401 True))
      | Wx_pay \<Rightarrow>
          bindM (gets sv_wxpay) (\<lambda>cfgs.
          bindM (wx_notify H req cfgs) (\<lambda>ok.
          ret (Some (if ok then page_answer ''SUCCESS'' 200 True else page_answer wx_fail_text 500 True))))
      | Site \<Rightarrow> ret None)"

text \<open>One round for a plain request: the responses written, and whether a write to the stream an error
  page had closed ended the connection with an exception. Nothing but the answers that end the round
  keeps it from going on to the bundled site.\<close>

definition serve_site :: "http_env \<Rightarrow> http_request \<Rightarrow> http_response list M" where
  "serve_site H req =
     bindM (external (\<lambda>_ n. http_handle_static_file (he_site H) (\<lambda>k. he_time H (n + k)) req)) (\<lambda>(status, rs).
     ret (rs @ (if status \<noteq> 200 then [error_page ''ERRORED'' 404] else [])))"

definition plain_round :: "http_env \<Rightarrow> http_request \<Rightarrow> (http_response list \<times> bool) M" where
  "plain_round H req =
     bindM (liftR (route_of (hq_target req))) (\<lambda>rt.
     bindM (serve_route H req rt) (\<lambda>a.
     (case a of
        None \<Rightarrow> bindM (serve_site H req) (\<lambda>site. ret (site, False))
      | Some (r, shut, ends) \<Rightarrow>
          (if ends then ret ([r], False)
           else if shut then ret ([r], True)
           else bindM (serve_site H req) (\<lambda>site. ret (r # site, False))))))"

definition illegal_target :: "http_request \<Rightarrow> bool" where
  "illegal_target req \<longleftrightarrow>
     (case hq_target req of [] \<Rightarrow> True | c # _ \<Rightarrow> c \<noteq> CHR ''/'') \<or> find_sub (hq_target req) ''..'' \<noteq> None"

text \<open>One round of \<^verbatim>\<open>client_connected\<close>. The page for an illegal target is written and the stream
  closed, but the request is worked on all the same; the next write fails.\<close>

datatype http_outcome =
    Upgraded string
  | Refused http_response
  | Answered "http_response list" bool

definition http_round :: "http_env \<Rightarrow> string \<Rightarrow> http_request \<Rightarrow> http_outcome M" where
  "http_round H remote_host req =
     bindM (set_real_ip (real_ip remote_host req)) (\<lambda>_.
     bindM (recover_cookies req) (\<lambda>_.
     bindM (if hq_upgrade req then
              bindM (ws_upgrade H req) (\<lambda>u.
              ret (case u of None \<Rightarrow> Refused (error_page ''not allowed'' 403) | Some line \<Rightarrow> Upgraded line))
            else bindM (plain_round H req) (\<lambda>(rs, broken). ret (Answered rs broken))) (\<lambda>out.
     ret (if illegal_target req then Answered [error_page ''Illegal request-target'' 400] True else out))))"

definition client_disconnected :: "unit M" where
  "client_disconnected =
     bindM this_client (\<lambda>c.
     modify (\<lambda>w. w\<lparr>sv_active := filter (\<lambda>a. ae_conn a \<noteq> cc_id c) (sv_active w)\<rparr>))"

section \<open>Tokens of scripts\<close>

text \<open>While a script runs, its token stands for the merchant. A script that returns gives the token
  back; one that throws leaves it in the set for good.\<close>

lemma temp_token_run:
  "gen_temp_api_token m E w =
     (Inr (m @ ''-'' @ e_rand_string E (sv_ops w)),
      w\<lparr>sv_ops := Suc (sv_ops w),
        sv_temp_token := List.insert (m @ ''-'' @ e_rand_string E (sv_ops w)) (sv_temp_token w)\<rparr>)"
  by (simp add: gen_temp_api_token_def M_defs)

text \<open>The temporary API token of a script request lives exactly as long as the script: it is gone when the
  script returned, but stays valid when running the script threw an exception.\<close>

theorem serve_script_cases:
  assumes repo: "map_of (sv_repos w) (u64_of (strtoll m)) = Some repo"
    and js: "get_file_content repo name = Inr (js, None)"
    and token: "token = m @ ''-'' @ e_rand_string E (sv_ops w)"
    and fresh: "token \<notin> set (sv_temp_token w)"
    and run: "r = he_run_script H (Suc (sv_ops w)) js (hq_body req)
      (script_vars req path token (cc_session (sv_client w)))"
  shows "case r of
      Inr _ \<Rightarrow> sv_temp_token (snd (serve_script H req m name path E w)) = sv_temp_token w
    | Inl _ \<Rightarrow> token \<in> set (sv_temp_token (snd (serve_script H req m name path E w)))"
proof -
  have given_back: "filter (\<lambda>x. x \<noteq> token) (List.insert token (sv_temp_token w)) = sv_temp_token w"
    using fresh by (auto simp: List.insert_def intro: filter_True)
  define w1 where "w1 = w\<lparr>sv_ops := Suc (sv_ops w), sv_temp_token := List.insert token (sv_temp_token w)\<rparr>"
  have gen: "gen_temp_api_token m E w = (Inr token, w1)"
    by (simp add: temp_token_run w1_def token)
  have w1: "sv_client w1 = sv_client w" "sv_ops w1 = Suc (sv_ops w)"
    "sv_temp_token w1 = List.insert token (sv_temp_token w)"
    by (simp_all add: w1_def)
  show ?thesis
    using repo js given_back
    by (cases r)
      (simp_all add: serve_script_def get_merchant_git_repo_ec_def drop_temp_api_token_def
        this_client_def bindM_def gen gets_def liftR_def external_def modify_def ret_def expires_in_def w1 run [symmetric]
        split: sum.split)
qed

text \<open>The token of a merchant logs in as that merchant.\<close>

lemma token_uid_generated:
  assumes "n < 2 ^ 64" and "rnd \<noteq> []"
  shows "token_uid (show_nat n @ ''-'' @ rnd) = Inr (word_of_nat n)"
proof -
  have "takeWhile isdigit (show_nat n @ ''-'' @ rnd) = show_nat n"
    "dropWhile isdigit (show_nat n @ ''-'' @ rnd) = ''-'' @ rnd"
    using show_nat_digits [of n]
    by (simp_all add: takeWhile_append_stop dropWhile_append_stop isdigit_def)
  with assms show ?thesis
    by (cases rnd) (simp_all add: token_uid_def Let_def)
qed

section \<open>Variables of scripts\<close>

lemma foldl_map_insert_find:
  "map_of (foldl map_insert m kvs) k = (case map_of m k of Some v \<Rightarrow> Some v | None \<Rightarrow> map_of kvs k)"
  by (induction kvs arbitrary: m) (auto simp: map_insert_def split: option.splits)

lemma script_vars_lookup:
  "map_of (script_vars req path token s) k =
     (case map_of (hq_fields req) k of
        Some v \<Rightarrow> Some v
      | None \<Rightarrow> map_of ([(''_METHOD'', hq_method req), (''_PATH'', path), (''_API_TOKEN'', token)] @
          (case s of None \<Rightarrow> [] | Some s \<Rightarrow> (case cs_user_info s of None \<Rightarrow> []
             | Some u \<Rightarrow> [(''_VISITOR'', show_nat (unat (u_uid u)))]))) k)"
  unfolding script_vars_def foldl_map_insert_find map_of_append map_add_def
  by (simp split: option.split)

section \<open>Ranges\<close>

text \<open>The range is cut off before its last byte; the response announces the whole range.\<close>

lemma partial_body_bytes:
  assumes "0 < br_begin r" and "br_begin r < br_end r" and "unat (br_end r) < length body"
  shows "partial_body r body = Inr (take (unat (br_end r) - unat (br_begin r)) (drop (unat (br_begin r)) body))"
proof -
  have "unat (br_end r - br_begin r) = unat (br_end r) - unat (br_begin r)"
    using assms(2) by (simp add: unat_sub)
  moreover have "br_end r \<noteq> 0" using assms(2) by auto
  moreover have "unat (br_begin r) \<le> length body"
    using assms(2,3) by (simp add: word_less_nat_alt)
  ultimately show ?thesis by (simp add: partial_body_def substr_def)
qed

section \<open>Two answers to one request\<close>

lemma plain_round_twice:
  assumes "route_of (hq_target req) = Inr rt"
    and "serve_route H req rt E w = (Inr (Some (r, False, False)), w')"
    and "serve_site H req E w' = (Inr rs, w'')"
  shows "plain_round H req E w = (Inr (r # rs, False), w'')"
  using assms by (simp add: plain_round_def M_defs)

definition sample_http :: http_env where
  "sample_http = \<lparr>he_time = (\<lambda>_. 0), he_run_script = (\<lambda>_ _ _ _. Inr ''out''),
     he_site = sample_site, he_decode_notify = (\<lambda>_ _ _. None)\<rparr>"

text \<open>A shop with a script.\<close>

definition script_server :: server where
  "script_server = sample_server\<lparr>sv_repos := [(5, sample_repo\<lparr>gr_tree := [(''a.js'', Git_blob ''js'')]\<rparr>)]\<rparr>"

definition script_request :: http_request where
  "script_request = \<lparr>hq_method = ''GET'', hq_target = ''/scripts/5/a.js'', hq_fields = [(''_VISITOR'', ''9'')],
     hq_body = [], hq_upgrade = False\<rparr>"

lemma script_server_script:
  "map_of (sv_repos script_server) (u64_of (strtoll ''5'')) = Some (sample_repo\<lparr>gr_tree := [(''a.js'', Git_blob ''js'')]\<rparr>)"
  "get_file_content (sample_repo\<lparr>gr_tree := [(''a.js'', Git_blob ''js'')]\<rparr>) ''a.js'' = Inr (''js'', None)"
  by (simp_all add: script_server_def u64_of_def strtoll_def get_file_content_def by_path_def
      isdigit_def isspace_def digits_val_def digit_val_def)

theorem serve_script_cases_witness:
  "sv_temp_token (snd (serve_script sample_http script_request ''5'' ''a.js'' [] sample_env script_server)) = []"
  using serve_script_cases [OF script_server_script refl, of sample_env _ sample_http script_request "[]"]
  by (simp add: script_server_def sample_http_def)

text \<open>The variables of a user script start with the headers of the request, and a name that is there
  already keeps its value: a client that sends a header \<^verbatim>\<open>_VISITOR\<close> decides itself which visitor the script
  sees, whoever is logged in.\<close>

theorem visitor_header_wins:
  assumes "map_of (hq_fields req) ''_VISITOR'' = Some v"
  shows "map_of (script_vars req path token s) ''_VISITOR'' = Some v"
  using assms by (simp add: script_vars_lookup)

theorem visitor_header_wins_witness:
  "map_of (script_vars script_request [] ''t'' (Some sample_session)) ''_VISITOR'' = Some ''9''"
  by (rule visitor_header_wins) (simp add: script_request_def)

end
