(* ===== verification/World.thy ===== *)
theory World
  imports Http_Server
begin

text \<open>
  The running service: any number of connections over one server state, and the steps it can take.
  A spawned request waits in a queue until it is served, so requests of one connection and of
  different connections are served in any order. Between two steps the state is what the last one
  left; the suspension points inside a handler are not interleaved with other handlers.
\<close>

section \<open>Frames of the HTTP side\<close>

lemma ord_load_user_info [keeps_intros]: "keeps orders_frame load_user_info"
  unfolding load_user_info_def load_merchant_flag_def load_admin_flag_def reload_original_user_def simple_steps
  by (intro keeps_intros)

lemma ord_session_load [keeps_intros]:
  "keeps orders_frame (session_load sid)" "keeps orders_frame (session_exist sid)"
  "keeps orders_frame alloca_sessionid"
  unfolding session_load_def session_exist_def alloca_sessionid_def simple_steps
  by (intro keeps_intros)+

lemma ord_cookies [keeps_intros]: "keeps orders_frame (recover_from_cookies ls)"
proof (induction ls)
  case Nil
  show ?case by (simp add: ord.frame_skip)
next
  case (Cons l ls)
  then show ?case
    unfolding recover_from_cookies.simps simple_steps by (intro keeps_intros)
qed

lemma priv_load_session:
  "keeps priv_frame (bindM (session_load sid) (\<lambda>s. bindM (set_session s) (\<lambda>_.
     bindM (if cs_user_info s \<noteq> None then load_user_info else ret ()) (\<lambda>_.
     bindM (gets sv_client) (\<lambda>c. session_update_lifetime sid (cc_x_real_ip c))))))"
  by (rule priv.keeps_post_bind [where P = "\<lambda>s. \<forall>db. session_priv_ok db s"])
    (auto intro!: keeps_intros priv_new_session simp: session_load_priv)

lemma priv_cookies [keeps_intros]: "keeps priv_frame (recover_from_cookies ls)"
proof (induction ls)
  case Nil
  show ?case by (simp add: priv.frame_skip)
next
  case (Cons l ls)
  then show ?case
    unfolding recover_from_cookies.simps session_exist_def simple_steps
    by (intro keeps_intros priv_load_session)
qed

lemma priv_alloca [keeps_intros]: "keeps priv_frame alloca_sessionid"
proof -
  have "keeps priv_frame (set_session (new_client_session uuid))" for uuid
    by (rule priv_new_session) (simp add: session_priv_ok_def new_client_session_def)
  then show ?thesis
    unfolding alloca_sessionid_def simple_steps by (intro keeps_intros)
qed

lemma wx_notify_frames [keeps_intros]:
  "keeps orders_frame (wx_notify H req cfgs)" "keeps priv_frame (wx_notify H req cfgs)"
  by (induction H req cfgs rule: wx_notify.induct;
      simp; intro keeps_intros ord_wx_callback; simp)+

lemma ord_http_round: "keeps orders_frame (http_round H host req)"
proof -
  have "keeps orders_frame (serve_route H req rt)" for rt
    unfolding serve_route_def serve_script_def render_git_repo_files_def render_goods_detail_content_def
      gen_temp_api_token_def drop_temp_api_token_def expires_in_def simple_steps
    by (cases rt; simp only: route.case; intro keeps_intros ord_modify; simp)
  then show ?thesis
    unfolding http_round_def set_real_ip_def recover_cookies_def ws_upgrade_def plain_round_def serve_site_def expires_in_def simple_steps
    by (intro keeps_intros ord_modify) simp_all
qed

lemma priv_http_round: "keeps priv_frame (http_round H host req)"
proof -
  have "keeps priv_frame (serve_route H req rt)" for rt
    unfolding serve_route_def serve_script_def render_git_repo_files_def render_goods_detail_content_def
      gen_temp_api_token_def drop_temp_api_token_def expires_in_def simple_steps
    by (cases rt; simp only: route.case; intro keeps_intros priv_modify; simp)
  then show ?thesis
    unfolding http_round_def set_real_ip_def recover_cookies_def ws_upgrade_def plain_round_def serve_site_def expires_in_def simple_steps
    by (intro keeps_intros priv_modify) simp_all
qed

section \<open>Steps\<close>

type_synonym ws_request = "int \<times> json_object \<times> string \<times> json_object"

record world =
  wd_server :: server
  wd_conns :: "client_connection list"
  wd_pending :: "ws_request list"

text \<open>A coroutine run for a connection, and the connection put back afterwards.\<close>

definition focus :: "world \<Rightarrow> client_connection \<Rightarrow> server" where
  "focus W c = wd_server W\<lparr>sv_client := c\<rparr>"

definition unfocus :: "world \<Rightarrow> client_connection \<Rightarrow> server \<Rightarrow> world" where
  "unfocus W c w = W\<lparr>wd_server := w,
     wd_conns := map (\<lambda>x. if cc_id x = cc_id c then sv_client w else x) (wd_conns W)\<rparr>"

definition drop_connection :: "env \<Rightarrow> client_connection \<Rightarrow> world \<Rightarrow> world" where
  "drop_connection E c W = W\<lparr>wd_conns := filter (\<lambda>x. cc_id x \<noteq> cc_id c) (wd_conns W),
     wd_pending := filter (\<lambda>(i, _). i \<noteq> cc_id c) (wd_pending W),
     wd_server := snd (client_disconnected E (focus W c))\<rparr>"

text \<open>The background loops: codes expire, and a repository that was pushed to is indexed again.\<close>

definition purge_codes :: "int \<Rightarrow> server \<Rightarrow> server" where
  "purge_codes now w = w\<lparr>sv_codes := fst (tm_purge verify_code_lifetime now (sv_codes w))\<rparr>"

definition push_check :: "git_repo \<Rightarrow> server \<Rightarrow> server" where
  "push_check repo w =
     (case repo_push_check repo (sv_search w) of Inl _ \<Rightarrow> w | Inr st \<Rightarrow> w\<lparr>sv_search := st\<rparr>)"

inductive step :: "env \<Rightarrow> http_env \<Rightarrow> (int \<Rightarrow> string) \<Rightarrow> world \<Rightarrow> world \<Rightarrow> bool"
  for E :: env and H :: http_env and am :: "int \<Rightarrow> string" where
  accept: "\<lbrakk>cc_id c \<notin> cc_id ` set (wd_conns W); cc_session c = None; cc_ws c = None\<rbrakk> \<Longrightarrow>
    step E H am W (W\<lparr>wd_conns := wd_conns W @ [c]\<rparr>)"
| http: "\<lbrakk>c \<in> set (wd_conns W); cc_ws c = None; http_round H host req E (focus W c) = (r, w)\<rbrakk> \<Longrightarrow>
    step E H am W (unfocus W c w)"
| ws_read: "\<lbrakk>c \<in> set (wd_conns W); cc_ws c \<noteq> None;
    do_ws_read_round am body E (focus W c) = (Inr Ws_continue, w)\<rbrakk> \<Longrightarrow>
    step E H am W (unfocus W c w)"
| ws_spawn: "\<lbrakk>c \<in> set (wd_conns W); cc_ws c \<noteq> None;
    do_ws_read_round am body E (focus W c) = (Inr (Ws_spawn jv meth params), w)\<rbrakk> \<Longrightarrow>
    step E H am W ((unfocus W c w)\<lparr>wd_pending := wd_pending W @ [(cc_id c, jv, meth, params)]\<rparr>)"
| ws_close: "\<lbrakk>c \<in> set (wd_conns W); cc_ws c \<noteq> None;
    do_ws_read_round am body E (focus W c) = (r, w); r = Inr Ws_close \<or> (\<exists>e. r = Inl e)\<rbrakk> \<Longrightarrow>
    step E H am W (drop_connection E c (unfocus W c w))"
| ws_serve: "\<lbrakk>(cc_id c, jv, meth, params) \<in> set (wd_pending W); c \<in> set (wd_conns W);
    serve_request am jv meth params E (focus W c) = (r, w)\<rbrakk> \<Longrightarrow>
    step E H am W ((unfocus W c w)\<lparr>wd_pending := remove1 (cc_id c, jv, meth, params) (wd_pending W)\<rparr>)"
| disconnect: "c \<in> set (wd_conns W) \<Longrightarrow> step E H am W (drop_connection E c W)"
| expire: "step E H am W (W\<lparr>wd_server := purge_codes now (wd_server W)\<rparr>)"
| index: "(uid, repo) \<in> set (sv_repos (wd_server W)) \<Longrightarrow>
    step E H am W (W\<lparr>wd_server := push_check repo (wd_server W)\<rparr>)"

definition steps :: "env \<Rightarrow> http_env \<Rightarrow> (int \<Rightarrow> string) \<Rightarrow> world \<Rightarrow> world \<Rightarrow> bool" where
  "steps E H am = (step E H am)\<^sup>*\<^sup>*"

section \<open>What every step keeps\<close>

text \<open>The relation of two moments: orders evolve, the administrators stay, and if all sessions were
  entitled to their roles, they still are.\<close>

definition conn_roles_ok :: "database \<Rightarrow> client_connection \<Rightarrow> bool" where
  "conn_roles_ok db c \<longleftrightarrow> (case cc_session c of None \<Rightarrow> True | Some s \<Rightarrow> session_priv_ok db s)"

definition roles_ok :: "world \<Rightarrow> bool" where
  "roles_ok W \<longleftrightarrow> (\<forall>c\<in>set (wd_conns W). conn_roles_ok (sv_db (wd_server W)) c)"

definition world_evolves :: "world \<Rightarrow> world \<Rightarrow> bool" where
  "world_evolves W W' \<longleftrightarrow>
     orders_evolve (t_order (sv_db (wd_server W))) (t_order (sv_db (wd_server W'))) \<and>
     set (admin_uids (sv_db (wd_server W))) \<subseteq> set (admin_uids (sv_db (wd_server W'))) \<and>
     (roles_ok W \<longrightarrow> roles_ok W')"

lemma priv_ok_conn: "priv_ok w = conn_roles_ok (sv_db w) (sv_client w)"
  by (simp add: priv_ok_def conn_roles_ok_def)

lemma conn_roles_ok_mono:
  "conn_roles_ok db c \<Longrightarrow> set (admin_uids db) \<subseteq> set (admin_uids db') \<Longrightarrow> conn_roles_ok db' c"
  by (auto simp: conn_roles_ok_def session_priv_ok_mono split: option.splits)

lemma world_evolves_refl: "world_evolves W W"
  by (simp add: world_evolves_def)

lemma world_evolves_trans: "world_evolves U V \<Longrightarrow> world_evolves V W \<Longrightarrow> world_evolves U W"
  unfolding world_evolves_def using orders_evolve_trans by blast

text \<open>A coroutine that keeps both frames may run for any connection.\<close>

lemma unfocus_evolves:
  assumes "orders_frame (focus W c) w" and "priv_frame (focus W c) w" and "c \<in> set (wd_conns W)"
  shows "world_evolves W (unfocus W c w)"
proof -
  have grow: "set (admin_uids (sv_db (wd_server W))) \<subseteq> set (admin_uids (sv_db w))"
    and own: "priv_ok (focus W c) \<Longrightarrow> priv_ok w"
    using assms(2) by (simp_all add: priv_frame_def focus_def)
  have "roles_ok (unfocus W c w)" if ok: "roles_ok W"
  proof -
    have "priv_ok w"
      using own ok assms(3) by (simp add: roles_ok_def priv_ok_conn focus_def)
    then show ?thesis
      using ok conn_roles_ok_mono [OF _ grow] by (auto simp: roles_ok_def unfocus_def priv_ok_conn)
  qed
  then show ?thesis
    using assms(1) grow by (simp add: world_evolves_def orders_frame_def focus_def unfocus_def)
qed

lemma drop_evolves: "world_evolves W (drop_connection E c W)"
  by (auto simp: world_evolves_def drop_connection_def client_disconnected_def this_client_def M_defs
      focus_def roles_ok_def)

lemma evolves_same_db:
  assumes "sv_db w = sv_db (wd_server W)"
  shows "world_evolves W (W\<lparr>wd_server := w\<rparr>)"
  using assms by (simp add: world_evolves_def roles_ok_def)

lemma ws_round_frames:
  "keeps orders_frame (do_ws_read_round am body)" "keeps priv_frame (do_ws_read_round am body)"
proof -
  have wr: "keeps orders_frame (write_client ob)" "keeps priv_frame (write_client ob)" for ob
    unfolding write_client_def this_client_def
    by (intro keeps_intros ord_modify priv_modify; simp)+
  have split: "keeps R (case p of Some (JObj jv) \<Rightarrow> f jv | _ \<Rightarrow> n)"
    if "\<And>jv. keeps R (f jv)" "keeps R n" for R p f and n :: "ws_round M"
    using that by (simp split: option.split json.split)
  show "keeps orders_frame (do_ws_read_round am body)" "keeps priv_frame (do_ws_read_round am body)"
    unfolding do_ws_read_round_def this_client_def
    by (intro ord.frame_bind priv.frame_bind split keeps_intros wr ord_serve_request priv_serve_request)+
qed

lemma step_evolves:
  assumes "step E H am W W'"
  shows "world_evolves W W'"
  using assms
proof (cases rule: step.cases)
  case (accept c)
  then show ?thesis by (auto simp: world_evolves_def roles_ok_def conn_roles_ok_def)
next
  case (http c host req r w)
  then show ?thesis
    using unfocus_evolves keepsD [OF ord_http_round] keepsD [OF priv_http_round] by metis
next
  case (ws_read c body w)
  then show ?thesis
    using unfocus_evolves keepsD [OF ws_round_frames(1)] keepsD [OF ws_round_frames(2)] by metis
next
  case (ws_spawn c body jv meth params w)
  then have "world_evolves W (unfocus W c w)"
    using unfocus_evolves keepsD [OF ws_round_frames(1)] keepsD [OF ws_round_frames(2)] by metis
  with ws_spawn show ?thesis by (simp add: world_evolves_def roles_ok_def)
next
  case (ws_close c body r w)
  then have "world_evolves W (unfocus W c w)"
    using unfocus_evolves keepsD [OF ws_round_frames(1)] keepsD [OF ws_round_frames(2)] by metis
  with ws_close drop_evolves world_evolves_trans show ?thesis by blast
next
  case (ws_serve c jv meth params r w)
  then have "world_evolves W (unfocus W c w)"
    using unfocus_evolves keepsD [OF ord_serve_request] keepsD [OF priv_serve_request] by metis
  with ws_serve show ?thesis by (simp add: world_evolves_def roles_ok_def)
next
  case (disconnect c)
  then show ?thesis by (simp add: drop_evolves)
next
  case (expire now)
  then show ?thesis by (simp add: evolves_same_db purge_codes_def)
next
  case (index uid repo)
  then show ?thesis by (simp add: evolves_same_db push_check_def split: sum.split)
qed

lemma steps_evolve:
  assumes "steps E H am W W'"
  shows "world_evolves W W'"
  using assms unfolding steps_def
proof (induction rule: rtranclp_induct)
  case base
  show ?case by (rule world_evolves_refl)
next
  case (step V W)
  then show ?case using step_evolves world_evolves_trans by blast
qed

end
