(* ===== verification/Payment.thy ===== *)
theory Payment
  imports Service "HOL-Library.AList"
begin

text \<open>
  The exclusion of \<^verbatim>\<open>payment_impl::get_payurl\<close> (\<^verbatim>\<open>services/payment_service.cpp\<close>): calls for one
  order wait for each other on the set \<^verbatim>\<open>awaiting_orders\<close>. A call is in the phase \<open>Entered\<close> before
  it looks at the set, \<open>Sleeping\<close> while it polls with a timer, \<open>Running\<close> while its script runs.
  Every way out of the call, by returning or by an exception, erases the order from the set.
\<close>

datatype call_phase = Entered | Sleeping | Running

record pay_call =
  pc_order :: string
  pc_phase :: call_phase

record payment_impl =
  awaiting_orders :: "string list"
  pay_calls :: "(nat \<times> pay_call) list"

definition empty_payment :: payment_impl where
  "empty_payment = \<lparr>awaiting_orders = [], pay_calls = []\<rparr>"

definition enter_call :: "nat \<Rightarrow> string \<Rightarrow> payment_impl \<Rightarrow> payment_impl" where
  "enter_call i oid p = p\<lparr>pay_calls := (i, \<lparr>pc_order = oid, pc_phase = Entered\<rparr>) # pay_calls p\<rparr>"

text \<open>One look at the set under the lock: the first look of a call, and the look after a pause.\<close>

definition look :: "nat \<Rightarrow> pay_call \<Rightarrow> payment_impl \<Rightarrow> payment_impl" where
  "look i c p =
     (if pc_order c \<in> set (awaiting_orders p)
      then p\<lparr>pay_calls := AList.update i (c\<lparr>pc_phase := Sleeping\<rparr>) (pay_calls p)\<rparr>
      else p\<lparr>awaiting_orders := pc_order c # awaiting_orders p,
             pay_calls := AList.update i (c\<lparr>pc_phase := Running\<rparr>) (pay_calls p)\<rparr>)"

text \<open>Leaving: the scoped exit runs.\<close>

definition leave_call :: "nat \<Rightarrow> pay_call \<Rightarrow> payment_impl \<Rightarrow> payment_impl" where
  "leave_call i c p =
     p\<lparr>awaiting_orders := removeAll (pc_order c) (awaiting_orders p),
       pay_calls := AList.delete i (pay_calls p)\<rparr>"

text \<open>The flag says whether a call may be cut off while it still waits: its connection is closed, its
  cancellation signal ends the timer's wait with an exception.\<close>

inductive pay_step :: "bool \<Rightarrow> payment_impl \<Rightarrow> payment_impl \<Rightarrow> bool" for cut :: bool where
  enter: "map_of (pay_calls p) i = None \<Longrightarrow> pay_step cut p (enter_call i oid p)"
| looks: "map_of (pay_calls p) i = Some c \<Longrightarrow> pc_phase c \<noteq> Running \<Longrightarrow> pay_step cut p (look i c p)"
| leave: "map_of (pay_calls p) i = Some c \<Longrightarrow> pc_phase c = Running \<or> cut \<Longrightarrow>
    pay_step cut p (leave_call i c p)"

definition running :: "payment_impl \<Rightarrow> string \<Rightarrow> nat set" where
  "running p oid = {i. \<exists>c. map_of (pay_calls p) i = Some c \<and> pc_order c = oid \<and> pc_phase c = Running}"

definition excl_ok :: "payment_impl \<Rightarrow> bool" where
  "excl_ok p \<longleftrightarrow>
     (\<forall>i c. map_of (pay_calls p) i = Some c \<longrightarrow> pc_phase c = Running \<longrightarrow>
        pc_order c \<in> set (awaiting_orders p) \<and>
        (\<forall>j d. map_of (pay_calls p) j = Some d \<longrightarrow> pc_phase d = Running \<longrightarrow> pc_order d = pc_order c \<longrightarrow> j = i))"

lemma excl_ok_empty: "excl_ok empty_payment"
  by (simp add: excl_ok_def empty_payment_def)

lemma excl_ok_step:
  assumes "pay_step False p q" and "excl_ok p"
  shows "excl_ok q"
  using assms
proof (cases rule: pay_step.cases)
  case (enter i oid)
  with assms(2) show ?thesis
    by (auto simp: excl_ok_def enter_call_def)
next
  case (looks i c)
  with assms(2) show ?thesis
    by (auto simp: excl_ok_def look_def update_conv') metis
next
  case (leave i c)
  with assms(2) show ?thesis
    by (auto simp: excl_ok_def leave_call_def delete_conv')
qed

lemma excl_ok_running:
  assumes "excl_ok p" and "i \<in> running p oid" and "j \<in> running p oid"
  shows "i = j"
  using assms unfolding excl_ok_def running_def by blast

lemma excl_ok_steps: "(pay_step False)\<^sup>*\<^sup>* p q \<Longrightarrow> excl_ok p \<Longrightarrow> excl_ok q"
  by (induction rule: rtranclp_induct) (auto intro: excl_ok_step)

text \<open>A call that never sleeps longer than the others need gets its turn: once nobody has the order,
  its next look takes it.\<close>

lemma look_takes:
  assumes "pc_order c \<notin> set (awaiting_orders p)"
  shows "map_of (pay_calls (look i c p)) i = Some (c\<lparr>pc_phase := Running\<rparr>) \<and>
    pc_order c \<in> set (awaiting_orders (look i c p))"
  using assms by (simp add: look_def update_conv')

text \<open>The state after two calls for the same order, the second one waiting, and after that one was
  cut off and a third came.\<close>

definition cut_scenario :: "string \<Rightarrow> payment_impl" where
  "cut_scenario oid =
     (let a = \<lparr>pc_order = oid, pc_phase = Entered\<rparr>;
          p1 = look 1 a (enter_call 1 oid empty_payment);
          p2 = look 2 a (enter_call 2 oid p1);
          p3 = leave_call 2 (a\<lparr>pc_phase := Sleeping\<rparr>) p2
      in look 3 a (enter_call 3 oid p3))"

lemma excl_ok_held_step:
  assumes "pay_step False p q" and "excl_ok p" and "\<forall>oid\<in>set (awaiting_orders p). running p oid \<noteq> {}"
  shows "\<forall>oid\<in>set (awaiting_orders q). running q oid \<noteq> {}"
  using assms(1)
proof (cases rule: pay_step.cases)
  case (enter i oid)
  have "running p x \<subseteq> running q x" for x
    using enter by (auto simp: running_def enter_call_def)
  then show ?thesis using enter assms(3) by (fastforce simp: enter_call_def)
next
  case (looks i c)
  have "running p x \<subseteq> running q x" for x
    using looks by (auto simp: running_def look_def update_conv')
  moreover have "pc_order c \<notin> set (awaiting_orders p) \<Longrightarrow> i \<in> running q (pc_order c)"
    using looks by (auto simp: running_def look_def update_conv')
  ultimately show ?thesis using looks assms(3) by (fastforce simp: look_def split: if_splits)
next
  case (leave i c)
  have "running p x \<subseteq> running q x" if "x \<noteq> pc_order c" for x
    using leave that by (auto simp: running_def leave_call_def delete_conv')
  then show ?thesis using leave assms(3) by (fastforce simp: leave_call_def)
qed

lemma held_running:
  assumes "(pay_step False)\<^sup>*\<^sup>* empty_payment p"
  shows "excl_ok p \<and> (\<forall>oid\<in>set (awaiting_orders p). running p oid \<noteq> {})"
  using assms
proof (induction rule: rtranclp_induct)
  case base
  show ?case by (simp add: excl_ok_empty) (simp add: empty_payment_def)
next
  case (step p q)
  then show ?case using excl_ok_step excl_ok_held_step by blast
qed

text \<open>(C12) Mutual exclusion: in every run in which no waiting call is cut off, at most one payment script runs
  for an order at a time.\<close>

theorem one_payment_script_per_order:
  assumes "(pay_step False)\<^sup>*\<^sup>* empty_payment p" and "i \<in> running p oid" and "j \<in> running p oid"
  shows "i = j"
  using held_running [OF assms(1)] assms(2,3) excl_ok_running by blast

text \<open>(C13) No call is locked out: from every reachable state in which no waiting call is cut off, every call
  that entered can still come to run its script.\<close>

theorem waiting_call_gets_its_turn:
  assumes "(pay_step False)\<^sup>*\<^sup>* empty_payment p" and "map_of (pay_calls p) i = Some c"
  shows "\<exists>q. (pay_step False)\<^sup>*\<^sup>* p q \<and> i \<in> running q (pc_order c)"
proof (cases "i \<in> running p (pc_order c)")
  case True
  then show ?thesis by blast
next
  case False
  then have wait: "pc_phase c \<noteq> Running"
    using assms(2) by (auto simp: running_def)
  have free: "\<exists>q. (pay_step False)\<^sup>*\<^sup>* p q \<and> map_of (pay_calls q) i = Some c \<and> pc_order c \<notin> set (awaiting_orders q)"
  proof (cases "pc_order c \<in> set (awaiting_orders p)")
    case True
    then obtain j d where d: "map_of (pay_calls p) j = Some d" "pc_order d = pc_order c" "pc_phase d = Running"
      using held_running [OF assms(1)] by (fastforce simp: running_def)
    then have "pay_step False p (leave_call j d p)"
      by (intro pay_step.leave) auto
    moreover have "j \<noteq> i"
      using d(1,3) assms(2) wait by auto
    ultimately show ?thesis
      using d assms(2) by (intro exI [of _ "leave_call j d p"]) (auto simp: leave_call_def delete_conv')
  qed (use assms(2) in blast)
  then obtain q where q: "(pay_step False)\<^sup>*\<^sup>* p q" "map_of (pay_calls q) i = Some c" "pc_order c \<notin> set (awaiting_orders q)"
    by blast
  then have "pay_step False q (look i c q)" "i \<in> running (look i c q) (pc_order c)"
    using wait look_takes [OF q(3), of i] by (auto simp: running_def intro: pay_step.looks)
  then show ?thesis using q(1) by (meson rtranclp.rtrancl_into_rtrancl)
qed

definition two_calls :: payment_impl where
  "two_calls =
     (let a = \<lparr>pc_order = ''o1'', pc_phase = Entered\<rparr>
      in look 2 a (enter_call 2 ''o1'' (look 1 a (enter_call 1 ''o1'' empty_payment))))"

lemma look_steps:
  assumes "map_of (pay_calls p) i = None"
  shows "(pay_step b)\<^sup>*\<^sup>* p (look i \<lparr>pc_order = oid, pc_phase = Entered\<rparr> (enter_call i oid p))"
proof -
  have "pay_step b p (enter_call i oid p)"
    using assms by (rule pay_step.enter)
  moreover have "pay_step b (enter_call i oid p) (look i \<lparr>pc_order = oid, pc_phase = Entered\<rparr> (enter_call i oid p))"
    by (rule pay_step.looks) (simp_all add: enter_call_def)
  ultimately show ?thesis by (meson r_into_rtranclp rtranclp_trans)
qed

lemma two_calls_reachable: "(pay_step b)\<^sup>*\<^sup>* empty_payment two_calls"
  unfolding two_calls_def Let_def
  by (rule rtranclp_trans [OF look_steps look_steps]) (simp_all add: empty_payment_def look_def enter_call_def)

lemmas pay_eval = two_calls_def look_def enter_call_def leave_call_def empty_payment_def running_def Let_def

theorem one_payment_script_per_order_witness:
  "running two_calls ''o1'' = {1}"
proof -
  have one: "1 \<in> running two_calls ''o1''"
    by (simp add: pay_eval)
  then show ?thesis
    using one_payment_script_per_order [OF two_calls_reachable one] by blast
qed

theorem waiting_call_gets_its_turn_witness:
  "\<exists>q. (pay_step False)\<^sup>*\<^sup>* two_calls q \<and> 2 \<in> running q ''o1''"
proof -
  have "map_of (pay_calls two_calls) 2 = Some \<lparr>pc_order = ''o1'', pc_phase = Sleeping\<rparr>"
    by (simp add: pay_eval)
  from waiting_call_gets_its_turn [OF two_calls_reachable this] show ?thesis by simp
qed

text \<open>The scoped exit is installed before the order is taken: a call that is cut off while it waits erases
  the order another call holds, and a third call then runs its script beside the first.\<close>

theorem cancelled_waiter_breaks_exclusion:
  "\<exists>p. (pay_step True)\<^sup>*\<^sup>* empty_payment p \<and> 1 \<in> running p ''o1'' \<and> 3 \<in> running p ''o1''"
proof -
  let ?c = "\<lparr>pc_order = ''o1'', pc_phase = Sleeping\<rparr>"
  let ?p = "leave_call 2 ?c two_calls"
  let ?q = "look 3 \<lparr>pc_order = ''o1'', pc_phase = Entered\<rparr> (enter_call 3 ''o1'' ?p)"
  have "pay_step True two_calls ?p"
    by (rule pay_step.leave) (simp_all add: pay_eval)
  then have "(pay_step True)\<^sup>*\<^sup>* empty_payment ?p"
    using two_calls_reachable by (meson rtranclp.rtrancl_into_rtrancl)
  moreover have "(pay_step True)\<^sup>*\<^sup>* ?p ?q"
    by (rule look_steps) (simp add: pay_eval)
  moreover have "1 \<in> running ?q ''o1''" "3 \<in> running ?q ''o1''"
    by (simp_all add: pay_eval)
  ultimately show ?thesis by (meson rtranclp_trans)
qed

end
