(* ===== verification/Url.thy ===== *)
theory Url
  imports Http_Text
begin

text \<open>
  The URL parser \<^verbatim>\<open>util::uri\<close> of \<^verbatim>\<open>utils/url_parser.hpp\<close>, which the client for remote services
  uses: the state machine of \<^verbatim>\<open>parse\<close>, the accessors, percent encoding and decoding, and the
  iteration over a query string. Pointers into the URL are positions; \<open>b\<close> is the position after the
  character a state looks at. A \<^verbatim>\<open>string_view\<close> that is only read is the text it shows, and the one
  that pointer arithmetic is done on (\<^verbatim>\<open>probe\<close>) is its position and length.
\<close>

section \<open>Character classes\<close>

text \<open>A byte above \<^verbatim>\<open>0x7f\<close> is a negative \<^verbatim>\<open>char\<close> and so below \<^verbatim>\<open>0x20\<close>.\<close>

definition isunreserved :: "char \<Rightarrow> bool" where
  "isunreserved c \<longleftrightarrow> isalpha c \<or> isdigit c \<or> c \<in> set ''-._~'' \<or> (of_char c :: nat) \<le> 32 \<or> (127 :: nat) \<le> of_char c"

definition isuchar :: "char \<Rightarrow> bool" where
  "isuchar c \<longleftrightarrow> isunreserved c \<or> c \<in> set '';?&=''"

definition ishsegment :: "char \<Rightarrow> bool" where
  "ishsegment c \<longleftrightarrow> isuchar c \<or> c \<in> set '';:@&=''"

definition issubdelims :: "char \<Rightarrow> bool" where
  "issubdelims c \<longleftrightarrow> c \<in> set ''!$()*+,='' \<or> c = CHR 0x27"

definition uri_reserved :: "char \<Rightarrow> bool" where
  "uri_reserved c \<longleftrightarrow> c \<in> set '';/?:@&=+$,''"

definition uri_mark :: "char \<Rightarrow> bool" where
  "uri_mark c \<longleftrightarrow> c \<in> set ''-_.!~*()'' \<or> c = CHR 0x27"

text \<open>The table \<^verbatim>\<open>hexstring\<close>.\<close>

definition to_hex :: "char \<Rightarrow> string" where
  "to_hex c = [hexdigit (of_char c div 16), hexdigit (of_char c mod 16)]"

section \<open>The parser\<close>

record uri =
  uri_scheme :: string
  uri_username :: string
  uri_password :: string
  uri_host :: string
  uri_port :: string
  uri_path :: string
  uri_query :: string
  uri_fragment :: string

definition empty_uri :: uri where
  "empty_uri = \<lparr>uri_scheme = [], uri_username = [], uri_password = [], uri_host = [], uri_port = [],
     uri_path = [], uri_query = [], uri_fragment = []\<rparr>"

datatype url_state =
    Scheme_start | Scheme | Slash_start | Slash | Urn | Probe_userinfo_hostname
  | Host_start | Host | Port_start | Port | Path | Query | Fragment

record url_loop =
  ul_state :: url_state
  ul_b :: nat
  ul_part :: nat
  ul_v6_start :: "nat option"
  ul_v6_end :: "nat option"
  ul_ipv6 :: bool
  ul_probe :: "nat \<times> nat"
  ul_uri :: uri

text \<open>\<open>sub s i j\<close> is the view from position \<open>i\<close> up to position \<open>j\<close>.\<close>

definition sub :: "string \<Rightarrow> nat \<Rightarrow> nat \<Rightarrow> string" where
  "sub s i j = take (j - i) (drop i s)"

text \<open>One round of the loop ends it with the result of \<^verbatim>\<open>parse\<close> and the members as they are then
  (\<open>Inl\<close>), or goes on (\<open>Inr\<close>). The functions below are the cases of the switch; \<open>c\<close> is the character
  read and \<open>ul_b\<close> already behind it.\<close>

type_synonym url_round = "(bool \<times> uri) + url_loop"

abbreviation stop :: "bool \<Rightarrow> url_loop \<Rightarrow> url_round" where
  "stop r l \<equiv> Inl (r, ul_uri l)"

definition to_state :: "url_state \<Rightarrow> nat \<Rightarrow> nat \<Rightarrow> url_loop \<Rightarrow> url_loop" where
  "to_state st part b l = l\<lparr>ul_state := st, ul_part := part, ul_b := b\<rparr>"

definition round_scheme :: "string \<Rightarrow> char \<Rightarrow> url_loop \<Rightarrow> url_round" where
  "round_scheme s c l =
     (if isalpha c \<or> isdigit c \<or> c \<in> set ''+-.'' then Inr l
      else if c = CHR '':'' then
        Inr (l\<lparr>ul_uri := (ul_uri l)\<lparr>uri_scheme := sub s (ul_part l) (ul_b l - 1)\<rparr>, ul_state := Slash_start\<rparr>)
      else stop False l)"

definition round_slash_start :: "string \<Rightarrow> char \<Rightarrow> url_loop \<Rightarrow> url_round" where
  "round_slash_start s c l =
     (if c = CHR ''/'' then
        Inr (l\<lparr>ul_state := Slash,
               ul_b := (if iequals (uri_scheme (ul_uri l)) ''file'' \<and> ul_b l + 1 < length s \<and>
                           s ! ul_b l = CHR ''/'' \<and> s ! (ul_b l + 1) = CHR ''/''
                        then ul_b l + 1 else ul_b l)\<rparr>)
      else Inr (to_state Urn (ul_b l - 1) (ul_b l - 1) l))"

definition round_urn :: "string \<Rightarrow> char \<Rightarrow> url_loop \<Rightarrow> url_round" where
  "round_urn s c l =
     (if ul_b l = length s then stop True (l\<lparr>ul_uri := (ul_uri l)\<lparr>uri_path := sub s (ul_part l) (ul_b l)\<rparr>\<rparr>)
      else if c = CHR ''?'' then
        Inr (to_state Query (ul_b l) (ul_b l)
          (l\<lparr>ul_uri := (ul_uri l)\<lparr>uri_path := sub s (ul_part l) (ul_b l - 1)\<rparr>\<rparr>))
      else Inr l)"

text \<open>The brackets of an IPv6 address, and what is known when the authority ends at position \<open>j\<close>: the
  host and the port, or nothing when the brackets do not match.\<close>

definition probe_brackets :: "char \<Rightarrow> url_loop \<Rightarrow> url_loop" where
  "probe_brackets c l =
     (let l1 = (if c = CHR ''['' then
                  (if ul_v6_start l \<noteq> None then l\<lparr>ul_ipv6 := False\<rparr>
                   else l\<lparr>ul_ipv6 := True, ul_v6_start := Some (ul_b l)\<rparr>)
                else l)
      in if c = CHR '']'' then
           (if ul_ipv6 l1 \<and> ul_v6_end l1 = None then l1\<lparr>ul_v6_end := Some (ul_b l1 - 1), ul_probe := (0, 0)\<rparr>
            else l1\<lparr>ul_ipv6 := False\<rparr>)
         else l1)"

definition probe_port :: "string \<Rightarrow> nat \<Rightarrow> url_loop \<Rightarrow> string" where
  "probe_port s j l = sub s (fst (ul_probe l) + snd (ul_probe l) + 1) j"

definition probe_authority :: "string \<Rightarrow> nat \<Rightarrow> url_loop \<Rightarrow> uri option" where
  "probe_authority s j l =
     (let u = ul_uri l; has_probe = (snd (ul_probe l) \<noteq> 0)
      in if ul_ipv6 l then
           (case (ul_v6_start l, ul_v6_end l) of
              (Some i, Some k) \<Rightarrow>
                (if i = k then None
                 else Some (u\<lparr>uri_host := sub s i k,
                              uri_port := (if has_probe then probe_port s j l else uri_port u)\<rparr>))
            | _ \<Rightarrow> None)
         else if ul_v6_start l \<noteq> None \<or> ul_v6_end l \<noteq> None then None
         else if has_probe then
           Some (u\<lparr>uri_port := probe_port s j l,
                   uri_host := sub s (fst (ul_probe l)) (fst (ul_probe l) + snd (ul_probe l))\<rparr>)
         else Some (u\<lparr>uri_host := sub s (ul_part l) j\<rparr>))"

definition hex_or_v6 :: "char \<Rightarrow> bool" where
  "hex_or_v6 c \<longleftrightarrow> isdigit c \<or> c \<in> set ''aAbBcCdDeEfF:][.''"

text \<open>After \<^verbatim>\<open>'/'\<close>, \<^verbatim>\<open>'?'\<close> or \<^verbatim>\<open>'#'\<close>: the next part starts at the slash or behind the other
  two, and a URL may end with them.\<close>

definition next_part :: "string \<Rightarrow> char \<Rightarrow> url_loop \<Rightarrow> url_round" where
  "next_part s c l =
     (if c = CHR ''/'' then Inr (to_state Path (ul_b l - 1) (ul_b l - 1) l)
      else if ul_b l = length s then stop True l
      else Inr (to_state (if c = CHR ''?'' then Query else Fragment) (ul_b l) (ul_b l) l))"

definition round_probe :: "string \<Rightarrow> char \<Rightarrow> url_loop \<Rightarrow> url_round" where
  "round_probe s c l0 =
     (let l = probe_brackets c l0; b = ul_b l; u = ul_uri l
      in if c = CHR ''@'' then
           Inr (to_state Host_start b b
             (l\<lparr>ul_ipv6 := False,
                ul_uri := (if snd (ul_probe l) \<noteq> 0
                  then u\<lparr>uri_password := probe_port s (b - 1) l,
                         uri_username := sub s (fst (ul_probe l)) (fst (ul_probe l) + snd (ul_probe l))\<rparr>
                  else u\<lparr>uri_username := sub s (ul_part l) (b - 1)\<rparr>)\<rparr>))
         else if c = CHR '':'' then
           Inr (if snd (ul_probe l) = 0 then l\<lparr>ul_probe := (ul_part l, b - 1 - ul_part l)\<rparr> else l)
         else if c \<in> set ''/?#'' then
           (case probe_authority s (b - 1) l of
              None \<Rightarrow> stop False l
            | Some u' \<Rightarrow> next_part s c (l\<lparr>ul_uri := u'\<rparr>))
         else if b = length s then
           (case probe_authority s b l of None \<Rightarrow> stop False l | Some u' \<Rightarrow> Inl (True, u'))
         else if isunreserved c \<or> issubdelims c \<or> c \<in> set ''% []'' then
           Inr (if ul_ipv6 l \<and> \<not> hex_or_v6 c then l\<lparr>ul_ipv6 := False\<rparr> else l)
         else stop False l)"

definition host_char :: "char \<Rightarrow> bool" where
  "host_char c \<longleftrightarrow> isunreserved c \<or> issubdelims c \<or> c = CHR ''%''"

definition round_host_start :: "char \<Rightarrow> url_loop \<Rightarrow> url_round" where
  "round_host_start c l =
     (if host_char c \<or> c = CHR ''['' then
        Inr ((if c = CHR ''['' then l\<lparr>ul_ipv6 := True, ul_part := ul_b l\<rparr> else l)\<lparr>ul_state := Host\<rparr>)
      else stop False l)"

definition set_host :: "string \<Rightarrow> nat \<Rightarrow> url_loop \<Rightarrow> url_loop" where
  "set_host s j l = l\<lparr>ul_uri := (ul_uri l)\<lparr>uri_host := sub s (ul_part l) j\<rparr>\<rparr>"

text \<open>Behind the closing bracket of an IPv6 address; \<open>b\<close> is before the end here.\<close>

definition after_v6 :: "string \<Rightarrow> url_loop \<Rightarrow> url_round" where
  "after_v6 s l =
     (let b = ul_b l; d = s ! b
      in if d = CHR '':'' then Inr (to_state Port_start (b + 1) (b + 1) l)
         else if d = CHR ''/'' then Inr (to_state Path b b l)
         else if d = CHR ''?'' then Inr (to_state Query (b + 1) (b + 1) l)
         else if d = CHR ''#'' then Inr (to_state Fragment (b + 1) (b + 1) l)
         else stop False l)"

definition round_host :: "string \<Rightarrow> char \<Rightarrow> url_loop \<Rightarrow> url_round" where
  "round_host s c l =
     (let b = ul_b l
      in if b = length s then
           (if ul_ipv6 l \<and> c = CHR ''/'' then stop False l
            else if c = CHR ''/'' \<or> c = CHR '']'' then stop True (set_host s (b - 1) l)
            else stop True (set_host s b l))
         else if ul_ipv6 l \<and> c = CHR '']'' then after_v6 s (set_host s (b - 1) l)
         else if ul_ipv6 l \<and> c = CHR ''/'' then stop False l
         else if \<not> ul_ipv6 l \<and> c = CHR '':'' then Inr (to_state Port_start b b (set_host s (b - 1) l))
         else if c = CHR ''/'' then next_part s c (set_host s (b - 1) l)
         else if host_char c \<or> c = CHR '':'' \<or> c = CHR '' '' then Inr l
         else if c = CHR ''?'' \<or> c = CHR ''#'' then next_part s c (set_host s (b - 1) l)
         else stop False l)"

definition round_port_start :: "char \<Rightarrow> url_loop \<Rightarrow> url_round" where
  "round_port_start c l = (if isdigit c then Inr (l\<lparr>ul_state := Port\<rparr>) else stop False l)"

definition set_port :: "string \<Rightarrow> nat \<Rightarrow> url_loop \<Rightarrow> url_loop" where
  "set_port s j l = l\<lparr>ul_uri := (ul_uri l)\<lparr>uri_port := sub s (ul_part l) j\<rparr>\<rparr>"

definition round_port :: "string \<Rightarrow> char \<Rightarrow> url_loop \<Rightarrow> url_round" where
  "round_port s c l =
     (if c \<in> set ''/?#'' then next_part s c (set_port s (ul_b l - 1) l)
      else if ul_b l = length s then stop True (set_port s (ul_b l) l)
      else if isdigit c then Inr l
      else stop False l)"

definition set_path :: "string \<Rightarrow> nat \<Rightarrow> url_loop \<Rightarrow> url_loop" where
  "set_path s j l = l\<lparr>ul_uri := (ul_uri l)\<lparr>uri_path := sub s (ul_part l) j\<rparr>\<rparr>"

definition path_char :: "char \<Rightarrow> bool" where
  "path_char c \<longleftrightarrow> isunreserved c \<or> issubdelims c \<or> c \<in> set ''%/&:''"

definition round_path :: "string \<Rightarrow> char \<Rightarrow> url_loop \<Rightarrow> url_round" where
  "round_path s c l =
     (if c = CHR ''?'' \<or> c = CHR ''#'' then next_part s c (set_path s (ul_b l - 1) l)
      else if ul_b l = length s then stop True (set_path s (ul_b l) l)
      else if path_char c then Inr l
      else stop False l)"

definition query_char :: "char \<Rightarrow> bool" where
  "query_char c \<longleftrightarrow> ishsegment c \<or> issubdelims c \<or> c = CHR ''/'' \<or> c = CHR ''?''"

definition set_query :: "string \<Rightarrow> nat \<Rightarrow> url_loop \<Rightarrow> url_loop" where
  "set_query s j l = l\<lparr>ul_uri := (ul_uri l)\<lparr>uri_query := sub s (ul_part l) j\<rparr>\<rparr>"

definition round_query :: "string \<Rightarrow> char \<Rightarrow> url_loop \<Rightarrow> url_round" where
  "round_query s c l =
     (if c = CHR ''#'' then next_part s c (set_query s (ul_b l - 1) l)
      else if ul_b l = length s then stop True (set_query s (ul_b l) l)
      else if query_char c then Inr l
      else stop False l)"

definition round_fragment :: "string \<Rightarrow> char \<Rightarrow> url_loop \<Rightarrow> url_round" where
  "round_fragment s c l =
     (if ul_b l = length s
      then stop True (l\<lparr>ul_uri := (ul_uri l)\<lparr>uri_fragment := sub s (ul_part l) (ul_b l)\<rparr>\<rparr>)
      else if query_char c then Inr l
      else stop False l)"

text \<open>One round: \<^verbatim>\<open>auto c = *b++\<close> and the switch.\<close>

definition url_step :: "string \<Rightarrow> url_loop \<Rightarrow> url_round" where
  "url_step s l0 =
     (let c = s ! ul_b l0; l = l0\<lparr>ul_b := ul_b l0 + 1\<rparr>
      in case ul_state l of
           Scheme_start \<Rightarrow> if isalpha c then Inr (l\<lparr>ul_state := Scheme\<rparr>) else stop False l
         | Scheme \<Rightarrow> round_scheme s c l
         | Slash_start \<Rightarrow> round_slash_start s c l
         | Urn \<Rightarrow> round_urn s c l
         | Slash \<Rightarrow>
             if c = CHR ''/'' then Inr (l\<lparr>ul_state := Probe_userinfo_hostname, ul_part := ul_b l\<rparr>) else stop False l
         | Probe_userinfo_hostname \<Rightarrow> round_probe s c l
         | Host_start \<Rightarrow> round_host_start c l
         | Host \<Rightarrow> round_host s c l
         | Port_start \<Rightarrow> round_port_start c l
         | Port \<Rightarrow> round_port s c l
         | Path \<Rightarrow> round_path s c l
         | Query \<Rightarrow> round_query s c l
         | Fragment \<Rightarrow> round_fragment s c l)"

text \<open>A round that steps back by one goes to a state that does not.\<close>

definition steps_back :: "url_state \<Rightarrow> bool" where
  "steps_back st \<longleftrightarrow> st \<in> {Slash_start, Probe_userinfo_hostname, Host, Port}"

definition url_left :: "string \<Rightarrow> url_loop \<Rightarrow> nat" where
  "url_left s l = 2 * (length s - ul_b l) + (if steps_back (ul_state l) then 1 else 0)"

lemma probe_brackets_keeps [simp]:
  "ul_b (probe_brackets c l) = ul_b l" "ul_state (probe_brackets c l) = ul_state l"
  "ul_uri (probe_brackets c l) = ul_uri l" "ul_part (probe_brackets c l) = ul_part l"
  by (simp_all add: probe_brackets_def Let_def)

text \<open>What every round from position \<open>b\<close> gives: it stays inside the URL, and where it steps back it leaves the
  states that may.\<close>

definition progress :: "string \<Rightarrow> nat \<Rightarrow> url_round \<Rightarrow> bool" where
  "progress s b r =
     (case r of Inl _ \<Rightarrow> True
      | Inr l' \<Rightarrow> ul_b l' \<le> length s \<and> (b \<le> ul_b l' \<or> (b = Suc (ul_b l') \<and> \<not> steps_back (ul_state l'))))"

lemma progress_simps [simp]:
  "progress s b (Inl x)"
  "progress s b (Inr l) \<longleftrightarrow>
     ul_b l \<le> length s \<and> (b \<le> ul_b l \<or> (b = Suc (ul_b l) \<and> \<not> steps_back (ul_state l)))"
  by (simp_all add: progress_def)

lemma progress_if: "(P \<Longrightarrow> progress s b x) \<Longrightarrow> (\<not> P \<Longrightarrow> progress s b y) \<Longrightarrow> progress s b (if P then x else y)"
  by simp

lemma to_state_simps [simp]: "ul_b (to_state st p b l) = b" "ul_state (to_state st p b l) = st"
  by (simp_all add: to_state_def)

lemma set_part_keeps [simp]:
  "ul_b (set_host s j l) = ul_b l" "ul_b (set_port s j l) = ul_b l" "ul_b (set_path s j l) = ul_b l"
  "ul_b (set_query s j l) = ul_b l"
  by (simp_all add: set_host_def set_port_def set_path_def set_query_def)

lemma next_part_progress: "0 < ul_b l \<Longrightarrow> ul_b l \<le> length s \<Longrightarrow> ul_b l = b \<Longrightarrow> progress s b (next_part s c l)"
  by (auto simp: next_part_def steps_back_def)

lemma after_v6_progress: "ul_b l < length s \<Longrightarrow> ul_b l = b \<Longrightarrow> progress s b (after_v6 s l)"
  unfolding after_v6_def Let_def by (intro progress_if) simp_all

lemma round_probe_progress:
  "0 < ul_b l \<Longrightarrow> ul_b l \<le> length s \<Longrightarrow> progress s (ul_b l) (round_probe s c l)"
  unfolding round_probe_def Let_def
  by (intro progress_if) (simp_all split: option.split add: next_part_progress)

lemma round_host_progress:
  "0 < ul_b l \<Longrightarrow> ul_b l \<le> length s \<Longrightarrow> progress s (ul_b l) (round_host s c l)"
  unfolding round_host_def Let_def
  by (intro progress_if next_part_progress after_v6_progress) simp_all

lemma round_port_progress:
  "0 < ul_b l \<Longrightarrow> ul_b l \<le> length s \<Longrightarrow> progress s (ul_b l) (round_port s c l)"
  unfolding round_port_def by (intro progress_if next_part_progress) simp_all

lemma next_part_forward: "next_part s c l = Inr l' \<Longrightarrow> c \<noteq> CHR ''/'' \<Longrightarrow> ul_b l' = ul_b l"
  by (auto simp: next_part_def split: if_splits)

lemma round_tail_forward:
  "round_path s c l = Inr l' \<Longrightarrow> ul_b l' = ul_b l"
  "round_query s c l = Inr l' \<Longrightarrow> ul_b l' = ul_b l"
  "round_fragment s c l = Inr l' \<Longrightarrow> ul_b l' = ul_b l"
  by (auto simp: round_path_def round_query_def round_fragment_def dest: next_part_forward split: if_splits)

lemma url_step_progress:
  assumes "url_step s l = Inr l'" and "ul_b l < length s"
  shows "ul_b l' \<le> length s \<and> url_left s l' < url_left s l"
proof -
  let ?l = "l\<lparr>ul_b := Suc (ul_b l)\<rparr>"
  have b: "0 < ul_b ?l" "ul_b ?l \<le> length s" using assms(2) by simp_all
  have left: ?thesis if "progress s (Suc (ul_b l)) (Inr l')" "steps_back (ul_state l)"
    using that assms(2) by (auto simp: url_left_def)
  have go: ?thesis if "ul_b l' = Suc (ul_b l)"
    using that assms(2) by (auto simp: url_left_def)
  show ?thesis
  proof (cases "ul_state l")
    case Probe_userinfo_hostname
    with assms(1) show ?thesis
      using round_probe_progress [OF b, of "s ! ul_b l"] by (intro left) (simp_all add: url_step_def steps_back_def)
  next
    case Host
    with assms(1) show ?thesis
      using round_host_progress [OF b, of "s ! ul_b l"] by (intro left) (simp_all add: url_step_def steps_back_def)
  next
    case Port
    with assms(1) show ?thesis
      using round_port_progress [OF b, of "s ! ul_b l"] by (intro left) (simp_all add: url_step_def steps_back_def)
  next
    case Slash_start
    with assms have "progress s (Suc (ul_b l)) (Inr l')"
      by (simp add: url_step_def round_slash_start_def Let_def steps_back_def split: if_splits) (auto simp: steps_back_def)
    then show ?thesis by (rule left) (simp add: Slash_start steps_back_def)
  next
    case Path
    with assms(1) show ?thesis using round_tail_forward(1) [of s _ ?l] by (intro go) (simp add: url_step_def)
  next
    case Query
    with assms(1) show ?thesis using round_tail_forward(2) [of s _ ?l] by (intro go) (simp add: url_step_def)
  next
    case Fragment
    with assms(1) show ?thesis using round_tail_forward(3) [of s _ ?l] by (intro go) (simp add: url_step_def)
  next
    case Urn
    with assms(1) show ?thesis
      by (intro go) (auto simp: url_step_def round_urn_def Let_def split: if_splits)
  qed (rule go; use assms(1) in \<open>auto simp: url_step_def round_scheme_def round_host_start_def round_port_start_def
      Let_def split: if_splits\<close>)+
qed

function url_run :: "string \<Rightarrow> url_loop \<Rightarrow> bool \<times> uri" where
  "url_run s l =
     (if ul_b l < length s then (case url_step s l of Inl r \<Rightarrow> r | Inr l' \<Rightarrow> url_run s l')
      else (False, ul_uri l))"
  by pat_completeness auto
termination
  by (relation "measure (\<lambda>(s, l). url_left s l)") (auto dest: url_step_progress)

declare url_run.simps [simp del]

definition url_start :: url_loop where
  "url_start = \<lparr>ul_state = Scheme_start, ul_b = 0, ul_part = 0, ul_v6_start = None, ul_v6_end = None,
     ul_ipv6 = False, ul_probe = (0, 0), ul_uri = empty_uri\<rparr>"

definition uri_parse :: "string \<Rightarrow> bool \<times> uri" where
  "uri_parse s = url_run s url_start"

text \<open>The constructor throws where \<^verbatim>\<open>parse\<close> returns false.\<close>

definition make_uri :: "string \<Rightarrow> uri result" where
  "make_uri s = (case uri_parse s of (ok, u) \<Rightarrow> if ok then Inr u else Inl Invalid_argument)"

section \<open>Accessors\<close>

definition known_ports :: "(string \<times> string) list" where
  "known_ports =
     [(''ftp'', ''21''), (''ssh'', ''22''), (''telnet'', ''23''), (''gopher'', ''70''), (''http'', ''80''), (''ws'', ''80''),
      (''nntp'', ''119''), (''ldap'', ''389''), (''https'', ''443''), (''wss'', ''443''), (''rtsp'', ''554''),
      (''socks'', ''1080''), (''socks4'', ''1080''), (''socks5'', ''1080''), (''sip'', ''5060''), (''sips'', ''5061''),
      (''xmpp'', ''5222'')]"

definition knownport :: "uri \<Rightarrow> string" where
  "knownport u = (case List.find (\<lambda>(n, _). iequals (uri_scheme u) n) known_ports of Some (_, p) \<Rightarrow> p | None \<Rightarrow> ''0'')"

definition effective_port :: "uri \<Rightarrow> string" where
  "effective_port u = (if uri_port u \<noteq> [] then uri_port u else knownport u)"

definition path_query :: "uri \<Rightarrow> string" where
  "path_query u = (if uri_query u = [] then uri_path u else uri_path u @ ''?'' @ uri_query u)"

section \<open>The loop ends\<close>

fun url_fuel :: "nat \<Rightarrow> string \<Rightarrow> url_loop \<Rightarrow> (bool \<times> uri) option" where
  "url_fuel 0 s l = None"
| "url_fuel (Suc n) s l =
     (if ul_b l < length s then (case url_step s l of Inl r \<Rightarrow> Some r | Inr l' \<Rightarrow> url_fuel n s l')
      else Some (False, ul_uri l))"

lemma url_fuel_enough: "url_left s l < n \<Longrightarrow> url_fuel n s l = Some (url_run s l)"
proof (induction n arbitrary: l)
  case (Suc n)
  show ?case
  proof (cases "\<exists>l'. ul_b l < length s \<and> url_step s l = Inr l'")
    case True
    then obtain l' where "ul_b l < length s" "url_step s l = Inr l'" by blast
    moreover then have "url_left s l' < n"
      using url_step_progress Suc.prems by fastforce
    ultimately show ?thesis using Suc.IH by (simp add: url_run.simps [of s l])
  next
    case False
    then show ?thesis by (auto simp: url_run.simps [of s l] split: sum.split)
  qed
qed simp

text \<open>(C20) The parser ends: on a URL of \<open>n\<close> bytes the loop is left after at most \<open>2 n + 1\<close> tests of its
  condition, also where a state steps back by one character, and its result is the one of the total function
  the other statements are about.\<close>

theorem uri_parse_ends: "url_fuel (2 * length s + 1) s url_start = Some (uri_parse s)"
  unfolding uri_parse_def by (rule url_fuel_enough) (simp add: url_left_def url_start_def steps_back_def)

section \<open>Percent encoding\<close>

definition encode_char :: "(char \<Rightarrow> bool) \<Rightarrow> char \<Rightarrow> string" where
  "encode_char plain c = (if plain c then [c] else CHR ''%'' # to_hex c)"

definition encodeURI :: "string \<Rightarrow> string" where
  "encodeURI s = concat (map (encode_char (\<lambda>c. isalpha c \<or> isdigit c \<or> uri_mark c \<or> uri_reserved c)) s)"

definition encodeURIComponent :: "string \<Rightarrow> string" where
  "encodeURIComponent s = concat (map (encode_char (\<lambda>c. isalpha c \<or> isdigit c \<or> uri_mark c)) s)"

text \<open>Both decoders read two hexadecimal digits after a percent sign, or throw. \<^verbatim>\<open>decodeURI\<close> leaves an
  escape alone where it stands for a reserved character or \<^verbatim>\<open>#\<close>.\<close>

definition cons_result :: "char \<Rightarrow> string result \<Rightarrow> string result" where
  "cons_result c r = (case r of Inl e \<Rightarrow> Inl e | Inr s \<Rightarrow> Inr (c # s))"

fun uri_decode :: "(char \<Rightarrow> bool) \<Rightarrow> string \<Rightarrow> string result" where
  "uri_decode keep [] = Inr []"
| "uri_decode keep (c # cs) =
     (if c = CHR ''%'' then
        (case cs of
           first # second # rest \<Rightarrow>
             (case (hex_val first, hex_val second) of
                (Some h, Some l) \<Rightarrow>
                  (let d = char_of (h * 16 + l)
                   in if keep d then cons_result c (uri_decode keep cs)
                      else cons_result d (uri_decode keep rest))
              | _ \<Rightarrow> Inl Invalid_argument)
         | _ \<Rightarrow> Inl Invalid_argument)
      else cons_result c (uri_decode keep cs))"

definition decodeURI :: "string \<Rightarrow> string result" where
  "decodeURI s = uri_decode (\<lambda>c. uri_reserved c \<or> c = CHR ''#'') s"

definition uri_decodeURIComponent :: "string \<Rightarrow> string result" where
  "uri_decodeURIComponent s = uri_decode (\<lambda>c. False) s"

lemma cons_result_Inr [simp]: "cons_result c (Inr s) = Inr (c # s)"
  by (simp add: cons_result_def)

lemma hexdigit_not_percent: "d < 16 \<Longrightarrow> hexdigit d \<noteq> CHR ''%''"
proof
  assume "d < 16" "hexdigit d = CHR ''%''"
  then have "hex_val (CHR ''%'') = Some d" using hex_val_hexdigit [of d] by simp
  then show False by (simp add: hex_val_def)
qed

lemma uri_decode_escape:
  "uri_decode keep (CHR ''%'' # to_hex c @ s) =
     (if keep c then cons_result (CHR ''%'') (cons_result (hexdigit (of_char c div 16))
        (cons_result (hexdigit (of_char c mod 16)) (uri_decode keep s)))
      else cons_result c (uri_decode keep s))"
  by (simp add: to_hex_def hexdigit_not_percent)

lemma uri_decode_encode:
  assumes "\<not> plain (CHR ''%'')"
  shows "uri_decode keep (concat (map (encode_char plain) s)) =
    Inr (concat (map (\<lambda>c. if keep c \<and> \<not> plain c then CHR ''%'' # to_hex c else [c]) s))"
proof (induction s)
  case (Cons c s)
  show ?case
  proof (cases "plain c")
    case True
    then have "c \<noteq> CHR ''%''" using assms by auto
    then show ?thesis using Cons True by (simp add: encode_char_def)
  next
    case False
    then show ?thesis
      using Cons uri_decode_escape [of keep c] by (simp add: encode_char_def del: uri_decode.simps(2)) (simp add: to_hex_def)
  qed
qed simp

text \<open>The two decoders of the repository agree: this one and the one the HTTP server uses.\<close>

lemma uri_decodeURIComponent_same: "uri_decodeURIComponent s = decodeURIComponent s"
proof -
  have "uri_decode (\<lambda>c. False) s = decodeURIComponent s"
  proof (induction s rule: length_induct)
    case (1 s)
    show ?case
    proof (cases s)
      case (Cons c cs)
      then have IH: "uri_decode (\<lambda>c. False) t = decodeURIComponent t" if "length t \<le> length cs" for t
        using 1 that by simp
      show ?thesis
      proof (cases "\<exists>a b rest. c = CHR ''%'' \<and> cs = a # b # rest")
        case True
        then obtain a b rest where "c = CHR ''%''" "cs = a # b # rest" by blast
        then show ?thesis
          using Cons IH [of rest] by (simp add: cons_result_def split: option.split)
      next
        case False
        then show ?thesis
          using Cons IH
          by (auto simp: cons_result_def simp del: uri_decode.simps decodeURIComponent.simps
              simp: uri_decode.simps(2) [of _ c cs] decodeURIComponent.simps(2) [of c cs]
              split: list.split)
      qed
    qed simp
  qed
  then show ?thesis by (simp add: uri_decodeURIComponent_def)
qed

text \<open>Percent encoding and decoding: \<^verbatim>\<open>decodeURIComponent\<close>, of \<^verbatim>\<open>util::uri\<close> and of the
  HTTP server, gives back every byte string that \<^verbatim>\<open>encodeURIComponent\<close> wrote, and \<^verbatim>\<open>decodeURI\<close> gives back what \<^verbatim>\<open>encodeURI\<close> wrote except that every
  \<^verbatim>\<open>#\<close> comes back as \<^verbatim>\<open>%23\<close>, because the encoder escapes it and the decoder keeps that escape.\<close>

theorem uri_encode_decode:
  "uri_decodeURIComponent (encodeURIComponent s) = Inr s \<and> decodeURIComponent (encodeURIComponent s) = Inr s \<and>
   decodeURI (encodeURI s) = Inr (concat (map (\<lambda>c. if c = CHR ''#'' then ''%23'' else [c]) s))"
proof -
  have "\<not> isalpha (CHR ''%'')" "\<not> isdigit (CHR ''%'')" "\<not> uri_mark (CHR ''%'')" "\<not> uri_reserved (CHR ''%'')"
    by (simp_all add: isalpha_def isdigit_def uri_mark_def uri_reserved_def)
  note plain = this
  have component: "uri_decodeURIComponent (encodeURIComponent s) = Inr s"
    using plain by (simp add: uri_decodeURIComponent_def encodeURIComponent_def uri_decode_encode)
  have "\<not> (isalpha (CHR ''#'') \<or> isdigit (CHR ''#'') \<or> uri_mark (CHR ''#'') \<or> uri_reserved (CHR ''#''))"
    "CHR ''%'' # to_hex (CHR ''#'') = ''%23''"
    by code_simp+
  moreover from this have "(if (uri_reserved c \<or> c = CHR ''#'') \<and>
      \<not> (isalpha c \<or> isdigit c \<or> uri_mark c \<or> uri_reserved c) then CHR ''%'' # to_hex c else [c]) =
      (if c = CHR ''#'' then ''%23'' else [c])" for c
    by auto
  ultimately have "decodeURI (encodeURI s) = Inr (concat (map (\<lambda>c. if c = CHR ''#'' then ''%23'' else [c]) s))"
    using plain by (simp add: decodeURI_def encodeURI_def uri_decode_encode)
  then show ?thesis using component by (simp add: uri_decodeURIComponent_same)
qed

section \<open>The query string\<close>

text \<open>\<^verbatim>\<open>qs_iterator\<close>: the rest of the query, the current pair and where in the rest its value ends. The length of a value is \<^verbatim>\<open>e - f - 1\<close> of unsigned numbers, so an ampersand before
  the first equals sign gives a view far beyond the string. Moving a past-the-end iterator does arithmetic
  on a null pointer.\<close>

record qs_iterator =
  qi_qs :: string
  qi_value :: "string \<times> string"
  qi_end :: "nat option"

definition find_char :: "char \<Rightarrow> string \<Rightarrow> nat option" where
  "find_char c s = (let n = length (takeWhile (\<lambda>x. x \<noteq> c) s) in if n < length s then Some n else None)"

definition qs_end :: qs_iterator where
  "qs_end = \<lparr>qi_qs = [], qi_value = ([], []), qi_end = None\<rparr>"

definition make_value :: "qs_iterator \<Rightarrow> qs_iterator result" where
  "make_value it =
     (case find_char (CHR ''='') (qi_qs it) of
        None \<Rightarrow> Inr it
      | Some f \<Rightarrow>
          (let e = (case find_char (CHR ''&'') (qi_qs it) of None \<Rightarrow> length (qi_qs it) | Some e \<Rightarrow> e)
           in if e < f + 1 then Inl Undefined
              else Inr (it\<lparr>qi_value := (take f (qi_qs it), take (e - f - 1) (drop (f + 1) (qi_qs it))),
                           qi_end := Some e\<rparr>)))"

definition qs_begin :: "uri \<Rightarrow> qs_iterator result" where
  "qs_begin u = make_value (qs_end\<lparr>qi_qs := uri_query u\<rparr>)"

definition qs_increment :: "qs_iterator \<Rightarrow> qs_iterator result" where
  "qs_increment it =
     (case qi_end it of
        None \<Rightarrow> Inl Undefined
      | Some e \<Rightarrow>
          (let second = e + 1; it1 = it\<lparr>qi_value := ([], []), qi_end := None\<rparr>
           in if length (qi_qs it) \<le> second then Inr it1
              else make_value (it1\<lparr>qi_qs := drop second (qi_qs it)\<rparr>)))"

definition qs_equal :: "qs_iterator \<Rightarrow> qs_iterator \<Rightarrow> bool" where
  "qs_equal a b \<longleftrightarrow> qi_value a = qi_value b"

text \<open>The pairs a loop from \<^verbatim>\<open>qs_begin\<close> to \<^verbatim>\<open>qs_end\<close> sees. Every step shortens the rest or ends
  the loop.\<close>

definition qs_left :: "qs_iterator \<Rightarrow> nat" where
  "qs_left it = (case qi_end it of None \<Rightarrow> 0 | Some _ \<Rightarrow> Suc (length (qi_qs it)))"

lemma make_value_keeps: "make_value it = Inr it' \<Longrightarrow> qi_qs it' = qi_qs it"
  by (auto simp: make_value_def Let_def split: option.splits if_splits)

lemma qs_increment_left: "qs_increment it = Inr it' \<Longrightarrow> qs_left it' < qs_left it"
  by (auto simp: qs_increment_def qs_left_def Let_def dest!: make_value_keeps split: option.splits if_splits)

function qs_items :: "qs_iterator \<Rightarrow> (string \<times> string) list result" where
  "qs_items it =
     (if qs_equal it qs_end then Inr []
      else case qs_increment it of
        Inl e \<Rightarrow> Inl e
      | Inr it' \<Rightarrow> (case qs_items it' of Inl e \<Rightarrow> Inl e | Inr kvs \<Rightarrow> Inr (qi_value it # kvs)))"
  by pat_completeness auto
termination
  by (relation "measure qs_left") (auto dest: qs_increment_left)

declare qs_items.simps [simp del]

definition pair_text :: "string \<times> string \<Rightarrow> string" where
  "pair_text kv = fst kv @ ''='' @ snd kv"

definition query_string :: "(string \<times> string) list \<Rightarrow> string" where
  "query_string kvs = (case kvs of [] \<Rightarrow> [] | kv # rest \<Rightarrow> pair_text kv @ concat (map (\<lambda>x. CHR ''&'' # pair_text x) rest))"

definition pair_ok :: "string \<times> string \<Rightarrow> bool" where
  "pair_ok kv \<longleftrightarrow> fst kv \<noteq> [] \<and> CHR ''='' \<notin> set (fst kv) \<and> CHR ''&'' \<notin> set (fst kv) \<and> CHR ''&'' \<notin> set (snd kv)"

lemma find_char_append: "c \<notin> set a \<Longrightarrow> find_char c (a @ c # b) = Some (length a)"
  by (induction a) (auto simp: find_char_def Let_def split: if_splits)

lemma find_char_none: "find_char c s = None \<longleftrightarrow> c \<notin> set s"
  by (induction s) (auto simp: find_char_def Let_def split: if_splits)

lemma make_value_pair:
  assumes "pair_ok kv" "r = [] \<or> (\<exists>t. r = CHR ''&'' # t)" "qi_qs it = pair_text kv @ r"
  shows "make_value it = Inr (it\<lparr>qi_value := kv, qi_end := Some (length (pair_text kv))\<rparr>)"
proof -
  have f: "find_char (CHR ''='') (qi_qs it) = Some (length (fst kv))"
    using assms find_char_append [of "CHR ''=''" "fst kv"] by (simp add: pair_ok_def pair_text_def)
  have e: "(case find_char (CHR ''&'') (qi_qs it) of None \<Rightarrow> length (qi_qs it) | Some e \<Rightarrow> e) = length (pair_text kv)"
    using assms find_char_append [of "CHR ''&''" "pair_text kv"] find_char_none [of "CHR ''&''" "pair_text kv"]
    by (auto simp: pair_ok_def pair_text_def)
  show ?thesis
    using assms(3) unfolding make_value_def f option.case e by (simp add: pair_text_def Let_def)
qed

lemma qs_items_text:
  assumes "list_all pair_ok (kv # kvs)" "qi_qs it = query_string (kv # kvs)" "make_value it = Inr it'"
  shows "qs_items it' = Inr (kv # kvs)"
  using assms
proof (induction kvs arbitrary: kv it it')
  case Nil
  then have "it' = it\<lparr>qi_value := kv, qi_end := Some (length (pair_text kv))\<rparr>"
    using make_value_pair [of kv "[]" it] by (simp add: query_string_def)
  then show ?case
    using Nil by (auto simp: qs_items.simps [of it'] qs_items.simps qs_equal_def qs_end_def qs_increment_def
      query_string_def pair_ok_def Let_def)
next
  case (Cons kv2 kvs)
  then have it': "it' = it\<lparr>qi_value := kv, qi_end := Some (length (pair_text kv))\<rparr>"
    using make_value_pair [of kv "concat (map (\<lambda>x. CHR ''&'' # pair_text x) (kv2 # kvs))" it] by (simp add: query_string_def)
  define it2 where "it2 = it\<lparr>qi_value := ([], []), qi_end := None, qi_qs := query_string (kv2 # kvs)\<rparr>"
  obtain it3 where it3: "make_value it2 = Inr it3"
    using make_value_pair [of kv2 "concat (map (\<lambda>x. CHR ''&'' # pair_text x) kvs)" it2] Cons.prems(1)
    by (cases kvs) (simp_all add: query_string_def it2_def)
  have "qs_increment it' = make_value it2"
    using Cons.prems(2) by (simp add: it' qs_increment_def it2_def query_string_def Let_def pair_text_def)
  moreover have "\<not> qs_equal it' qs_end"
    using Cons.prems(1) by (auto simp: it' qs_equal_def qs_end_def pair_ok_def)
  moreover have v: "qi_value it' = kv" by (simp add: it')
  ultimately show ?case
    using it3 Cons.IH [of kv2 it2 it3] Cons.prems(1) v by (simp add: qs_items.simps [of it'] it2_def)
qed

text \<open>Iterating over a query string: for any list of pairs whose keys are not empty and hold neither
  \<^verbatim>\<open>=\<close> nor \<^verbatim>\<open>&\<close> and whose values hold no \<^verbatim>\<open>&\<close>, the loop over \<^verbatim>\<open>key=value&key=value\<close>
  sees exactly these pairs in this order.\<close>

theorem query_string_items:
  assumes "list_all pair_ok (kv # kvs)" "uri_query u = query_string (kv # kvs)"
  shows "\<exists>it. qs_begin u = Inr it \<and> qs_items it = Inr (kv # kvs)"
proof -
  let ?it = "qs_end\<lparr>qi_qs := uri_query u\<rparr>"
  obtain it where "make_value ?it = Inr it"
    using make_value_pair [of kv "concat (map (\<lambda>x. CHR ''&'' # pair_text x) kvs)" ?it] assms
    by (cases kvs) (simp_all add: query_string_def)
  then show ?thesis using qs_items_text [OF assms(1), of ?it it] assms(2) by (simp add: qs_begin_def)
qed

definition sample_uri :: uri where
  "sample_uri = \<lparr>uri_scheme = ''https'', uri_username = ''me'', uri_password = ''s:t'', uri_host = ''shop.cn'',
     uri_port = ''8443'', uri_path = ''/goods/7'', uri_query = ''a=1'', uri_fragment = ''top''\<rparr>"

theorem query_string_items_witness:
  "uri_query sample_uri = query_string [(''a'', ''1'')] \<and>
   (\<exists>it. qs_begin sample_uri = Inr it \<and> qs_items it = Inr [(''a'', ''1'')])"
proof -
  have ok: "list_all pair_ok [(''a'', ''1'')]" and q: "uri_query sample_uri = query_string [(''a'', ''1'')]"
    by code_simp+
  show ?thesis using query_string_items [OF ok q] q by blast
qed
end
