(* ===== verification/Url_Print.thy ===== *)
theory Url_Print
  imports Url
begin

text \<open>
  The text of a URL and that the parser of \<^verbatim>\<open>utils/url_parser.hpp\<close> reads it back: one lemma per state
  of its machine says how a segment of allowed characters is read up to what follows it.
\<close>

section \<open>Printing and parsing back\<close>

lemma url_run_Inr: "url_step s l = Inr l' \<Longrightarrow> ul_b l < length s \<Longrightarrow> url_run s l = url_run s l'"
  by (simp add: url_run.simps [of s l])

lemma url_run_Inl: "url_step s l = Inl r \<Longrightarrow> ul_b l < length s \<Longrightarrow> url_run s l = r"
  by (simp add: url_run.simps [of s l])

lemma url_scan:
  assumes "\<And>k. ul_b l \<le> k \<Longrightarrow> k < ul_b l + n \<Longrightarrow> url_step s (l\<lparr>ul_b := k\<rparr>) = Inr (l\<lparr>ul_b := Suc k\<rparr>)"
    and "ul_b l + n \<le> length s"
  shows "url_run s l = url_run s (l\<lparr>ul_b := ul_b l + n\<rparr>)"
  using assms
proof (induction n)
  case (Suc n)
  have "url_run s (l\<lparr>ul_b := ul_b l + n\<rparr>) = url_run s (l\<lparr>ul_b := Suc (ul_b l + n)\<rparr>)"
    using Suc.prems by (intro url_run_Inr) simp_all
  with Suc show ?case by simp
qed simp

text \<open>A segment of the URL at a position, and what follows it.\<close>

definition rest_at :: "string \<Rightarrow> nat \<Rightarrow> string \<Rightarrow> bool" where
  "rest_at s i r \<longleftrightarrow> i \<le> length s \<and> drop i s = r"

lemma at_seg:
  assumes "rest_at s i (seg @ r)"
  shows "rest_at s (i + length seg) r" "sub s i (i + length seg) = seg" "length s = i + length seg + length r"
    "\<And>k. i \<le> k \<Longrightarrow> k < i + length seg \<Longrightarrow> s ! k \<in> set seg"
proof -
  have d: "i \<le> length s" "drop i s = seg @ r"
    using assms by (simp_all add: rest_at_def)
  then show len: "length s = i + length seg + length r"
    by (metis add.assoc add_diff_inverse_nat length_append length_drop not_less)
  have "drop (i + length seg) s = drop (length seg) (drop i s)"
    by (simp add: add.commute)
  then show "rest_at s (i + length seg) r"
    using d len by (simp add: rest_at_def)
  show "sub s i (i + length seg) = seg"
    using d by (simp add: sub_def)
  show "s ! k \<in> set seg" if "i \<le> k" "k < i + length seg" for k
  proof -
    have "s ! k = (seg @ r) ! (k - i)"
      using d that by (metis le_add_diff_inverse nth_drop)
    moreover have "k - i < length seg" using that by simp
    ultimately show ?thesis by (simp add: nth_append)
  qed
qed

lemma at_last: "rest_at s i (seg @ []) \<Longrightarrow> seg \<noteq> [] \<Longrightarrow> s ! (length s - 1) \<in> set seg"
  using at_seg(3,4) [of s i seg "[]"] by (cases seg) simp_all

lemma at_Cons:
  assumes "rest_at s i (c # r)"
  shows "s ! i = c" "i < length s" "rest_at s (Suc i) r" "length s = Suc (i + length r)"
  using at_seg [of s i "[c]" r] assms by simp_all

lemma url_run_step:
  "ul_b l < length s \<Longrightarrow> url_run s l = (case url_step s l of Inl x \<Rightarrow> x | Inr l' \<Rightarrow> url_run s l')"
  by (simp add: url_run.simps [of s l])

definition run_next :: "string \<Rightarrow> url_round \<Rightarrow> bool \<times> uri" where
  "run_next s r = (case r of Inl x \<Rightarrow> x | Inr l' \<Rightarrow> url_run s l')"

lemma run_next_simps [simp]: "run_next s (Inl x) = x" "run_next s (Inr l) = url_run s l"
  by (simp_all add: run_next_def)

text \<open>A segment of characters the state accepts is read up to the character behind it, or up to the last
  character of the URL.\<close>

lemma segment:
  assumes "rest_at s (ul_b l) (seg @ r)"
    and "\<And>k. s ! k \<in> set seg \<Longrightarrow> Suc k < length s \<Longrightarrow> url_step s (l\<lparr>ul_b := k\<rparr>) = Inr (l\<lparr>ul_b := Suc k\<rparr>)"
  shows segment_inner: "r \<noteq> [] \<Longrightarrow> url_run s l = run_next s (url_step s (l\<lparr>ul_b := ul_b l + length seg\<rparr>))"
    and segment_last: "r = [] \<Longrightarrow> seg \<noteq> [] \<Longrightarrow> url_run s l = run_next s (url_step s (l\<lparr>ul_b := length s - 1\<rparr>))"
proof -
  note a = at_seg [OF assms(1)]
  show "url_run s l = run_next s (url_step s (l\<lparr>ul_b := ul_b l + length seg\<rparr>))" if "r \<noteq> []"
  proof -
    have "url_run s l = url_run s (l\<lparr>ul_b := ul_b l + length seg\<rparr>)"
    proof (rule url_scan)
      fix k assume "ul_b l \<le> k" "k < ul_b l + length seg"
      with that show "url_step s (l\<lparr>ul_b := k\<rparr>) = Inr (l\<lparr>ul_b := Suc k\<rparr>)"
        by (intro assms(2) a(4)) (simp_all add: a(3) neq_Nil_conv, auto)
    qed (simp add: a(3))
    then show ?thesis using that a(3) by (simp add: url_run_step run_next_def)
  qed
  show "url_run s l = run_next s (url_step s (l\<lparr>ul_b := length s - 1\<rparr>))" if r: "r = []" "seg \<noteq> []"
  proof -
    have n: "ul_b l + (length seg - 1) = length s - 1" "0 < length seg"
      using r a(3) by (cases seg; simp)+
    have "url_run s l = url_run s (l\<lparr>ul_b := ul_b l + (length seg - 1)\<rparr>)"
      using n a(3) r by (intro url_scan assms(2) a(4)) auto
    then show ?thesis using n a(3) r by (simp add: url_run_step run_next_def)
  qed
qed

definition fragment_text :: "string \<Rightarrow> string" where
  "fragment_text f = (if f = [] then [] else CHR ''#'' # f)"

definition query_text :: "string \<Rightarrow> string \<Rightarrow> string" where
  "query_text q f = (if q = [] then fragment_text f else CHR ''?'' # q @ fragment_text f)"

lemma query_char_not: "query_char c \<Longrightarrow> c \<noteq> CHR ''#''"
  by (auto simp: query_char_def ishsegment_def isuchar_def isunreserved_def issubdelims_def isalpha_def isdigit_def Let_def)

lemma path_char_not: "path_char c \<Longrightarrow> c \<noteq> CHR ''#'' \<and> c \<noteq> CHR ''?''"
  by (auto simp: path_char_def isunreserved_def issubdelims_def isalpha_def isdigit_def Let_def)

lemma run_fragment:
  assumes "rest_at s (ul_b l) f" "f \<noteq> []" "\<forall>c\<in>set f. query_char c" "ul_state l = Fragment" "ul_part l = ul_b l"
  shows "url_run s l = (True, (ul_uri l)\<lparr>uri_fragment := f\<rparr>)"
proof -
  have a: "rest_at s (ul_b l) (f @ [])" using assms by simp
  have st: "url_step s (l\<lparr>ul_b := k\<rparr>) = Inr (l\<lparr>ul_b := Suc k\<rparr>)" if "s ! k \<in> set f" "Suc k < length s" for k
    using that assms by (simp add: url_step_def round_fragment_def)
  show ?thesis
    using segment_last [OF a st] assms at_seg [OF a] by (simp add: url_step_def round_fragment_def)
qed

lemma run_query:
  assumes "rest_at s (ul_b l) (q @ fragment_text f)" "q \<noteq> []" "\<forall>c\<in>set q. query_char c" "\<forall>c\<in>set f. query_char c"
    and "ul_state l = Query" "ul_part l = ul_b l" "uri_fragment (ul_uri l) = []"
  shows "url_run s l = (True, (ul_uri l)\<lparr>uri_query := q, uri_fragment := f\<rparr>)"
proof -
  note a = at_seg [OF assms(1)]
  have st: "url_step s (l\<lparr>ul_b := k\<rparr>) = Inr (l\<lparr>ul_b := Suc k\<rparr>)" if "s ! k \<in> set q" "Suc k < length s" for k
    using that assms query_char_not by (auto simp: url_step_def round_query_def)
  show ?thesis
  proof (cases "f = []")
    case True
    then have "s ! (length s - 1) \<in> set q"
      using at_last assms(1,2) by (simp add: fragment_text_def)
    then show ?thesis
      using segment_last [OF assms(1) st] assms(2-) a True query_char_not
      by (auto simp: url_step_def round_query_def fragment_text_def set_query_def)
  next
    case False
    then have "rest_at s (ul_b l + length q) (CHR ''#'' # f)" using a(1) by (simp add: fragment_text_def)
    note c = at_Cons [OF this]
    have "url_run s l = url_run s (to_state Fragment (Suc (ul_b l + length q)) (Suc (ul_b l + length q))
        (set_query s (ul_b l + length q) l))"
      using segment_inner [OF assms(1) st] assms(2-) a c False
      by (simp add: url_step_def round_query_def fragment_text_def next_part_def set_query_def to_state_def)
    also have "\<dots> = (True, (ul_uri l)\<lparr>uri_query := q, uri_fragment := f\<rparr>)"
      using c(3) False assms a(2) by (subst run_fragment) (simp_all add: to_state_def set_query_def)
    finally show ?thesis .
  qed
qed

lemma next_query:
  assumes "rest_at s j (c # r)" "c # r = query_text q f" "ul_b l = Suc j"
    and "\<forall>c\<in>set q. query_char c" "\<forall>c\<in>set f. query_char c"
    and "uri_query (ul_uri l) = []" "uri_fragment (ul_uri l) = []"
  shows "run_next s (next_part s c l) = (True, (ul_uri l)\<lparr>uri_query := q, uri_fragment := f\<rparr>)"
proof (cases "q = []")
  case True
  then have r: "c = CHR ''#''" "r = f" "f \<noteq> []"
    using assms(2) by (auto simp: query_text_def fragment_text_def split: if_splits)
  have u: "ul_uri l = (ul_uri l)\<lparr>uri_query := []\<rparr>"
    using assms(6) by (cases "ul_uri l") simp
  have "run_next s (next_part s c l) = url_run s (to_state Fragment (Suc j) (Suc j) l)"
    using r at_Cons [OF assms(1)] assms(3) by (simp add: next_part_def)
  also have "\<dots> = (True, (ul_uri l)\<lparr>uri_fragment := f\<rparr>)"
    using r at_Cons(3) [OF assms(1)] assms(5) by (subst run_fragment) (simp_all add: to_state_def)
  finally show ?thesis using True u by simp
next
  case False
  then have r: "c = CHR ''?''" "r = q @ fragment_text f"
    using assms(2) by (auto simp: query_text_def)
  then have "run_next s (next_part s c l) = url_run s (to_state Query (Suc j) (Suc j) l)"
    using False at_Cons [OF assms(1)] assms(3) by (simp add: next_part_def)
  also have "\<dots> = (True, (ul_uri l)\<lparr>uri_query := q, uri_fragment := f\<rparr>)"
    using r False at_Cons(3) [OF assms(1)] assms(4-) by (subst run_query) (simp_all add: to_state_def)
  finally show ?thesis .
qed

lemma query_text_cases:
  obtains (none) "query_text q f = []" "q = []" "f = []"
    | (some) c r where "query_text q f = c # r" "c = CHR ''?'' \<or> c = CHR ''#''"
  by (cases "q = []"; cases "f = []") (auto simp: query_text_def fragment_text_def)

lemma run_path:
  assumes "rest_at s (ul_b l) (p @ query_text q f)" "p \<noteq> []" "\<forall>c\<in>set p. path_char c"
    and "\<forall>c\<in>set q. query_char c" "\<forall>c\<in>set f. query_char c" "ul_state l = Path" "ul_part l = ul_b l"
    and u: "uri_query (ul_uri l) = []" "uri_fragment (ul_uri l) = []"
  shows "url_run s l = (True, (ul_uri l)\<lparr>uri_path := p, uri_query := q, uri_fragment := f\<rparr>)"
proof -
  note a = at_seg [OF assms(1)]
  have st: "url_step s (l\<lparr>ul_b := k\<rparr>) = Inr (l\<lparr>ul_b := Suc k\<rparr>)" if "s ! k \<in> set p" "Suc k < length s" for k
    using that assms path_char_not by (auto simp: url_step_def round_path_def)
  show ?thesis
  proof (cases rule: query_text_cases [of q f])
    case none
    then have "path_char (s ! (length s - 1))"
      using at_last assms(1-3) by simp
    then have c: "s ! (length s - 1) \<noteq> CHR ''?''" "s ! (length s - 1) \<noteq> CHR ''#''"
      using path_char_not by auto
    have l: "Suc (length s - 1) = length s" using a(3) assms(2) by (cases p) simp_all
    have "url_run s l = (True, (ul_uri l)\<lparr>uri_path := p\<rparr>)"
      using segment_last [OF assms(1) st] assms(2-) a none(1) c l
      by (simp add: url_step_def round_path_def set_path_def)
    moreover have "(ul_uri l)\<lparr>uri_path := p\<rparr> = (ul_uri l)\<lparr>uri_path := p, uri_query := q, uri_fragment := f\<rparr>"
      using u none by (cases "ul_uri l") simp
    ultimately show ?thesis by simp
  next
    case (some c r)
    then have t: "rest_at s (ul_b l + length p) (c # r)" using a(1) by simp
    have "url_run s l = run_next s (next_part s c
        (set_path s (ul_b l + length p) (l\<lparr>ul_b := Suc (ul_b l + length p)\<rparr>)))"
      using segment_inner [OF assms(1) st] assms(2-) at_Cons(1) [OF t] some
      by (auto simp: url_step_def round_path_def)
    also have "\<dots> = (True, (ul_uri l)\<lparr>uri_path := p, uri_query := q, uri_fragment := f\<rparr>)"
      using some(1) assms(4-) a(2) by (subst next_query [OF t]) (simp_all add: set_path_def)
    finally show ?thesis .
  qed
qed

text \<open>What may follow an authority, and the end of an authority at \<open>j\<close>.\<close>

definition tail_ok :: "string \<Rightarrow> string \<Rightarrow> string \<Rightarrow> bool" where
  "tail_ok p q f \<longleftrightarrow> (p = [] \<or> hd p = CHR ''/'') \<and> list_all path_char p \<and> list_all query_char q \<and> list_all query_char f"

lemma next_tail:
  assumes "rest_at s j (c # r)" "c # r = p @ query_text q f" "ul_b l = Suc j" "tail_ok p q f"
    and "uri_path (ul_uri l) = []" "uri_query (ul_uri l) = []" "uri_fragment (ul_uri l) = []"
  shows "run_next s (next_part s c l) = (True, (ul_uri l)\<lparr>uri_path := p, uri_query := q, uri_fragment := f\<rparr>)"
proof (cases "p = []")
  case True
  have u: "(ul_uri l)\<lparr>uri_path := []\<rparr> = ul_uri l"
    using assms(5) by (cases "ul_uri l") simp
  show ?thesis
    using next_query [OF assms(1) _ assms(3)] assms(2,4-) True by (simp add: u tail_ok_def list_all_iff)
next
  case False
  then have c: "c = CHR ''/''" using assms(2,4) by (cases p) (auto simp: tail_ok_def)
  have "run_next s (next_part s c l) = url_run s (to_state Path j j l)"
    using assms(3) by (simp add: next_part_def c)
  also have "\<dots> = (True, (ul_uri l)\<lparr>uri_path := p, uri_query := q, uri_fragment := f\<rparr>)"
    using assms(1,2,4-) False
    by (subst run_path) (simp_all add: to_state_def tail_ok_def list_all_iff)
  finally show ?thesis .
qed

lemma query_text_rest: "query_text q f = c # r \<Longrightarrow> r \<noteq> []"
  by (auto simp: query_text_def fragment_text_def split: if_splits)

abbreviation tail_text :: "string \<Rightarrow> string \<Rightarrow> string \<Rightarrow> string" where
  "tail_text p q f \<equiv> p @ query_text q f"

definition set_tail :: "string \<Rightarrow> string \<Rightarrow> string \<Rightarrow> uri \<Rightarrow> uri" where
  "set_tail p q f u = u\<lparr>uri_path := p, uri_query := q, uri_fragment := f\<rparr>"

definition no_tail :: "uri \<Rightarrow> bool" where
  "no_tail u \<longleftrightarrow> uri_path u = [] \<and> uri_query u = [] \<and> uri_fragment u = []"

lemma set_no_tail: "no_tail u \<Longrightarrow> set_tail [] [] [] u = u"
  by (cases u) (simp add: set_tail_def no_tail_def)

lemma tail_text_cases:
  assumes "tail_ok p q f"
  obtains (none) "p = []" "q = []" "f = []" "query_text q f = []"
    | (some) c r where "tail_text p q f = c # r" "c = CHR ''/'' \<or> c = CHR ''?'' \<or> c = CHR ''#''"
proof (cases p)
  case Nil
  then show ?thesis by (cases rule: query_text_cases [of q f]) (auto intro: none some)
next
  case (Cons c r)
  then show ?thesis using assms by (auto simp: tail_ok_def intro: some)
qed

lemma host_char_not:
  "host_char c \<Longrightarrow> c \<noteq> CHR ''/'' \<and> c \<noteq> CHR ''?'' \<and> c \<noteq> CHR ''#'' \<and> c \<noteq> CHR '':'' \<and> c \<noteq> CHR ''@'' \<and> c \<noteq> CHR ''['' \<and> c \<noteq> CHR '']''"
  by (auto simp: host_char_def isunreserved_def issubdelims_def isalpha_def isdigit_def Let_def)

lemma isdigit_host_char: "isdigit c \<Longrightarrow> host_char c"
  by (simp add: host_char_def isunreserved_def)

lemma run_port_start:
  assumes "rest_at s (ul_b l) (n @ tail_text p q f)" "n \<noteq> []" "\<forall>c\<in>set n. isdigit c" "tail_ok p q f"
    and "tail_text p q f = [] \<longrightarrow> 2 \<le> length n"
    and "ul_state l = Port_start" "ul_part l = ul_b l" "no_tail (ul_uri l)"
  shows "url_run s l = (True, set_tail p q f ((ul_uri l)\<lparr>uri_port := n\<rparr>))"
proof -
  obtain d ds where n: "n = d # ds" using assms(2) by (cases n) auto
  define m where "m = l\<lparr>ul_b := Suc (ul_b l), ul_state := Port\<rparr>"
  note a = at_seg [OF assms(1)]
  have at: "rest_at s (ul_b m) (ds @ tail_text p q f)" "s ! ul_b l = d" "ul_b l < length s"
    using at_Cons [of s "ul_b l" d "ds @ tail_text p q f"] assms(1) by (simp_all add: n m_def)
  have start: "url_run s l = url_run s m"
    using at assms(3,6) by (simp add: url_run_step url_step_def round_port_start_def n m_def)
  have st: "url_step s (m\<lparr>ul_b := k\<rparr>) = Inr (m\<lparr>ul_b := Suc k\<rparr>)" if "s ! k \<in> set ds" "Suc k < length s" for k
    using that assms(3) host_char_not [OF isdigit_host_char] n
    by (auto simp: url_step_def round_port_def m_def)
  from assms(4) show ?thesis
  proof (cases rule: tail_text_cases)
    case none
    then have "ds \<noteq> []" using assms(5) n by auto
    moreover have "host_char (s ! (length s - 1))"
      using at_last [of s "ul_b m" ds] at none calculation assms(3) n isdigit_host_char by auto
    moreover have "Suc (length s - 1) = length s" using a(3) assms(2) by (cases n) simp_all
    ultimately have "url_run s m = (True, (ul_uri l)\<lparr>uri_port := n\<rparr>)"
      using segment_last [OF at(1) st] a none assms(7) host_char_not [of "s ! (length s - 1)"]
      by (simp add: url_step_def round_port_def set_port_def m_def)
    then show ?thesis using start none set_no_tail assms(8) by (simp add: no_tail_def)
  next
    case (some c r)
    then have t: "rest_at s (ul_b l + length n) (c # r)" using a(1) by simp
    have "url_run s m = run_next s (next_part s c
        (set_port s (ul_b l + length n) (m\<lparr>ul_b := Suc (ul_b l + length n)\<rparr>)))"
      using segment_inner [OF at(1) st] at_Cons(1) [OF t] some n
      by (auto simp: url_step_def round_port_def m_def)
    also have "\<dots> = (True, set_tail p q f ((ul_uri l)\<lparr>uri_port := n\<rparr>))"
      using some(1) assms(4,7,8) a(2)
      by (subst next_tail [OF t]) (simp_all add: set_port_def m_def no_tail_def set_tail_def)
    finally show ?thesis using start by simp
  qed
qed

definition port_text :: "string \<Rightarrow> string" where
  "port_text n = (if n = [] then [] else CHR '':'' # n)"

text \<open>After the user information a host or a port of one character is only accepted where something follows it,
  and a path that is only a slash is taken for the end of the host.\<close>

definition authority_ends :: "string \<Rightarrow> string \<Rightarrow> string \<Rightarrow> bool" where
  "authority_ends h n t \<longleftrightarrow>
     (if n = [] then t \<noteq> ''/'' \<and> (t = [] \<longrightarrow> 2 \<le> length h) else t = [] \<longrightarrow> 2 \<le> length n)"

lemma run_host_start:
  assumes "rest_at s (ul_b l) (h @ port_text n @ tail_text p q f)" "h \<noteq> []" "\<forall>c\<in>set h. host_char c"
    and "\<forall>c\<in>set n. isdigit c" "tail_ok p q f" "authority_ends h n (tail_text p q f)"
    and "ul_state l = Host_start" "ul_part l = ul_b l" "\<not> ul_ipv6 l" "no_tail (ul_uri l)" "uri_port (ul_uri l) = []"
  shows "url_run s l = (True, set_tail p q f ((ul_uri l)\<lparr>uri_host := h, uri_port := n\<rparr>))"
proof -
  obtain d ds where h: "h = d # ds" using assms(2) by (cases h) auto
  define m where "m = l\<lparr>ul_b := Suc (ul_b l), ul_state := Host\<rparr>"
  note a = at_seg [OF assms(1)]
  have at: "rest_at s (ul_b m) (ds @ port_text n @ tail_text p q f)" "s ! ul_b l = d" "ul_b l < length s"
    using at_Cons [of s "ul_b l" d "ds @ port_text n @ tail_text p q f"] assms(1) by (simp_all add: h m_def)
  have "d \<noteq> CHR ''[''" using host_char_not assms(3) h by auto
  then have start: "url_run s l = url_run s m"
    using at assms(3,7) by (simp add: url_run_step url_step_def round_host_start_def h m_def)
  have st: "url_step s (m\<lparr>ul_b := k\<rparr>) = Inr (m\<lparr>ul_b := Suc k\<rparr>)" if "s ! k \<in> set ds" "Suc k < length s" for k
    using that assms(3,9) host_char_not [of "s ! k"] h
    by (simp add: url_step_def round_host_def m_def)
  have port: "(ul_uri l)\<lparr>uri_host := h, uri_port := []\<rparr> = (ul_uri l)\<lparr>uri_host := h\<rparr>"
    using assms(11) by (cases "ul_uri l") simp
  show ?thesis
  proof (cases "n = []")
    case False
    then have t: "rest_at s (ul_b l + length h) (CHR '':'' # n @ tail_text p q f)"
      using a(1) by (simp add: port_text_def)
    have "url_run s m = url_run s (to_state Port_start (Suc (ul_b l + length h)) (Suc (ul_b l + length h))
        (set_host s (ul_b l + length h) m))"
      using segment_inner [OF at(1) st] at_Cons [OF t] False h assms(9)
      by (simp add: url_step_def round_host_def m_def port_text_def to_state_def set_host_def)
    also have "\<dots> = (True, set_tail p q f ((ul_uri l)\<lparr>uri_host := h, uri_port := n\<rparr>))"
      using at_Cons(3) [OF t] False assms(4-6,8,10) a(2)
      by (subst run_port_start [of s _ n p q f]) (simp_all add: to_state_def set_host_def m_def authority_ends_def no_tail_def)
    finally show ?thesis using start by simp
  next
    case n: True
    from assms(5) show ?thesis
    proof (cases rule: tail_text_cases)
      case none
      then have "ds \<noteq> []" using assms(6) n h by (auto simp: authority_ends_def)
      moreover have "host_char (s ! (length s - 1))"
        using at_last [of s "ul_b m" ds] at none calculation assms(3) n h by (auto simp: port_text_def)
      moreover have "Suc (length s - 1) = length s" using a(3) assms(2) by (cases h) simp_all
      ultimately have "url_run s m = (True, (ul_uri l)\<lparr>uri_host := h\<rparr>)"
        using segment_last [OF at(1) st] a none n assms(8) host_char_not [of "s ! (length s - 1)"]
        by (simp add: url_step_def round_host_def set_host_def m_def port_text_def)
      then show ?thesis using start none n set_no_tail assms(10) port by (simp add: no_tail_def)
    next
      case (some c r)
      then have t: "rest_at s (ul_b l + length h) (c # r)" using a(1) n by (simp add: port_text_def)
      then have end_not: "Suc (ul_b l + length h) \<noteq> length s"
        using at_Cons(4) [OF t] query_text_rest [of q f c r] some assms(6) n
        assms(5) by (cases p) (auto simp: authority_ends_def tail_ok_def)
      have "url_run s m = run_next s (next_part s c
          (set_host s (ul_b l + length h) (m\<lparr>ul_b := Suc (ul_b l + length h)\<rparr>)))"
        using segment_inner [OF at(1) st] at_Cons(1) [OF t] some h n assms(9) end_not
        by (auto simp: url_step_def round_host_def m_def port_text_def host_char_def isunreserved_def issubdelims_def
            isalpha_def isdigit_def)
      also have "\<dots> = (True, set_tail p q f ((ul_uri l)\<lparr>uri_host := h\<rparr>))"
        using some(1) assms(5,8,10) a(2)
        by (subst next_tail [OF t]) (simp_all add: set_host_def m_def no_tail_def set_tail_def)
      finally show ?thesis using start n port by simp
    qed
  qed
qed

lemma probe_brackets_other [simp]: "c \<noteq> CHR ''['' \<Longrightarrow> c \<noteq> CHR '']'' \<Longrightarrow> probe_brackets c l = l"
  by (simp add: probe_brackets_def)

lemma probe_step:
  assumes "host_char (s ! k) \<or> (s ! k = CHR '':'' \<and> snd (ul_probe l) \<noteq> 0)" "Suc k < length s"
    and "ul_state l = Probe_userinfo_hostname" "\<not> ul_ipv6 l"
  shows "url_step s (l\<lparr>ul_b := k\<rparr>) = Inr (l\<lparr>ul_b := Suc k\<rparr>)"
  using assms host_char_not [of "s ! k"]
  by (auto simp: url_step_def round_probe_def host_char_def)

text \<open>In the probing state the authority of \<open>host_start\<close> and \<open>port_start\<close> above is read in one go.\<close>

lemma probe_end:
  assumes "rest_at s (ul_b l) (seg @ tail_text p q f)" "\<forall>c\<in>set seg. host_char c" "seg \<noteq> []" "tail_ok p q f"
    and "ul_state l = Probe_userinfo_hostname" "\<not> ul_ipv6 l" "ul_v6_start l = None" "ul_v6_end l = None"
    and "probe_authority s (ul_b l + length seg) l = Some u" "no_tail u"
  shows "url_run s l = (True, set_tail p q f u)"
proof -
  note a = at_seg [OF assms(1)]
  have st: "url_step s (l\<lparr>ul_b := k\<rparr>) = Inr (l\<lparr>ul_b := Suc k\<rparr>)" if "s ! k \<in> set seg" "Suc k < length s" for k
    using that assms by (intro probe_step) auto
  have pa: "probe_authority s j (l\<lparr>ul_b := k\<rparr>) = probe_authority s j l" for j k
    by (simp add: probe_authority_def probe_port_def Let_def split: option.split)
  from assms(4) show ?thesis
  proof (cases rule: tail_text_cases)
    case none
    moreover have "host_char (s ! (length s - 1))"
      using at_last [of s "ul_b l" seg] assms(1-3) none by auto
    moreover have "Suc (length s - 1) = length s" using a(3) assms(3) by (cases seg) simp_all
    ultimately show ?thesis
      using segment_last [OF assms(1) st] a(3) assms(3,5,9,10) host_char_not [of "s ! (length s - 1)"] set_no_tail
      by (simp add: url_step_def round_probe_def pa)
  next
    case (some c r)
    then have t: "rest_at s (ul_b l + length seg) (c # r)" using a(1) by simp
    have "url_run s l = run_next s (next_part s c (l\<lparr>ul_b := Suc (ul_b l + length seg), ul_uri := u\<rparr>))"
      using segment_inner [OF assms(1) st] at_Cons(1) [OF t] some assms(5,9)
      by (auto simp: url_step_def round_probe_def pa)
    also have "\<dots> = (True, set_tail p q f u)"
      using some(1) assms(4,10) by (subst next_tail [OF t]) (simp_all add: no_tail_def set_tail_def)
    finally show ?thesis .
  qed
qed

lemma run_probe:
  assumes "rest_at s (ul_b l) (h @ port_text n @ tail_text p q f)" "h \<noteq> []" "\<forall>c\<in>set h. host_char c"
    and "\<forall>c\<in>set n. isdigit c" "tail_ok p q f"
    and "ul_state l = Probe_userinfo_hostname" "ul_part l = ul_b l" "\<not> ul_ipv6 l" "ul_v6_start l = None"
    and "ul_v6_end l = None" "snd (ul_probe l) = 0" "no_tail (ul_uri l)" "uri_port (ul_uri l) = []"
  shows "url_run s l = (True, set_tail p q f ((ul_uri l)\<lparr>uri_host := h, uri_port := n\<rparr>))"
proof (cases "n = []")
  case True
  have port: "(ul_uri l)\<lparr>uri_host := h, uri_port := []\<rparr> = (ul_uri l)\<lparr>uri_host := h\<rparr>"
    using assms(13) by (cases "ul_uri l") simp
  show ?thesis
    using assms True at_seg(2) [OF assms(1)]
    by (subst probe_end [of s l h p q f]) (simp_all add: port_text_def probe_authority_def port no_tail_def)
next
  case False
  define m where "m = l\<lparr>ul_b := Suc (ul_b l + length h), ul_probe := (ul_b l, length h)\<rparr>"
  note a = at_seg [OF assms(1)]
  have t: "rest_at s (ul_b l + length h) (CHR '':'' # n @ tail_text p q f)"
    using a(1) False by (simp add: port_text_def)
  have st: "url_step s (l\<lparr>ul_b := k\<rparr>) = Inr (l\<lparr>ul_b := Suc k\<rparr>)" if "s ! k \<in> set h" "Suc k < length s" for k
    using that assms by (intro probe_step) auto
  have "url_run s l = url_run s m"
    using segment_inner [OF assms(1) st] False at_Cons(1) [OF t] assms(6,7,11)
    by (simp add: port_text_def url_step_def round_probe_def m_def)
  also have "\<dots> = (True, set_tail p q f ((ul_uri l)\<lparr>uri_host := h, uri_port := n\<rparr>))"
    using at_Cons(3) [OF t] at_seg(2) [of s "Suc (ul_b l + length h)" n] False assms a(2) isdigit_host_char
    by (subst probe_end [of s m n p q f]) (auto simp: m_def probe_authority_def probe_port_def no_tail_def)
  finally show ?thesis .
qed

definition userinfo_text :: "string \<Rightarrow> string \<Rightarrow> string" where
  "userinfo_text n w = (if n = [] then [] else n @ port_text w @ ''@'')"

lemma run_userinfo:
  assumes "rest_at s (ul_b l) (userinfo_text n w @ r)" "n \<noteq> []" "\<forall>c\<in>set n. host_char c"
    and "\<forall>c\<in>set w. host_char c \<or> c = CHR '':''" "r \<noteq> []"
    and "ul_state l = Probe_userinfo_hostname" "ul_part l = ul_b l" "\<not> ul_ipv6 l" "snd (ul_probe l) = 0"
    and "uri_password (ul_uri l) = []"
  obtains m where "url_run s l = url_run s m" "ul_state m = Host_start" "ul_part m = ul_b m" "\<not> ul_ipv6 m"
    "rest_at s (ul_b m) r" "ul_uri m = (ul_uri l)\<lparr>uri_password := w, uri_username := n\<rparr>"
proof (cases "w = []")
  case True
  have a0: "rest_at s (ul_b l) (n @ CHR ''@'' # r)"
    using assms(1,2) True by (simp add: userinfo_text_def port_text_def)
  note a = at_seg [OF a0]
  have st: "url_step s (l\<lparr>ul_b := k\<rparr>) = Inr (l\<lparr>ul_b := Suc k\<rparr>)" if "s ! k \<in> set n" "Suc k < length s" for k
    using that assms by (intro probe_step) auto
  have u: "(ul_uri l)\<lparr>uri_password := w, uri_username := n\<rparr> = (ul_uri l)\<lparr>uri_username := n\<rparr>"
    using True assms(10) by (cases "ul_uri l") simp
  show ?thesis
    using segment_inner [OF a0 st] at_Cons [OF a(1)] a(2) assms(6-9)
    by (intro that [of "to_state Host_start (Suc (ul_b l + length n)) (Suc (ul_b l + length n))
        (l\<lparr>ul_ipv6 := False, ul_uri := (ul_uri l)\<lparr>uri_username := n\<rparr>\<rparr>)"])
      (simp_all add: u url_step_def round_probe_def to_state_def)
next
  case False
  have a0: "rest_at s (ul_b l) (n @ CHR '':'' # w @ CHR ''@'' # r)"
    using assms(1,2) False by (simp add: userinfo_text_def port_text_def)
  note a = at_seg [OF a0] and c = at_Cons [OF at_seg(1) [OF a0]]
  define m where "m = l\<lparr>ul_b := Suc (ul_b l + length n), ul_probe := (ul_b l, length n)\<rparr>"
  have st: "url_step s (l\<lparr>ul_b := k\<rparr>) = Inr (l\<lparr>ul_b := Suc k\<rparr>)" if "s ! k \<in> set n" "Suc k < length s" for k
    using that assms by (intro probe_step) auto
  have m: "url_run s l = url_run s m"
    using segment_inner [OF a0 st] c assms(6-9) by (simp add: url_step_def round_probe_def m_def)
  have a1: "rest_at s (ul_b m) (w @ CHR ''@'' # r)" using c(3) by (simp add: m_def)
  note b = at_seg [OF a1]
  have st2: "url_step s (m\<lparr>ul_b := k\<rparr>) = Inr (m\<lparr>ul_b := Suc k\<rparr>)" if "s ! k \<in> set w" "Suc k < length s" for k
    using that assms by (intro probe_step) (auto simp: m_def)
  show ?thesis
    using segment_inner [OF a1 st2] at_Cons [OF b(1)] a(2) b(2) assms(2,6-9) m
    by (intro that [of "to_state Host_start (Suc (ul_b m + length w)) (Suc (ul_b m + length w))
        (m\<lparr>ul_ipv6 := False, ul_uri := (ul_uri l)\<lparr>uri_password := w, uri_username := n\<rparr>\<rparr>)"])
      (simp_all add: url_step_def round_probe_def to_state_def probe_port_def m_def)
qed

definition uri_text :: "uri \<Rightarrow> string" where
  "uri_text u = uri_scheme u @ ''://'' @ userinfo_text (uri_username u) (uri_password u) @ uri_host u @
     port_text (uri_port u) @ tail_text (uri_path u) (uri_query u) (uri_fragment u)"

definition scheme_ok :: "string \<Rightarrow> bool" where
  "scheme_ok n \<longleftrightarrow> n \<noteq> [] \<and> isalpha (hd n) \<and> list_all (\<lambda>c. isalpha c \<or> isdigit c \<or> c \<in> set ''+-.'') n"

definition uri_ok :: "uri \<Rightarrow> bool" where
  "uri_ok u \<longleftrightarrow> scheme_ok (uri_scheme u) \<and>
     list_all host_char (uri_username u) \<and> list_all (\<lambda>c. host_char c \<or> c = CHR '':'') (uri_password u) \<and>
     uri_host u \<noteq> [] \<and> list_all host_char (uri_host u) \<and> list_all isdigit (uri_port u) \<and>
     tail_ok (uri_path u) (uri_query u) (uri_fragment u) \<and>
     (if uri_username u = [] then uri_password u = []
      else authority_ends (uri_host u) (uri_port u) (tail_text (uri_path u) (uri_query u) (uri_fragment u)))"

lemma run_scheme:
  assumes "scheme_ok n" "s = n @ ''://'' @ r" "r \<noteq> []" "hd r \<noteq> CHR ''/''"
  shows "url_run s url_start = url_run s (url_start\<lparr>ul_state := Probe_userinfo_hostname, ul_b := length n + 3,
    ul_part := length n + 3, ul_uri := empty_uri\<lparr>uri_scheme := n\<rparr>\<rparr>)"
proof -
  obtain d ds where n: "n = d # ds" using assms(1) by (cases n) (auto simp: scheme_ok_def)
  define l where "l = url_start\<lparr>ul_b := 1, ul_state := Scheme\<rparr>"
  define l1 where "l1 = l\<lparr>ul_b := length n + 1, ul_state := Slash_start, ul_uri := empty_uri\<lparr>uri_scheme := n\<rparr>\<rparr>"
  define l2 where "l2 = l1\<lparr>ul_b := length n + 2, ul_state := Slash\<rparr>"
  have s0: "rest_at s 0 (n @ ''://'' @ r)" and s1: "rest_at s (ul_b l) (ds @ ''://'' @ r)"
    using assms(2) by (simp_all add: rest_at_def n l_def)
  have c: "s ! length n = CHR '':''" "s ! Suc (length n) = CHR ''/''" "s ! Suc (Suc (length n)) = CHR ''/''"
    "s ! Suc (Suc (Suc (length n))) = hd r" "length s = length n + 3 + length r"
    using assms(2,3) by (simp_all add: nth_append hd_conv_nth)
  have start: "url_run s url_start = url_run s l"
    using assms(1,2) by (subst url_run_step) (simp_all add: url_start_def url_step_def n l_def scheme_ok_def)
  have st: "url_step s (l\<lparr>ul_b := k\<rparr>) = Inr (l\<lparr>ul_b := Suc k\<rparr>)" if "s ! k \<in> set ds" "Suc k < length s" for k
    using that assms(1) by (auto simp: url_step_def round_scheme_def l_def scheme_ok_def n list_all_iff)
  have "url_run s l = run_next s (url_step s (l\<lparr>ul_b := length n\<rparr>))"
    using segment_inner [OF s1 st] by (simp add: n l_def)
  also have "\<dots> = url_run s l1"
    using at_seg(2) [OF s0] c
    by (simp add: url_step_def round_scheme_def l_def l1_def url_start_def isalpha_def isdigit_def)
  also have "\<dots> = url_run s l2"
    using c assms(3,4) by (subst url_run_step) (simp_all add: url_step_def round_slash_start_def l1_def l2_def l_def url_start_def)
  also have "\<dots> = url_run s (l2\<lparr>ul_state := Probe_userinfo_hostname, ul_b := length n + 3, ul_part := length n + 3\<rparr>)"
    using c assms(3) by (subst url_run_step) (simp_all add: url_step_def l2_def l1_def l_def url_start_def numeral_3_eq_3)
  finally show ?thesis using start by (simp add: l2_def l1_def l_def url_start_def)
qed



text \<open>Two corners the machine treats apart: behind user information a host of one character is refused, and a
  path that is only a slash is lost; \<^verbatim>\<open>file:///\<close> takes the first directory for a host.\<close>

lemma url_corners:
  "uri_parse ''http://me@h'' = (False, empty_uri\<lparr>uri_scheme := ''http'', uri_username := ''me''\<rparr>)"
  "uri_path (snd (uri_parse ''http://me@host/'')) = []"
  "uri_host (snd (uri_parse ''file:///etc/passwd'')) = ''etc''"
  by code_simp+

end
