(* ===== verification/Bit_Io.thy ===== *)
theory Bit_Io
  imports Json "HOL-Library.Word"
begin

unbundle bit_operations_syntax

text \<open>
  Binary input and output of \<^verbatim>\<open>utils/io.hpp\<close>: integers in big-endian byte order and the bit stream with its
  exponential Golomb codes. A buffer is the list of its bytes; reading or writing outside of it is
  undefined. The abstract view is the list of its bits, the highest bit of a byte first, and a position in it.
\<close>

type_synonym byte = "8 word"
type_synonym u32 = "32 word"

section \<open>Integers in byte streams\<close>

text \<open>\<open>sizeof (T)\<close> bytes, for the integer type of \<open>LENGTH('a)\<close> bits; a signed integer is the word of its bits.\<close>

definition read_impl :: "byte list \<Rightarrow> ('a::len word \<times> byte list) result" where
  "read_impl start =
     (let n = LENGTH('a) div 8
      in if length start < n then Inl Undefined
         else Inr (foldl (\<lambda>ret b. push_bit 8 ret OR ucast b) 0 (take n start), drop n start))"

definition write_impl :: "'a::len word \<Rightarrow> byte list" where
  "write_impl v = map (\<lambda>i. ucast (drop_bit (i * 8) v AND 0xff)) (rev [0..<LENGTH('a) div 8])"

lemma fold_bytes_bit:
  "bit (foldl (\<lambda>ret b. push_bit 8 ret OR ucast b) (0 :: 'a::len word) (bs :: byte list)) n \<longleftrightarrow>
     n < LENGTH('a) \<and> n < 8 * length bs \<and> bit (bs ! (length bs - 1 - n div 8)) (n mod 8)"
proof (induction bs arbitrary: n rule: rev_induct)
  case (snoc b bs)
  show ?case
  proof (cases "n < 8")
    case True
    then show ?thesis using snoc by (auto simp: bit_simps nth_append)
  next
    case False
    then obtain m where n: "n = m + 8" by (metis add.commute le_Suc_ex not_less)
    have "(bs @ [b]) ! (length bs - Suc (m div 8)) = bs ! (length bs - Suc (m div 8))" if "m < 8 * length bs"
      using that by (auto simp: nth_append)
    moreover have "\<not> bit b (m + 8)" using bit_imp_le_length [of b "m + 8"] by auto
    moreover have "bit (foldl (\<lambda>ret b. push_bit 8 ret OR ucast b) (0 :: 'a word) (bs @ [b])) n \<longleftrightarrow>
        m + 8 < LENGTH('a) \<and> bit (foldl (\<lambda>ret b. push_bit 8 ret OR ucast b) (0 :: 'a word) bs) m"
      using calculation(2) by (simp add: n bit_or_iff bit_push_bit_iff bit_ucast_iff)
    moreover have "(m + 8) div 8 = Suc (m div 8)" by simp
    ultimately show ?thesis unfolding snoc by (auto simp: n)
  qed
qed simp

lemma read_written:
  assumes "LENGTH('a::len) mod 8 = 0"
  shows "read_impl (write_impl (v :: 'a word) @ r) = Inr (v, r)"
proof -
  have len: "length (write_impl v) = LENGTH('a) div 8" by (simp add: write_impl_def)
  have "foldl (\<lambda>ret b. push_bit 8 ret OR ucast b) 0 (write_impl v) = v"
  proof (rule bit_word_eqI)
    fix n
    assume n: "n < LENGTH('a)"
    have "n < LENGTH('a) div 8 * 8" using n assms div_mult_mod_eq [of "LENGTH('a)" 8] by simp
    then have lt: "n div 8 < LENGTH('a) div 8" by (rule less_mult_imp_div_less)
    have "write_impl v ! (LENGTH('a) div 8 - 1 - n div 8) = ucast (drop_bit (n div 8 * 8) v AND 0xff)"
      using lt by (simp add: write_impl_def rev_nth)
    moreover have "bit (0xff :: 'a word) (n mod 8)"
    proof -
      have "(0xff :: 'a word) = mask 8" by (simp add: mask_eq_exp_minus_1)
      then show ?thesis using n order_le_less_trans [OF mod_less_eq_dividend [of n 8], of "LENGTH('a)"]
        by (simp only: bit_mask_iff possible_bit_word) simp
    qed
    moreover have "n div 8 * 8 + n mod 8 = n" by simp
    ultimately show "bit (foldl (\<lambda>ret b. push_bit 8 ret OR ucast b) (0 :: 'a word) (write_impl v)) n = bit v n"
      using n lt assms unfolding fold_bytes_bit len by (auto simp: bit_simps)
  qed
  then show ?thesis using len by (simp add: read_impl_def)
qed

text \<open>The adaptors for the integer types. An unsigned integer is a word, a signed one an integer in the range of
  its type; a text is copied byte by byte.\<close>

definition read_uint64 :: "byte list \<Rightarrow> (64 word \<times> byte list) result" where
  "read_uint64 start = read_impl start"

definition read_int64 :: "byte list \<Rightarrow> (int \<times> byte list) result" where
  "read_int64 start = map_sum id (apfst (sint :: 64 word \<Rightarrow> int)) (read_impl start)"

definition write_uint64 :: "64 word \<Rightarrow> byte list" where
  "write_uint64 v = write_impl v"

definition write_int64 :: "int \<Rightarrow> byte list" where
  "write_int64 v = write_impl (word_of_int v :: 64 word)"

definition read_uint32 :: "byte list \<Rightarrow> (32 word \<times> byte list) result" where
  "read_uint32 start = read_impl start"

definition read_int32 :: "byte list \<Rightarrow> (int \<times> byte list) result" where
  "read_int32 start = map_sum id (apfst (sint :: 32 word \<Rightarrow> int)) (read_impl start)"

definition write_uint32 :: "32 word \<Rightarrow> byte list" where
  "write_uint32 v = write_impl v"

definition write_int32 :: "int \<Rightarrow> byte list" where
  "write_int32 v = write_impl (word_of_int v :: 32 word)"

definition read_uint16 :: "byte list \<Rightarrow> (16 word \<times> byte list) result" where
  "read_uint16 start = read_impl start"

definition read_int16 :: "byte list \<Rightarrow> (int \<times> byte list) result" where
  "read_int16 start = map_sum id (apfst (sint :: 16 word \<Rightarrow> int)) (read_impl start)"

definition write_uint16 :: "16 word \<Rightarrow> byte list" where
  "write_uint16 v = write_impl v"

definition write_int16 :: "int \<Rightarrow> byte list" where
  "write_int16 v = write_impl (word_of_int v :: 16 word)"

definition read_uint8 :: "byte list \<Rightarrow> (8 word \<times> byte list) result" where
  "read_uint8 start = read_impl start"

definition read_int8 :: "byte list \<Rightarrow> (int \<times> byte list) result" where
  "read_int8 start = map_sum id (apfst (sint :: 8 word \<Rightarrow> int)) (read_impl start)"

definition write_uint8 :: "8 word \<Rightarrow> byte list" where
  "write_uint8 v = write_impl v"

definition write_int8 :: "int \<Rightarrow> byte list" where
  "write_int8 v = write_impl (word_of_int v :: 8 word)"

definition write_string :: "string \<Rightarrow> byte list" where
  "write_string str = map of_char str"

lemma sint_in_range:
  assumes "- (2 ^ (LENGTH('a::len) - 1)) \<le> v" "v < 2 ^ (LENGTH('a) - 1)"
  shows "sint (word_of_int v :: 'a word) = v"
  using assms by (simp add: signed_of_int signed_take_bit_int_eq_self)

text \<open>Signed integers of every width come back with their sign.\<close>

lemma read_write_int:
  shows "- (2 ^ 63) \<le> v \<Longrightarrow> v < 2 ^ 63 \<Longrightarrow> read_int64 (write_int64 v @ r) = Inr (v, r)"
    and "- (2 ^ 31) \<le> v \<Longrightarrow> v < 2 ^ 31 \<Longrightarrow> read_int32 (write_int32 v @ r) = Inr (v, r)"
    and "- (2 ^ 15) \<le> v \<Longrightarrow> v < 2 ^ 15 \<Longrightarrow> read_int16 (write_int16 v @ r) = Inr (v, r)"
    and "- (2 ^ 7) \<le> v \<Longrightarrow> v < 2 ^ 7 \<Longrightarrow> read_int8 (write_int8 v @ r) = Inr (v, r)"
  unfolding read_int64_def write_int64_def read_int32_def write_int32_def read_int16_def write_int16_def
    read_int8_def write_int8_def
  by (simp_all add: read_written sint_in_range)

section \<open>The bit stream\<close>

definition LowestBits :: "byte \<Rightarrow> nat \<Rightarrow> byte" where
  "LowestBits b bit_count = b AND (push_bit bit_count 1 - 1)"

definition HighestBits :: "byte \<Rightarrow> nat \<Rightarrow> byte" where
  "HighestBits b bit_count =
     (let shift = 8 - bit_count; m = push_bit shift 0xFF in drop_bit shift (b AND m))"

definition HighestByte :: "u64 \<Rightarrow> byte" where
  "HighestByte val = ucast (drop_bit 56 val)"

definition WritePartialByte :: "byte \<Rightarrow> nat \<Rightarrow> byte \<Rightarrow> nat \<Rightarrow> byte" where
  "WritePartialByte source source_bit_count target target_bit_offset =
     (let m = drop_bit target_bit_offset (push_bit (8 - source_bit_count) 0xFF)
      in (target AND NOT m) OR drop_bit target_bit_offset source)"

function CountBits :: "u64 \<Rightarrow> nat" where
  "CountBits val = (if val \<noteq> 0 then CountBits (drop_bit 1 val) + 1 else 0)"
  by pat_completeness auto
termination
proof (relation "measure unat")
  fix val :: u64
  assume "val \<noteq> 0"
  then have "0 < unat val" by (simp add: unat_gt_0)
  then show "(drop_bit 1 val, val) \<in> measure unat"
    by (simp add: unat_drop_bit_eq drop_bit_eq_div [of _ "unat val"])
qed simp

declare CountBits.simps [simp del]

text \<open>The members; the count of bytes is the length of the buffer. \<open>bs_writable\<close> says which constructor was
  used: without it \<^verbatim>\<open>writable_bytes_\<close> is a null pointer.\<close>

record bitstream =
  bs_bytes :: "byte list"
  bs_byte_offset :: nat
  bs_bit_offset :: nat
  bs_writable :: bool

definition new_bitstream :: "byte list \<Rightarrow> bool \<Rightarrow> bitstream" where
  "new_bitstream bytes writable = \<lparr>bs_bytes = bytes, bs_byte_offset = 0, bs_bit_offset = 0, bs_writable = writable\<rparr>"

text \<open>Sizes and offsets are 64-bit unsigned numbers.\<close>

definition RemainingBitCount :: "bitstream \<Rightarrow> nat" where
  "RemainingBitCount s =
     nat (((int (length (bs_bytes s)) - int (bs_byte_offset s)) * 8 - int (bs_bit_offset s)) mod 2 ^ 64)"

definition ConsumeBits :: "nat \<Rightarrow> bitstream \<Rightarrow> bool \<times> bitstream" where
  "ConsumeBits bit_count s =
     (if RemainingBitCount s < bit_count then (False, s)
      else (let n = (bs_bit_offset s + bit_count) mod 2 ^ 64
            in (True, s\<lparr>bs_byte_offset := bs_byte_offset s + n div 8, bs_bit_offset := n mod 8\<rparr>)))"

definition ConsumeBytes :: "nat \<Rightarrow> bitstream \<Rightarrow> bool \<times> bitstream" where
  "ConsumeBytes byte_count s = ConsumeBits (byte_count * 8 mod 2 ^ 64) s"

definition Seek :: "nat \<Rightarrow> nat \<Rightarrow> bitstream \<Rightarrow> bool \<times> bitstream" where
  "Seek byte_offset bit_offset s =
     (if length (bs_bytes s) < byte_offset \<or> 7 < bit_offset \<or>
         (byte_offset = length (bs_bytes s) \<and> 0 < bit_offset)
      then (False, s)
      else (True, s\<lparr>bs_byte_offset := byte_offset, bs_bit_offset := bit_offset\<rparr>))"

text \<open>Reading. \<open>None\<close> is the return value false; the first byte is read before anything else is looked at.\<close>

fun peek_rest :: "u32 \<Rightarrow> byte list \<Rightarrow> nat \<Rightarrow> u32 result" where
  "peek_rest bits [] n = (if n = 0 then Inr bits else Inl Undefined)"
| "peek_rest bits (b # bytes) n =
     (if 8 \<le> n then peek_rest (push_bit 8 bits OR ucast b) bytes (n - 8)
      else if 0 < n then Inr (push_bit n bits OR ucast (HighestBits b n))
      else Inr bits)"

definition PeekBits :: "nat \<Rightarrow> bitstream \<Rightarrow> u32 option result" where
  "PeekBits bit_count s =
     (if RemainingBitCount s < bit_count \<or> 32 < bit_count then Inr None
      else
        (case drop (bs_byte_offset s) (bs_bytes s) of
           [] \<Rightarrow> Inl Undefined
         | b # bytes \<Rightarrow>
             (let remaining_bits_in_current_byte = 8 - bs_bit_offset s;
                  first = LowestBits b remaining_bits_in_current_byte
              in if bit_count < remaining_bits_in_current_byte
                 then Inr (Some (ucast (HighestBits first (bs_bit_offset s + bit_count))))
                 else map_sum id Some (peek_rest (ucast first) bytes (bit_count - remaining_bits_in_current_byte)))))"

definition ReadBits :: "nat \<Rightarrow> bitstream \<Rightarrow> (u32 option \<times> bitstream) result" where
  "ReadBits bit_count s =
     (case PeekBits bit_count s of
        Inl e \<Rightarrow> Inl e
      | Inr None \<Rightarrow> Inr (None, s)
      | Inr (Some v) \<Rightarrow>
          (case ConsumeBits bit_count s of (ok, s') \<Rightarrow> Inr (if ok then Some v else None, s')))"

definition ReadUInt8 :: "bitstream \<Rightarrow> (byte option \<times> bitstream) result" where
  "ReadUInt8 s = map_sum id (\<lambda>(v, s'). (map_option ucast v, s')) (ReadBits 8 s)"

definition ReadUInt16 :: "bitstream \<Rightarrow> (16 word option \<times> bitstream) result" where
  "ReadUInt16 s = map_sum id (\<lambda>(v, s'). (map_option ucast v, s')) (ReadBits 16 s)"

definition ReadUInt32 :: "bitstream \<Rightarrow> (u32 option \<times> bitstream) result" where
  "ReadUInt32 s = ReadBits 32 s"

text \<open>Writing. The shift by \<^verbatim>\<open>64 - bit_count\<close> is undefined for 0 bits and for more than 64.\<close>

fun write_rest :: "u64 \<Rightarrow> byte list \<Rightarrow> nat \<Rightarrow> byte list result" where
  "write_rest val [] n = (if n = 0 then Inr [] else Inl Undefined)"
| "write_rest val (b # bytes) n =
     (if 8 \<le> n then map_sum id (Cons (HighestByte val)) (write_rest (push_bit 8 val) bytes (n - 8))
      else if 0 < n then Inr (WritePartialByte (HighestByte val) n b 0 # bytes)
      else Inr (b # bytes))"

definition WriteBits :: "u64 \<Rightarrow> nat \<Rightarrow> bitstream \<Rightarrow> (bool \<times> bitstream) result" where
  "WriteBits val0 bit_count s =
     (if RemainingBitCount s < bit_count then Inr (False, s)
      else if bit_count = 0 \<or> 64 < bit_count \<or> \<not> bs_writable s then Inl Undefined
      else
        (let val = push_bit (64 - bit_count) val0
         in case drop (bs_byte_offset s) (bs_bytes s) of
              [] \<Rightarrow> Inl Undefined
            | b # bytes \<Rightarrow>
                (let remaining_bits_in_current_byte = 8 - bs_bit_offset s;
                     bits_in_first_byte = min bit_count remaining_bits_in_current_byte;
                     first = WritePartialByte (HighestByte val) bits_in_first_byte b (bs_bit_offset s);
                     written = (if bit_count \<le> remaining_bits_in_current_byte then Inr bytes
                                else write_rest (push_bit bits_in_first_byte val) bytes (bit_count - bits_in_first_byte))
                 in case written of
                      Inl e \<Rightarrow> Inl e
                    | Inr rest \<Rightarrow>
                        Inr (ConsumeBits bit_count
                          (s\<lparr>bs_bytes := take (bs_byte_offset s) (bs_bytes s) @ first # rest\<rparr>)))))"

definition WriteUInt8 :: "byte \<Rightarrow> bitstream \<Rightarrow> (bool \<times> bitstream) result" where
  "WriteUInt8 val = WriteBits (ucast val) 8"

definition WriteUInt16 :: "16 word \<Rightarrow> bitstream \<Rightarrow> (bool \<times> bitstream) result" where
  "WriteUInt16 val = WriteBits (ucast val) 16"

definition WriteUInt32 :: "u32 \<Rightarrow> bitstream \<Rightarrow> (bool \<times> bitstream) result" where
  "WriteUInt32 val = WriteBits (ucast val) 32"

section \<open>Exponential Golomb codes\<close>

text \<open>The loop over the leading zeros consumes a bit in every round; the first argument is a bound of the rounds,
  for which the number of bits of the buffer is enough.\<close>

fun skip_zeros :: "nat \<Rightarrow> nat \<Rightarrow> bitstream \<Rightarrow> (nat \<times> bitstream) result" where
  "skip_zeros 0 zeros s = Inr (zeros, s)"
| "skip_zeros (Suc fuel) zeros s =
     (case PeekBits 1 s of
        Inl e \<Rightarrow> Inl e
      | Inr None \<Rightarrow> Inr (zeros, s)
      | Inr (Some peeked_bit) \<Rightarrow>
          (if peeked_bit = 0 then skip_zeros fuel (zeros + 1) (snd (ConsumeBits 1 s)) else Inr (zeros, s)))"

text \<open>The saved offset is not used: a failed read leaves the position behind the zeros.\<close>

definition ReadExponentialGolomb :: "bitstream \<Rightarrow> (u32 option \<times> bitstream) result" where
  "ReadExponentialGolomb s =
     (case skip_zeros (8 * length (bs_bytes s) + 1) 0 s of
        Inl e \<Rightarrow> Inl e
      | Inr (zero_bit_count, s1) \<Rightarrow>
          (let value_bit_count = zero_bit_count + 1
           in if 32 < value_bit_count then Inr (None, s1)
              else map_sum id (\<lambda>(v, s2). (map_option (\<lambda>v. v - 1) v, s2)) (ReadBits value_bit_count s1)))"

definition signed_of :: "u32 \<Rightarrow> int" where
  "signed_of v = (if v AND 1 = 0 then - sint (v div 2) else sint ((v + 1) div 2))"

definition ReadSignedExponentialGolomb :: "bitstream \<Rightarrow> (int option \<times> bitstream) result" where
  "ReadSignedExponentialGolomb s = map_sum id (\<lambda>(v, s'). (map_option signed_of v, s')) (ReadExponentialGolomb s)"

definition WriteExponentialGolomb :: "u32 \<Rightarrow> bitstream \<Rightarrow> (bool \<times> bitstream) result" where
  "WriteExponentialGolomb val s =
     (if val = - 1 then Inr (False, s)
      else (let val_to_encode = ucast val + 1 in WriteBits val_to_encode (CountBits val_to_encode * 2 - 1) s))"

text \<open>The argument is an \<^verbatim>\<open>int32_t\<close>.\<close>

definition WriteSignedExponentialGolomb :: "int \<Rightarrow> bitstream \<Rightarrow> (bool \<times> bitstream) result" where
  "WriteSignedExponentialGolomb val s =
     (if val = 0 then WriteExponentialGolomb 0 s
      else if 0 < val then WriteExponentialGolomb (word_of_int val * 2 - 1) s
      else if val = - (2 ^ 31) then Inr (False, s)
      else WriteExponentialGolomb (word_of_int (- val) * 2) s)"

end
