(* ===== verification/Bit_Stream.thy ===== *)
theory Bit_Stream
  imports Bit_Io
begin

unbundle bit_operations_syntax

text \<open>
  Correctness of the bit stream of \<^verbatim>\<open>utils/io.hpp\<close>. A buffer is viewed as the list of its bits, the highest bit
  of a byte first; a well-formed stream is a position in that list. Reading is cutting out, writing is
  overwriting a stretch of it, and the Golomb codes are read back as they were written.
\<close>

section \<open>The bits of a stream\<close>

definition bits_of :: "nat \<Rightarrow> 'a::len word \<Rightarrow> bool list" where
  "bits_of n w = rev (map (bit w) [0..<n])"

definition stream_bits :: "byte list \<Rightarrow> bool list" where
  "stream_bits bytes = concat (map (bits_of 8) bytes)"

definition bits_val :: "bool list \<Rightarrow> nat" where
  "bits_val bs = horner_sum of_bool 2 (rev bs)"

lemma length_bits_of [simp]: "length (bits_of n w) = n"
  by (simp add: bits_of_def)

lemma nth_bits_of [simp]: "i < n \<Longrightarrow> bits_of n w ! i = bit w (n - 1 - i)"
  by (simp add: bits_of_def rev_nth)

lemma bits_of_0 [simp]: "bits_of 0 w = []"
  by (simp add: bits_of_def)

lemma take_bits_of: "k \<le> n \<Longrightarrow> take k (bits_of n w) = bits_of k (drop_bit (n - k) w)"
  by (rule nth_equalityI) (auto simp: bit_drop_bit_eq intro!: arg_cong [of _ _ "bit w"])

lemma drop_bits_of: "k \<le> n \<Longrightarrow> drop k (bits_of n w) = bits_of (n - k) w"
  by (rule nth_equalityI) (auto intro!: arg_cong [of _ _ "bit w"])

lemma bits_val_Nil [simp]: "bits_val [] = 0"
  by (simp add: bits_val_def)

lemma bits_val_append: "bits_val (xs @ ys) = bits_val xs * 2 ^ length ys + bits_val ys"
  by (simp add: bits_val_def horner_sum_append)

lemma bits_val_less: "bits_val xs < 2 ^ length xs"
proof (induction xs rule: rev_induct)
  case (snoc x xs)
  have "bits_val [x] \<le> 1" by (simp add: bits_val_def)
  then show ?case using snoc by (simp add: bits_val_append)
qed simp

lemma bits_val_bits_of: "bits_val (bits_of n w) = unat (take_bit n w)"
proof -
  have "bit w i \<longleftrightarrow> bit (unat w) i" for i by (simp add: bit_unsigned_iff)
  then have "bit w = bit (unat w)" by (rule ext)
  then have "bits_val (bits_of n w) = horner_sum of_bool 2 (map (bit (unat w)) [0..<n])"
    by (simp add: bits_val_def bits_of_def)
  also have "\<dots> = take_bit n (unat w)" by (rule horner_sum_bit_eq_take_bit)
  finally show ?thesis by (simp add: unsigned_take_bit_eq)
qed

lemma bits_of_val:
  assumes "length xs \<le> LENGTH('a::len)"
  shows "bits_of (length xs) (word_of_nat (bits_val xs) :: 'a word) = xs"
proof (rule nth_equalityI)
  fix i
  assume "i < length (bits_of (length xs) (word_of_nat (bits_val xs) :: 'a word))"
  then have i: "i < length xs" by simp
  then have "bit (bits_val xs) (length xs - 1 - i) \<longleftrightarrow> xs ! i"
    by (auto simp: bits_val_def bit_horner_sum_bit_iff rev_nth)
  then show "bits_of (length xs) (word_of_nat (bits_val xs) :: 'a word) ! i = xs ! i"
    using i assms by (auto simp: bit_of_nat_iff)
qed simp

lemma bits_of_inj: "bits_of LENGTH('a) v = bits_of LENGTH('a) w \<Longrightarrow> v = (w :: 'a::len word)"
proof (rule bit_word_eqI)
  fix n
  assume "bits_of LENGTH('a) v = bits_of LENGTH('a) w" "n < LENGTH('a)"
  then have "bits_of LENGTH('a) v ! (LENGTH('a) - 1 - n) = bits_of LENGTH('a) w ! (LENGTH('a) - 1 - n)" by simp
  then show "bit v n = bit w n" using \<open>n < LENGTH('a)\<close> by (subst (asm) nth_bits_of; simp)+
qed

lemma stream_bits_simps [simp]: "stream_bits [] = []" "stream_bits (b # bytes) = bits_of 8 b @ stream_bits bytes"
  by (simp_all add: stream_bits_def)

lemma length_stream_bits [simp]: "length (stream_bits bytes) = 8 * length bytes"
  by (induction bytes) simp_all

lemma stream_bits_append: "stream_bits (xs @ ys) = stream_bits xs @ stream_bits ys"
  by (simp add: stream_bits_def)

lemma drop_stream_bits: "drop (8 * k) (stream_bits bytes) = stream_bits (drop k bytes)"
proof (induction bytes arbitrary: k)
  case (Cons b bytes)
  then show ?case by (cases k) simp_all
qed simp

lemma take_stream_bits: "take (8 * k) (stream_bits bytes) = stream_bits (take k bytes)"
proof (induction bytes arbitrary: k)
  case (Cons b bytes)
  then show ?case by (cases k) simp_all
qed simp

section \<open>Reading\<close>

lemma or_append:
  assumes "b < 2 ^ k" "k < LENGTH('a)"
  shows "push_bit k (word_of_nat a) OR word_of_nat b = (word_of_nat (a * 2 ^ k + b) :: 'a::len word)"
proof -
  have "\<not> bit (word_of_nat b :: 'a word) n" if "k \<le> n" for n
    using assms(1) that bit_take_bit_iff [of k b n] by (simp add: bit_of_nat_iff take_bit_nat_eq_self)
  then have "push_bit k (word_of_nat a) OR word_of_nat b = push_bit k (word_of_nat a) + (word_of_nat b :: 'a word)"
    by (intro disjunctive_add [symmetric]) (auto simp: bit_push_bit_iff)
  then show ?thesis by (simp add: push_bit_eq_mult)
qed

lemma word_bits_append:
  assumes "length ys < LENGTH('a::len)"
  shows "push_bit (length ys) (word_of_nat (bits_val xs)) OR word_of_nat (bits_val ys) =
    (word_of_nat (bits_val (xs @ ys)) :: 'a word)"
  using or_append [OF bits_val_less assms] by (simp add: bits_val_append)

lemma HighestBits_drop: "n \<le> 8 \<Longrightarrow> HighestBits b n = drop_bit (8 - n) b"
proof (rule bit_word_eqI)
  fix i
  assume "n \<le> 8" "i < LENGTH(8)"
  moreover have all: "(0xFF :: byte) = - 1" by simp
  ultimately show "bit (HighestBits b n) i = bit (drop_bit (8 - n) b) i"
    unfolding HighestBits_def Let_def all by (auto simp: bit_simps dest: bit_imp_le_length)
qed

lemma HighestBits_val:
  assumes "n \<le> 8"
  shows "(ucast (HighestBits b n) :: u32) = word_of_nat (bits_val (take n (bits_of 8 b)))"
proof -
  have "take_bit n (drop_bit (8 - n) b) = drop_bit (8 - n) b"
    using assms by (intro bit_word_eqI) (auto simp: bit_simps dest: bit_imp_le_length)
  then show ?thesis
    using assms by (simp add: HighestBits_drop take_bits_of bits_val_bits_of)
qed

lemma ucast_byte_val: "(ucast (b :: byte) :: u32) = word_of_nat (bits_val (bits_of 8 b))"
proof -
  have "take_bit 8 b = b" by (intro bit_word_eqI) (auto simp: bit_simps)
  then show ?thesis by (simp add: bits_val_bits_of)
qed

lemma peek_rest_spec:
  assumes "n \<le> 8 * length bytes"
  shows "peek_rest (word_of_nat (bits_val pre)) bytes n = Inr (word_of_nat (bits_val (pre @ take n (stream_bits bytes))))"
  using assms
proof (induction bytes arbitrary: pre n)
  case (Cons b bytes)
  show ?case
  proof (cases "8 \<le> n")
    case True
    have "push_bit 8 (word_of_nat (bits_val pre)) OR ucast b = (word_of_nat (bits_val (pre @ bits_of 8 b)) :: u32)"
      using word_bits_append [of "bits_of 8 b" pre, where 'a = 32] by (simp add: ucast_byte_val)
    then show ?thesis using Cons True by simp
  next
    case False
    then have "push_bit n (word_of_nat (bits_val pre)) OR ucast (HighestBits b n) =
        (word_of_nat (bits_val (pre @ take n (bits_of 8 b))) :: u32)"
      using word_bits_append [of "take n (bits_of 8 b)" pre, where 'a = 32] by (simp add: HighestBits_val)
    then show ?thesis using False by simp
  qed
qed simp

definition bs_pos :: "bitstream \<Rightarrow> nat" where
  "bs_pos s = 8 * bs_byte_offset s + bs_bit_offset s"

definition bs_ok :: "bitstream \<Rightarrow> bool" where
  "bs_ok s \<longleftrightarrow> 8 * length (bs_bytes s) < 2 ^ 64 \<and> bs_bit_offset s < 8 \<and> bs_pos s \<le> 8 * length (bs_bytes s)"

lemma RemainingBitCount_ok: "bs_ok s \<Longrightarrow> RemainingBitCount s = 8 * length (bs_bytes s) - bs_pos s"
  by (auto simp: RemainingBitCount_def bs_ok_def bs_pos_def algebra_simps)

lemma ConsumeBits_spec:
  assumes "bs_ok s" "bs_pos s + n \<le> 8 * length (bs_bytes s)"
  shows "\<exists>s'. ConsumeBits n s = (True, s') \<and> bs_ok s' \<and> bs_pos s' = bs_pos s + n \<and> bs_bytes s' = bs_bytes s \<and>
    bs_writable s' = bs_writable s"
proof -
  have "(bs_bit_offset s + n) mod 2 ^ 64 = bs_bit_offset s + n"
    using assms by (simp add: bs_ok_def bs_pos_def)
  moreover have "n \<le> RemainingBitCount s" using assms by (simp add: RemainingBitCount_ok)
  moreover have "8 * ((bs_bit_offset s + n) div 8) + (bs_bit_offset s + n) mod 8 = bs_bit_offset s + n" by simp
  ultimately show ?thesis
    using assms by (auto simp: ConsumeBits_def bs_ok_def bs_pos_def Let_def)
qed

lemma rest_bits:
  assumes "bs_ok s" "bs_pos s < 8 * length (bs_bytes s)"
  obtains b bytes where "drop (bs_byte_offset s) (bs_bytes s) = b # bytes"
    "drop (bs_pos s) (stream_bits (bs_bytes s)) = bits_of (8 - bs_bit_offset s) b @ stream_bits bytes"
    "bs_bytes s = take (bs_byte_offset s) (bs_bytes s) @ b # bytes"
proof -
  have "bs_byte_offset s < length (bs_bytes s)" using assms by (simp add: bs_pos_def)
  then obtain b bytes where d: "drop (bs_byte_offset s) (bs_bytes s) = b # bytes"
    by (metis Cons_nth_drop_Suc)
  have "drop (bs_pos s) (stream_bits (bs_bytes s)) = drop (bs_bit_offset s) (stream_bits (b # bytes))"
    unfolding d [symmetric] drop_stream_bits [symmetric] by (simp add: bs_pos_def add.commute)
  then show ?thesis
    using that [OF d] assms(1) d append_take_drop_id [of "bs_byte_offset s" "bs_bytes s"]
    by (simp add: bs_ok_def drop_bits_of)
qed

lemma LowestBits_take: "n \<le> 8 \<Longrightarrow> LowestBits b n = take_bit n b"
  unfolding LowestBits_def by (simp add: take_bit_eq_mask mask_eq_exp_minus_1 push_bit_eq_mult)

lemma PeekBits_spec:
  assumes "bs_ok s" "bs_pos s < 8 * length (bs_bytes s)"
  shows "PeekBits n s =
    Inr (if bs_pos s + n \<le> 8 * length (bs_bytes s) \<and> n \<le> 32
         then Some (word_of_nat (bits_val (take n (drop (bs_pos s) (stream_bits (bs_bytes s))))))
         else None)"
proof (cases "bs_pos s + n \<le> 8 * length (bs_bytes s) \<and> n \<le> 32")
  case False
  then show ?thesis using assms by (auto simp: PeekBits_def RemainingBitCount_ok)
next
  case True
  obtain b bytes where b: "drop (bs_byte_offset s) (bs_bytes s) = b # bytes"
    "drop (bs_pos s) (stream_bits (bs_bytes s)) = bits_of (8 - bs_bit_offset s) b @ stream_bits bytes"
    using rest_bits [OF assms] by blast
  define r where "r = 8 - bs_bit_offset s"
  have r: "r \<le> 8" "0 < r" "bs_bit_offset s = 8 - r" using assms(1) by (auto simp: r_def bs_ok_def)
  note b2 = b(2) [folded r_def]
  have rem: "\<not> RemainingBitCount s < n" using RemainingBitCount_ok [OF assms(1)] True by linarith
  have first: "(ucast (LowestBits b r) :: u32) = word_of_nat (bits_val (bits_of r b))"
    using r by (simp add: LowestBits_take bits_val_bits_of)
  show ?thesis
  proof (cases "n < r")
    case short: True
    have "8 - (8 - r + n) = r - n" "8 - r + n \<le> 8" "r - (r - n) = n" using short r(1) by simp_all
    then have "HighestBits (LowestBits b r) (8 - r + n) = take_bit n (drop_bit (r - n) b)"
      using r(1) by (simp only: HighestBits_drop LowestBits_take drop_bit_take_bit)
    then have "(ucast (HighestBits (LowestBits b r) (8 - r + n)) :: u32) = word_of_nat (bits_val (take n (bits_of r b)))"
      using short by (simp add: take_bits_of bits_val_bits_of)
    then show ?thesis
      using True short rem r(1,2) by (simp add: PeekBits_def b(1) b2 r(3))
  next
    case False
    have "8 * length (bs_bytes s) - bs_pos s = r + 8 * length bytes"
      using arg_cong [OF b2, of length] by simp
    then have "n - r \<le> 8 * length bytes" using True by linarith
    then have "peek_rest (ucast (LowestBits b r)) bytes (n - r) =
        Inr (word_of_nat (bits_val (bits_of r b @ take (n - r) (stream_bits bytes))))"
      unfolding first by (rule peek_rest_spec)
    then show ?thesis
      using True False rem r(1,2) by (simp add: PeekBits_def b(1) b2 r(3))
  qed
qed

lemma ReadBits_spec:
  assumes "bs_ok s" "bs_pos s < 8 * length (bs_bytes s)" "n \<le> 32" "bs_pos s + n \<le> 8 * length (bs_bytes s)"
  shows "\<exists>s'. ReadBits n s = Inr (Some (word_of_nat (bits_val (take n (drop (bs_pos s) (stream_bits (bs_bytes s)))))), s') \<and>
    bs_ok s' \<and> bs_pos s' = bs_pos s + n \<and> bs_bytes s' = bs_bytes s"
  using PeekBits_spec [OF assms(1,2), of n] ConsumeBits_spec [OF assms(1,4)] assms(3,4)
  by (auto simp: ReadBits_def)

section \<open>Writing\<close>

lemma bits_of_push: "k \<le> n \<Longrightarrow> n \<le> LENGTH('a) \<Longrightarrow> bits_of n (push_bit k w :: 'a::len word) = bits_of (n - k) w @ replicate k False"
  by (rule nth_equalityI) (auto simp: nth_append bit_push_bit_iff add.commute)

lemma HighestByte_bits: "bits_of 8 (HighestByte val) = take 8 (bits_of 64 val)"
  by (rule nth_equalityI) (auto simp: HighestByte_def bit_simps)

lemma WritePartialByte_bits:
  assumes "off + n \<le> 8" "drop n (bits_of 8 source) = replicate (8 - n) False \<or> off + n = 8"
  shows "bits_of 8 (WritePartialByte source n target off) =
    take off (bits_of 8 target) @ take n (bits_of 8 source) @ drop (off + n) (bits_of 8 target)"
proof (rule nth_equalityI)
  fix i
  assume "i < length (bits_of 8 (WritePartialByte source n target off))"
  then have i: "i < 8" by simp
  define k where "k = 7 - i"
  have k: "k < 8" "i = 7 - k" using i by (auto simp: k_def)
  have all: "(0xFF :: byte) = - 1" by simp
  have m: "bit (drop_bit off (push_bit (8 - n) (- 1 :: byte))) k \<longleftrightarrow> off + k < 8 \<and> 8 - n \<le> off + k"
    by (auto simp: bit_simps)
  have low: "\<not> bit source (off + k)" if "off + k < 8 - n" "off + n \<noteq> 8"
  proof -
    have "n < 8" using that(1) by simp
    then have "drop n (bits_of 8 source) ! (7 - off - k - n) = replicate (8 - n) False ! (7 - off - k - n)"
      using assms(2) that(2) by simp
    then show ?thesis using that(1) \<open>n < 8\<close> by simp
  qed
  have "bit (WritePartialByte source n target off) k =
      (if i < off then bit target k else if i < off + n then bit source (off + k) else bit target k)"
    unfolding WritePartialByte_def Let_def all bit_or_iff bit_and_iff bit_not_iff m
    using k low assms(1) bit_imp_le_length [of source "off + k"] by (auto simp: bit_drop_bit_eq)
  then show "bits_of 8 (WritePartialByte source n target off) ! i =
      (take off (bits_of 8 target) @ take n (bits_of 8 source) @ drop (off + n) (bits_of 8 target)) ! i"
    using assms(1) k i by (auto simp: nth_append add.commute)
qed (use assms(1) in simp)

lemma write_rest_spec:
  assumes "n \<le> 8 * length bytes" "n \<le> 64" "drop n (bits_of 64 val) = replicate (64 - n) False"
  shows "\<exists>bytes'. write_rest val bytes n = Inr bytes' \<and> length bytes' = length bytes \<and>
    stream_bits bytes' = take n (bits_of 64 val) @ drop n (stream_bits bytes)"
  using assms
proof (induction bytes arbitrary: val n)
  case (Cons b bytes)
  show ?case
  proof (cases "8 \<le> n")
    case True
    have push: "bits_of 64 (push_bit 8 val) = drop 8 (bits_of 64 val) @ replicate 8 False"
      by (simp add: bits_of_push drop_bits_of)
    have "drop (n - 8) (bits_of 64 (push_bit 8 val)) = replicate (64 - (n - 8)) False"
      using True Cons.prems(2,3) by (simp add: push flip: replicate_add)
    moreover have "n - 8 \<le> 8 * length bytes" "n - 8 \<le> 64" using Cons.prems(1,2) by simp_all
    ultimately obtain bytes' where "write_rest (push_bit 8 val) bytes (n - 8) = Inr bytes'" "length bytes' = length bytes"
      "stream_bits bytes' = take (n - 8) (bits_of 64 (push_bit 8 val)) @ drop (n - 8) (stream_bits bytes)"
      using Cons.IH by blast
    moreover have "take n (bits_of 64 val) = take 8 (bits_of 64 val) @ take (n - 8) (drop 8 (bits_of 64 val))"
      using True take_add [of 8 "n - 8" "bits_of 64 val"] by simp
    ultimately show ?thesis
      using True Cons.prems(2) by (simp add: HighestByte_bits push)
  next
    case False
    show ?thesis
    proof (cases "n = 0")
      case True
      then show ?thesis by simp
    next
      case pos: False
      have "drop n (bits_of 8 (HighestByte val)) = replicate (8 - n) False"
        using Cons.prems(3) False by (simp add: HighestByte_bits drop_take)
      then have "bits_of 8 (WritePartialByte (HighestByte val) n b 0) = take n (bits_of 64 val) @ drop n (bits_of 8 b)"
        using False WritePartialByte_bits [of 0 n "HighestByte val" b] by (simp add: HighestByte_bits min_def)
      then show ?thesis using False pos by simp
    qed
  qed
qed simp

lemma WriteBits_spec:
  assumes "bs_ok s" "bs_writable s" "0 < n" "n \<le> 64" "bs_pos s + n \<le> 8 * length (bs_bytes s)"
  shows "\<exists>s'. WriteBits val n s = Inr (True, s') \<and> bs_ok s' \<and> bs_pos s' = bs_pos s + n \<and> bs_writable s' \<and>
    length (bs_bytes s') = length (bs_bytes s) \<and>
    stream_bits (bs_bytes s') =
      take (bs_pos s) (stream_bits (bs_bytes s)) @ bits_of n val @ drop (bs_pos s + n) (stream_bits (bs_bytes s))"
proof -
  obtain b bytes where b: "drop (bs_byte_offset s) (bs_bytes s) = b # bytes"
    "drop (bs_pos s) (stream_bits (bs_bytes s)) = bits_of (8 - bs_bit_offset s) b @ stream_bits bytes"
    "bs_bytes s = take (bs_byte_offset s) (bs_bytes s) @ b # bytes"
    using rest_bits [of s] assms by auto
  define off r where "off = bs_bit_offset s" and "r = 8 - off"
  have r: "r \<le> 8" "0 < r" "off = 8 - r" using assms(1) by (auto simp: r_def off_def bs_ok_def)
  define V where "V = push_bit (64 - n) val"
  have V: "bits_of 64 V = bits_of n val @ replicate (64 - n) False"
    using assms(4) by (simp add: V_def bits_of_push)
  define k where "k = min n r"
  define first where "first = WritePartialByte (HighestByte V) k b off"
  have "drop k (bits_of 8 (HighestByte V)) = replicate (8 - k) False \<or> off + k = 8"
    using assms(4) r by (auto simp: HighestByte_bits V k_def min_def)
  then have first: "bits_of 8 first = take off (bits_of 8 b) @ take k (bits_of n val) @ drop (off + k) (bits_of 8 b)"
    unfolding first_def using r assms(4) by (subst WritePartialByte_bits) (auto simp: HighestByte_bits V k_def)
  obtain rest where rest: "(if n \<le> r then Inr bytes else write_rest (push_bit k V) bytes (n - k)) = Inr rest"
    "length rest = length bytes" "stream_bits rest = drop k (bits_of n val) @ drop (n - k) (stream_bits bytes)"
  proof (cases "n \<le> r")
    case True
    then show ?thesis using that [of bytes] by (simp add: k_def)
  next
    case False
    then have k: "k = r" by (simp add: k_def)
    have len: "8 * length (bs_bytes s) - bs_pos s = r + 8 * length bytes"
      using arg_cong [OF b(2), of length] by (simp add: r_def off_def)
    have push: "bits_of 64 (push_bit r V) = drop r (bits_of 64 V) @ replicate r False"
      using r(1) by (simp add: bits_of_push drop_bits_of)
    have "drop (n - r) (bits_of 64 (push_bit r V)) = replicate (64 - (n - r)) False"
      using False assms(4) r by (simp add: push V flip: replicate_add)
    moreover have "n - r \<le> 8 * length bytes" "n - r \<le> 64" using len assms(4,5) by linarith+
    ultimately obtain rest where "write_rest (push_bit r V) bytes (n - r) = Inr rest" "length rest = length bytes"
      "stream_bits rest = take (n - r) (bits_of 64 (push_bit r V)) @ drop (n - r) (stream_bits bytes)"
      using write_rest_spec by blast
    then show ?thesis using that [of rest] False k assms(4) r by (simp add: push V)
  qed
  define t where "t = s\<lparr>bs_bytes := take (bs_byte_offset s) (bs_bytes s) @ first # rest\<rparr>"
  have len: "length (bs_bytes t) = length (bs_bytes s)"
    using rest(2) arg_cong [OF b(1), of length] by (simp add: t_def)
  have "WriteBits val n s = Inr (ConsumeBits n t)"
  proof -
    note rest1 = rest(1) [unfolded k_def V_def r_def off_def]
    have "\<not> RemainingBitCount s < n" using RemainingBitCount_ok [OF assms(1)] assms(5) by linarith
    then show ?thesis
      unfolding WriteBits_def Let_def b(1) list.case rest1 sum.case
      using assms(2-4) by (simp add: t_def first_def k_def V_def r_def off_def)
  qed
  moreover have "bs_pos t = bs_pos s" "bs_writable t" "bs_bit_offset t = bs_bit_offset s"
    using assms(2) by (simp_all add: t_def bs_pos_def)
  moreover from this have "bs_ok t" using assms(1) len by (simp add: bs_ok_def)
  moreover have "stream_bits (bs_bytes t) =
      take (bs_pos s) (stream_bits (bs_bytes s)) @ bits_of n val @ drop (bs_pos s + n) (stream_bits (bs_bytes s))"
  proof -
    have B: "bits_of r b = drop off (bits_of 8 b)" using r by (simp add: drop_bits_of)
    have D: "drop (8 * bs_byte_offset s) (stream_bits (bs_bytes s)) = bits_of 8 b @ stream_bits bytes"
      unfolding drop_stream_bits b(1) by simp
    have T: "take (bs_pos s) (stream_bits (bs_bytes s)) =
        stream_bits (take (bs_byte_offset s) (bs_bytes s)) @ take off (bits_of 8 b)"
      unfolding bs_pos_def off_def [symmetric] take_add take_stream_bits D using r by simp
    have "drop (bs_pos s + n) (stream_bits (bs_bytes s)) = drop n (drop (bs_pos s) (stream_bits (bs_bytes s)))"
      by (simp add: add.commute)
    then have E: "drop (bs_pos s + n) (stream_bits (bs_bytes s)) = drop n (bits_of r b @ stream_bits bytes)"
      using b(2) by (simp add: r_def off_def)
    show ?thesis
    proof (cases "n \<le> r")
      case True
      then have "k = n" "n - (8 - off) = 0" using r by (simp_all add: k_def)
      then show ?thesis
        unfolding T E using True by (simp add: t_def stream_bits_append first rest(3) B add.commute)
    next
      case False
      then have "k = r" "off + r = 8" using r by (simp_all add: k_def)
      then show ?thesis
        unfolding T E using False by (simp add: t_def stream_bits_append first rest(3))
    qed
  qed
  ultimately show ?thesis
    using ConsumeBits_spec [of t n] assms(5) len by auto
qed

section \<open>Codes\<close>

lemma CountBits_spec: "val \<noteq> 0 \<Longrightarrow> 0 < CountBits val \<and> bit val (CountBits val - 1) \<and> (\<forall>j\<ge>CountBits val. \<not> bit val j)"
proof (induction val rule: CountBits.induct)
  case (1 val)
  show ?case
  proof (cases "drop_bit 1 val = 0")
    case True
    then have "\<not> bit val (Suc j)" for j using bit_drop_bit_eq [of 1 val] by (metis bit_0_eq bot_apply bot_bool_def comp_apply plus_1_eq_Suc)
    moreover have "CountBits val = 1" using 1(2) True by (simp add: CountBits.simps [of val] CountBits.simps [of 0])
    moreover have "bit val 0"
    proof (rule ccontr)
      assume "\<not> bit val 0"
      then have "val = 0" using calculation(1) by (intro bit_word_eqI) (metis bit_0_eq bot_apply bot_bool_def not0_implies_Suc)
      then show False using 1(2) by simp
    qed
    ultimately show ?thesis by (auto simp: Suc_le_eq gr0_conv_Suc)
  next
    case False
    then have IH: "0 < CountBits (drop_bit 1 val)" "bit (drop_bit 1 val) (CountBits (drop_bit 1 val) - 1)"
      "\<forall>j\<ge>CountBits (drop_bit 1 val). \<not> bit (drop_bit 1 val) j"
      using 1 by blast+
    have c: "CountBits val = Suc (CountBits (drop_bit 1 val))" using 1(2) by (simp add: CountBits.simps [of val])
    have "\<not> bit val j" if "CountBits val \<le> j" for j
    proof -
      have "\<not> bit (drop_bit 1 val) (j - 1)" using IH(3) that c by simp
      then show ?thesis using that c by (simp add: bit_drop_bit_eq)
    qed
    moreover have "bit val (CountBits val - 1)" using IH(1,2) c by (simp add: bit_drop_bit_eq)
    ultimately show ?thesis using c by simp
  qed
qed

lemma golomb_bits:
  assumes "v \<noteq> 0" "c = CountBits v"
  shows "bits_of (c * 2 - 1) v = replicate (c - 1) False @ bits_of c v" "bits_of c v = True # bits_of (c - 1) v"
proof -
  have c: "0 < c" "bit v (c - 1)" "\<And>j. c \<le> j \<Longrightarrow> \<not> bit v j" using CountBits_spec [OF assms(1)] assms(2) by auto
  show "bits_of (c * 2 - 1) v = replicate (c - 1) False @ bits_of c v"
    using c by (intro nth_equalityI) (auto simp: nth_append intro!: arg_cong [of _ _ "bit v"])
  show "bits_of c v = True # bits_of (c - 1) v"
    using c by (intro nth_equalityI) (auto simp: nth_Cons split: nat.split intro!: arg_cong [of _ _ "bit v"])
qed

lemma skip_zeros_spec:
  assumes "bs_ok s" "drop (bs_pos s) (stream_bits (bs_bytes s)) = replicate z False @ True # r" "z < fuel"
  shows "\<exists>s'. skip_zeros fuel k s = Inr (k + z, s') \<and> bs_ok s' \<and> bs_pos s' = bs_pos s + z \<and> bs_bytes s' = bs_bytes s"
  using assms
proof (induction z arbitrary: s k fuel)
  case 0
  then have len: "bs_pos s < 8 * length (bs_bytes s)"
    by (metis append_Nil drop_all length_stream_bits list.distinct(1) not_less replicate_0)
  obtain f where "fuel = Suc f" using 0 by (cases fuel) auto
  moreover have "PeekBits 1 s = Inr (Some 1)"
    using 0 len by (simp add: PeekBits_spec bits_val_def)
  ultimately show ?case using 0 by simp
next
  case (Suc z)
  then have len: "bs_pos s < 8 * length (bs_bytes s)"
    by (metis append_Cons drop_all length_stream_bits list.distinct(1) not_less replicate_Suc)
  obtain f where f: "fuel = Suc f" using Suc.prems by (cases fuel) auto
  have "PeekBits 1 s = Inr (Some 0)"
    using Suc.prems len by (simp add: PeekBits_spec bits_val_def)
  moreover obtain t where t: "ConsumeBits 1 s = (True, t)" "bs_ok t" "bs_pos t = bs_pos s + 1" "bs_bytes t = bs_bytes s"
    using ConsumeBits_spec [of s 1] Suc.prems(1) len by auto
  moreover have "drop (bs_pos t) (stream_bits (bs_bytes t)) = replicate z False @ True # r"
    using Suc.prems(2) t(3,4) by (metis add.commute drop_drop drop_Suc_Cons drop_0 One_nat_def replicate_Suc append_Cons)
  ultimately show ?case
    using Suc.IH [of t f "k + 1"] Suc.prems(3) f by auto
qed

text \<open>The stream at another position.\<close>

definition at_position :: "bitstream \<Rightarrow> bitstream \<Rightarrow> bitstream" where
  "at_position s s' = s'\<lparr>bs_byte_offset := bs_byte_offset s, bs_bit_offset := bs_bit_offset s\<rparr>"

lemma at_position_ok:
  assumes "bs_ok s" "length (bs_bytes s') = length (bs_bytes s)"
  shows "bs_ok (at_position s s')" "bs_pos (at_position s s') = bs_pos s" "bs_bytes (at_position s s') = bs_bytes s'"
  using assms by (simp_all add: at_position_def bs_ok_def bs_pos_def)

lemma golomb_write_read:
  assumes "bs_ok s" "bs_writable s" "bs_pos s + 63 \<le> 8 * length (bs_bytes s)" "val \<noteq> - 1"
  shows "\<exists>s' s''. WriteExponentialGolomb val s = Inr (True, s') \<and>
    ReadExponentialGolomb (at_position s s') = Inr (Some val, s'') \<and> bs_pos s'' = bs_pos s' \<and> bs_bytes s'' = bs_bytes s'"
proof -
  define v :: u64 where "v = ucast val + 1"
  define c where "c = CountBits v"
  have small: "unat val < 2 ^ 32 - 1"
  proof -
    have "unat val \<noteq> unat (- 1 :: u32)" using assms(4) by (metis word_unat_eq_iff)
    moreover have "unat val < 2 ^ 32" using unsigned_less [of val, where 'a = nat] by simp
    moreover have "unat (- 1 :: u32) = 2 ^ 32 - 1" by (simp add: unsigned_minus_1_eq_mask mask_eq_exp_minus_1)
    ultimately show ?thesis by linarith
  qed
  have "unat (ucast val :: u64) = unat val"
    using small by (simp add: unsigned_ucast_eq take_bit_nat_eq_self)
  then have v: "unat v = unat val + 1"
    unfolding v_def using small by (subst unat_word_ariths) simp
  then have nz: "v \<noteq> 0" by auto
  note c = CountBits_spec [OF nz, folded c_def]
  have "unat (take_bit 32 v) = unat v"
    using v small by (simp add: unsigned_take_bit_eq take_bit_nat_eq_self)
  then have "take_bit 32 v = v" by (metis word_unat_eq_iff)
  then have "c - 1 < 32" using c by (metis bit_take_bit_iff)
  then have c32: "c \<le> 32" by simp
  have n: "0 < c * 2 - 1" "c * 2 - 1 \<le> 64" "bs_pos s + (c * 2 - 1) \<le> 8 * length (bs_bytes s)" "bs_pos s + (c - 1) + c = bs_pos s + (c * 2 - 1)"
    using c c32 assms(3) by auto
  obtain s' where s': "WriteBits v (c * 2 - 1) s = Inr (True, s')" "bs_pos s' = bs_pos s + (c * 2 - 1)"
    "length (bs_bytes s') = length (bs_bytes s)"
    "stream_bits (bs_bytes s') = take (bs_pos s) (stream_bits (bs_bytes s)) @ bits_of (c * 2 - 1) v @
      drop (bs_pos s + (c * 2 - 1)) (stream_bits (bs_bytes s))"
    using WriteBits_spec [OF assms(1,2) n(1-3), of v] by blast
  define t where "t = at_position s s'"
  note t = at_position_ok [OF assms(1) s'(3), folded t_def]
  have "length (take (bs_pos s) (stream_bits (bs_bytes s))) = bs_pos s" using assms(3) by simp
  then have d: "drop (bs_pos t) (stream_bits (bs_bytes t)) = replicate (c - 1) False @ bits_of c v @
      drop (bs_pos s + (c * 2 - 1)) (stream_bits (bs_bytes s))"
    unfolding t s'(4) golomb_bits(1) [OF nz c_def] by simp
  have fuel: "c - 1 < 8 * length (bs_bytes t) + 1" using n(3) t(3) s'(3) by simp
  obtain t' where t': "skip_zeros (8 * length (bs_bytes t) + 1) 0 t = Inr (c - 1, t')" "bs_ok t'"
    "bs_pos t' = bs_pos s + (c - 1)" "bs_bytes t' = bs_bytes s'"
    using skip_zeros_spec [OF t(1) _ fuel, of _ 0] d t golomb_bits(2) [OF nz c_def] by auto
  have "drop (bs_pos t') (stream_bits (bs_bytes t')) = drop (c - 1) (drop (bs_pos t) (stream_bits (bs_bytes t)))"
    using t t' by (simp add: add.commute)
  then have take: "take c (drop (bs_pos t') (stream_bits (bs_bytes t'))) = bits_of c v"
    unfolding d by simp
  have room: "bs_pos t' + c \<le> 8 * length (bs_bytes t')" using t'(3,4) n(3,4) s'(3) by simp
  then obtain t'' where t'': "ReadBits c t' = Inr (Some (word_of_nat (bits_val (bits_of c v))), t'')"
    "bs_pos t'' = bs_pos t' + c" "bs_bytes t'' = bs_bytes t'"
    using ReadBits_spec [OF t'(2), of c] take c c32 by auto
  have "n < c" if "bit v n" for n using c that by (meson not_le)
  then have "take_bit c v = v" by (intro bit_word_eqI) (auto simp: bit_take_bit_iff)
  then have "(word_of_nat (bits_val (bits_of c v)) :: u32) - 1 = val"
    using v by (simp add: bits_val_bits_of)
  then have "ReadExponentialGolomb t = Inr (Some val, t'')"
    using t'(1) t'' c c32 by (simp add: ReadExponentialGolomb_def)
  then show ?thesis
    using s'(1,2) t'' t'(3,4) n(4) assms(4) by (auto simp: WriteExponentialGolomb_def Let_def v_def [symmetric] c_def [symmetric] t_def)
qed

text \<open>(C16) The bit stream refines the list of its bits: in a well-formed stream that has not reached its end a read
  of up to 32 bits returns the number the next bits spell and moves the position behind them, or fails
  without moving when there are too few; a write of 1 to 64 bits replaces exactly these bits by the low bits of
  the value and keeps all the others.\<close>

theorem bitstream_refines_bits:
  assumes "bs_ok s" "bs_pos s < 8 * length (bs_bytes s)"
  shows "(n \<le> 32 \<longrightarrow>
      (if bs_pos s + n \<le> 8 * length (bs_bytes s)
       then \<exists>s'. ReadBits n s = Inr (Some (word_of_nat (bits_val (take n (drop (bs_pos s) (stream_bits (bs_bytes s)))))), s') \<and>
              bs_ok s' \<and> bs_pos s' = bs_pos s + n \<and> bs_bytes s' = bs_bytes s
       else ReadBits n s = Inr (None, s))) \<and>
    (bs_writable s \<and> 0 < n \<and> n \<le> 64 \<longrightarrow>
      (if bs_pos s + n \<le> 8 * length (bs_bytes s)
       then \<exists>s'. WriteBits val n s = Inr (True, s') \<and> bs_ok s' \<and> bs_pos s' = bs_pos s + n \<and>
              stream_bits (bs_bytes s') = take (bs_pos s) (stream_bits (bs_bytes s)) @ bits_of n val @
                drop (bs_pos s + n) (stream_bits (bs_bytes s))
       else WriteBits val n s = Inr (False, s)))"
proof (cases "bs_pos s + n \<le> 8 * length (bs_bytes s)")
  case True
  then show ?thesis
    using ReadBits_spec [OF assms, of n] WriteBits_spec [OF assms(1), of n val] by fastforce
next
  case False
  then have "RemainingBitCount s < n" using RemainingBitCount_ok [OF assms(1)] assms(2) by linarith
  then show ?thesis
    using False PeekBits_spec [OF assms, of n] by (simp add: ReadBits_def WriteBits_def)
qed

theorem bitstream_refines_bits_witness:
  "ReadBits 4 \<lparr>bs_bytes = [0xA5, 0x0F], bs_byte_offset = 0, bs_bit_offset = 6, bs_writable = True\<rparr> =
     Inr (Some 4, \<lparr>bs_bytes = [0xA5, 0x0F], bs_byte_offset = 1, bs_bit_offset = 2, bs_writable = True\<rparr>) \<and>
   (\<exists>s'. ReadBits 4 \<lparr>bs_bytes = [0xA5, 0x0F], bs_byte_offset = 0, bs_bit_offset = 6, bs_writable = True\<rparr> =
      Inr (Some (word_of_nat (bits_val (take 4 (drop 6 (stream_bits [0xA5, 0x0F]))))), s') \<and> bs_pos s' = 10)"
proof
  show "ReadBits 4 \<lparr>bs_bytes = [0xA5, 0x0F], bs_byte_offset = 0, bs_bit_offset = 6, bs_writable = True\<rparr> =
     Inr (Some 4, \<lparr>bs_bytes = [0xA5, 0x0F], bs_byte_offset = 1, bs_bit_offset = 2, bs_writable = True\<rparr>)"
    by (simp add: ReadBits_def PeekBits_def RemainingBitCount_def ConsumeBits_def HighestBits_def LowestBits_def)
  show "\<exists>s'. ReadBits 4 \<lparr>bs_bytes = [0xA5, 0x0F], bs_byte_offset = 0, bs_bit_offset = 6, bs_writable = True\<rparr> =
      Inr (Some (word_of_nat (bits_val (take 4 (drop 6 (stream_bits [0xA5, 0x0F]))))), s') \<and> bs_pos s' = 10"
    using bitstream_refines_bits [of "\<lparr>bs_bytes = [0xA5, 0x0F], bs_byte_offset = 0, bs_bit_offset = 6, bs_writable = True\<rparr>" 4 0]
    by (auto simp: bs_ok_def bs_pos_def)
qed

lemma sint_small: "uint (w :: u32) < 2 ^ 31 \<Longrightarrow> sint w = uint w"
proof -
  assume "uint w < 2 ^ 31"
  then have "signed_take_bit 31 (uint w) = uint w"
    by (intro signed_take_bit_int_eq_self) (simp_all add: order_trans [OF _ uint_ge_0])
  then show ?thesis by (simp add: sint_uint)
qed

lemma signed_of_uint:
  assumes "uint v < 2 ^ 32 - 1"
  shows "signed_of v = (if uint v mod 2 = 0 then - (uint v div 2) else (uint v + 1) div 2)"
proof -
  have "v AND 1 = 0 \<longleftrightarrow> uint v mod 2 = 0"
    unfolding and_one_eq word_uint_eq_iff uint_mod by simp
  moreover have "uint (v div 2) = uint v div 2" by (simp add: uint_div)
  moreover have "uint (v + 1) = uint v + 1" using assms by (simp add: uint_word_ariths)
  moreover from this have "uint ((v + 1) div 2) = (uint v + 1) div 2" by (simp add: uint_div)
  ultimately show ?thesis using assms by (simp add: signed_of_def sint_small)
qed

text \<open>(C36) Signed Golomb codes round-trip: for every 32-bit integer but the smallest, written into a well-formed
  stream with 63 bits of room, reading from the old position gives the integer back and ends where the
  write ended.\<close>

theorem signed_golomb_roundtrip:
  assumes "bs_ok s" "bs_writable s" "bs_pos s + 63 \<le> 8 * length (bs_bytes s)" "- (2 ^ 31) < val" "val < 2 ^ 31"
  shows "\<exists>s' s''. WriteSignedExponentialGolomb val s = Inr (True, s') \<and>
    ReadSignedExponentialGolomb (at_position s s') = Inr (Some val, s'') \<and> bs_pos s'' = bs_pos s' \<and>
    bs_bytes s'' = bs_bytes s'"
proof -
  define v :: u32 where "v = (if val = 0 then 0 else if 0 < val then word_of_int val * 2 - 1 else word_of_int (- val) * 2)"
  have double: "uint (word_of_int x * 2 :: u32) = 2 * x" if "0 \<le> x" "x < 2 ^ 31" for x
    using that by (simp add: uint_word_ariths unsigned_of_int take_bit_int_eq_self)
  have u: "uint v = (if val = 0 then 0 else if 0 < val then 2 * val - 1 else - 2 * val)"
  proof (cases "0 < val")
    case True
    then show ?thesis using assms(5) double [of val] by (simp add: v_def uint_word_ariths)
  next
    case False
    then show ?thesis using assms(4) double [of "- val"] by (simp add: v_def del: word_of_int_minus of_int_minus)
  qed
  have small: "uint v < 2 ^ 32 - 1" using u assms(4,5) by (simp split: if_splits)
  have "signed_of v = val" unfolding signed_of_uint [OF small] u by auto
  moreover have "v \<noteq> - 1"
  proof
    assume "v = - 1"
    then have "uint v = 2 ^ 32 - 1" by (simp add: unsigned_minus_1_eq_mask mask_eq_exp_minus_1)
    then show False using small by simp
  qed
  moreover have "WriteSignedExponentialGolomb val s = WriteExponentialGolomb v s"
    using assms(4) by (simp add: WriteSignedExponentialGolomb_def v_def)
  ultimately show ?thesis
    using golomb_write_read [OF assms(1-3), of v] by (fastforce simp: ReadSignedExponentialGolomb_def)
qed

theorem signed_golomb_roundtrip_witness:
  "\<exists>s' s''. WriteSignedExponentialGolomb (- 5) (new_bitstream (replicate 8 0) True) = Inr (True, s') \<and>
    ReadSignedExponentialGolomb (at_position (new_bitstream (replicate 8 0) True) s') = Inr (Some (- 5), s'') \<and>
    bs_pos s'' = bs_pos s' \<and> bs_bytes s'' = bs_bytes s'"
  by (rule signed_golomb_roundtrip) (simp_all add: new_bitstream_def bs_ok_def bs_pos_def)

end
