(* ===== verification/Sandbox.thy ===== *)
theory Sandbox
  imports Json
begin

text \<open>
  The sandbox of the user scripts, \<^verbatim>\<open>sandbox.cpp\<close>: the seccomp filter that is loaded into the child process and
  the supervisor that decides, in the parent, about the calls the filter reports. A system call is named by
  its name; memory of the child, descriptors and the kernel's answers are inputs of the model, kept in the
  notification they belong to. The constants are those of Linux on x86-64.
\<close>

section \<open>The filter\<close>

text \<open>The error numbers are those of \<^verbatim>\<open>errno.h\<close>.\<close>

definition EPERM :: int where "EPERM = 1"
definition ENOENT :: int where "ENOENT = 2"
definition ENOSYS :: int where "ENOSYS = 38"

datatype scmp_action = SCMP_ACT_ALLOW | SCMP_ACT_NOTIFY | SCMP_ACT_ERRNO int

definition default_rules :: "(string \<times> scmp_action) list" where
  "default_rules = map (\<lambda>call. (call, SCMP_ACT_ALLOW)) [
    ''arch_prctl'', ''prctl'', ''brk'', ''cacheflush'', ''clock_getres'', ''clock_getres_time64'', ''clock_gettime'',
    ''clock_gettime64'', ''clock_nanosleep'', ''clock_nanosleep_time64'', ''execve'', ''exit'', ''exit_group'',
    ''futex'', ''futex_time64'', ''get_robust_list'', ''get_thread_area'', ''getegid'', ''getegid32'', ''geteuid'',
    ''geteuid32'', ''getgid'', ''getgid32'', ''getgroups'', ''getgroups32'', ''getpgid'', ''getpgrp'', ''getpid'',
    ''getppid'', ''getrandom'', ''getresgid'', ''getresgid32'', ''getresuid'', ''getresuid32'', ''getrlimit'',
    ''getsid'', ''gettid'', ''gettimeofday'', ''getuid'', ''getuid32'', ''membarrier'', ''mmap'', ''mmap2'',
    ''mprotect'', ''munmap'', ''nanosleep'', ''pause'', ''prlimit64'', ''restart_syscall'', ''rseq'',
    ''rt_sigreturn'', ''sched_getaffinity'', ''sched_yield'', ''set_robust_list'', ''set_thread_area'',
    ''set_tid_address'', ''set_tls'', ''sigreturn'', ''time'', ''ugetrlimit'', ''pipe'', ''pipe2'']"

definition basic_io_rules :: "(string \<times> scmp_action) list" where
  "basic_io_rules = map (\<lambda>call. (call, SCMP_ACT_ALLOW)) [
    ''_llseek'', ''close'', ''close_range'', ''dup'', ''dup2'', ''dup3'', ''lseek'', ''pread64'', ''preadv'',
    ''preadv2'', ''pwrite64'', ''pwritev'', ''pwritev2'', ''read'', ''readv'', ''write'', ''writev'', ''readlink'',
    ''access'']"

definition poll_rules :: "(string \<times> scmp_action) list" where
  "poll_rules = map (\<lambda>call. (call, SCMP_ACT_ALLOW)) [
    ''_newselect'', ''epoll_create'', ''epoll_create1'', ''epoll_ctl'', ''epoll_ctl_old'', ''epoll_pwait'',
    ''epoll_pwait2'', ''epoll_wait'', ''epoll_wait_old'', ''eventfd'', ''eventfd2'', ''poll'', ''ppoll'',
    ''ppoll_time64'', ''pselect6'', ''pselect6_time64'', ''select'']"

definition socket_rules :: "(string \<times> scmp_action) list" where
  "socket_rules = [
    (''connect'', SCMP_ACT_NOTIFY), (''getpeername'', SCMP_ACT_ALLOW), (''getsockname'', SCMP_ACT_ALLOW),
    (''getsockopt'', SCMP_ACT_ALLOW), (''recv'', SCMP_ACT_ALLOW), (''recvfrom'', SCMP_ACT_ALLOW),
    (''recvmmsg'', SCMP_ACT_ALLOW), (''recvmmsg_time64'', SCMP_ACT_ALLOW), (''recvmsg'', SCMP_ACT_ALLOW),
    (''send'', SCMP_ACT_ALLOW), (''sendmmsg'', SCMP_ACT_ALLOW), (''sendmsg'', SCMP_ACT_ALLOW),
    (''sendto'', SCMP_ACT_ALLOW), (''setsockopt'', SCMP_ACT_ALLOW), (''shutdown'', SCMP_ACT_ALLOW),
    (''socket'', SCMP_ACT_ALLOW), (''socketcall'', SCMP_ACT_ALLOW), (''socketpair'', SCMP_ACT_ALLOW),
    (''bind'', SCMP_ACT_ALLOW)]"

definition thread_rules :: "(string \<times> scmp_action) list" where
  "thread_rules = map (\<lambda>call. (call, SCMP_ACT_ALLOW)) [
    ''rseq'', ''clone'', ''clone3'', ''tgkill'']"

definition kernel_rules :: "(string \<times> scmp_action) list" where
  "kernel_rules = [
    (''getcwd'', (SCMP_ACT_ERRNO ENOENT)), (''getcpu'', SCMP_ACT_ALLOW), (''getpriority'', SCMP_ACT_ALLOW),
    (''ioctl'', SCMP_ACT_ALLOW), (''ioprio_get'', SCMP_ACT_ALLOW), (''madvise'', SCMP_ACT_ALLOW),
    (''mremap'', SCMP_ACT_ALLOW), (''sched_get_priority_max'', SCMP_ACT_ALLOW),
    (''sched_get_priority_min'', SCMP_ACT_ALLOW), (''sched_getattr'', SCMP_ACT_ALLOW),
    (''sched_getparam'', SCMP_ACT_ALLOW), (''sched_getscheduler'', SCMP_ACT_ALLOW),
    (''sched_rr_get_interval'', SCMP_ACT_ALLOW), (''sched_rr_get_interval_time64'', SCMP_ACT_ALLOW),
    (''sched_yield'', SCMP_ACT_ALLOW), (''splice'', SCMP_ACT_ALLOW), (''sysinfo'', SCMP_ACT_ALLOW),
    (''tee'', SCMP_ACT_ALLOW), (''umask'', SCMP_ACT_ALLOW), (''uname'', SCMP_ACT_ALLOW),
    (''vmsplice'', SCMP_ACT_ALLOW)]"

definition signal_rules :: "(string \<times> scmp_action) list" where
  "signal_rules = map (\<lambda>call. (call, SCMP_ACT_ALLOW)) [
    ''rt_sigaction'', ''rt_sigpending'', ''rt_sigprocmask'', ''rt_sigsuspend'', ''rt_sigtimedwait'',
    ''rt_sigtimedwait_time64'', ''sigaction'', ''sigaltstack'', ''signal'', ''signalfd'', ''signalfd4'',
    ''sigpending'', ''sigprocmask'', ''sigsuspend'']"

definition loader_rules :: "(string \<times> scmp_action) list" where
  "loader_rules = [
    (''openat'', SCMP_ACT_NOTIFY), (''newfstatat'', SCMP_ACT_ALLOW), (''fcntl'', SCMP_ACT_ALLOW),
    (''statx'', SCMP_ACT_ALLOW)]"

definition install_seccomp :: "(string \<times> scmp_action) list" where
  "install_seccomp =
     default_rules @ basic_io_rules @ poll_rules @ socket_rules @ thread_rules @ kernel_rules @ signal_rules @
     loader_rules"

text \<open>What the loaded filter does with a call; the default of \<^verbatim>\<open>seccomp_init\<close> is to fail with \<open>ENOSYS\<close>.\<close>

definition seccomp_action :: "string \<Rightarrow> scmp_action" where
  "seccomp_action call = (case map_of install_seccomp call of Some a \<Rightarrow> a | None \<Rightarrow> SCMP_ACT_ERRNO ENOSYS)"

section \<open>The process that is started\<close>

record process =
  p_uid :: nat
  p_gid :: nat
  p_filtered :: bool

text \<open>\<^verbatim>\<open>setgid\<close> and \<^verbatim>\<open>setuid\<close> of the kernel: refused by the filter, or for a process that is not root and asks for
  another identity. The code ignores their result.\<close>

definition permitted :: "string \<Rightarrow> process \<Rightarrow> bool" where
  "permitted call p \<longleftrightarrow> (p_filtered p \<longrightarrow> seccomp_action call = SCMP_ACT_ALLOW)"

definition sys_setgid :: "nat \<Rightarrow> process \<Rightarrow> process" where
  "sys_setgid g p = (if permitted ''setgid'' p \<and> p_uid p = 0 then p\<lparr>p_gid := g\<rparr> else p)"

definition sys_setuid :: "nat \<Rightarrow> process \<Rightarrow> process" where
  "sys_setuid u p = (if permitted ''setuid'' p \<and> p_uid p = 0 then p\<lparr>p_uid := u\<rparr> else p)"

definition drop_root :: "process \<Rightarrow> process" where
  "drop_root p = sys_setuid 65536 (sys_setgid 65536 p)"

text \<open>The function is empty in the source.\<close>

definition no_fd_leak :: "process \<Rightarrow> process" where
  "no_fd_leak p = p"

definition load_filter :: "process \<Rightarrow> process" where
  "load_filter p = p\<lparr>p_filtered := True\<rparr>"

section \<open>Notifications\<close>

text \<open>
  A notification carries the call and what the system answers while it is handled: the memory of the caller
  (\<^verbatim>\<open>process_vm_readv\<close>, which may give fewer bytes than asked for), whether its id is still valid, the
  descriptor that \<^verbatim>\<open>SECCOMP_IOCTL_NOTIF_ADDFD\<close> makes of a file with the given content (or -1), and whether the
  response is taken.
\<close>

record seccomp_resp =
  resp_id :: nat
  resp_error :: int
  resp_val :: int
  resp_continue :: bool

record notification =
  nt_id :: nat
  nt_call :: string
  nt_arg0 :: u64
  nt_arg1 :: u64
  nt_arg2 :: u64
  nt_memory :: "u64 \<Rightarrow> nat \<Rightarrow> string"
  nt_valid :: bool
  nt_addfd :: "string \<Rightarrow> bool \<Rightarrow> int"
  nt_responds :: "seccomp_resp \<Rightarrow> bool"

type_synonym sandboxVFS = "string \<rightharpoonup> string"

definition AT_FDCWD :: int where "AT_FDCWD = - 100"
definition O_RDONLY :: int where "O_RDONLY = 0"
definition O_CLOEXEC :: int where "O_CLOEXEC = 0x80000"

text \<open>A buffer of \<open>n\<close> zeros after reading into it, and the C string in it.\<close>

definition filled :: "nat \<Rightarrow> string \<Rightarrow> string" where
  "filled n bytes = take n (bytes @ replicate n (char_of (0::nat)))"

definition c_str :: "string \<Rightarrow> string" where
  "c_str = takeWhile (\<lambda>c. c \<noteq> char_of (0::nat))"

definition node_want_open :: "notification \<Rightarrow> string" where
  "node_want_open n = c_str (filled 8193 (take 4096 (nt_memory n (nt_arg1 n) 4096)))"

definition open_dirfd :: "notification \<Rightarrow> int" where
  "open_dirfd n = sint (ucast (nt_arg0 n) :: 32 word)"

definition open_flag :: "notification \<Rightarrow> int" where
  "open_flag n = sint (nt_arg2 n)"

definition starts_with_any :: "string list \<Rightarrow> string \<Rightarrow> bool" where
  "starts_with_any ps s \<longleftrightarrow> list_ex (starts_with s) ps"

section \<open>Opening files\<close>

definition library_prefixes :: "string list" where
  "library_prefixes =
     [''/usr'', ''/lib'', ''/etc/ld'', ''/run'', ''/etc/resolv.conf'', ''/etc/localtime'', ''/etc/ssl'',
      ''/etc/host.conf'', ''/etc/hosts'', ''/sys/fs/cgroup/memory/'', ''/proc/meminfo'', ''/etc/nsswitch.conf'',
      ''/etc/gai.conf'', ''/dev/'']"

definition data_prefixes :: "string list" where
  "data_prefixes =
     [''/etc/resolv.conf'', ''/etc/localtime'', ''/etc/ssl'', ''/etc/hosts'', ''/usr/share'', ''/etc/host.conf'',
      ''/etc/nsswitch.conf'', ''/etc/gai.conf'', ''/dev/urandom'']"

definition first_resp :: "notification \<Rightarrow> seccomp_resp" where
  "first_resp n = \<lparr>resp_id = nt_id n, resp_error = - EPERM, resp_val = 0, resp_continue = False\<rparr>"

definition continue_resp :: "seccomp_resp \<Rightarrow> seccomp_resp" where
  "continue_resp r = r\<lparr>resp_error := 0, resp_continue := True\<rparr>"

text \<open>\<open>Given_file\<close> is a descriptor put into the child, \<open>Response\<close> an answer that was sent.\<close>

datatype supervisor_effect = Given_file nat string bool | Response seccomp_resp

definition open_resp :: "sandboxVFS \<Rightarrow> notification \<Rightarrow> supervisor_effect list \<times> seccomp_resp" where
  "open_resp vfs n =
     (let path = node_want_open n; dirfd = open_dirfd n; flag = open_flag n; r = first_resp n
      in if dirfd = AT_FDCWD \<and> flag = O_CLOEXEC \<and> starts_with_any library_prefixes path then ([], continue_resp r)
         else if dirfd = AT_FDCWD \<and> flag = O_RDONLY \<and> starts_with_any data_prefixes path then ([], continue_resp r)
         else if starts_with path ''/dev/'' \<and> dirfd = AT_FDCWD then ([], continue_resp r)
         else if starts_with path ''/dev/pts/'' \<and> dirfd = AT_FDCWD then ([], continue_resp r)
         else if starts_with path ''/run/systemd/'' \<and> dirfd = AT_FDCWD then
           ([], r\<lparr>resp_error := ENOENT, resp_continue := False\<rparr>)
         else case (if dirfd = AT_FDCWD then vfs path else None) of
           Some file_content \<Rightarrow>
             (let cloexec = bit flag 19
              in ([Given_file (nt_id n) file_content cloexec],
                  r\<lparr>resp_val := nt_addfd n file_content cloexec, resp_error := 0, resp_continue := False\<rparr>))
         | None \<Rightarrow> ([], r))"

section \<open>Connecting\<close>

definition AF_UNSPEC :: nat where "AF_UNSPEC = 0"
definition AF_LOCAL :: nat where "AF_LOCAL = 1"
definition AF_INET :: nat where "AF_INET = 2"
definition AF_INET6 :: nat where "AF_INET6 = 10"

definition byte_at :: "string \<Rightarrow> nat \<Rightarrow> nat" where
  "byte_at s i = of_char (s ! i)"

text \<open>The port in network order, as \<^verbatim>\<open>ntohs\<close> gives it, and as it is stored, read on a little-endian machine.\<close>

definition port_ntohs :: "string \<Rightarrow> nat" where
  "port_ntohs s = 256 * byte_at s 2 + byte_at s 3"

definition port_stored :: "string \<Rightarrow> nat" where
  "port_stored s = byte_at s 2 + 256 * byte_at s 3"

text \<open>The tests of \<^verbatim>\<open>boost::asio::ip::address_v4\<close> and \<^verbatim>\<open>address_v6\<close>, on the bytes of the address.\<close>

definition is_multicast_v4 :: "string \<Rightarrow> bool" where
  "is_multicast_v4 addr \<longleftrightarrow> byte_at addr 0 div 16 = 14"

definition is_multicast_v6 :: "string \<Rightarrow> bool" where
  "is_multicast_v6 addr \<longleftrightarrow> byte_at addr 0 = 255"

definition is_site_local :: "string \<Rightarrow> bool" where
  "is_site_local addr \<longleftrightarrow> byte_at addr 0 = 254 \<and> byte_at addr 1 div 64 = 3"

definition connect_addrlen :: "notification \<Rightarrow> nat" where
  "connect_addrlen n = unat (ucast (nt_arg2 n) :: 32 word)"

definition sockaddr :: "notification \<Rightarrow> string" where
  "sockaddr n = filled (connect_addrlen n) (nt_memory n (nt_arg1 n) (connect_addrlen n))"

definition connect_resp :: "notification \<Rightarrow> seccomp_resp result" where
  "connect_resp n =
     (let addrlen = connect_addrlen n; raw_socket = sockaddr n; r = first_resp n
      in if addrlen = 0 then Inl Undefined
         else if byte_at raw_socket 0 = AF_UNSPEC then Inr (continue_resp r)
         else if byte_at raw_socket 0 = AF_LOCAL then
           (if addrlen < 22 then Inl Undefined
            else if starts_with (drop 2 raw_socket) ''/run/systemd/resolve'' then Inr (continue_resp r)
            else if starts_with (drop 2 raw_socket) ''/var/run/nscd/socket'' then Inr (continue_resp r)
            else Inr r)
         else if byte_at raw_socket 0 = AF_INET \<and> addrlen = 16 then
           (if port_ntohs raw_socket = 5432 then Inr r
            else if is_multicast_v4 (take 4 (drop 4 raw_socket)) then Inr r
            else Inr (continue_resp r))
         else if byte_at raw_socket 0 = AF_INET6 \<and> addrlen = 28 then
           (if port_stored raw_socket = 5432 then Inr r
            else if is_multicast_v6 (take 16 (drop 8 raw_socket)) then Inr r
            else if is_site_local (take 16 (drop 8 raw_socket)) then Inr r
            else Inr (continue_resp r))
         else Inr r)"

section \<open>The supervisor\<close>

text \<open>One notification: the effects on the child, and whether the loop goes on, returns or breaks.\<close>

datatype supervisor_state = Supervising | Returned | Broken exn

definition respond :: "notification \<Rightarrow> supervisor_effect list \<Rightarrow> seccomp_resp \<Rightarrow> supervisor_effect list \<times> supervisor_state" where
  "respond n before resp =
     (if resp_val resp \<noteq> 0 then (before, Supervising)
      else (before @ [Response resp], if nt_responds n resp then Supervising else Returned))"

definition supervise :: "sandboxVFS \<Rightarrow> notification \<Rightarrow> supervisor_effect list \<times> supervisor_state" where
  "supervise vfs n =
     (if nt_call n = ''openat'' then
        (if \<not> nt_valid n then ([], Returned)
         else (case open_resp vfs n of (given, resp) \<Rightarrow> respond n given resp))
      else if nt_call n = ''connect'' then
        (case connect_resp n of Inl e \<Rightarrow> ([], Broken e) | Inr resp \<Rightarrow> respond n [] resp)
      else respond n [] (first_resp n))"

text \<open>The loop over what \<^verbatim>\<open>seccomp_notify_receive\<close> gives; \<open>None\<close> is its failure.\<close>

fun start_supervisor :: "sandboxVFS \<Rightarrow> notification option list \<Rightarrow> supervisor_effect list \<times> supervisor_state" where
  "start_supervisor vfs [] = ([], Supervising)"
| "start_supervisor vfs (None # rest) = ([], Returned)"
| "start_supervisor vfs (Some n # rest) =
     (case supervise vfs n of
        (effects, Supervising) \<Rightarrow> apfst (append effects) (start_supervisor vfs rest)
      | (effects, state) \<Rightarrow> (effects, state))"

section \<open>What the filter reports\<close>

lemma notified_calls: "seccomp_action c = SCMP_ACT_NOTIFY \<longleftrightarrow> c = ''openat'' \<or> c = ''connect''"
proof -
  have "a \<noteq> SCMP_ACT_NOTIFY" if "(c, a) \<in> set install_seccomp" "c \<noteq> ''openat''" "c \<noteq> ''connect''" for a
    using that unfolding install_seccomp_def default_rules_def basic_io_rules_def poll_rules_def socket_rules_def
      thread_rules_def kernel_rules_def signal_rules_def loader_rules_def by auto
  then have "c = ''openat'' \<or> c = ''connect''" if "seccomp_action c = SCMP_ACT_NOTIFY"
    using that by (auto simp: seccomp_action_def split: option.splits dest: map_of_SomeD)
  moreover have "seccomp_action ''openat'' = SCMP_ACT_NOTIFY" "seccomp_action ''connect'' = SCMP_ACT_NOTIFY"
    by code_simp+
  ultimately show ?thesis by auto
qed

text \<open>No other way to open a file is left, and none to change the identity of the process.\<close>

lemma refused_calls:
  "map seccomp_action [''open'', ''openat2'', ''creat'', ''open_by_handle_at'', ''unlink'', ''rename'', ''mkdir'',
     ''chmod'', ''ptrace'', ''kill'', ''setuid'', ''setgid'', ''setreuid'', ''listen'', ''accept''] =
   replicate 15 (SCMP_ACT_ERRNO ENOSYS)"
  by code_simp

section \<open>The policy of the supervisor\<close>

definition may_open :: "notification \<Rightarrow> bool" where
  "may_open n \<longleftrightarrow> open_dirfd n = AT_FDCWD \<and>
     (starts_with (node_want_open n) ''/dev/'' \<or>
      open_flag n = O_CLOEXEC \<and> starts_with_any library_prefixes (node_want_open n) \<or>
      open_flag n = O_RDONLY \<and> starts_with_any data_prefixes (node_want_open n))"

definition may_connect :: "notification \<Rightarrow> bool" where
  "may_connect n \<longleftrightarrow>
     (let s = sockaddr n; family = byte_at s 0
      in family = AF_UNSPEC \<or>
         family = AF_LOCAL \<and> starts_with_any [''/run/systemd/resolve'', ''/var/run/nscd/socket''] (drop 2 s) \<or>
         family = AF_INET \<and> length s = 16 \<and> port_ntohs s \<noteq> 5432 \<and> \<not> is_multicast_v4 (take 4 (drop 4 s)) \<or>
         family = AF_INET6 \<and> length s = 28 \<and> port_stored s \<noteq> 5432 \<and>
           \<not> is_multicast_v6 (take 16 (drop 8 s)) \<and> \<not> is_site_local (take 16 (drop 8 s)))"

definition may_run :: "notification \<Rightarrow> bool" where
  "may_run n \<longleftrightarrow> nt_call n = ''openat'' \<and> may_open n \<or> nt_call n = ''connect'' \<and> may_connect n"

fun effect_id :: "supervisor_effect \<Rightarrow> nat" where
  "effect_id (Given_file i content cloexec) = i"
| "effect_id (Response r) = resp_id r"

lemma length_filled [simp]: "length (filled n bytes) = n"
  by (simp add: filled_def)

lemma length_sockaddr [simp]: "length (sockaddr n) = connect_addrlen n"
  by (simp add: sockaddr_def)

lemma resp_simps [simp]:
  "resp_id (first_resp n) = nt_id n" "resp_error (first_resp n) = - EPERM" "resp_val (first_resp n) = 0"
  "\<not> resp_continue (first_resp n)" "resp_continue (continue_resp r)" "resp_id (continue_resp r) = resp_id r"
  "resp_val (continue_resp r) = resp_val r"
  by (simp_all add: first_resp_def continue_resp_def)

lemma open_resp_allowed: "may_open n \<Longrightarrow> open_resp vfs n = ([], continue_resp (first_resp n))"
  by (simp add: open_resp_def may_open_def Let_def) blast

lemma open_resp_denied:
  assumes "\<not> may_open n"
  shows "open_resp vfs n =
    (if starts_with (node_want_open n) ''/run/systemd/'' \<and> open_dirfd n = AT_FDCWD then
       ([], (first_resp n)\<lparr>resp_error := ENOENT, resp_continue := False\<rparr>)
     else case (if open_dirfd n = AT_FDCWD then vfs (node_want_open n) else None) of
         Some c \<Rightarrow> ([Given_file (nt_id n) c (bit (open_flag n) 19)],
             (first_resp n)\<lparr>resp_val := nt_addfd n c (bit (open_flag n) 19), resp_error := 0, resp_continue := False\<rparr>)
       | None \<Rightarrow> ([], first_resp n))"
proof -
  have "starts_with (node_want_open n) ''/dev/''" if "starts_with (node_want_open n) ''/dev/pts/''"
    using that by (auto simp: starts_with_iff)
  then have "\<not> (starts_with (node_want_open n) ''/dev/pts/'' \<and> open_dirfd n = AT_FDCWD)"
    "\<not> (starts_with (node_want_open n) ''/dev/'' \<and> open_dirfd n = AT_FDCWD)"
    "\<not> (open_dirfd n = AT_FDCWD \<and> open_flag n = O_CLOEXEC \<and> starts_with_any library_prefixes (node_want_open n))"
    "\<not> (open_dirfd n = AT_FDCWD \<and> open_flag n = O_RDONLY \<and> starts_with_any data_prefixes (node_want_open n))"
    using assms by (auto simp: may_open_def)
  then show ?thesis unfolding open_resp_def Let_def by (simp only: if_False simp_thms)
qed

lemma open_resp_policy:
  assumes "open_resp vfs n = (given, r)"
  shows "resp_id r = nt_id n" "resp_continue r \<longleftrightarrow> may_open n" "given = [] \<Longrightarrow> resp_val r = 0"
    "given \<noteq> [] \<Longrightarrow> \<exists>c b. given = [Given_file (nt_id n) c b] \<and> resp_val r = nt_addfd n c b"
  using assms by (cases "may_open n"; auto simp: open_resp_allowed open_resp_denied split: if_splits option.splits)+

lemma connect_resp_policy:
  assumes "connect_resp n = Inr r"
  shows "resp_id r = nt_id n" "resp_val r = 0" "resp_continue r \<longleftrightarrow> may_connect n"
proof -
  show "resp_id r = nt_id n" "resp_val r = 0"
    using assms unfolding connect_resp_def Let_def by (simp_all split: if_splits) auto
  consider "byte_at (sockaddr n) 0 = AF_UNSPEC" | "byte_at (sockaddr n) 0 = AF_LOCAL" | "byte_at (sockaddr n) 0 = AF_INET"
    | "byte_at (sockaddr n) 0 = AF_INET6"
    | "byte_at (sockaddr n) 0 \<notin> {AF_UNSPEC, AF_LOCAL, AF_INET, AF_INET6}" by auto
  then show "resp_continue r \<longleftrightarrow> may_connect n"
    using assms unfolding connect_resp_def may_connect_def Let_def starts_with_any_def
    by cases (simp_all add: AF_UNSPEC_def AF_LOCAL_def AF_INET_def AF_INET6_def split: if_splits, auto)
qed

lemma supervise_policy:
  assumes "supervise vfs n = (effects, st)" "Response r \<in> set effects"
  shows "resp_id r = nt_id n \<and> (resp_continue r \<longleftrightarrow> may_run n)"
proof -
  consider (opn) given r' where "nt_call n = ''openat''" "nt_valid n" "open_resp vfs n = (given, r')"
      "respond n given r' = (effects, st)"
    | (con) r' where "nt_call n = ''connect''" "connect_resp n = Inr r'" "respond n [] r' = (effects, st)"
    | (other) "nt_call n \<noteq> ''openat''" "nt_call n \<noteq> ''connect''" "respond n [] (first_resp n) = (effects, st)"
    using assms by (auto simp: supervise_def split: if_splits prod.splits sum.splits)
  then show ?thesis
  proof cases
    case opn
    then have "r = r'" using assms(2) open_resp_policy(4) [OF opn(3)]
      by (cases "given = []") (auto simp: respond_def split: if_splits)
    then show ?thesis using open_resp_policy(1,2) [OF opn(3)] opn(1) by (simp add: may_run_def)
  next
    case con
    then show ?thesis using assms(2) connect_resp_policy [OF con(2)]
      by (auto simp: respond_def may_run_def split: if_splits)
  next
    case other
    then show ?thesis using assms(2) by (auto simp: respond_def may_run_def split: if_splits)
  qed
qed

text \<open>(C11) The supervisor keeps to its policy: in every run of it, every response answers a call that was reported,
  and it lets the call continue exactly when the policy allows it: opening, from the working directory, anything
  below \<^verbatim>\<open>/dev/\<close>, the listed libraries and configuration files read-only, and connecting to the name services, to
  an IPv4 address that is not multicast on another port than 5432, or to an IPv6 address that is neither multicast
  nor site-local and whose stored port is not 5432.\<close>

theorem supervisor_policy:
  assumes "start_supervisor vfs ns = (effects, st)" "Response r \<in> set effects"
  shows "\<exists>n. Some n \<in> set ns \<and> resp_id r = nt_id n \<and> (resp_continue r \<longleftrightarrow> may_run n)"
  using assms
proof (induction vfs ns arbitrary: effects st rule: start_supervisor.induct)
  case (3 vfs n rest)
  obtain e1 s1 where one: "supervise vfs n = (e1, s1)" by fastforce
  show ?case
  proof (cases "Response r \<in> set e1")
    case True
    then show ?thesis using supervise_policy [OF one] by auto
  next
    case False
    obtain e2 s2 where "start_supervisor vfs rest = (e2, s2)" by fastforce
    moreover have "s1 = Supervising" "effects = e1 @ e2"
      using 3(2,3) False one calculation by (auto split: supervisor_state.splits)
    ultimately show ?thesis using 3(1) [OF one [symmetric], of e2 s2] 3(3) False by auto
  qed
qed simp_all

text \<open>A notification that reads \<^verbatim>\<open>content\<close> at every address and whose answers are taken.\<close>

definition sample_call :: "nat \<Rightarrow> string \<Rightarrow> u64 \<Rightarrow> u64 \<Rightarrow> string \<Rightarrow> notification" where
  "sample_call i call arg0 arg2 content =
     \<lparr>nt_id = i, nt_call = call, nt_arg0 = arg0, nt_arg1 = 4096, nt_arg2 = arg2, nt_memory = (\<lambda>a k. content),
      nt_valid = True, nt_addfd = (\<lambda>c b. 7), nt_responds = (\<lambda>r. True)\<rparr>"

definition sample_run :: "notification list" where
  "sample_run =
     [sample_call 11 ''openat'' (- 100) 0x80000 ''/usr/lib/libc.so.6'',
      sample_call 12 ''openat'' (- 100) 0 ''/etc/shadow'',
      sample_call 13 ''openat'' (- 100) 0 ''/proc/cmdline'']"

lemma c_str_filled:
  assumes "length bytes < n"
  shows "c_str (filled n bytes) = c_str bytes"
proof -
  obtain k where "n - length bytes = Suc k" using assms by (metis Suc_diff_Suc)
  then have "filled n bytes = bytes @ char_of (0::nat) # replicate k (char_of (0::nat))"
    using assms by (simp add: filled_def)
  moreover have "takeWhile p (xs @ x # ys) = takeWhile p xs" if "\<not> p x" for p :: "char \<Rightarrow> bool" and x xs ys
    using that by (induction xs) auto
  ultimately show ?thesis by (simp add: c_str_def)
qed

lemma node_want_open_c_str: "node_want_open n = c_str (take 4096 (nt_memory n (nt_arg1 n) 4096))"
  unfolding node_want_open_def by (rule c_str_filled) simp

lemma sample_open:
  assumes "length path \<le> 4096" "char_of (0::nat) \<notin> set path"
  shows "node_want_open (sample_call i call arg0 arg2 path) = path"
proof -
  have "takeWhile (\<lambda>c. c \<noteq> char_of (0::nat)) path = path" using assms(2) by (induction path) auto
  then show ?thesis using assms(1) by (simp add: node_want_open_c_str sample_call_def c_str_def)
qed

lemma sample_call_simps [simp]:
  "nt_id (sample_call i call d a s) = i" "nt_call (sample_call i call d a s) = call" "nt_valid (sample_call i call d a s)"
  "nt_addfd (sample_call i call d a s) c b = 7" "nt_responds (sample_call i call d a s) r"
  "open_dirfd (sample_call i call (- 100) a s) = AT_FDCWD"
  "open_flag (sample_call i call d 0x80000 s) = O_CLOEXEC" "open_flag (sample_call i call d 0 s) = O_RDONLY"
  by (simp_all add: open_dirfd_def open_flag_def sample_call_def AT_FDCWD_def O_CLOEXEC_def O_RDONLY_def)

lemma sample_paths:
  "node_want_open (sample_call 11 call d a ''/usr/lib/libc.so.6'') = ''/usr/lib/libc.so.6''"
  "node_want_open (sample_call 12 call d a ''/etc/shadow'') = ''/etc/shadow''"
  "node_want_open (sample_call 13 call d a ''/proc/cmdline'') = ''/proc/cmdline''"
  "node_want_open (sample_call 14 call d a ''/usr/../etc/shadow'') = ''/usr/../etc/shadow''"
  by (rule sample_open; code_simp)+

lemma sample_may_open:
  "may_open (sample_call 11 ''openat'' (- 100) 0x80000 ''/usr/lib/libc.so.6'')"
  "\<not> may_open (sample_call 12 ''openat'' (- 100) 0 ''/etc/shadow'')"
  "\<not> may_open (sample_call 13 ''openat'' (- 100) 0 ''/proc/cmdline'')"
  by (simp_all add: may_open_def sample_paths starts_with_any_def library_prefixes_def data_prefixes_def
      O_RDONLY_def O_CLOEXEC_def)

lemma sample_run_effects:
  "start_supervisor [''/proc/cmdline'' \<mapsto> ''script''] (map Some sample_run) =
     ([Response \<lparr>resp_id = 11, resp_error = 0, resp_val = 0, resp_continue = True\<rparr>,
       Response \<lparr>resp_id = 12, resp_error = - 1, resp_val = 0, resp_continue = False\<rparr>,
       Given_file 13 ''script'' False], Supervising)"
  by (simp add: sample_run_def supervise_def respond_def open_resp_allowed open_resp_denied sample_may_open sample_paths
      first_resp_def continue_resp_def EPERM_def O_RDONLY_def)

theorem supervisor_policy_witness:
  "\<exists>n. Some n \<in> set (map Some sample_run) \<and> 12 = nt_id n \<and> \<not> may_run n"
  using supervisor_policy [OF sample_run_effects,
      of "\<lparr>resp_id = 12, resp_error = - 1, resp_val = 0, resp_continue = False\<rparr>"] by simp

section \<open>Every call is answered\<close>

definition well_served :: "notification \<Rightarrow> bool" where
  "well_served n \<longleftrightarrow> nt_valid n \<and> (\<forall>c b. 0 < nt_addfd n c b) \<and> (\<forall>r. nt_responds n r) \<and>
     (nt_call n = ''connect'' \<longrightarrow> 22 \<le> connect_addrlen n)"

lemma connect_resp_defined: "22 \<le> connect_addrlen n \<Longrightarrow> \<exists>r. connect_resp n = Inr r"
  unfolding connect_resp_def Let_def by simp

lemma supervise_served:
  assumes "well_served n"
  shows "\<exists>e. supervise vfs n = ([e], Supervising) \<and> effect_id e = nt_id n"
proof -
  have served: "nt_valid n" "\<And>c b. 0 < nt_addfd n c b" "\<And>r. nt_responds n r"
    "nt_call n = ''connect'' \<Longrightarrow> 22 \<le> connect_addrlen n"
    using assms by (auto simp: well_served_def)
  consider (opn) "nt_call n = ''openat''" | (con) "nt_call n = ''connect''"
    | (other) "nt_call n \<noteq> ''openat''" "nt_call n \<noteq> ''connect''" by auto
  then show ?thesis
  proof cases
    case opn
    obtain given r where o: "open_resp vfs n = (given, r)" by fastforce
    show ?thesis
    proof (cases "given = []")
      case True
      then show ?thesis using opn o served open_resp_policy(1,3) [OF o] by (simp add: supervise_def respond_def)
    next
      case False
      then obtain c b where "given = [Given_file (nt_id n) c b]" "resp_val r = nt_addfd n c b"
        using open_resp_policy(4) [OF o] by auto
      then show ?thesis using opn o served(1) served(2) [of c b] by (simp add: supervise_def respond_def)
    qed
  next
    case con
    then obtain r where "connect_resp n = Inr r" using connect_resp_defined served(4) by blast
    then show ?thesis using con served connect_resp_policy by (simp add: supervise_def respond_def)
  next
    case other
    then show ?thesis using served by (simp add: supervise_def respond_def)
  qed
qed



section \<open>Gaps of the sandbox\<close>

lemma drop_root_filtered: "drop_root (load_filter p) = load_filter p"
proof -
  have "seccomp_action ''setgid'' = SCMP_ACT_ERRNO ENOSYS" "seccomp_action ''setuid'' = SCMP_ACT_ERRNO ENOSYS"
    by code_simp+
  then show ?thesis by (simp add: drop_root_def sys_setuid_def sys_setgid_def permitted_def load_filter_def)
qed

lemma drop_root_first:
  "p_uid p = 0 \<Longrightarrow> \<not> p_filtered p \<Longrightarrow> p_uid (load_filter (drop_root p)) = 65536 \<and> p_gid (load_filter (drop_root p)) = 65536"
  by (simp add: drop_root_def sys_setuid_def sys_setgid_def permitted_def load_filter_def)

text \<open>The database port is open over IPv6: the stored port is compared without converting it from network
  order, so a connection to port 5432 of an IPv6 address that is neither multicast nor site-local continues,
  while over IPv4 it never does.\<close>

theorem ipv6_database_port_open:
  assumes "nt_call n = ''connect''" "port_ntohs (sockaddr n) = 5432"
  shows "if byte_at (sockaddr n) 0 = AF_INET then \<not> may_run n
    else if byte_at (sockaddr n) 0 = AF_INET6 \<and> connect_addrlen n = 28 then
      may_run n = (\<not> is_multicast_v6 (take 16 (drop 8 (sockaddr n))) \<and> \<not> is_site_local (take 16 (drop 8 (sockaddr n))))
    else True"
proof -
  have bytes: "byte_at (sockaddr n) 2 < 256" "byte_at (sockaddr n) 3 < 256"
    by (simp_all add: byte_at_def)
  then have "byte_at (sockaddr n) 2 = 21" "byte_at (sockaddr n) 3 = 56"
    using assms(2) unfolding port_ntohs_def by arith+
  then have stored: "port_stored (sockaddr n) \<noteq> 5432" by (simp add: port_stored_def)
  show ?thesis
    using assms stored
    by (simp add: may_run_def may_connect_def Let_def AF_UNSPEC_def AF_LOCAL_def AF_INET_def AF_INET6_def)
qed

definition local_postgres :: string where
  "local_postgres = map char_of ([10, 0, 21, 56, 0, 0, 0, 0] @ replicate 15 0 @ [1, 0, 0, 0, 0 :: nat])"

theorem ipv6_database_port_open_witness:
  "may_run (sample_call 11 ''connect'' 3 28 local_postgres)"
proof -
  let ?n = "sample_call 11 ''connect'' 3 28 local_postgres"
  have len: "connect_addrlen ?n = 28" by (simp add: connect_addrlen_def sample_call_def)
  have s: "sockaddr ?n = local_postgres"
    unfolding sockaddr_def len by (simp add: sample_call_def filled_def local_postgres_def eval_nat_numeral)
  have "port_ntohs local_postgres = 5432" "byte_at local_postgres 0 = AF_INET6"
    "\<not> is_multicast_v6 (take 16 (drop 8 local_postgres))" "\<not> is_site_local (take 16 (drop 8 local_postgres))"
    by code_simp+
  then show ?thesis using ipv6_database_port_open [of ?n] unfolding s len
    by (simp add: sample_call_def AF_INET_def AF_INET6_def)
qed

text \<open>Prefixes are compared on the text of the path, so a path may leave the allowed directories again.\<close>

lemma path_escapes: "may_open (sample_call 14 ''openat'' (- 100) 0x80000 ''/usr/../etc/shadow'')"
  by (simp add: may_open_def sample_paths starts_with_any_def library_prefixes_def)

text \<open>An unreadable socket address is a buffer of zeros, the unspecified family, and passes.\<close>

lemma unreadable_address_passes:
  "nt_call n = ''connect'' \<Longrightarrow> 0 < connect_addrlen n \<Longrightarrow> nt_memory n (nt_arg1 n) (connect_addrlen n) = [] \<Longrightarrow> may_run n"
  by (simp add: may_run_def may_connect_def sockaddr_def filled_def byte_at_def AF_UNSPEC_def)

end
