(* ===== verification/User_Script.thy ===== *)
theory User_Script
  imports Sandbox
begin

text \<open>
  Running the scripts of the merchants, \<^verbatim>\<open>userscript_service.cpp\<close>: the process that is started, the collection of
  its output and the time limit. The process itself is a parameter: from how it was started and the time limit
  it gives the results of reading its standard output that arrive within the limit, or the exception that
  starting, reading or stopping it raises.
\<close>

section \<open>Reading the output\<close>

text \<open>
  The dynamic buffer over the string \<open>out\<close>: \<^verbatim>\<open>prepare\<close> appends 512 zero bytes, reading overwrites a start of
  them, \<^verbatim>\<open>commit\<close> cuts the string behind what was read. A read gives at most 512 bytes and an error flag. The
  result is \<open>None\<close> while the pipe has not ended.
\<close>

type_synonym pipe_read = "string \<times> bool"

definition prepared :: "string \<Rightarrow> string \<Rightarrow> string" where
  "prepared out bytes = out @ bytes @ replicate (512 - length bytes) (char_of (0::nat))"

definition commit :: "string \<Rightarrow> nat \<Rightarrow> nat \<Rightarrow> string" where
  "commit buffer old n = take (old + n) buffer"

fun read_all_pipe_data :: "pipe_read list \<Rightarrow> string \<Rightarrow> nat \<Rightarrow> (nat \<times> string) option" where
  "read_all_pipe_data [] out total_transfred = None"
| "read_all_pipe_data ((bytes, ec) # reads) out total_transfred =
     (let buffer = prepared out bytes; n = length bytes
      in if ec then
           (if 0 < n then Some (total_transfred + n, commit buffer (length out) n) else Some (total_transfred, buffer))
         else if n = 0 then Some (total_transfred, buffer)
         else read_all_pipe_data reads (commit buffer (length out) n) (total_transfred + n))"

definition resize :: "nat \<Rightarrow> string \<Rightarrow> string" where
  "resize n s = take n (s @ replicate n (char_of (0::nat)))"

section \<open>The process\<close>

record node_process =
  np_args :: "string list"
  np_env :: "(string \<times> string) list option"
  np_dir :: string
  np_stdin :: string
  np_vfs :: sandboxVFS
  np_process :: process

text \<open>The suspension at the start of a call can be cut off; the service runs as \<open>us_process\<close>.\<close>

record script_system =
  us_yield :: "nat \<Rightarrow> exn option"
  us_node :: "nat \<Rightarrow> node_process \<Rightarrow> nat \<Rightarrow> pipe_read list result"
  us_temp_dir :: string
  us_process :: process

text \<open>What is returned when the output has ended within the limit, and otherwise.\<close>

definition script_result :: "pipe_read list \<Rightarrow> string" where
  "script_result reads =
     (case read_all_pipe_data reads [] 0 of Some (out_size, out) \<Rightarrow> resize out_size out | None \<Rightarrow> [])"

definition exec_setup :: "process \<Rightarrow> process" where
  "exec_setup p = drop_root (load_filter (no_fd_leak p))"

definition exec_setup_http :: "process \<Rightarrow> process" where
  "exec_setup_http p = drop_root (no_fd_leak (load_filter p))"

definition node_start :: "script_system \<Rightarrow> string \<Rightarrow> string list \<Rightarrow> node_process" where
  "node_start S script_content script_arguments =
     \<lparr>np_args = ''/proc/cmdline'' # script_arguments, np_env = None, np_dir = ''/tmp'', np_stdin = [],
      np_vfs = [''/proc/cmdline'' \<mapsto> script_content], np_process = exec_setup (us_process S)\<rparr>"

definition run_script :: "script_system \<Rightarrow> nat \<Rightarrow> string \<Rightarrow> string list \<Rightarrow> string result" where
  "run_script S n script_content script_arguments =
     (case us_yield S n of Some e \<Rightarrow> Inl e
      | None \<Rightarrow> map_sum id script_result (us_node S n (node_start S script_content script_arguments) 5))"

text \<open>The call for a web request: the body is the standard input, every exception of the standard library is
  swallowed.\<close>

definition run_script_http ::
  "script_system \<Rightarrow> nat \<Rightarrow> string \<Rightarrow> string \<Rightarrow> (string \<times> string) list \<Rightarrow> string list \<Rightarrow> string result" where
  "run_script_http S n script_file_content http_request_body scriptenv script_arguments =
     (case us_yield S n of Some e \<Rightarrow> Inl e
      | None \<Rightarrow>
          (case us_node S n
             \<lparr>np_args = ''/proc/cmdline'' # script_arguments, np_env = Some scriptenv, np_dir = us_temp_dir S,
              np_stdin = http_request_body, np_vfs = [''/proc/cmdline'' \<mapsto> script_file_content],
              np_process = exec_setup_http (us_process S)\<rparr> 20 of
             Inl e \<Rightarrow> if is_std_exception e then Inr [] else Inl e
           | Inr reads \<Rightarrow> Inr (script_result reads)))"

section \<open>The output is complete\<close>

text \<open>A sequence of reads that ends: chunks, and then the end of the pipe or an error, perhaps with last bytes.\<close>

definition ended_reads :: "string list \<Rightarrow> pipe_read \<Rightarrow> pipe_read list" where
  "ended_reads chunks final = map (\<lambda>c. (c, False)) chunks @ [final]"

lemma commit_prepared [simp]: "commit (prepared out bytes) (length out) (length bytes) = out @ bytes"
  by (simp add: commit_def prepared_def)

lemma read_all_ended:
  assumes "list_all (\<lambda>c. c \<noteq> []) chunks" "snd final \<or> fst final = []"
  shows "\<exists>out'. read_all_pipe_data (ended_reads chunks final) out (length out) =
      Some (length (out @ concat chunks @ fst final), out') \<and>
    (\<exists>r. out' = out @ concat chunks @ fst final @ r)"
  using assms(1)
proof (induction chunks arbitrary: out)
  case Nil
  then show ?case using assms(2)
    by (cases final) (auto simp: ended_reads_def prepared_def commit_def Let_def)
next
  case (Cons c chunks)
  then show ?case using Cons.IH [of "out @ c"] by (simp add: ended_reads_def Let_def)
qed

text \<open>The whole output of a script is returned: when the pipe ends within the limit, however its bytes are cut
  into reads, the result is exactly the bytes read, without a trace of the padding of the buffer.\<close>

theorem script_output:
  assumes "us_yield S n = None" "us_node S n (node_start S script args) 5 = Inr (ended_reads chunks final)"
    "list_all (\<lambda>c. c \<noteq> []) chunks" "snd final \<or> fst final = []"
  shows "run_script S n script args = Inr (concat chunks @ fst final)"
proof -
  obtain out' r where "read_all_pipe_data (ended_reads chunks final) [] 0 = Some (length (concat chunks @ fst final), out')"
    "out' = concat chunks @ fst final @ r"
    using read_all_ended [OF assms(3,4), of "[]"] by auto
  then show ?thesis using assms(1,2) by (simp add: run_script_def script_result_def resize_def)
qed

text \<open>A script whose output does not end in time returns nothing.\<close>

lemma script_timeout:
  assumes "us_yield S n = None" "us_node S n (node_start S script args) 5 = Inr (map (\<lambda>c. (c, False)) chunks)"
    "list_all (\<lambda>c. c \<noteq> []) chunks"
  shows "run_script S n script args = Inr []"
proof -
  have "read_all_pipe_data (map (\<lambda>c. (c, False)) chunks) out k = None" for out k
    using assms(3) by (induction chunks arbitrary: out k) (simp_all add: Let_def)
  then show ?thesis using assms(1,2) by (simp add: run_script_def script_result_def)
qed

definition sample_scripts :: script_system where
  "sample_scripts =
     \<lparr>us_yield = (\<lambda>_. None), us_node = (\<lambda>n _ _. Inr (ended_reads [''ab'', ''c''] ([], False))),
      us_temp_dir = ''/tmp'', us_process = \<lparr>p_uid = 0, p_gid = 0, p_filtered = False\<rparr>\<rparr>"

theorem script_output_witness: "run_script sample_scripts 0 ''s'' [] = Inr ''abc''"
  using script_output [of sample_scripts 0 "''s''" "[]" "[''ab'', ''c'']" "([], False)"] by (simp add: sample_scripts_def)

section \<open>Failures and identity\<close>

text \<open>A web request never fails because of its script, unless the call is cut off before it starts.\<close>

lemma run_script_http_exceptions:
  "run_script_http S n script body vars args = Inl e \<Longrightarrow> us_yield S n = Some e \<or> \<not> is_std_exception e"
  by (auto simp: run_script_http_def split: option.splits sum.splits if_splits)

text \<open>(C26) Scripts run with the identity of the service: the filter is loaded before the root privileges are to be
  dropped and refuses the calls that drop them, in both ways of starting a script; in the other order a root
  process would give up its identity.\<close>

theorem script_keeps_identity:
  assumes "p_uid p = 0" "\<not> p_filtered p"
  shows "exec_setup p = p\<lparr>p_filtered := True\<rparr> \<and> exec_setup_http p = p\<lparr>p_filtered := True\<rparr> \<and>
    load_filter (drop_root p) = p\<lparr>p_filtered := True, p_uid := 65536, p_gid := 65536\<rparr>"
  unfolding exec_setup_def exec_setup_http_def no_fd_leak_def drop_root_filtered
  using assms by (simp add: load_filter_def drop_root_def sys_setuid_def sys_setgid_def permitted_def)

theorem script_keeps_identity_witness:
  "p_uid (exec_setup \<lparr>p_uid = 0, p_gid = 0, p_filtered = False\<rparr>) = 0"
  using script_keeps_identity [of "\<lparr>p_uid = 0, p_gid = 0, p_filtered = False\<rparr>"] by simp

end
