(* ===== verification/Httpc.thy ===== *)
theory Httpc
  imports Url Http_Site
begin

text \<open>
  The HTTP client of \<^verbatim>\<open>utils/httpc.hpp\<close>. The network is a parameter: what resolving a name, connecting, the TLS
  handshake, writing, reading and closing give, as the message of an error or as the response. zlib is a
  parameter too. Names of header fields are compared without regard to case.
\<close>

section \<open>Requests and responses\<close>

record request_options =
  ro_verb :: string
  ro_url :: string
  ro_headers :: "(string \<times> string) list"
  ro_body :: "string option"

text \<open>\<^verbatim>\<open>response_t::code\<close> has no initial value: \<open>None\<close> until it is assigned.\<close>

record response_t =
  rt_err :: "string option"
  rt_code :: "int option"
  rt_content_type :: string
  rt_fields :: "(string \<times> string) list"
  rt_body :: string

definition empty_response :: response_t where
  "empty_response = \<lparr>rt_err = None, rt_code = None, rt_content_type = [], rt_fields = [], rt_body = []\<rparr>"

text \<open>Reading a member that was never assigned is undefined.\<close>

definition read_code :: "response_t \<Rightarrow> int result" where
  "read_code r = (case rt_code r of Some c \<Rightarrow> Inr c | None \<Rightarrow> Inl Undefined)"

definition field_of :: "(string \<times> string) list \<Rightarrow> string \<Rightarrow> string" where
  "field_of fs name =
     (case List.find (\<lambda>(n, _). lower n = lower name) fs of None \<Rightarrow> [] | Some (_, v) \<Rightarrow> v)"

definition set_field :: "string \<Rightarrow> string \<Rightarrow> (string \<times> string) list \<Rightarrow> (string \<times> string) list" where
  "set_field name v fs = filter (\<lambda>(n, _). lower n \<noteq> lower name) fs @ [(name, v)]"

section \<open>Compressed bodies\<close>

datatype zlib_ret = Z_OK string | Z_MEM_ERROR | Z_BUF_ERROR | Z_DATA_ERROR

text \<open>The rounds of \<^verbatim>\<open>inflate\<close> on a buffer of 1000 bytes: the return code and the bytes written.\<close>

fun gunzip_rounds :: "(int \<times> string) list \<Rightarrow> string \<Rightarrow> string" where
  "gunzip_rounds [] deflated_data = deflated_data"
| "gunzip_rounds ((r, bytes) # rounds) deflated_data =
     (if r < 0 then deflated_data
      else if length bytes = 1000 then gunzip_rounds rounds (deflated_data @ bytes)
      else deflated_data @ bytes)"

record zlib =
  zl_init :: int
  zl_inflate :: "string \<Rightarrow> (int \<times> string) list"
  zl_uncompress2 :: "nat \<Rightarrow> string \<Rightarrow> zlib_ret"

definition gunzip :: "zlib \<Rightarrow> string \<Rightarrow> string" where
  "gunzip Z gzip_data = (if zl_init Z \<noteq> 0 then [] else gunzip_rounds (zl_inflate Z gzip_data) [])"

text \<open>The loop that doubles the buffer; it need not end.\<close>

partial_function (option) uncompress_loop :: "zlib \<Rightarrow> string \<Rightarrow> nat \<Rightarrow> zlib_ret option" where
  "uncompress_loop Z compressed room =
     (case zl_uncompress2 Z room compressed of
        Z_MEM_ERROR \<Rightarrow> uncompress_loop Z compressed (room * 2)
      | r \<Rightarrow> Some r)"

declare uncompress_loop.simps [code]

section \<open>One request\<close>

record http_net =
  hn_resolve :: "nat \<Rightarrow> string \<Rightarrow> string \<Rightarrow> string option"
  hn_sni :: "nat \<Rightarrow> string \<Rightarrow> string option"
  hn_connect :: "nat \<Rightarrow> string \<Rightarrow> string \<Rightarrow> string option"
  hn_write :: "nat \<Rightarrow> bool \<Rightarrow> http_request \<Rightarrow> string option"
  hn_read :: "nat \<Rightarrow> bool \<Rightarrow> http_request \<Rightarrow> string + http_response"
  hn_shutdown :: "nat \<Rightarrow> string option"
  hn_zlib :: zlib

text \<open>\<^verbatim>\<open>prepare_payload\<close> sets the length of a body that is not empty, or of a request that always carries one.\<close>

definition prepare_payload :: "string \<Rightarrow> string \<Rightarrow> (string \<times> string) list \<Rightarrow> (string \<times> string) list" where
  "prepare_payload verb body fs =
     (if 0 < length body \<or> verb \<in> set [''OPTIONS'', ''PUT'', ''POST''] then
        set_field ''Content-Length'' (show_nat (length body)) fs
      else filter (\<lambda>(n, _). lower n \<noteq> ''content-length'') fs)"

definition build_request :: "request_options \<Rightarrow> uri \<Rightarrow> http_request" where
  "build_request opt url =
     (let target = (if path_query url = [] then ''/'' else path_query url);
          base = set_field ''Accept-Encoding'' ''gzip, deflate''
                   (set_field ''User-Agent'' ''curl/7.82.0'' (set_field ''Host'' (uri_host url) []));
          hs = foldl (\<lambda>fs (n, v). set_field n v fs) base (ro_headers opt)
      in case ro_body opt of
           None \<Rightarrow> \<lparr>hq_method = ro_verb opt, hq_target = target, hq_fields = hs, hq_body = [], hq_upgrade = False\<rparr>
         | Some body \<Rightarrow>
             \<lparr>hq_method = ro_verb opt, hq_target = target, hq_fields = prepare_payload (ro_verb opt) body hs,
              hq_body = body, hq_upgrade = False\<rparr>)"

definition failed :: "string \<Rightarrow> response_t" where
  "failed msg = empty_response\<lparr>rt_err := Some msg\<rparr>"

text \<open>
  What is made of the response that was read; \<open>None\<close> when the decompression does not end. A body that is not a
  deflate stream leaves the loop before the connection is shut down, and so without its error.
\<close>

definition decode_body :: "http_net \<Rightarrow> nat \<Rightarrow> http_response \<Rightarrow> response_t option" where
  "decode_body N n res =
     (let encoding = field_of (hs_fields res) ''Content-Encoding'';
          answer = (\<lambda>body err. \<lparr>rt_err = err, rt_code = Some (hs_status res),
             rt_content_type = field_of (hs_fields res) ''Content-Type'', rt_fields = hs_fields res, rt_body = body\<rparr>)
      in if encoding = ''gzip'' then Some (answer (gunzip (hn_zlib N) (hs_body res)) (hn_shutdown N n))
         else if encoding = ''deflate'' then
           (case uncompress_loop (hn_zlib N) (hs_body res) 2048 of
              None \<Rightarrow> None
            | Some Z_DATA_ERROR \<Rightarrow> Some (answer (hs_body res) None)
            | Some (Z_OK dest) \<Rightarrow> Some (answer dest (hn_shutdown N n))
            | Some _ \<Rightarrow> Some (answer (hs_body res) (hn_shutdown N n)))
         else Some (answer (hs_body res) (hn_shutdown N n)))"

text \<open>The error of the TLS handshake is not tested, it is overwritten by that of the write; so the handshake is no
  branch of its own. The server name is set from the text of the URL behind the start of the host.\<close>

definition do_request :: "http_net \<Rightarrow> nat \<Rightarrow> request_options \<Rightarrow> response_t result option" where
  "do_request N n opt =
     (case make_uri (ro_url opt) of
        Inl e \<Rightarrow> Some (Inl e)
      | Inr url \<Rightarrow>
          (let host = uri_host url; port = effective_port url; is_secure = (uri_scheme url = ''https'');
               req = build_request opt url
           in case hn_resolve N n host port of
                Some msg \<Rightarrow> Some (Inr (failed msg))
              | None \<Rightarrow>
                  (case (if is_secure then hn_sni N n (ro_url opt) else None) of
                     Some msg \<Rightarrow> Some (Inr (failed msg))
                   | None \<Rightarrow>
                       (case hn_connect N n host port of
                          Some msg \<Rightarrow> Some (Inr (failed msg))
                        | None \<Rightarrow>
                            (case hn_write N n is_secure req of
                               Some msg \<Rightarrow> Some (Inr (failed msg))
                             | None \<Rightarrow>
                                 (case hn_read N n is_secure req of
                                    Inl msg \<Rightarrow> Some (Inr (failed msg))
                                  | Inr res \<Rightarrow> map_option Inr (decode_body N n res)))))))"

section \<open>Header fields of a request\<close>

lemma lower_idem [simp]: "lower (lower s) = lower s"
  by (induction s) (auto simp: lower_def of_char_of)

lemma field_of_Cons: "field_of ((n, v) # fs) m = (if lower n = lower m then v else field_of fs m)"
  by (simp add: field_of_def)

lemma field_of_append: "lower m \<notin> (lower \<circ> fst) ` set fs \<Longrightarrow> field_of (fs @ gs) m = field_of gs m"
  by (induction fs) (auto simp: field_of_Cons)

lemma field_of_filter:
  "(\<And>n v. lower n = lower m \<Longrightarrow> p (n, v)) \<Longrightarrow> field_of (filter p fs) m = field_of fs m"
  by (induction fs) (auto simp: field_of_Cons)

lemma field_of_filter_append:
  "(\<And>n v. lower n = lower m \<Longrightarrow> p (n, v)) \<Longrightarrow> lower k \<noteq> lower m \<Longrightarrow> field_of (filter p fs @ [(k, v)]) m = field_of fs m"
  by (induction fs) (force simp: field_of_Cons field_of_def)+

lemma field_of_set_field: "field_of (set_field n v fs) m = (if lower n = lower m then v else field_of fs m)"
proof (cases "lower n = lower m")
  case True
  then have "lower m \<notin> (lower \<circ> fst) ` set (filter (\<lambda>(k, _). lower k \<noteq> lower n) fs)" by auto
  then have "field_of (set_field n v fs) m = field_of [(n, v)] m" unfolding set_field_def by (rule field_of_append)
  then show ?thesis using True by (simp add: field_of_Cons)
next
  case False
  then have "field_of (filter (\<lambda>(k, _). lower k \<noteq> lower n) fs @ [(n, v)]) m = field_of fs m"
    by (intro field_of_filter_append) auto
  then show ?thesis using False by (simp add: set_field_def)
qed

lemma field_of_fold:
  assumes "distinct (map (lower \<circ> fst) hs)"
  shows "field_of (foldl (\<lambda>fs (n, v). set_field n v fs) fs hs) m =
    (case map_of (map (\<lambda>(n, v). (lower n, v)) hs) (lower m) of Some v \<Rightarrow> v | None \<Rightarrow> field_of fs m)"
  using assms
proof (induction hs arbitrary: fs)
  case (Cons h hs)
  obtain n v where h: "h = (n, v)" by fastforce
  have "map_of (map (\<lambda>(n, v). (lower n, v)) hs) (lower n) = None"
    using Cons.prems h by (force simp: map_of_eq_None_iff)
  then show ?case using Cons h by (auto simp: field_of_set_field split: option.splits)
qed simp

text \<open>The headers of a client request: every header that is asked for is sent with its value, whatever the
  client sets by itself; the host is that of the URL and the length is that of the body, unless they are asked for
  or there is no body.\<close>

theorem request_headers:
  assumes "distinct (map (lower \<circ> fst) (ro_headers opt))" "(n, v) \<in> set (ro_headers opt)" "lower n \<noteq> ''content-length''"
    "\<forall>h\<in>set (ro_headers opt). lower (fst h) \<noteq> ''host''"
  shows "field_of (hq_fields (build_request opt url)) n = v \<and>
    field_of (hq_fields (build_request opt url)) ''Host'' = uri_host url \<and>
    (case ro_body opt of
       Some b \<Rightarrow> b = [] \<or> field_of (hq_fields (build_request opt url)) ''Content-Length'' = show_nat (length b)
     | None \<Rightarrow> True)"
proof -
  let ?hs = "ro_headers opt" and ?low = "\<lambda>(n, v). (lower n, v)"
  have "map fst (map ?low ?hs) = map (lower \<circ> fst) ?hs" by auto
  then have "distinct (map fst (map ?low ?hs))" using assms(1) by metis
  moreover have "(lower n, v) \<in> set (map ?low ?hs)" using assms(2) by force
  ultimately have look: "map_of (map ?low ?hs) (lower n) = Some v" by (rule map_of_is_SomeI)
  have host: "map_of (map ?low ?hs) ''host'' = None" using assms(4) by (auto simp: map_of_eq_None_iff)
  have names: "lower ''Host'' = ''host''" "lower ''Content-Length'' = ''content-length''"
    "lower ''User-Agent'' = ''user-agent''" "lower ''Accept-Encoding'' = ''accept-encoding''"
    by code_simp+
  have payload: "field_of (prepare_payload verb b fs) m = field_of fs m" if "lower m \<noteq> ''content-length''" for verb b fs m
    using that by (auto simp: prepare_payload_def field_of_set_field names intro!: field_of_filter)
  have len: "field_of (prepare_payload verb b fs) ''Content-Length'' = show_nat (length b)" if "b \<noteq> []" for verb b fs
    using that by (simp add: prepare_payload_def field_of_set_field)
  show ?thesis
    using look host assms(3)
    by (auto simp: build_request_def Let_def payload field_of_fold [OF assms(1)] field_of_set_field names
        split: option.splits) (metis len)
qed

definition sample_options :: request_options where
  "sample_options = \<lparr>ro_verb = ''POST'', ro_url = ''http://a.b/c'', ro_headers = [(''User-Agent'', ''c++mall'')],
     ro_body = Some ''xyz''\<rparr>"

theorem request_headers_witness:
  "field_of (hq_fields (build_request sample_options (empty_uri\<lparr>uri_host := ''a.b''\<rparr>))) ''User-Agent'' = ''c++mall'' \<and>
   field_of (hq_fields (build_request sample_options (empty_uri\<lparr>uri_host := ''a.b''\<rparr>))) ''Host'' = ''a.b'' \<and>
   field_of (hq_fields (build_request sample_options (empty_uri\<lparr>uri_host := ''a.b''\<rparr>))) ''Content-Length'' = show_nat (length ''xyz'')"
proof -
  have "lower ''User-Agent'' = ''user-agent''" by code_simp
  then show ?thesis
    using request_headers [of sample_options "''User-Agent''" "''c++mall''" "empty_uri\<lparr>uri_host := ''a.b''\<rparr>"]
    by (simp add: sample_options_def)
qed

section \<open>Bodies\<close>

lemma gunzip_rounds_chunks:
  assumes "list_all (\<lambda>c. length c = 1000) chunks" "length final < 1000" "0 \<le> r"
  shows "gunzip_rounds (map (Pair 0) chunks @ (r, final) # tail) acc = acc @ concat chunks @ final"
  using assms(1)
proof (induction chunks arbitrary: acc)
  case Nil
  then show ?case using assms(2,3) by simp
qed simp


definition sample_zlib :: zlib where
  "sample_zlib =
     \<lparr>zl_init = 0, zl_inflate = (\<lambda>s. map (Pair 0) [] @ [(1, ''plain'')]),
      zl_uncompress2 = (\<lambda>room s. if length ''plain'' \<le> room then Z_OK ''plain'' else Z_BUF_ERROR)\<rparr>"

definition sample_net :: http_net where
  "sample_net =
     \<lparr>hn_resolve = (\<lambda>_ _ _. None), hn_sni = (\<lambda>_ _. None), hn_connect = (\<lambda>_ _ _. None), hn_write = (\<lambda>_ _ _. None),
      hn_read = (\<lambda>_ _ _. Inr \<lparr>hs_status = 200, hs_fields = [], hs_body = ''{}''\<rparr>), hn_shutdown = (\<lambda>_. None),
      hn_zlib = sample_zlib\<rparr>"


section \<open>Failures\<close>

text \<open>A request that failed has an error and neither a status nor a body; one with a status was answered.\<close>

lemma failed_request:
  assumes "do_request N n opt = Some (Inr r)" "rt_code r = None"
  shows "rt_body r = [] \<and> rt_err r \<noteq> None \<and> read_code r = Inl Undefined"
  using assms
  by (auto simp: do_request_def decode_body_def failed_def empty_response_def read_code_def Let_def
      split: sum.splits option.splits if_splits zlib_ret.splits)

end
