(* ===== verification/Text_Codec.thy ===== *)
theory Text_Codec
  imports Json "HOL-Library.Sublist"
begin

text \<open>
  Texts of bytes: the hexadecimal strings of \<^verbatim>\<open>internal.cpp\<close> and \<^verbatim>\<open>cmall/misc.hpp\<close>, base 64 as
  \<^verbatim>\<open>cmall/misc.hpp\<close> wraps it, and the random strings made by \<^verbatim>\<open>std::sample\<close>. A byte is a number below 256, a
  \<^verbatim>\<open>std::string\<close> of bytes a list of characters.
\<close>

section \<open>Hexadecimal\<close>

definition hexdigits :: string where
  "hexdigits = ''0123456789abcdef''"

definition char_code :: "char \<Rightarrow> nat" where
  "char_code c = of_char c"

text \<open>\<^verbatim>\<open>char\<close> is signed, so that the returned \<open>-1\<close> compares equal to \<open>-1\<close> after every conversion in the code.\<close>

definition from_hex_char :: "char \<Rightarrow> int" where
  "from_hex_char c =
     (if 48 \<le> char_code c \<and> char_code c \<le> 57 then int (char_code c) - 48
      else if 97 \<le> char_code c \<and> char_code c \<le> 102 then int (char_code c) - 97 + 10
      else if 65 \<le> char_code c \<and> char_code c \<le> 70 then int (char_code c) - 65 + 10
      else - 1)"

definition has_0x :: "string \<Rightarrow> bool" where
  "has_0x s \<longleftrightarrow> 2 \<le> length s \<and> s ! 0 = CHR ''0'' \<and> s ! 1 = CHR ''x''"

text \<open>The loop over the pairs, with the vector that is filled.\<close>

fun hex_pairs :: "string \<Rightarrow> nat list \<Rightarrow> bool \<times> nat list" where
  "hex_pairs [] result = (True, result)"
| "hex_pairs [c] result = (False, result)"
| "hex_pairs (c # d # rest) result =
     (let h = from_hex_char c; l = from_hex_char d
      in if h \<noteq> - 1 \<and> l \<noteq> - 1 then hex_pairs rest (result @ [nat (h * 16 + l)]) else (False, result))"

definition from_hexstring :: "string \<Rightarrow> nat list \<Rightarrow> bool \<times> nat list" where
  "from_hexstring src result =
     (let s = (if has_0x src then 2 else 0)
      in if length src mod 2 = 1 then
           (let h = from_hex_char (src ! s)
            in if h \<noteq> - 1 then hex_pairs (drop (s + 1) src) (result @ [nat h]) else (False, result))
         else hex_pairs (drop s src) result)"

definition is_hexstring :: "string \<Rightarrow> bool" where
  "is_hexstring src =
     list_all (\<lambda>c. from_hex_char c \<noteq> - 1) (if take 2 src = ''0x'' then drop 2 src else src)"

definition hex_byte :: "nat \<Rightarrow> string" where
  "hex_byte b = [hexdigits ! (b div 16 mod 16), hexdigits ! (b mod 16)]"

definition to_hexstring_range :: "nat list \<Rightarrow> string \<Rightarrow> string" where
  "to_hexstring_range bytes pre = pre @ concat (map hex_byte bytes)"

definition to_hexstring :: "nat list \<Rightarrow> nat \<Rightarrow> string \<Rightarrow> string" where
  "to_hexstring data digits prefixed =
     (let tmp = to_hexstring_range data []
      in prefixed @ replicate (digits - length tmp) (CHR ''0'') @ tmp)"

definition fill_hexstring :: "string \<Rightarrow> string" where
  "fill_hexstring str = replicate (64 - length str) (CHR ''0'') @ str"

text \<open>The sixteen bytes of a UUID, without dashes.\<close>

definition uuid_to_string :: "nat list \<Rightarrow> string" where
  "uuid_to_string u = concat (map (\<lambda>b. [hexdigits ! (b div 16 mod 16), hexdigits ! (b mod 16)]) u)"

text \<open>Digests. The hash functions of OpenSSL are parameters that give the bytes of the digest.\<close>

definition md5sum :: "(string \<Rightarrow> nat list) \<Rightarrow> string \<Rightarrow> string" where
  "md5sum md5 s = to_hexstring (md5 s) 32 []"

definition sha256sum :: "(string \<Rightarrow> nat list) \<Rightarrow> string \<Rightarrow> string" where
  "sha256sum sha256 s = to_hexstring (sha256 s) 64 []"

definition hmac_sha256 :: "(string \<Rightarrow> string \<Rightarrow> nat list) \<Rightarrow> string \<Rightarrow> string \<Rightarrow> bool \<Rightarrow> string" where
  "hmac_sha256 hmac key data hex =
     (if hex then to_hexstring (hmac key data) 64 [] else map char_of (hmac key data))"

section \<open>Base 64\<close>

definition get_alphabet :: string where
  "get_alphabet = ''ABCDEFGHIJKLMNOPQRSTUVWXYZabcdefghijklmnopqrstuvwxyz0123456789+/''"

definition get_inverse :: "int list" where
  "get_inverse =
     replicate 43 (- 1) @ [62] @ replicate 3 (- 1) @ [63] @ [52..61] @ replicate 7 (- 1) @ [0..25] @
     replicate 6 (- 1) @ [26..51] @ replicate 133 (- 1)"

fun base64_groups :: "nat list \<Rightarrow> string" where
  "base64_groups (a # b # c # rest) =
     [get_alphabet ! (a div 4), get_alphabet ! ((a mod 4) * 16 + b div 16),
      get_alphabet ! (c div 64 + (b mod 16) * 4), get_alphabet ! (c mod 64)] @ base64_groups rest"
| "base64_groups [a, b] =
     [get_alphabet ! (a div 4), get_alphabet ! ((a mod 4) * 16 + b div 16), get_alphabet ! ((b mod 16) * 4), CHR ''='']"
| "base64_groups [a] = [get_alphabet ! (a div 4), get_alphabet ! ((a mod 4) * 16), CHR ''='', CHR ''='']"
| "base64_groups [] = []"

definition base64_encode :: "string \<Rightarrow> string" where
  "base64_encode s = base64_groups (map char_code s)"

definition three_bytes :: "nat list \<Rightarrow> nat list" where
  "three_bytes c4 =
     [(c4 ! 0) * 4 + (c4 ! 1) div 16 mod 4, (c4 ! 1) mod 16 * 16 + (c4 ! 2) div 4 mod 16, (c4 ! 2) mod 4 * 64 + c4 ! 3]"

text \<open>The loop of \<^verbatim>\<open>decode\<close>: the four digits, the number of them that are set, and the bytes written.\<close>

fun base64_loop :: "string \<Rightarrow> nat list \<Rightarrow> nat \<Rightarrow> nat list \<Rightarrow> nat list \<times> nat \<times> nat list" where
  "base64_loop [] c4 i out = (c4, i, out)"
| "base64_loop (c # rest) c4 i out =
     (if c = CHR ''='' then (c4, i, out)
      else (let v = get_inverse ! char_code c
            in if v = - 1 then (c4, i, out)
               else (let c4' = c4[i := nat v]
                     in if i + 1 = 4 then base64_loop rest c4' 0 (out @ three_bytes c4')
                        else base64_loop rest c4' (i + 1) out)))"

definition base64_bytes :: "string \<Rightarrow> nat list" where
  "base64_bytes s =
     (case base64_loop s [0, 0, 0, 0] 0 [] of
        (c4, i, out) \<Rightarrow> if i \<noteq> 0 then out @ take (i - 1) (three_bytes c4) else out)"

text \<open>The buffer has \<^verbatim>\<open>decoded_size\<close> bytes; writing behind its end is undefined.\<close>

definition decoded_size :: "nat \<Rightarrow> nat" where
  "decoded_size n = n div 4 * 3"

definition base64_decode :: "string \<Rightarrow> string result" where
  "base64_decode s =
     (let bytes = base64_bytes s
      in if decoded_size (length s) < length bytes then Inl Undefined else Inr (map char_of bytes))"

section \<open>Random strings\<close>

text \<open>\<^verbatim>\<open>std::sample\<close> from a forward range: an element is taken when the number drawn, below the number of elements
  left, is smaller than the number of elements still wanted. The draws are a parameter.\<close>

fun std_sample :: "string \<Rightarrow> nat \<Rightarrow> nat list \<Rightarrow> string" where
  "std_sample (c # cs) wanted (d # draws) =
     (if wanted = 0 then []
      else if d mod length (c # cs) < wanted then c # std_sample cs (wanted - 1) draws
      else std_sample cs wanted draws)"
| "std_sample _ _ _ = []"

definition sampled :: "string \<Rightarrow> nat \<Rightarrow> nat list \<Rightarrow> string" where
  "sampled chartable len draws =
     (let s = std_sample chartable len draws in s @ replicate (len - length s) (char_of (0::nat)))"

definition gen_rand_string :: "nat \<Rightarrow> nat list \<Rightarrow> string" where
  "gen_rand_string len draws = sampled ''23456789ABCDEFGHJKLMNPRSTUVWXYZabcdefghijkmnopqrstuvwxyz'' len draws"

definition gen_password :: "nat \<Rightarrow> nat list \<Rightarrow> string" where
  "gen_password len draws = sampled ''!#%+23456789:=?@ABCDEFGHJKLMNPRSTUVWXYZabcdefghijkmnopqrstuvwxyz'' len draws"

section \<open>Hexadecimal round trip\<close>

lemma hexdigit_val: "k < 16 \<Longrightarrow> from_hex_char (hexdigits ! k) = int k"
proof -
  have "list_all (\<lambda>k. from_hex_char (hexdigits ! k) = int k) [0..<16]" by code_simp
  then show "k < 16 \<Longrightarrow> from_hex_char (hexdigits ! k) = int k" by (simp only: list_all_iff set_upt atLeastLessThan_iff) simp
qed

lemma zero_digit: "from_hex_char (CHR ''0'') = 0" "from_hex_char (CHR ''x'') = - 1"
  by code_simp+

lemma hex_byte_val:
  assumes "b < 256"
  shows "nat (from_hex_char (hexdigits ! (b div 16 mod 16)) * 16 + from_hex_char (hexdigits ! (b mod 16))) = b"
proof -
  have "(b div 16 mod 16) * 16 + b mod 16 = b" using assms by (simp add: less_mult_imp_div_less)
  then have "int (b div 16 mod 16) * 16 + int (b mod 16) = int b" by (metis of_nat_add of_nat_mult of_nat_numeral)
  then show ?thesis by (simp only: hexdigit_val mod_less_divisor zero_less_numeral nat_int)
qed

lemma hex_pairs_bytes:
  "list_all (\<lambda>b. b < 256) bs \<Longrightarrow> hex_pairs (concat (map hex_byte bs) @ rest) result = hex_pairs rest (result @ bs)"
proof (induction bs arbitrary: result)
  case (Cons b bs)
  have "from_hex_char (hexdigits ! (b div 16 mod 16)) \<noteq> - 1" "from_hex_char (hexdigits ! (b mod 16)) \<noteq> - 1"
    by (simp_all add: hexdigit_val)
  then have "hex_pairs (hex_byte b @ s) result = hex_pairs s (result @ [b])" for s result
    using Cons.prems hex_byte_val [of b] by (simp add: hex_byte_def Let_def)
  then show ?case using Cons by simp
qed simp

lemma hex_pairs_zeros: "hex_pairs (replicate (2 * n) (CHR ''0'') @ rest) result = hex_pairs rest (result @ replicate n 0)"
  by (induction n arbitrary: result) (simp_all add: zero_digit replicate_app_Cons_same)

lemma to_hexstring_hex:
  "\<forall>c\<in>set (concat (map hex_byte bs)). from_hex_char c \<noteq> - 1"
  by (auto simp: hex_byte_def hexdigit_val)

lemma length_hex_bytes [simp]: "length (concat (map hex_byte bs)) = 2 * length bs"
  by (induction bs) (simp_all add: hex_byte_def)

lemma has_0x_hex:
  assumes "\<forall>c\<in>set s. from_hex_char c \<noteq> - 1"
  shows "\<not> has_0x s"
proof
  assume "has_0x s"
  then have "s ! 1 = CHR ''x''" "1 < length s" by (auto simp: has_0x_def)
  moreover from this have "s ! 1 \<in> set s" by (intro nth_mem) simp
  ultimately show False using assms zero_digit(2) by auto
qed

lemma drop_ConsD:
  assumes "drop k xs = c # rest"
  shows "xs ! k = c" "drop (k + 1) xs = rest"
  using nth_via_drop [OF assms] drop_drop [of 1 k xs] assms by simp_all

text \<open>Hexadecimal strings are read back: the text of a list of bytes, with or without the prefix \<^verbatim>\<open>0x\<close> and
  padded to any number of digits, is accepted, and read as the bytes behind as many zero bytes as the padding
  makes.\<close>

theorem from_to_hexstring:
  assumes "list_all (\<lambda>b. b < 256) data" "prefixed = [] \<or> prefixed = ''0x''"
  shows "from_hexstring (to_hexstring data digits prefixed) result =
      (True, result @ replicate ((digits - 2 * length data + 1) div 2) 0 @ data) \<and>
    is_hexstring (to_hexstring data digits prefixed)"
proof -
  let ?n = "digits - 2 * length data" and ?h = "concat (map hex_byte data)"
  let ?t = "replicate ?n (CHR ''0'') @ ?h"
  have shape: "to_hexstring data digits prefixed = prefixed @ ?t"
    by (simp add: to_hexstring_def to_hexstring_range_def Let_def)
  have hex: "\<forall>c\<in>set ?t. from_hex_char c \<noteq> - 1" using to_hexstring_hex [of data] by (auto simp: zero_digit)
  have start: "drop (if has_0x (prefixed @ ?t) then 2 else 0) (prefixed @ ?t) = ?t"
    using assms(2) has_0x_hex [OF hex] by (auto simp: has_0x_def)
  have parity: "length (prefixed @ ?t) mod 2 = ?n mod 2" using assms(2) by auto
  have "from_hexstring (prefixed @ ?t) result = (True, result @ replicate ((?n + 1) div 2) 0 @ data)"
  proof (cases "?n mod 2 = 1")
    case True
    then obtain m where m: "?n = Suc (2 * m)" by (metis oddE even_iff_mod_2_eq_zero add.commute plus_1_eq_Suc zero_neq_one)
    let ?s = "if has_0x (prefixed @ ?t) then 2 else 0 :: nat"
    have "(prefixed @ ?t) ! ?s = CHR ''0''" "drop (?s + 1) (prefixed @ ?t) = replicate (2 * m) (CHR ''0'') @ ?h"
      using drop_ConsD [of ?s "prefixed @ ?t"] start m by simp_all
    then show ?thesis using True parity m hex_pairs_zeros [of m ?h] hex_pairs_bytes [OF assms(1), of "[]"]
      by (simp add: from_hexstring_def Let_def zero_digit)
  next
    case False
    then obtain m where m: "?n = 2 * m" by (metis evenE even_iff_mod_2_eq_zero parity_cases)
    then show ?thesis using False parity start hex_pairs_zeros [of m ?h] hex_pairs_bytes [OF assms(1), of "[]"]
      by (simp add: from_hexstring_def Let_def)
  qed
  moreover have "is_hexstring (prefixed @ ?t)"
  proof -
    have "take 2 ?t \<noteq> ''0x''"
    proof
      assume "take 2 ?t = ''0x''"
      then have "CHR ''x'' \<in> set (take 2 ?t)" by (simp only:) simp
      then show False using hex in_set_takeD zero_digit(2) by metis
    qed
    then show ?thesis using assms(2) hex by (auto simp: is_hexstring_def list_all_iff)
  qed
  ultimately show ?thesis using shape by simp
qed

theorem from_to_hexstring_witness:
  "from_hexstring (to_hexstring [18, 171] 5 ''0x'') [] = (True, [0, 18, 171]) \<and> to_hexstring [18, 171] 5 ''0x'' = ''0x012ab''"
proof
  show "from_hexstring (to_hexstring [18, 171] 5 ''0x'') [] = (True, [0, 18, 171])"
    using from_to_hexstring [of "[18, 171]" "''0x''" 5 "[]"] by simp
  show "to_hexstring [18, 171] 5 ''0x'' = ''0x012ab''" by code_simp
qed

section \<open>Base 64 round trip\<close>

lemma alphabet_inverse:
  "k < 64 \<Longrightarrow> get_inverse ! char_code (get_alphabet ! k) = int k \<and> get_alphabet ! k \<noteq> CHR ''=''"
proof -
  have "list_all (\<lambda>k. get_inverse ! char_code (get_alphabet ! k) = int k \<and> get_alphabet ! k \<noteq> CHR ''='') [0..<64]"
    by code_simp
  then show "k < 64 \<Longrightarrow> get_inverse ! char_code (get_alphabet ! k) = int k \<and> get_alphabet ! k \<noteq> CHR ''=''"
    by (simp only: list_all_iff set_upt atLeastLessThan_iff) simp
qed

lemma base64_loop_digit:
  "k < 64 \<Longrightarrow> base64_loop (get_alphabet ! k # rest) c4 i out =
     (if i + 1 = 4 then base64_loop rest (c4[i := k]) 0 (out @ three_bytes (c4[i := k]))
      else base64_loop rest (c4[i := k]) (i + 1) out)"
  using alphabet_inverse [of k] by (simp add: Let_def)

lemma base64_loop_stop: "base64_loop (CHR ''='' # rest) c4 i out = (c4, i, out)"
  by simp

lemma length_three_bytes [simp]: "length (three_bytes c4) = 3"
  by (simp add: three_bytes_def)

lemma six_bits:
  "y < 16 \<Longrightarrow> x < 4 \<Longrightarrow> (x * 16 + y) div 16 mod 4 = (x::nat)" "y < 16 \<Longrightarrow> (x * 16 + y) mod 16 = (y::nat)"
  "x < 4 \<Longrightarrow> y < 16 \<Longrightarrow> (x + y * 4) div 4 mod 16 = (y::nat)" "x < 4 \<Longrightarrow> (x + y * 4) mod 4 = (x::nat)"
  by simp_all

lemma digit_bounds:
  "b < 256 \<Longrightarrow> a mod 4 * 16 + b div 16 < (64::nat)" "c < 256 \<Longrightarrow> c div 64 + b mod 16 * 4 < (64::nat)"
  "b mod 16 * 4 < (64::nat)" "a mod 4 * 16 < (64::nat)"
  by arith+

lemma byte_parts: "b < 256 \<Longrightarrow> b div 4 < 64" "b < 256 \<Longrightarrow> b div 16 < 16" "b < 256 \<Longrightarrow> b div 64 < (4::nat)"
  by simp_all

definition base64_end :: "nat list \<times> nat \<times> nat list \<Rightarrow> nat list" where
  "base64_end r = (case r of (c4, i, out) \<Rightarrow> if i \<noteq> 0 then out @ take (i - 1) (three_bytes c4) else out)"

lemma base64_loop_groups:
  "list_all (\<lambda>b. b < 256) bs \<Longrightarrow> base64_end (base64_loop (base64_groups bs) [w, x, y, z] 0 out) = out @ bs"
proof (induction bs arbitrary: w x y z out rule: base64_groups.induct)
  case (1 a b c rest)
  have "three_bytes [a div 4, (a mod 4) * 16 + b div 16, c div 64 + (b mod 16) * 4, c mod 64] = [a, b, c]"
    using 1(2) by (simp add: three_bytes_def six_bits byte_parts)
  then show ?case using 1 by (simp add: base64_loop_digit digit_bounds byte_parts del: base64_loop.simps(2))
next
  case (2 a b)
  have "take (Suc (Suc 0)) (three_bytes [a div 4, (a mod 4) * 16 + b div 16, (b mod 16) * 4, z]) = [a, b]"
    using 2 six_bits(3) [of 0 "b mod 16"] by (simp add: three_bytes_def six_bits byte_parts take_Cons')
  then show ?case using 2 by (simp add: base64_loop_digit base64_loop_stop digit_bounds byte_parts base64_end_def del: base64_loop.simps(2))
next
  case (3 a)
  have "take (Suc 0) (three_bytes [a div 4, (a mod 4) * 16, y, z]) = [a]"
    using 3 six_bits(1) [of 0 "a mod 4"] by (simp add: three_bytes_def)
  then show ?case using 3 by (simp add: base64_loop_digit base64_loop_stop digit_bounds byte_parts base64_end_def del: base64_loop.simps(2))
qed (simp add: base64_end_def)

lemma base64_groups_size: "length bs \<le> decoded_size (length (base64_groups bs))"
  by (induction bs rule: base64_groups.induct) (simp_all add: decoded_size_def div_add_self1)

lemma base64_read_back: "base64_decode (base64_encode s) = Inr s"
proof -
  have "base64_bytes (base64_encode s) = map char_code s"
    using base64_loop_groups [of "map char_code s" 0 0 0 0 "[]"]
    by (simp add: base64_bytes_def base64_end_def base64_encode_def list_all_iff char_code_def)
  moreover have "map char_of (map char_code s) = s" by (simp add: map_idI char_code_def)
  ultimately show ?thesis using base64_groups_size [of "map char_code s"]
    by (simp add: base64_decode_def base64_encode_def Let_def)
qed

lemma base64_groups_length: "length (base64_groups bs) = 4 * ((length bs + 2) div 3)"
  by (induction bs rule: base64_groups.induct) (simp_all, presburger)

text \<open>Base 64 is read back: decoding the encoding of a string gives the string without leaving the buffer, and the
  encoding fills exactly the room that was reserved for it.\<close>

theorem base64_decode_encode:
  "base64_decode (base64_encode s) = Inr s \<and> length (base64_encode s) = 4 * ((length s + 2) div 3)"
  using base64_groups_length [of "map char_code s"] by (simp add: base64_read_back) (simp add: base64_encode_def)

text \<open>Text without padding overruns the buffer.\<close>

lemma base64_loop_length:
  assumes "list_all (\<lambda>c. c \<noteq> CHR ''='' \<and> get_inverse ! char_code c \<noteq> - 1) s" "i < 4"
  shows "case base64_loop s c4 i out of (c4', i', out') \<Rightarrow>
    i' = (i + length s) mod 4 \<and> length out' = length out + (i + length s) div 4 * 3"
  using assms
proof (induction s arbitrary: c4 i out)
  case (Cons c s)
  show ?case
  proof (cases "i = 3")
    case True
    then show ?thesis using Cons.prems Cons.IH [of 0 "out @ three_bytes (c4[3 := nat (get_inverse ! char_code c)])" "c4[3 := nat (get_inverse ! char_code c)]"]
      by (simp add: Let_def div_add_self1 add.assoc split: prod.splits)
  next
    case False
    then show ?thesis using Cons.prems Cons.IH [of "i + 1"] by (simp add: Let_def)
  qed
qed simp

lemma base64_unpadded_overrun:
  assumes "list_all (\<lambda>c. c \<noteq> CHR ''='' \<and> get_inverse ! char_code c \<noteq> - 1) s" "2 \<le> length s mod 4"
  shows "base64_decode s = Inl Undefined"
proof -
  obtain c4 i out where l: "base64_loop s [0, 0, 0, 0] 0 [] = (c4, i, out)" by (cases "base64_loop s [0, 0, 0, 0] 0 []") auto
  then have "i = length s mod 4" "length out = length s div 4 * 3"
    using base64_loop_length [OF assms(1), of 0 "[]" "[0, 0, 0, 0]"] by auto
  then have "length (base64_bytes s) = length s div 4 * 3 + (length s mod 4 - 1)"
    using l assms(2) by (simp add: base64_bytes_def)
  then show ?thesis using assms(2) by (simp add: base64_decode_def decoded_size_def Let_def)
qed

section \<open>Random strings\<close>

lemma std_sample_subseq: "subseq (std_sample table k draws) table"
  by (induction table k draws rule: std_sample.induct) auto

lemma std_sample_length: "length (std_sample table k draws) \<le> k"
  by (induction table k draws rule: std_sample.induct) auto

text \<open>A sampled string has its characters in the order of the table, each at most once.\<close>

lemma gen_password_ordered:
  assumes "char_of (0::nat) \<notin> set (gen_password len draws)"
  shows "distinct (gen_password len draws)" "subseq (gen_password len draws)
    ''!#%+23456789:=?@ABCDEFGHJKLMNPRSTUVWXYZabcdefghijkmnopqrstuvwxyz''" "length (gen_password len draws) = len"
proof -
  let ?table = "''!#%+23456789:=?@ABCDEFGHJKLMNPRSTUVWXYZabcdefghijkmnopqrstuvwxyz''"
  have no: "len - length (std_sample ?table len draws) = 0"
    using assms by (auto simp: gen_password_def sampled_def Let_def)
  then have eq: "gen_password len draws = std_sample ?table len draws" by (simp add: gen_password_def sampled_def Let_def)
  show "subseq (gen_password len draws) ?table" unfolding eq by (rule std_sample_subseq)
  then have "\<exists>I. gen_password len draws = nths ?table I" by (simp add: subseq_conv_nths)
  moreover have "distinct ?table" by code_simp
  ultimately show "distinct (gen_password len draws)" using distinct_nthsI by metis
  show "length (gen_password len draws) = len" unfolding eq using no std_sample_length [of ?table len draws] by simp
qed

end
