(* ===== verification/Remote.thy ===== *)
theory Remote
  imports Httpc Text_Codec Http_Server
begin

text \<open>
  What the clients of remote services share: the parameters that stand for the network, the JSON library, the clock,
  the random numbers and OpenSSL, the sequencing of computations that may throw, and the conversion of time stamps
  of \<^verbatim>\<open>conversion.cpp\<close>.
\<close>

section \<open>Parameters\<close>

text \<open>The outcome of an AES-GCM decryption: a call of the library fails, the tag does not match, or the plain text.\<close>

datatype gcm_result = Gcm_error | Gcm_rejected | Gcm_plain string

text \<open>\<open>rm_verify\<close> is \<^verbatim>\<open>EVP_DigestVerify\<close>: 1 for a matching signature, 0 for another, any other value for an error.\<close>

record remote =
  rm_net :: http_net
  rm_serialize :: "json \<Rightarrow> string"
  rm_parse :: "string \<Rightarrow> json option"
  rm_time :: "nat \<Rightarrow> int"
  rm_draws :: "nat \<Rightarrow> nat list"
  rm_sign :: "string \<Rightarrow> string \<Rightarrow> string"
  rm_verify :: "string \<Rightarrow> string \<Rightarrow> string \<Rightarrow> int"
  rm_gcm :: "string \<Rightarrow> string \<Rightarrow> string \<Rightarrow> string \<Rightarrow> string \<Rightarrow> gcm_result"
  rm_serial :: "string \<Rightarrow> string"
  rm_date :: "string \<Rightarrow> int result"
  rm_tod :: "string \<Rightarrow> int result"

section \<open>Computations that may throw\<close>

definition rthen :: "'a result \<Rightarrow> ('a \<Rightarrow> 'b result) \<Rightarrow> 'b result" where
  "rthen r f = (case r of Inl e \<Rightarrow> Inl e | Inr x \<Rightarrow> f x)"

lemma rthen_simps [simp]: "rthen (Inr x) f = f x" "rthen (Inl e) f = Inl e"
  by (simp_all add: rthen_def)

lemma rthen_Inr: "rthen r f = Inr y \<longleftrightarrow> (\<exists>x. r = Inr x \<and> f x = Inr y)"
  by (cases r) auto

text \<open>A request and what is made of the response; \<open>None\<close> when the request does not end.\<close>

definition ask :: "remote \<Rightarrow> nat \<Rightarrow> request_options \<Rightarrow> (response_t \<Rightarrow> 'a result) \<Rightarrow> 'a result option" where
  "ask R n opt f = map_option (\<lambda>r. rthen r f) (do_request (rm_net R) n opt)"

text \<open>The throwing and the non-throwing \<^verbatim>\<open>boost::json::parse\<close>; the latter leaves a null value.\<close>

definition json_parse :: "remote \<Rightarrow> string \<Rightarrow> json result" where
  "json_parse R s = (case rm_parse R s of Some v \<Rightarrow> Inr v | None \<Rightarrow> Inl (Asio_error 1))"

definition json_parse_ec :: "remote \<Rightarrow> string \<Rightarrow> json" where
  "json_parse_ec R s = (case rm_parse R s of Some v \<Rightarrow> v | None \<Rightarrow> JNull)"

text \<open>\<^verbatim>\<open>value::at\<close> and \<^verbatim>\<open>array::at\<close>.\<close>

definition value_at :: "json \<Rightarrow> string \<Rightarrow> json result" where
  "value_at v k = rthen (as_object v) (\<lambda>ob. obj_at ob k)"

definition array_at :: "json list \<Rightarrow> nat \<Rightarrow> json result" where
  "array_at xs i = (if i < length xs then Inr (xs ! i) else Inl Out_of_range)"

definition json_to_string :: "remote \<Rightarrow> json \<Rightarrow> bool \<Rightarrow> string" where
  "json_to_string R jv lf = (if lf then rm_serialize R jv @ [CHR 0x0A] else rm_serialize R jv)"

section \<open>Time stamps\<close>

definition tod_char :: "char \<Rightarrow> bool" where
  "tod_char c \<longleftrightarrow> isdigit c \<or> c = CHR '':''"

definition zone_text :: "string \<Rightarrow> bool" where
  "zone_text z \<longleftrightarrow> length z = 6 \<and> z ! 0 = CHR ''+'' \<and> isdigit (z ! 1) \<and> isdigit (z ! 2) \<and> z ! 3 = CHR '':'' \<and>
     isdigit (z ! 4) \<and> isdigit (z ! 5)"

text \<open>The groups of \<^verbatim>\<open>([^T]+)T([0-9:]+)\+([0-9][0-9]:[0-9][0-9])\<close>, empty without a match. The zone is not used.\<close>

definition ptime_parts :: "string \<Rightarrow> string \<times> string" where
  "ptime_parts s =
     (let d = takeWhile (\<lambda>c. c \<noteq> CHR ''T'') s
      in case drop (length d) s of
           [] \<Rightarrow> ([], [])
         | _ # r \<Rightarrow>
             (let t = takeWhile tod_char r
              in if d \<noteq> [] \<and> t \<noteq> [] \<and> zone_text (drop (length t) r) then (d, t) else ([], [])))"

definition ptime_of_json :: "remote \<Rightarrow> json \<Rightarrow> ptime result" where
  "ptime_of_json R v =
     rthen (as_string v) (\<lambda>s.
     (case ptime_parts s of (date_string, tod_string) \<Rightarrow>
       rthen (rm_date R date_string) (\<lambda>d.
       rthen (rm_tod R tod_string) (\<lambda>td. Inr (d + td)))))"

text \<open>The offset of a time stamp is dropped: texts that differ only in it are the same time.\<close>

lemma ptime_zone_ignored:
  assumes "d \<noteq> []" "CHR ''T'' \<notin> set d" "t \<noteq> []" "list_all tod_char t" "zone_text z"
  shows "ptime_parts (d @ CHR ''T'' # t @ z) = (d, t)"
proof -
  have "takeWhile (\<lambda>c. c \<noteq> CHR ''T'') (d @ CHR ''T'' # t @ z) = d" using assms(2)
    by (intro takeWhile_append_stop) auto
  moreover have "z \<noteq> []" "hd z = CHR ''+''" using assms(5) by (cases z; simp add: zone_text_def)+
  moreover have "\<not> tod_char (CHR ''+'')" by code_simp
  then have "takeWhile tod_char (t @ z) = t" using assms(4) calculation(2,3)
    by (intro takeWhile_append_stop) (auto simp: list_all_iff)
  ultimately show ?thesis using assms by (simp add: ptime_parts_def)
qed

end
