(* ===== verification/Wxpay.thy ===== *)
theory Wxpay
  imports Remote
begin

text \<open>
  The client of WeChat Pay, \<^verbatim>\<open>wxpay_service.cpp\<close>: the requests it makes with their signatures, the notifications it
  verifies and decodes, and the certificate it keeps. OpenSSL and the network are parameters.
\<close>

section \<open>The service\<close>

datatype pay_status = SUCCESS | REFUND | NOTPAY | CLOSED | REVOKED | USERPAYING | PAYERROR | QUERY_FAILED

definition pay_status_names :: "(string \<times> pay_status) list" where
  "pay_status_names =
     [(''SUCCESS'', SUCCESS), (''REFUND'', REFUND), (''NOTPAY'', NOTPAY), (''CLOSED'', CLOSED), (''REVOKED'', REVOKED),
      (''USERPAYING'', USERPAYING), (''PAYERROR'', PAYERROR), (''QUERY_FAILED'', QUERY_FAILED)]"

definition pay_status_of :: "string \<Rightarrow> pay_status" where
  "pay_status_of s = (case map_of pay_status_names s of Some p \<Rightarrow> p | None \<Rightarrow> QUERY_FAILED)"

text \<open>The configuration and the certificate that signatures are checked against; the hard-coded first certificate is a
  parameter of the constructor.\<close>

record wxpay_service =
  ws_cfg :: microapp_pay_cfg
  ws_signature_key :: string

definition new_wxpay_service :: "string \<Rightarrow> microapp_pay_cfg \<Rightarrow> wxpay_service" where
  "new_wxpay_service first_key cfg = \<lparr>ws_cfg = cfg, ws_signature_key = first_key\<rparr>"

definition reinit :: "microapp_pay_cfg \<Rightarrow> wxpay_service \<Rightarrow> wxpay_service" where
  "reinit cfg w = w\<lparr>ws_cfg := cfg\<rparr>"

section \<open>Signatures\<close>

definition line :: "string \<Rightarrow> string" where
  "line s = s @ [CHR 0x0A]"

definition rsa_sign :: "remote \<Rightarrow> string \<Rightarrow> string \<Rightarrow> string" where
  "rsa_sign R rsa_key_pem s = base64_encode (rm_sign R rsa_key_pem s)"

text \<open>The integer that \<^verbatim>\<open>EVP_DigestVerify\<close> returns is converted to \<^verbatim>\<open>bool\<close>.\<close>

definition rsa_sign_verify :: "remote \<Rightarrow> string \<Rightarrow> string \<Rightarrow> string \<Rightarrow> bool" where
  "rsa_sign_verify R cert s signature \<longleftrightarrow> rm_verify R cert s signature \<noteq> 0"

definition gen_nonce :: "remote \<Rightarrow> nat \<Rightarrow> string" where
  "gen_nonce R n = sampled ''0123456789ABCDEFGHIJKLMNOPQRSTUVWXYZabcdefghijklmnopqrstuvwxyz'' 32 (rm_draws R n)"

definition show_time :: "int \<Rightarrow> string" where
  "show_time t = (if t < 0 then ''-'' @ show_nat (nat (- t)) else show_nat (nat t))"

definition gen_sig :: "remote \<Rightarrow> wxpay_service \<Rightarrow> string \<Rightarrow> string \<Rightarrow> string \<Rightarrow> string" where
  "gen_sig R w timeStamp nonceStr package =
     rsa_sign R (wx_rsa_key (ws_cfg w)) (line (wx_appid (ws_cfg w)) @ line timeStamp @ line nonceStr @ line package)"

definition gen_sig_v3 :: "remote \<Rightarrow> wxpay_service \<Rightarrow> string \<Rightarrow> string \<Rightarrow> string \<Rightarrow> string \<Rightarrow> string \<Rightarrow> string" where
  "gen_sig_v3 R w verb path timeStamp nonceStr body =
     rsa_sign R (wx_rsa_key (ws_cfg w)) (line verb @ line path @ line timeStamp @ line nonceStr @ line body)"

definition verify_text :: "string \<Rightarrow> string \<Rightarrow> string \<Rightarrow> string" where
  "verify_text body timestamp nonce = line timestamp @ line nonce @ line body"

definition verify_sig :: "remote \<Rightarrow> wxpay_service \<Rightarrow> string \<Rightarrow> string \<Rightarrow> string \<Rightarrow> string \<Rightarrow> bool result" where
  "verify_sig R w body timestamp nonce signature =
     rthen (base64_decode signature) (\<lambda>sig.
       Inr (rsa_sign_verify R (ws_signature_key w) (verify_text body timestamp nonce) sig))"

definition quoted_item :: "string \<Rightarrow> string \<Rightarrow> string" where
  "quoted_item k v = k @ [CHR ''='', CHR 0x22] @ v @ [CHR 0x22]"

definition gen_REST_auth_header :: "remote \<Rightarrow> wxpay_service \<Rightarrow> nat \<Rightarrow> string \<Rightarrow> string \<Rightarrow> string \<Rightarrow> string" where
  "gen_REST_auth_header R w n verb url body =
     (let timeStamp = show_time (rm_time R n); nonceStr = gen_nonce R n;
          signature = gen_sig_v3 R w verb url timeStamp nonceStr body;
          serial_no = rm_serial R (wx_rsa_cert (ws_cfg w))
      in ''WECHATPAY2-SHA256-RSA2048 '' @ quoted_item ''mchid'' (wx_mchid (ws_cfg w)) @ '','' @
         quoted_item ''nonce_str'' nonceStr @ '','' @ quoted_item ''signature'' signature @ '','' @
         quoted_item ''timestamp'' timeStamp @ '','' @ quoted_item ''serial_no'' serial_no)"

section \<open>Encrypted data\<close>

text \<open>The tag is the last sixteen bytes; \<^verbatim>\<open>substr\<close> throws on a shorter text.\<close>

definition aes_gcm_decrypt :: "remote \<Rightarrow> string \<Rightarrow> string \<Rightarrow> string \<Rightarrow> string \<Rightarrow> string result" where
  "aes_gcm_decrypt R ciphertext_with_aead key iv aad =
     (let len = length ciphertext_with_aead
      in if len < 16 then Inl Out_of_range
         else (case rm_gcm R (drop (len - 16) ciphertext_with_aead) (take (len - 16) ciphertext_with_aead) key iv aad of
                 Gcm_error \<Rightarrow> Inl (System_error internal_server_error)
               | Gcm_rejected \<Rightarrow> Inr []
               | Gcm_plain plaintext \<Rightarrow> Inr plaintext))"

record wx_encrypt_data =
  ed_original_type :: string
  ed_algorithm :: string
  ed_ciphertext :: string
  ed_associated_data :: string
  ed_nonce :: string

definition empty_encrypt_data :: wx_encrypt_data where
  "empty_encrypt_data =
     \<lparr>ed_original_type = [], ed_algorithm = [], ed_ciphertext = [], ed_associated_data = [], ed_nonce = []\<rparr>"

definition opt_string :: "json_object \<Rightarrow> string \<Rightarrow> string result" where
  "opt_string ob k = (case map_of ob k of Some v \<Rightarrow> as_string v | None \<Rightarrow> Inr [])"

definition wx_encrypt_data_of :: "json \<Rightarrow> wx_encrypt_data result" where
  "wx_encrypt_data_of jv =
     (case jv of
        JObj ob \<Rightarrow>
          (if \<not> contains ob ''ciphertext'' \<or> \<not> contains ob ''nonce'' then Inr empty_encrypt_data
           else
             rthen (opt_string ob ''original_type'') (\<lambda>original_type.
             rthen (opt_string ob ''algorithm'') (\<lambda>algorithm.
             rthen (opt_string ob ''associated_data'') (\<lambda>associated_data.
             rthen (rthen (obj_at ob ''ciphertext'') as_string) (\<lambda>ciphertext.
             rthen (rthen (obj_at ob ''nonce'') as_string) (\<lambda>nonce.
             Inr \<lparr>ed_original_type = original_type, ed_algorithm = algorithm, ed_ciphertext = ciphertext,
                  ed_associated_data = associated_data, ed_nonce = nonce\<rparr>))))))
      | _ \<Rightarrow> Inr empty_encrypt_data)"

definition is_object :: "json \<Rightarrow> bool" where
  "is_object v = (case v of JObj _ \<Rightarrow> True | _ \<Rightarrow> False)"

record notify_object =
  no_event_type :: string
  no_create_time :: ptime
  no_resource :: wx_encrypt_data

definition notify_object_of :: "remote \<Rightarrow> json \<Rightarrow> notify_object option result" where
  "notify_object_of R jv =
     (case jv of
        JObj ob \<Rightarrow>
          (if \<not> contains ob ''resource'' \<or> \<not> is_object (obj_index ob ''resource'') then Inr None
           else
             rthen (rthen (obj_at ob ''event_type'') as_string) (\<lambda>event_type.
             rthen (rthen (obj_at ob ''create_time'') (ptime_of_json R)) (\<lambda>create_time.
             rthen (rthen (obj_at ob ''resource'') wx_encrypt_data_of) (\<lambda>resource.
             Inr (Some \<lparr>no_event_type = event_type, no_create_time = create_time, no_resource = resource\<rparr>)))))
      | _ \<Rightarrow> Inr None)"

record encrypt_certificate =
  ec_serial_no :: string
  ec_expire_time :: ptime
  ec_certificate :: wx_encrypt_data

definition encrypt_certificate_of :: "remote \<Rightarrow> json \<Rightarrow> encrypt_certificate option result" where
  "encrypt_certificate_of R jv =
     (case jv of
        JObj ob \<Rightarrow>
          (if \<not> contains ob ''encrypt_certificate'' \<or> \<not> is_object (obj_index ob ''encrypt_certificate'') then Inr None
           else
             rthen (rthen (obj_at ob ''serial_no'') as_string) (\<lambda>serial_no.
             rthen (rthen (obj_at ob ''encrypt_certificate'') wx_encrypt_data_of) (\<lambda>certificate.
             rthen (rthen (obj_at ob ''expire_time'') (ptime_of_json R)) (\<lambda>expire_time.
             Inr (Some \<lparr>ec_serial_no = serial_no, ec_expire_time = expire_time, ec_certificate = certificate\<rparr>)))))
      | _ \<Rightarrow> Inr None)"

definition decode_wx_encrypt_data :: "remote \<Rightarrow> wxpay_service \<Rightarrow> wx_encrypt_data \<Rightarrow> string result" where
  "decode_wx_encrypt_data R w d =
     rthen (base64_decode (ed_ciphertext d)) (\<lambda>bytes.
       aes_gcm_decrypt R bytes (wx_apiv3_key (ws_cfg w)) (ed_nonce d) (ed_associated_data d))"

section \<open>Notifications\<close>

text \<open>The members of a default message are zero: its state is \<open>SUCCESS\<close>, its trade number empty. A time that is not a
  time is \<open>None\<close>.\<close>

record wx_message =
  wm_out_trade_no :: string
  wm_trade_state :: pay_status
  wm_order_amount :: cpp_numeric
  wm_payed_amount :: cpp_numeric
  wm_success_time :: "ptime option"

definition default_message :: wx_message where
  "default_message = \<lparr>wm_out_trade_no = [], wm_trade_state = SUCCESS, wm_order_amount = 0, wm_payed_amount = 0,
     wm_success_time = None\<rparr>"

definition as_long :: "json \<Rightarrow> int result" where
  "as_long v = (case v of JInt i \<Rightarrow> Inr i | JUint u \<Rightarrow> (if uint u < 2 ^ 63 then Inr (uint u) else Inl (Asio_error 2))
     | _ \<Rightarrow> Inl (Asio_error 2))"

definition cents_amount :: "json_object \<Rightarrow> string \<Rightarrow> cpp_numeric result" where
  "cents_amount ob k = rthen (rthen (obj_at ob k) as_long) (\<lambda>c. Inr (of_int c / 100))"

definition wx_message_of :: "remote \<Rightarrow> json \<Rightarrow> wx_message result" where
  "wx_message_of R jv =
     (case jv of
        JObj ob \<Rightarrow>
          (if \<not> contains ob ''out_trade_no'' \<or> \<not> contains ob ''transaction_id'' then Inr default_message
           else
             rthen (rthen (obj_at ob ''out_trade_no'') as_string) (\<lambda>out_trade_no.
             rthen (rthen (obj_at ob ''trade_state'') as_string) (\<lambda>trade_state.
             rthen (rthen (obj_at ob ''success_time'') (ptime_of_json R)) (\<lambda>success_time.
             rthen (rthen (obj_at ob ''amount'') as_object) (\<lambda>amount.
             rthen (cents_amount amount ''total'') (\<lambda>total.
             rthen (cents_amount amount ''payer_total'') (\<lambda>payer_total.
             Inr \<lparr>wm_out_trade_no = out_trade_no, wm_trade_state = pay_status_of trade_state,
                  wm_order_amount = total, wm_payed_amount = payer_total, wm_success_time = Some success_time\<rparr>)))))))
      | _ \<Rightarrow> Inr default_message)"

definition decode_notify_message ::
  "remote \<Rightarrow> wxpay_service \<Rightarrow> string \<Rightarrow> string \<Rightarrow> string \<Rightarrow> string \<Rightarrow> wx_message result" where
  "decode_notify_message R w notify_body timestamp nonce signature =
     rthen (verify_sig R w notify_body timestamp nonce signature) (\<lambda>verified.
     if \<not> verified then Inl (System_error nofity_message_signature_invalid)
     else
       rthen (json_parse R notify_body) (\<lambda>notify_object_json.
       rthen (notify_object_of R notify_object_json) (\<lambda>notify_obj.
       (case notify_obj of
          None \<Rightarrow> Inl Undefined
        | Some ob \<Rightarrow>
            rthen (decode_wx_encrypt_data R w (no_resource ob)) (\<lambda>decoded.
            if decoded = [] then Inl (System_error nofity_message_decode_failed)
            else rthen (json_parse R decoded) (wx_message_of R))))))"

section \<open>Requests\<close>

definition json_headers :: "(string \<times> string) list" where
  "json_headers = [(''Accept'', ''application/json''), (''User-Agent'', ''c++mall'')]"

definition openid_of_response :: "remote \<Rightarrow> response_t \<Rightarrow> string result" where
  "openid_of_response R rsp =
     (case rm_parse R (rt_body rsp) of
        None \<Rightarrow> Inr []
      | Some jv \<Rightarrow> rthen (as_object jv) (\<lambda>ob. Inr (get_string ob ''openid'')))"

definition get_wx_openid :: "remote \<Rightarrow> wxpay_service \<Rightarrow> nat \<Rightarrow> string \<Rightarrow> string result option" where
  "get_wx_openid R w n jscode =
     ask R n \<lparr>ro_verb = ''GET'',
       ro_url = ''https://api.weixin.qq.com/sns/jscode2session?appid='' @ wx_appid (ws_cfg w) @ ''&secret='' @
         wx_appSecret (ws_cfg w) @ ''&js_code='' @ jscode @ ''&grant_type=authorization_code'',
       ro_headers = json_headers, ro_body = None\<rparr> (openid_of_response R)"

definition gongzhonghao_get_wx_openid :: "remote \<Rightarrow> wxpay_service \<Rightarrow> nat \<Rightarrow> string \<Rightarrow> string result option" where
  "gongzhonghao_get_wx_openid R w n jscode =
     ask R n \<lparr>ro_verb = ''GET'',
       ro_url = ''https://api.weixin.qq.com/sns/oauth2/access_token?appid='' @ wx_appid (ws_cfg w) @ ''&secret='' @
         wx_appSecret (ws_cfg w) @ ''&code='' @ jscode @ ''&grant_type=authorization_code'',
       ro_headers = json_headers, ro_body = None\<rparr> (openid_of_response R)"

text \<open>\<^verbatim>\<open>convert_to<int64_t>\<close> cuts off the fraction and stays in the range of the type.\<close>

definition convert_to_int64 :: "cpp_numeric \<Rightarrow> int" where
  "convert_to_int64 x = max (- (2 ^ 63)) (min (2 ^ 63 - 1) (if 0 \<le> x then \<lfloor>x\<rfloor> else \<lceil>x\<rceil>))"

definition prepay_params ::
  "wxpay_service \<Rightarrow> string \<Rightarrow> string \<Rightarrow> cpp_numeric \<Rightarrow> string \<Rightarrow> string \<Rightarrow> bool \<Rightarrow> json_object" where
  "prepay_params w sub_mchid out_trade_no amount goods_description payer_openid profit_sharing =
     [(''sp_mchid'', JStr (wx_mchid (ws_cfg w))), (''sp_appid'', JStr (wx_appid (ws_cfg w))),
      (''sub_mchid'', JStr sub_mchid), (''out_trade_no'', JStr out_trade_no), (''description'', JStr goods_description),
      (''notify_url'', JStr (wx_notify_url (ws_cfg w))), (''payer'', JObj [(''sp_openid'', JStr payer_openid)]),
      (''amount'', JObj [(''currency'', JStr ''CNY''), (''total'', JInt (convert_to_int64 (amount * 100)))])] @
     (if profit_sharing then [(''settle_info'', JObj [(''profit_sharing'', JBool True)])] else [])"

definition prepay_options ::
  "remote \<Rightarrow> wxpay_service \<Rightarrow> nat \<Rightarrow> string \<Rightarrow> string \<Rightarrow> cpp_numeric \<Rightarrow> string \<Rightarrow> string \<Rightarrow> bool \<Rightarrow> request_options" where
  "prepay_options R w n sub_mchid out_trade_no amount goods_description payer_openid profit_sharing =
     (let body = rm_serialize R (JObj (prepay_params w sub_mchid out_trade_no amount goods_description payer_openid profit_sharing))
      in \<lparr>ro_verb = ''POST'', ro_url = ''https://api.mch.weixin.qq.com/v3/pay/partner/transactions/jsapi'',
          ro_headers = (''Content-Type'', ''application/json'') # json_headers @
            [(''Authorization'', gen_REST_auth_header R w n ''POST'' ''/v3/pay/partner/transactions/jsapi'' body)],
          ro_body = Some body\<rparr>)"

definition get_prepay_id ::
  "remote \<Rightarrow> wxpay_service \<Rightarrow> nat \<Rightarrow> string \<Rightarrow> string \<Rightarrow> cpp_numeric \<Rightarrow> string \<Rightarrow> string \<Rightarrow> bool \<Rightarrow> string result option" where
  "get_prepay_id R w n sub_mchid out_trade_no amount goods_description payer_openid profit_sharing =
     ask R n (prepay_options R w n sub_mchid out_trade_no amount goods_description payer_openid profit_sharing) (\<lambda>rsp.
       (case rm_parse R (rt_body rsp) of
          None \<Rightarrow> Inr []
        | Some jv \<Rightarrow> rthen (as_object jv) (\<lambda>ob.
            (case json_get ob ''prepay_id'' JNull of JStr s \<Rightarrow> Inr s | _ \<Rightarrow> Inr []))))"

definition get_pay_object :: "remote \<Rightarrow> wxpay_service \<Rightarrow> nat \<Rightarrow> string \<Rightarrow> json_object" where
  "get_pay_object R w n prepay_id =
     (let timeStamp = show_time (rm_time R n); nonceStr = gen_nonce R n; package = ''prepay_id='' @ prepay_id
      in [(''timeStamp'', JStr timeStamp), (''nonceStr'', JStr nonceStr), (''package'', JStr package),
          (''signType'', JStr ''RSA''), (''paySign'', JStr (gen_sig R w timeStamp nonceStr package))])"

definition is_payed :: "remote \<Rightarrow> wxpay_service \<Rightarrow> nat \<Rightarrow> string \<Rightarrow> string \<Rightarrow> pay_status result option" where
  "is_payed R w n orderid sub_mchid =
     ask R n \<lparr>ro_verb = ''GET'',
       ro_url = ''https://api.mch.weixin.qq.com/v3/pay/partner/transactions/out-trade-no/'' @ orderid @ ''?sp_mchid='' @
         wx_mchid (ws_cfg w) @ ''&sub_mchid='' @ sub_mchid,
       ro_headers = [(''Connection'', ''Close'')], ro_body = None\<rparr> (\<lambda>rsp.
     rthen (as_object (json_parse_ec R (rt_body rsp))) (\<lambda>ob. Inr (pay_status_of (get_string ob ''trade_state''))))"

section \<open>The certificate\<close>

fun encrypt_certificates :: "remote \<Rightarrow> json list \<Rightarrow> encrypt_certificate list result" where
  "encrypt_certificates R [] = Inr []"
| "encrypt_certificates R (jv # rest) =
     rthen (encrypt_certificate_of R jv) (\<lambda>c.
     rthen (encrypt_certificates R rest) (\<lambda>cs.
     Inr (case c of Some x \<Rightarrow> x # cs | None \<Rightarrow> cs)))"

text \<open>\<^verbatim>\<open>std::sort\<close> by falling expiry time; the order of equal elements, which it leaves open, is kept.\<close>

definition certificate_options :: "remote \<Rightarrow> wxpay_service \<Rightarrow> nat \<Rightarrow> request_options" where
  "certificate_options R w n =
     \<lparr>ro_verb = ''GET'', ro_url = ''https://api.mch.weixin.qq.com/v3/certificates'',
      ro_headers = json_headers @ [(''Authorization'', gen_REST_auth_header R w n ''GET'' ''/v3/certificates'' [])],
      ro_body = None\<rparr>"

definition new_certificate :: "remote \<Rightarrow> wxpay_service \<Rightarrow> response_t \<Rightarrow> wxpay_service result" where
  "new_certificate R w rsp =
     rthen (read_code rsp) (\<lambda>code.
     if code \<noteq> 200 then Inr w
     else
       rthen (verify_sig R w (rt_body rsp) (field_of (rt_fields rsp) ''Wechatpay-Timestamp'')
                (field_of (rt_fields rsp) ''Wechatpay-Nonce'') (field_of (rt_fields rsp) ''Wechatpay-Signature''))
       (\<lambda>verify_ok.
       if \<not> verify_ok then Inr w
       else
         rthen (json_parse R (rt_body rsp)) (\<lambda>response_body.
         rthen (as_object response_body) (\<lambda>ob.
         rthen (get_array ob ''data'') (\<lambda>encryped_certs.
         rthen (encrypt_certificates R encryped_certs) (\<lambda>certs.
         (case sort_key (\<lambda>c. - ec_expire_time c) certs of
            [] \<Rightarrow> Inl Undefined
          | c # _ \<Rightarrow>
              rthen (decode_wx_encrypt_data R w (ec_certificate c)) (\<lambda>latest_cert_decoded.
              Inr (if latest_cert_decoded \<noteq> [] then w\<lparr>ws_signature_key := latest_cert_decoded\<rparr> else w)))))))))"

definition download_latest_wxpay_cert :: "remote \<Rightarrow> wxpay_service \<Rightarrow> nat \<Rightarrow> wxpay_service result option" where
  "download_latest_wxpay_cert R w n = ask R n (certificate_options R w n) (new_certificate R w)"

section \<open>Verification of notifications\<close>

text \<open>What verification asks of a signature: the code accepts every result of the library but 0.\<close>

definition passes :: "remote \<Rightarrow> wxpay_service \<Rightarrow> string \<Rightarrow> string \<Rightarrow> string \<Rightarrow> string \<Rightarrow> bool" where
  "passes R w body timestamp nonce signature \<longleftrightarrow>
     (\<exists>s. base64_decode signature = Inr s \<and> rm_verify R (ws_signature_key w) (verify_text body timestamp nonce) s \<noteq> 0)"

lemma verify_sig_passes: "verify_sig R w body t n signature = Inr True \<longleftrightarrow> passes R w body t n signature"
  by (auto simp: verify_sig_def passes_def rsa_sign_verify_def rthen_Inr)

text \<open>A notification is decoded only behind its signature: whenever a message comes out of a notification, the
  signature passed against the certificate of the service over the time stamp, the nonce and the exact body, the
  body held an encrypted resource that decrypts under the key of the service, and the message is what the plain
  text says.\<close>

theorem notification_verified:
  assumes "decode_notify_message R w body timestamp nonce signature = Inr m"
  shows "passes R w body timestamp nonce signature \<and>
    (\<exists>jv ob plain msg. rm_parse R body = Some jv \<and> notify_object_of R jv = Inr (Some ob) \<and>
      decode_wx_encrypt_data R w (no_resource ob) = Inr plain \<and> plain \<noteq> [] \<and> rm_parse R plain = Some msg \<and>
      wx_message_of R msg = Inr m)"
proof -
  obtain v where v: "verify_sig R w body timestamp nonce signature = Inr v"
    using assms by (auto simp: decode_notify_message_def rthen_Inr)
  then have "v" using assms by (cases v) (auto simp: decode_notify_message_def)
  then have "passes R w body timestamp nonce signature" using v by (simp flip: verify_sig_passes)
  moreover have "rthen (json_parse R body) (\<lambda>jv. rthen (notify_object_of R jv) (\<lambda>notify_obj.
       (case notify_obj of
          None \<Rightarrow> Inl Undefined
        | Some ob \<Rightarrow>
            rthen (decode_wx_encrypt_data R w (no_resource ob)) (\<lambda>decoded.
            if decoded = [] then Inl (System_error nofity_message_decode_failed)
            else rthen (json_parse R decoded) (wx_message_of R))))) = Inr m"
    using assms v \<open>v\<close> by (simp add: decode_notify_message_def)
  then have "\<exists>jv ob plain msg. rm_parse R body = Some jv \<and> notify_object_of R jv = Inr (Some ob) \<and>
      decode_wx_encrypt_data R w (no_resource ob) = Inr plain \<and> plain \<noteq> [] \<and> rm_parse R plain = Some msg \<and>
      wx_message_of R msg = Inr m"
    by (auto simp: rthen_Inr json_parse_def split: option.splits if_splits)
  ultimately show ?thesis by blast
qed

text \<open>(C39) An error of the verification counts as a success: a signature for which the library reports an error, the
  value -1, is treated exactly as one that matches.\<close>

theorem signature_errors_pass:
  assumes "base64_decode bad = Inr s" "base64_decode good = Inr s'"
    "rm_verify R (ws_signature_key w) (verify_text body timestamp nonce) s = - 1"
    "rm_verify R (ws_signature_key w) (verify_text body timestamp nonce) s' = 1"
  shows "decode_notify_message R w body timestamp nonce bad = decode_notify_message R w body timestamp nonce good"
  using assms by (simp add: decode_notify_message_def verify_sig_def rsa_sign_verify_def)

section \<open>Payment notifications of the server\<close>

text \<open>The decoder the HTTP server uses, for the services it keeps per configuration.\<close>

definition wx_decoder :: "remote \<Rightarrow> (microapp_pay_cfg \<Rightarrow> wxpay_service) \<Rightarrow> nat \<Rightarrow> microapp_pay_cfg \<Rightarrow> http_request \<Rightarrow> notify_message option" where
  "wx_decoder R service n cfg req =
     (case decode_notify_message R (service cfg) (hq_body req) (hq_field req ''wechatpay-timestamp'')
             (hq_field req ''wechatpay-nonce'') (hq_field req ''wechatpay-signature'') of
        Inl _ \<Rightarrow> None
      | Inr m \<Rightarrow> Some \<lparr>nm_out_trade_no = wm_out_trade_no m, nm_success = (wm_trade_state m = SUCCESS),
          nm_success_time = (case wm_success_time m of Some t \<Rightarrow> t | None \<Rightarrow> 0)\<rparr>)"

text \<open>(C6) An order is marked as payed only behind a signature: when the server answers a payment notification with
  success, the signature of the request passed, for one of the configured services, over the time stamp, nonce and
  body of that request.\<close>

theorem payed_only_when_signed:
  assumes "he_decode_notify H = wx_decoder R service" "wx_notify H req cfgs E w = (Inr True, w')"
  shows "\<exists>cfg. cfg \<in> snd ` set cfgs \<and> passes R (service cfg) (hq_body req) (hq_field req ''wechatpay-timestamp'')
    (hq_field req ''wechatpay-nonce'') (hq_field req ''wechatpay-signature'')"
  using assms(2)
proof (induction cfgs arbitrary: w)
  case Nil
  then show ?case by (simp add: ret_def)
next
  case (Cons c cfgs)
  obtain a cfg where c: "c = (a, cfg)" by fastforce
  let ?w = "w\<lparr>sv_ops := Suc (sv_ops w)\<rparr>"
  show ?case
  proof (cases "wx_decoder R service (sv_ops w) cfg req")
    case None
    then have "wx_notify H req cfgs E ?w = (Inr True, w')"
      using Cons.prems c assms(1) by (simp add: bindM_def external_def)
    then show ?thesis using Cons.IH by fastforce
  next
    case (Some m)
    then obtain x where "decode_notify_message R (service cfg) (hq_body req) (hq_field req ''wechatpay-timestamp'')
        (hq_field req ''wechatpay-nonce'') (hq_field req ''wechatpay-signature'') = Inr x"
      by (auto simp: wx_decoder_def split: sum.splits)
    then have "passes R (service cfg) (hq_body req) (hq_field req ''wechatpay-timestamp'')
        (hq_field req ''wechatpay-nonce'') (hq_field req ''wechatpay-signature'')"
      unfolding verify_sig_passes [symmetric] by (auto simp: decode_notify_message_def rthen_Inr split: if_splits)
    then show ?thesis using c by force
  qed
qed

section \<open>Amounts\<close>

lemma convert_to_int64_of_int: "- (2 ^ 63) \<le> c \<Longrightarrow> c < 2 ^ 63 \<Longrightarrow> convert_to_int64 (of_int c) = c"
  by (simp add: convert_to_int64_def)

text \<open>(C37) Amounts survive the way to WeChat and back: for an amount of whole cents in the range of 64 bits, the total
  that is sent is read from a notification as the same amount; any other amount is cut to less than a cent below.\<close>

theorem amount_roundtrip:
  assumes "0 \<le> amount" "amount * 100 < 2 ^ 63"
  shows "\<exists>ob charged. map_of (prepay_params w sub_mchid out_trade_no amount description openid sharing) ''amount'' = Some (JObj ob) \<and>
    cents_amount ob ''total'' = Inr charged \<and> charged \<le> amount \<and> amount < charged + 1 / 100 \<and>
    (amount * 100 \<in> \<int> \<longrightarrow> charged = amount)"
proof -
  let ?c = "\<lfloor>amount * 100\<rfloor>"
  have "?c < 2 ^ 63" using assms(2) by (simp add: floor_less_iff)
  moreover have "0 \<le> ?c" using assms(1) by simp
  ultimately have c: "convert_to_int64 (amount * 100) = ?c"
    using assms(1) by (simp add: convert_to_int64_def)
  have le: "of_int ?c \<le> amount * 100" "amount * 100 < of_int ?c + 1"
    using floor_correct [of "amount * 100"] by auto
  have "(of_int ?c :: rat) / 100 \<le> amount" "amount < of_int ?c / 100 + 1 / 100" using le by auto
  moreover have "(of_int ?c :: rat) / 100 = amount" if "amount * 100 \<in> \<int>"
    using that by (metis Ints_cases floor_of_int nonzero_mult_div_cancel_right zero_neq_numeral)
  moreover have "cents_amount [(''currency'', JStr ''CNY''), (''total'', JInt ?c)] ''total'' = Inr (of_int ?c / 100)"
    by (simp add: cents_amount_def obj_at_def as_long_def)
  moreover have "map_of (prepay_params w sub_mchid out_trade_no amount description openid sharing) ''amount'' =
      Some (JObj [(''currency'', JStr ''CNY''), (''total'', JInt ?c)])"
    by (simp add: prepay_params_def c)
  ultimately show ?thesis by blast
qed

section \<open>Changing the certificate\<close>

lemma encrypt_certificates_set:
  "encrypt_certificates R js = Inr cs \<Longrightarrow> c \<in> set cs \<Longrightarrow> \<exists>j\<in>set js. encrypt_certificate_of R j = Inr (Some c)"
  by (induction js arbitrary: cs) (auto simp: rthen_Inr split: option.splits)

lemma sort_key_latest:
  assumes "sort_key (\<lambda>c. - ec_expire_time c) cs = c # rest"
  shows "c \<in> set cs" "\<forall>d\<in>set cs. ec_expire_time d \<le> ec_expire_time c"
proof -
  have "set cs = set (c # rest)" using assms set_sort by metis
  moreover have "sorted (map (\<lambda>c. - ec_expire_time c) (c # rest))" using assms sorted_sort_key by metis
  ultimately show "c \<in> set cs" "\<forall>d\<in>set cs. ec_expire_time d \<le> ec_expire_time c" by auto
qed

text \<open>The certificate is replaced only by a verified newer one: after a download the service is unchanged, or the
  answer had status 200, its signature passed against the old certificate, and the new certificate is the decrypted one
  with the latest expiry time among those the answer holds.\<close>

theorem certificate_update:
  assumes "new_certificate R w rsp = Inr w'" "w' \<noteq> w"
  shows "rt_code rsp = Some 200 \<and>
    passes R w (rt_body rsp) (field_of (rt_fields rsp) ''Wechatpay-Timestamp'') (field_of (rt_fields rsp) ''Wechatpay-Nonce'')
      (field_of (rt_fields rsp) ''Wechatpay-Signature'') \<and>
    (\<exists>ob js cs c key. rm_parse R (rt_body rsp) = Some (JObj ob) \<and> get_array ob ''data'' = Inr js \<and>
      encrypt_certificates R js = Inr cs \<and> c \<in> set cs \<and> (\<forall>d\<in>set cs. ec_expire_time d \<le> ec_expire_time c) \<and>
      decode_wx_encrypt_data R w (ec_certificate c) = Inr key \<and> w' = w\<lparr>ws_signature_key := key\<rparr>)"
proof -
  let ?v = "verify_sig R w (rt_body rsp) (field_of (rt_fields rsp) ''Wechatpay-Timestamp'')
    (field_of (rt_fields rsp) ''Wechatpay-Nonce'') (field_of (rt_fields rsp) ''Wechatpay-Signature'')"
  have code: "rt_code rsp = Some 200"
    using assms by (auto simp: new_certificate_def rthen_Inr read_code_def split: option.splits if_splits)
  obtain v where v: "?v = Inr v" using assms code by (auto simp: new_certificate_def rthen_Inr read_code_def)
  then have "v" using assms code by (cases v) (auto simp: new_certificate_def read_code_def)
  then have pass: "passes R w (rt_body rsp) (field_of (rt_fields rsp) ''Wechatpay-Timestamp'')
      (field_of (rt_fields rsp) ''Wechatpay-Nonce'') (field_of (rt_fields rsp) ''Wechatpay-Signature'')"
    using v by (simp flip: verify_sig_passes)
  obtain jv ob js cs where p: "rm_parse R (rt_body rsp) = Some jv" "as_object jv = Inr ob" "get_array ob ''data'' = Inr js"
    "encrypt_certificates R js = Inr cs"
    using assms(1) code v \<open>v\<close> by (auto simp: new_certificate_def rthen_Inr read_code_def json_parse_def split: option.splits)
  have rest: "(case sort_key (\<lambda>c. - ec_expire_time c) cs of [] \<Rightarrow> Inl Undefined
     | c # _ \<Rightarrow> rthen (decode_wx_encrypt_data R w (ec_certificate c)) (\<lambda>k.
         Inr (if k \<noteq> [] then w\<lparr>ws_signature_key := k\<rparr> else w))) = Inr w'"
    using assms(1) code v \<open>v\<close> p by (simp add: new_certificate_def read_code_def json_parse_def)
  then obtain c r where s: "sort_key (\<lambda>c. - ec_expire_time c) cs = c # r"
    by (cases "sort_key (\<lambda>c. - ec_expire_time c) cs") auto
  then obtain key where "decode_wx_encrypt_data R w (ec_certificate c) = Inr key" "w' = w\<lparr>ws_signature_key := key\<rparr>"
    using rest assms(2) by (auto simp: rthen_Inr split: if_splits)
  moreover have "jv = JObj ob" using p(2) by (cases jv) auto
  ultimately show ?thesis using code pass p sort_key_latest [OF s] by blast
qed

section \<open>Examples\<close>

text \<open>A remote side with a trivial codec: the bytes of a signature of one letter decide, and the plain text is the
  cipher text.\<close>

definition sample_parse :: "string \<Rightarrow> json option" where
  "sample_parse s =
     (if s = ''note'' then
        Some (JObj [(''event_type'', JStr ''T''), (''create_time'', JStr ''t''),
          (''resource'', JObj [(''ciphertext'', JStr (base64_encode (''plain'' @ replicate 16 (CHR ''g'')))), (''nonce'', JStr ''n'')])])
      else if s = ''plain'' then
        Some (JObj [(''out_trade_no'', JStr ''o1''), (''transaction_id'', JStr ''x''), (''trade_state'', JStr ''SUCCESS''),
          (''success_time'', JStr ''t''), (''amount'', JObj [(''total'', JInt 150), (''payer_total'', JInt 150)])])
      else if s = ''certs'' then
        Some (JObj [(''data'', JArr [JObj [(''serial_no'', JStr ''1''), (''expire_time'', JStr ''t''),
          (''encrypt_certificate'', JObj [(''ciphertext'', JStr (base64_encode (''plain'' @ replicate 16 (CHR ''g'')))), (''nonce'', JStr ''n'')])]])])
      else None)"

definition sample_remote :: remote where
  "sample_remote =
     \<lparr>rm_net = sample_net, rm_serialize = (\<lambda>_. ''{}''), rm_parse = sample_parse, rm_time = (\<lambda>_. 0), rm_draws = (\<lambda>_. []),
      rm_sign = (\<lambda>_ _. ''s''), rm_verify = (\<lambda>_ _ s. if s = ''ok'' then 1 else if s = ''er'' then - 1 else 0),
      rm_gcm = (\<lambda>_ c _ _ _. Gcm_plain c), rm_serial = (\<lambda>_. ''1''), rm_date = (\<lambda>_. Inr 0), rm_tod = (\<lambda>_. Inr 0)\<rparr>"

definition sample_cfg :: microapp_pay_cfg where
  "sample_cfg = \<lparr>wx_appid = ''a'', wx_rsa_key = ''k'', wx_rsa_cert = ''c'', wx_apiv3_key = ''v'', wx_mchid = ''m'',
     wx_appSecret = ''s'', wx_notify_url = ''u''\<rparr>"

definition sample_service :: wxpay_service where
  "sample_service = new_wxpay_service ''cert'' sample_cfg"

definition sample_message :: wx_message where
  "sample_message = \<lparr>wm_out_trade_no = ''o1'', wm_trade_state = SUCCESS, wm_order_amount = 3 / 2,
     wm_payed_amount = 3 / 2, wm_success_time = Some 0\<rparr>"

lemma sample_decode:
  "decode_notify_message sample_remote sample_service ''note'' ''1'' ''n'' (base64_encode ''ok'') = Inr sample_message"
  by (simp add: decode_notify_message_def verify_sig_def base64_read_back rsa_sign_verify_def json_parse_def
      sample_remote_def sample_parse_def notify_object_of_def contains_def is_object_def obj_index_def obj_at_def
      ptime_of_json_def wx_encrypt_data_of_def opt_string_def decode_wx_encrypt_data_def aes_gcm_decrypt_def Let_def
      wx_message_of_def cents_amount_def as_long_def sample_message_def pay_status_of_def pay_status_names_def
      split: prod.splits)

theorem notification_verified_witness:
  "passes sample_remote sample_service ''note'' ''1'' ''n'' (base64_encode ''ok'')"
  using notification_verified [OF sample_decode] by simp

theorem signature_errors_pass_witness:
  "decode_notify_message sample_remote sample_service ''note'' ''1'' ''n'' (base64_encode ''er'') = Inr sample_message"
  using signature_errors_pass [of "base64_encode ''er''" "''er''" "base64_encode ''ok''" "''ok''" sample_remote sample_service
      "''note''" "''1''" "''n''"] sample_decode
  by (simp add: base64_read_back sample_remote_def)

theorem amount_roundtrip_witness:
  "\<exists>ob charged. map_of (prepay_params sample_service ''m'' ''order'' (3 / 2) ''d'' ''o'' False) ''amount'' = Some (JObj ob) \<and>
    cents_amount ob ''total'' = Inr charged \<and> charged \<le> 3 / 2 \<and> 3 / 2 < charged + 1 / 100"
  using amount_roundtrip [of "3 / 2" sample_service "''m''" "''order''" "''d''" "''o''" False] by auto

definition sample_certs :: response_t where
  "sample_certs = \<lparr>rt_err = None, rt_code = Some 200, rt_content_type = [],
     rt_fields = [(''Wechatpay-Signature'', base64_encode ''ok'')], rt_body = ''certs''\<rparr>"

lemma sample_certs_simps:
  "rt_code sample_certs = Some 200" "rt_body sample_certs = ''certs''"
  "field_of (rt_fields sample_certs) ''Wechatpay-Signature'' = base64_encode ''ok''"
  by (simp_all add: sample_certs_def field_of_Cons)

lemma sample_new_certificate:
  "new_certificate sample_remote sample_service sample_certs = Inr (sample_service\<lparr>ws_signature_key := ''plain''\<rparr>)"
  by (simp add: new_certificate_def read_code_def verify_sig_def base64_read_back rsa_sign_verify_def sample_certs_simps
      json_parse_def get_array_def encrypt_certificate_of_def contains_def is_object_def obj_index_def obj_at_def
      ptime_of_json_def wx_encrypt_data_of_def opt_string_def decode_wx_encrypt_data_def aes_gcm_decrypt_def Let_def
      sample_remote_def sample_parse_def split: prod.splits)

theorem certificate_update_witness:
  "passes sample_remote sample_service ''certs'' (field_of (rt_fields sample_certs) ''Wechatpay-Timestamp'')
     (field_of (rt_fields sample_certs) ''Wechatpay-Nonce'') (field_of (rt_fields sample_certs) ''Wechatpay-Signature'')"
  using certificate_update [OF sample_new_certificate]
  by (simp add: sample_service_def new_wxpay_service_def sample_certs_simps)


definition pay_request :: http_request where
  "pay_request = \<lparr>hq_method = ''POST'', hq_target = ''/api/wx/pay.action'',
     hq_fields = [(''Wechatpay-Timestamp'', ''1''), (''Wechatpay-Nonce'', ''n''), (''Wechatpay-Signature'', base64_encode ''ok'')],
     hq_body = ''note'', hq_upgrade = False\<rparr>"

definition wx_http :: http_env where
  "wx_http = sample_http\<lparr>he_decode_notify := wx_decoder sample_remote (\<lambda>_. sample_service)\<rparr>"

lemma pay_request_fields:
  "hq_field pay_request ''wechatpay-timestamp'' = ''1''" "hq_field pay_request ''wechatpay-nonce'' = ''n''"
  "hq_field pay_request ''wechatpay-signature'' = base64_encode ''ok''" "hq_body pay_request = ''note''"
proof -
  have "lower ''Wechatpay-Timestamp'' = ''wechatpay-timestamp''" "lower ''Wechatpay-Nonce'' = ''wechatpay-nonce''"
    "lower ''Wechatpay-Signature'' = ''wechatpay-signature''" by code_simp+
  then show "hq_field pay_request ''wechatpay-timestamp'' = ''1''" "hq_field pay_request ''wechatpay-nonce'' = ''n''"
    "hq_field pay_request ''wechatpay-signature'' = base64_encode ''ok''" "hq_body pay_request = ''note''"
    by (simp_all add: pay_request_def hq_field_def)
qed

lemma sample_callback:
  "\<exists>w'. handle_order_wx_callback \<lparr>nm_out_trade_no = ''o1'', nm_success = True, nm_success_time = 0\<rparr> sample_env
     (sample_server\<lparr>sv_ops := Suc (sv_ops sample_server)\<rparr>) = (Inr True, w')"
  unfolding handle_order_wx_callback_def
  by (simp add: bindM_def query_order_one_def db_op_ok on_table_def db_query_one_def odb_query_one_def update_order_def
      db_update_def odb_update_def odb_find_def o_stamp_def)

theorem payed_only_when_signed_witness:
  "\<exists>cfg. cfg \<in> snd ` set [(''a'', sample_cfg)] \<and> passes sample_remote sample_service ''note'' ''1'' ''n'' (base64_encode ''ok'')"
proof -
  have "wx_decoder sample_remote (\<lambda>_. sample_service) k cfg pay_request =
      Some \<lparr>nm_out_trade_no = ''o1'', nm_success = True, nm_success_time = 0\<rparr>" for k cfg
    by (simp add: wx_decoder_def pay_request_fields sample_decode sample_message_def)
  then obtain w' where "wx_notify wx_http pay_request [(''a'', sample_cfg)] sample_env sample_server = (Inr True, w')"
    using sample_callback by (auto simp: wx_http_def bindM_def external_def ret_def)
  then show ?thesis
    using payed_only_when_signed [of wx_http sample_remote "\<lambda>_. sample_service" pay_request "[(''a'', sample_cfg)]" sample_env sample_server w']
    by (simp add: wx_http_def pay_request_fields)
qed

end
