(* ===== verification/Remote_Sdk.thy ===== *)
theory Remote_Sdk
  imports Wxpay
begin

text \<open>
  The clients of the other remote services: face recognition (\<^verbatim>\<open>tencentsdk.cpp\<close>), one-click login
  (\<^verbatim>\<open>neteasesdk.cpp\<close>) and the git server of the merchants (\<^verbatim>\<open>gitea_service.cpp\<close>). The digests of OpenSSL, the
  printing of a date and the clock in milliseconds are parameters.
\<close>

record digests =
  dg_md5 :: "string \<Rightarrow> nat list"
  dg_sha256 :: "string \<Rightarrow> nat list"
  dg_hmac :: "string \<Rightarrow> string \<Rightarrow> nat list"
  dg_utc_date :: "int \<Rightarrow> string"
  dg_millis :: "nat \<Rightarrow> int"

section \<open>Face recognition\<close>

record tencentsdk =
  tc_secret_id :: string
  tc_secret_key :: string

definition tencent_string_to_sign :: "digests \<Rightarrow> string \<Rightarrow> string \<Rightarrow> string \<Rightarrow> string \<Rightarrow> string" where
  "tencent_string_to_sign D service ts utc_date body =
     (let body_hash = sha256sum (dg_sha256 D) body;
          headers_to_sign = ''content-type:application/json'' @ [CHR 0x0A] @ ''host:'' @ service @ ''.tencentcloudapi.com'' @ [CHR 0x0A];
          request_to_sign = ''POST'' @ [CHR 0x0A] @ ''/'' @ [CHR 0x0A] @ [CHR 0x0A] @ headers_to_sign @ [CHR 0x0A] @
            ''content-type;host'' @ [CHR 0x0A] @ body_hash;
          request_hash = sha256sum (dg_sha256 D) request_to_sign
      in ''TC3-HMAC-SHA256'' @ [CHR 0x0A] @ ts @ [CHR 0x0A] @ utc_date @ ''/'' @ service @ ''/tc3_request'' @ [CHR 0x0A] @
         request_hash)"

definition tencent_authorization :: "digests \<Rightarrow> tencentsdk \<Rightarrow> string \<Rightarrow> string \<Rightarrow> string \<Rightarrow> string \<Rightarrow> string" where
  "tencent_authorization D tc service ts utc_date body =
     (let kdate = hmac_sha256 (dg_hmac D) (''TC3'' @ tc_secret_key tc) utc_date False;
          kservice = hmac_sha256 (dg_hmac D) kdate service False;
          ksign = hmac_sha256 (dg_hmac D) kservice ''tc3_request'' False;
          sign = hmac_sha256 (dg_hmac D) ksign (tencent_string_to_sign D service ts utc_date body) True
      in ''TC3-HMAC-SHA256 Credential='' @ tc_secret_id tc @ ''/'' @ utc_date @ ''/'' @ service @ ''/tc3_request'' @
         '', SignedHeaders=content-type;host, Signature='' @ sign)"

definition tencent_options ::
  "remote \<Rightarrow> digests \<Rightarrow> tencentsdk \<Rightarrow> nat \<Rightarrow> string \<Rightarrow> string \<Rightarrow> json_object \<Rightarrow> request_options" where
  "tencent_options R D tc n service action params =
     (let body = json_to_string R (JObj params) False; ts = show_time (rm_time R n); utc_date = dg_utc_date D (rm_time R n)
      in \<lparr>ro_verb = ''POST'', ro_url = ''https://'' @ service @ ''.tencentcloudapi.com/'',
          ro_headers =
            [(''X-TC-Action'', action), (''X-TC-Version'', ''2020-03-03''), (''X-TC-Region'', ''ap-shanghai''),
             (''X-TC-Timestamp'', ts), (''X-TC-RequestClient'', ''SDK_CPP_3.0.634''), (''Connection'', ''Close''),
             (''Content-Type'', ''application/json''),
             (''Authorization'', tencent_authorization D tc service ts utc_date body)],
          ro_body = Some body\<rparr>)"

definition tencent_request ::
  "remote \<Rightarrow> digests \<Rightarrow> tencentsdk \<Rightarrow> nat \<Rightarrow> string \<Rightarrow> string \<Rightarrow> json_object \<Rightarrow> (json \<Rightarrow> 'a result) \<Rightarrow> 'a result option" where
  "tencent_request R D tc n service action params f =
     ask R n (tencent_options R D tc n service action params) (\<lambda>rsp. f (json_parse_ec R (rt_body rsp)))"

definition picture_param :: "string \<Rightarrow> string \<Rightarrow> string \<Rightarrow> string" where
  "picture_param pic url img = (if starts_with pic ''http'' then url else img)"

definition group_create :: "remote \<Rightarrow> digests \<Rightarrow> tencentsdk \<Rightarrow> nat \<Rightarrow> string \<Rightarrow> string \<Rightarrow> bool result option" where
  "group_create R D tc n gid gname =
     tencent_request R D tc n ''iai'' ''CreateGroup''
       [(''GroupId'', JStr gid), (''GroupName'', JStr gname), (''FaceModelVersion'', JStr ''3.0'')] (\<lambda>_. Inr True)"

definition group_add_person ::
  "remote \<Rightarrow> digests \<Rightarrow> tencentsdk \<Rightarrow> nat \<Rightarrow> string \<Rightarrow> string \<Rightarrow> string \<Rightarrow> string \<Rightarrow> bool result option" where
  "group_add_person R D tc n gid pid pname pic =
     tencent_request R D tc n ''iai'' ''CreatePerson''
       [(''GroupId'', JStr gid), (''PersonId'', JStr pid), (''PersonName'', JStr pname),
        (picture_param pic ''Url'' ''Image'', JStr pic)] (\<lambda>_. Inr True)"

text \<open>The loop pushes the groups until one of them throws; what was pushed is returned.\<close>

fun group_ids :: "json list \<Rightarrow> string list" where
  "group_ids [] = []"
| "group_ids (v # vs) =
     (case rthen (value_at v ''GroupId'') as_string of Inl _ \<Rightarrow> [] | Inr gid \<Rightarrow> gid # group_ids vs)"

definition get_person_group :: "remote \<Rightarrow> digests \<Rightarrow> tencentsdk \<Rightarrow> nat \<Rightarrow> string \<Rightarrow> string list result option" where
  "get_person_group R D tc n pid =
     tencent_request R D tc n ''iai'' ''GetPersonGroupInfo'' [(''PersonId'', JStr pid)] (\<lambda>res.
       (case rthen (value_at res ''Response'') (\<lambda>r. rthen (value_at r ''PersonGroupInfos'') as_array) of
          Inl _ \<Rightarrow> Inr []
        | Inr person_groups \<Rightarrow> Inr (group_ids person_groups)))"

definition person_add_face :: "remote \<Rightarrow> digests \<Rightarrow> tencentsdk \<Rightarrow> nat \<Rightarrow> string \<Rightarrow> string \<Rightarrow> bool result option" where
  "person_add_face R D tc n pid pic =
     tencent_request R D tc n ''iai'' ''CreateFace''
       [(''PersonId'', JStr pid), (picture_param pic ''Urls'' ''Images'', JArr [JStr pic])] (\<lambda>_. Inr True)"

definition first_match :: "json \<Rightarrow> string option result" where
  "first_match res =
     rthen (value_at res ''Response'') (\<lambda>response.
     rthen (rthen (value_at response ''ResultsReturnsByGroup'') as_array) (\<lambda>results.
     rthen (array_at results 0) (\<lambda>r.
     rthen (rthen (value_at r ''RetCode'') as_int64) (\<lambda>ret_code.
     if ret_code \<noteq> 0 then Inr None
     else
       rthen (rthen (value_at r ''GroupCandidates'') as_array) (\<lambda>group_candidates.
       rthen (array_at group_candidates 0) (\<lambda>g.
       rthen (rthen (value_at g ''Candidates'') as_array) (\<lambda>candidates.
       rthen (array_at candidates 0) (\<lambda>match.
       rthen (rthen (value_at match ''PersonId'') as_string) (\<lambda>pid. Inr (Some pid))))))))))"

definition person_search_by_face :: "remote \<Rightarrow> digests \<Rightarrow> tencentsdk \<Rightarrow> nat \<Rightarrow> string \<Rightarrow> string \<Rightarrow> string result option" where
  "person_search_by_face R D tc n gid pic =
     tencent_request R D tc n ''iai'' ''SearchPersonsReturnsByGroup''
       [(''GroupIds'', JArr [JStr gid]), (''FaceMatchThreshold'', JInt 80), (''NeedPersonInfo'', JInt 1),
        (picture_param pic ''Url'' ''Image'', JStr pic)]
       (\<lambda>res. case first_match res of Inr (Some pid) \<Rightarrow> Inr pid | _ \<Rightarrow> Inr [])"

section \<open>One-click login\<close>

record neteasesdk =
  ne_secret_id :: string
  ne_secret_key :: string
  ne_business_id :: string

text \<open>\<^verbatim>\<open>std::map\<close> with string keys: the pairs in the order of the keys, compared byte by byte; \<^verbatim>\<open>insert\<close> keeps an
  element that is there.\<close>

fun text_less :: "string \<Rightarrow> string \<Rightarrow> bool" where
  "text_less _ [] = False"
| "text_less [] (_ # _) = True"
| "text_less (c # cs) (d # ds) = (char_code c < char_code d \<or> c = d \<and> text_less cs ds)"

fun form_insert :: "string \<Rightarrow> 'v \<Rightarrow> (string \<times> 'v) list \<Rightarrow> (string \<times> 'v) list" where
  "form_insert k v [] = [(k, v)]"
| "form_insert k v ((k', v') # m) =
     (if k = k' then (k', v') # m else if text_less k k' then (k, v) # (k', v') # m else (k', v') # form_insert k v m)"

definition netease_sig :: "digests \<Rightarrow> neteasesdk \<Rightarrow> (string \<times> string) list \<Rightarrow> string" where
  "netease_sig D ne params = md5sum (dg_md5 D) (concat (map (\<lambda>(k, v). k @ v) params) @ ne_secret_key ne)"

definition form_body :: "(string \<times> string) list \<Rightarrow> string" where
  "form_body params = foldl (\<lambda>body (k, v). (if body \<noteq> [] then body @ ''&'' else body) @ k @ ''='' @ v) [] params"

definition netease_params :: "remote \<Rightarrow> digests \<Rightarrow> neteasesdk \<Rightarrow> nat \<Rightarrow> string \<Rightarrow> string \<Rightarrow> (string \<times> string) list" where
  "netease_params R D ne n token accessToken =
     form_insert ''timestamp'' (show_time (dg_millis D n))
     (form_insert ''accessToken'' accessToken
     (form_insert ''token'' token
     (form_insert ''nonce'' (gen_nonce R n)
     (form_insert ''version'' ''v1''
     (form_insert ''businessId'' (ne_business_id ne)
     (form_insert ''secretId'' (ne_secret_id ne) []))))))"

definition netease_options :: "remote \<Rightarrow> digests \<Rightarrow> neteasesdk \<Rightarrow> nat \<Rightarrow> string \<Rightarrow> string \<Rightarrow> request_options" where
  "netease_options R D ne n token accessToken =
     (let params = netease_params R D ne n token accessToken;
          signed = form_insert ''signature'' (netease_sig D ne params) params
      in \<lparr>ro_verb = ''POST'', ro_url = ''https://ye.dun.163yun.com/v1/oneclick/check'',
          ro_headers = [(''Content-Type'', ''application/x-www-form-urlencoded'')], ro_body = Some (form_body signed)\<rparr>)"

definition phone_of_response :: "remote \<Rightarrow> response_t \<Rightarrow> string result" where
  "phone_of_response R rsp =
     (case rm_parse R (rt_body rsp) of
        None \<Rightarrow> Inr []
      | Some jv \<Rightarrow>
          rthen (as_object jv) (\<lambda>ob.
          (case json_get ob ''code'' JNull of
             JInt code \<Rightarrow>
               (if code \<noteq> 200 then Inr []
                else (case json_get ob ''data'' JNull of JObj data \<Rightarrow> Inr (get_string data ''phone'') | _ \<Rightarrow> Inr []))
           | _ \<Rightarrow> Inr [])))"

definition get_user_phone :: "remote \<Rightarrow> digests \<Rightarrow> neteasesdk \<Rightarrow> nat \<Rightarrow> string \<Rightarrow> string \<Rightarrow> string result option" where
  "get_user_phone R D ne n token accessToken = ask R n (netease_options R D ne n token accessToken) (phone_of_response R)"

section \<open>The git server\<close>

record gitea =
  gi_api :: string
  gi_admin_token :: string

definition gen_repo_user :: "u64 \<Rightarrow> string" where
  "gen_repo_user uid = ''m'' @ show_nat (unat uid)"

definition gitea_options :: "remote \<Rightarrow> gitea \<Rightarrow> string \<Rightarrow> string \<Rightarrow> json_object \<Rightarrow> request_options" where
  "gitea_options R g verb path body =
     \<lparr>ro_verb = verb, ro_url = gi_api g @ path,
      ro_headers = [(''Content-Type'', ''application/json''), (''Authorization'', ''token '' @ gi_admin_token g)],
      ro_body = Some (json_to_string R (JObj body) True)\<rparr>"

definition code_is :: "int \<Rightarrow> response_t \<Rightarrow> bool result" where
  "code_is c rsp = rthen (read_code rsp) (\<lambda>code. Inr (code = c))"

definition create_user :: "remote \<Rightarrow> gitea \<Rightarrow> nat \<Rightarrow> u64 \<Rightarrow> string \<Rightarrow> bool result option" where
  "create_user R g n uid password =
     (let username = gen_repo_user uid
      in ask R n (gitea_options R g ''POST'' ''/api/v1/admin/users''
           [(''email'', JStr (username @ ''@'' @ username @ ''.com'')), (''username'', JStr username),
            (''password'', JStr password), (''must_change_password'', JBool False)]) (code_is 201))"

definition create_repo :: "remote \<Rightarrow> gitea \<Rightarrow> nat \<Rightarrow> u64 \<Rightarrow> string \<Rightarrow> string \<Rightarrow> bool result option" where
  "create_repo R g n uid template_owner template_repo =
     ask R n (gitea_options R g ''POST'' (''/api/v1/repos/'' @ template_owner @ ''/'' @ template_repo @ ''/generate'')
       [(''owner'', JStr (gen_repo_user uid)), (''name'', JStr ''shop''), (''private'', JBool True), (''avatar'', JBool True),
        (''description'', JStr ''my shop''), (''git_content'', JBool True), (''git_hooks'', JBool True),
        (''labels'', JBool True), (''topics'', JBool True), (''webhooks'', JBool True)]) (code_is 201)"

text \<open>The requests of one call are numbered from \<open>n\<close>.\<close>

definition init_user :: "remote \<Rightarrow> gitea \<Rightarrow> nat \<Rightarrow> u64 \<Rightarrow> string \<Rightarrow> string \<Rightarrow> string \<Rightarrow> bool result option" where
  "init_user R g n uid password template_owner template_repo =
     (case create_user R g n uid password of
        None \<Rightarrow> None
      | Some (Inl e) \<Rightarrow> Some (Inl e)
      | Some (Inr ok) \<Rightarrow> if ok then create_repo R g (Suc n) uid template_owner template_repo else Some (Inr False))"

definition change_password :: "remote \<Rightarrow> gitea \<Rightarrow> nat \<Rightarrow> u64 \<Rightarrow> string \<Rightarrow> bool result option" where
  "change_password R g n uid password =
     (let username = gen_repo_user uid
      in ask R n (gitea_options R g ''PATCH'' (''/api/v1/admin/users/'' @ username)
           [(''login_name'', JStr username), (''password'', JStr password)]) (code_is 200))"

section \<open>The form of a login request\<close>

lemma netease_params_sorted:
  "map fst (netease_params R D ne n token accessToken) =
     [''accessToken'', ''businessId'', ''nonce'', ''secretId'', ''timestamp'', ''token'', ''version'']"
  by (simp add: netease_params_def char_code_def)

lemma netease_form:
  "ro_body (netease_options R D ne n token accessToken) =
     Some (''accessToken='' @ accessToken @ ''&businessId='' @ ne_business_id ne @ ''&nonce='' @ gen_nonce R n @
       ''&secretId='' @ ne_secret_id ne @ ''&signature='' @
       netease_sig D ne (netease_params R D ne n token accessToken) @ ''&timestamp='' @ show_time (dg_millis D n) @
       ''&token='' @ token @ ''&version=v1'')"
  by (simp add: netease_options_def netease_params_def form_body_def char_code_def Let_def)

text \<open>The signature does not separate names from values: pairs that run together the same way are signed alike.\<close>

lemma netease_sig_ambiguous:
  "netease_sig D ne [(''a'', ''bc''), (''d'', v)] = netease_sig D ne [(''a'', ''b''), (''cd'', v)]"
  by (simp add: netease_sig_def)

section \<open>Setting up a merchant on the git server\<close>

definition answered :: "remote \<Rightarrow> nat \<Rightarrow> request_options \<Rightarrow> int \<Rightarrow> bool" where
  "answered R n opt c \<longleftrightarrow> (\<exists>r. do_request (rm_net R) n opt = Some (Inr r) \<and> rt_code r = Some c)"

lemma ask_code_is: "ask R n opt (code_is c) = Some (Inr True) \<longleftrightarrow> answered R n opt c"
proof (cases "do_request (rm_net R) n opt")
  case (Some r)
  then show ?thesis
    by (cases r) (auto simp: ask_def answered_def code_is_def read_code_def split: option.splits)
qed (simp add: ask_def answered_def)

text \<open>A merchant is set up only when the git server confirms both steps: the call reports success exactly when the
  creation of the user and then the creation of the repository were answered with status 201; otherwise, when
  the first is answered with another status, it reports failure, whatever the second would do.\<close>

theorem init_user_needs_both:
  assumes "user_opt = gitea_options R g ''POST'' ''/api/v1/admin/users''
      [(''email'', JStr (gen_repo_user uid @ ''@'' @ gen_repo_user uid @ ''.com'')), (''username'', JStr (gen_repo_user uid)),
       (''password'', JStr password), (''must_change_password'', JBool False)]"
  shows "(init_user R g n uid password template_owner template_repo = Some (Inr True)) =
      (answered R n user_opt 201 \<and> create_repo R g (Suc n) uid template_owner template_repo = Some (Inr True)) \<and>
    (answered R n user_opt c \<and> c \<noteq> 201 \<longrightarrow> init_user R g n uid password template_owner template_repo = Some (Inr False))"
proof -
  have user: "create_user R g n uid password = ask R n user_opt (code_is 201)"
    unfolding create_user_def Let_def assms ..
  have "answered R n user_opt c \<Longrightarrow> c \<noteq> 201 \<Longrightarrow> create_user R g n uid password = Some (Inr False)"
    by (auto simp: user answered_def ask_def code_is_def read_code_def)
  moreover have "create_user R g n uid password = Some (Inr True) \<longleftrightarrow> answered R n user_opt 201"
    unfolding user by (rule ask_code_is)
  ultimately show ?thesis
    by (auto simp: init_user_def split: option.splits sum.splits if_splits)
qed

text \<open>An unreachable git server is not handled: when its name cannot be resolved, the status of the response, which
  was never assigned, is read, and the outcome of creating or setting up a user is undefined.\<close>

theorem gitea_unreachable:
  assumes "make_uri (gi_api g @ ''/api/v1/admin/users'') = Inr u"
    "hn_resolve (rm_net R) n (uri_host u) (effective_port u) = Some msg"
  shows "create_user R g n uid password = Some (Inl Undefined) \<and>
    init_user R g n uid password template_owner template_repo = Some (Inl Undefined)"
proof -
  have "create_user R g n uid password = Some (Inl Undefined)"
    using assms by (simp add: create_user_def ask_def do_request_def gitea_options_def Let_def code_is_def read_code_def
        failed_def empty_response_def)
  then show ?thesis by (simp add: init_user_def)
qed

definition sample_gitea :: gitea where
  "sample_gitea = \<lparr>gi_api = ''http://git'', gi_admin_token = ''t''\<rparr>"

lemma sample_gitea_url:
  "make_uri (gi_api sample_gitea @ ''/api/v1/admin/users'') =
     Inr (empty_uri\<lparr>uri_scheme := ''http'', uri_host := ''git'', uri_path := ''/api/v1/admin/users''\<rparr>)"
  by code_simp

theorem gitea_unreachable_witness:
  "create_user (sample_remote\<lparr>rm_net := sample_net\<lparr>hn_resolve := (\<lambda>_ _ _. Some ''no host'')\<rparr>\<rparr>) sample_gitea 0 5 ''pw'' =
     Some (Inl Undefined)"
  using gitea_unreachable [OF sample_gitea_url,
      of "sample_remote\<lparr>rm_net := sample_net\<lparr>hn_resolve := (\<lambda>_ _ _. Some ''no host'')\<rparr>\<rparr>" 0 "''no host''" 5 "''pw''"] by simp

theorem init_user_needs_both_witness:
  "(init_user sample_remote sample_gitea 0 5 ''pw'' ''admin'' ''shop'' = Some (Inr True)) =
     (answered sample_remote 0 (gitea_options sample_remote sample_gitea ''POST'' ''/api/v1/admin/users''
      [(''email'', JStr (gen_repo_user 5 @ ''@'' @ gen_repo_user 5 @ ''.com'')), (''username'', JStr (gen_repo_user 5)),
       (''password'', JStr ''pw''), (''must_change_password'', JBool False)]) 201 \<and>
      create_repo sample_remote sample_gitea (Suc 0) 5 ''admin'' ''shop'' = Some (Inr True))"
  using init_user_needs_both [OF refl, of sample_remote sample_gitea 0 5 "''pw''" "''admin''" "''shop''" 200] by blast

end
