(* ===== verification/Endpoint.thy ===== *)
theory Endpoint
  imports Json
begin

text \<open>
  The listening addresses of \<^verbatim>\<open>httpd/detail/parser.hpp\<close>. Reading behind the end of the text is undefined. The address
  parser of Boost.Asio is a parameter.
\<close>

record parsed_endpoint =
  pe_host :: string
  pe_port :: string
  pe_ipv6only :: bool

definition parse_port :: "string \<Rightarrow> string \<Rightarrow> parsed_endpoint option result" where
  "parse_port host rest =
     (case rest of
        [] \<Rightarrow> Inl Undefined
      | c # cs \<Rightarrow>
          (if c \<noteq> CHR '':'' then Inr None
           else (let port = takeWhile isdigit cs; tail = dropWhile isdigit cs
                 in Inr (Some \<lparr>pe_host = host, pe_port = port,
                      pe_ipv6only = (tail = ''ipv6only'' \<or> tail = ''-ipv6only'')\<rparr>))))"

definition parse_endpoint_string :: "string \<Rightarrow> parsed_endpoint option result" where
  "parse_endpoint_string str =
     (case trim_copy str of
        [] \<Rightarrow> Inl Undefined
      | c # cs \<Rightarrow>
          (if c = CHR ''['' then
             (if CHR '']'' \<notin> set (c # cs) then Inr None
              else parse_port (takeWhile (\<lambda>x. x \<noteq> CHR '']'') cs) (tl (dropWhile (\<lambda>x. x \<noteq> CHR '']'') cs)))
           else if CHR '':'' \<notin> set (c # cs) then Inr None
           else parse_port (takeWhile (\<lambda>x. x \<noteq> CHR '':'') (c # cs)) (dropWhile (\<lambda>x. x \<noteq> CHR '':'') (c # cs))))"

text \<open>The endpoint with its port as \<^verbatim>\<open>unsigned short\<close>; \<open>None\<close> for the address is the error of the address parser, and
  \<open>Inl\<close> a text that was refused. \<^verbatim>\<open>atoi\<close> of more digits than an \<^verbatim>\<open>int\<close> holds is undefined.\<close>

datatype 'a listen_endpoint = Bad_address | Bad_host "16 word" | Listen 'a "16 word"

definition atoi :: "string \<Rightarrow> int result" where
  "atoi s = (if digits_val s < 2 ^ 31 then Inr (int (digits_val s)) else Inl Undefined)"

definition make_listen_endpoint :: "(string \<Rightarrow> 'a option) \<Rightarrow> string \<Rightarrow> ('a listen_endpoint \<times> bool) result" where
  "make_listen_endpoint from_string address =
     (case parse_endpoint_string address of
        Inl e \<Rightarrow> Inl e
      | Inr None \<Rightarrow> Inr (Bad_address, False)
      | Inr (Some p) \<Rightarrow>
          (if pe_host p = [] \<or> pe_port p = [] then Inr (Bad_address, pe_ipv6only p)
           else (case atoi (pe_port p) of
                   Inl e \<Rightarrow> Inl e
                 | Inr n \<Rightarrow>
                     Inr (case from_string (pe_host p) of
                            None \<Rightarrow> Bad_host (word_of_int n)
                          | Some a \<Rightarrow> Listen a (word_of_int n), pe_ipv6only p))))"

section \<open>Printed endpoints\<close>

definition endpoint_text :: "bool \<Rightarrow> string \<Rightarrow> nat \<Rightarrow> bool \<Rightarrow> string" where
  "endpoint_text v6 host port only =
     (if v6 then ''['' @ host @ '']'' else host) @ '':'' @ show_nat port @ (if only then ''-ipv6only'' else [])"

lemma parse_port_text:
  assumes "tail = [] \<or> tail = ''-ipv6only''"
  shows "parse_port host (CHR '':'' # show_nat port @ tail) =
    Inr (Some \<lparr>pe_host = host, pe_port = show_nat port, pe_ipv6only = (tail \<noteq> [])\<rparr>)"
proof -
  have stop: "tail = [] \<or> \<not> isdigit (hd tail)" using assms by (auto simp: isdigit_def)
  have "takeWhile isdigit (show_nat port @ tail) = show_nat port" "dropWhile isdigit (show_nat port @ tail) = tail"
    using takeWhile_append_stop [OF show_nat_digits stop] dropWhile_append_stop [OF show_nat_digits stop] by simp_all
  then show ?thesis using assms by (auto simp: parse_port_def Let_def)
qed

lemma show_nat_last: "\<not> isspace (last (show_nat n))"
proof -
  have "last (show_nat n) \<in> set (show_nat n)" by (rule last_in_set) simp
  then have "isdigit (last (show_nat n))" using show_nat_digits [of n] by blast
  then show ?thesis by (auto simp: isdigit_def isspace_def)
qed

lemma until_char:
  assumes "c \<notin> set s"
  shows "takeWhile (\<lambda>x. x \<noteq> c) (s @ c # r) = s" "dropWhile (\<lambda>x. x \<noteq> c) (s @ c # r) = c # r"
  using assms by (induction s) auto

lemma parse_endpoint_v6:
  assumes "trim_copy s = CHR ''['' # host @ CHR '']'' # r" "CHR '']'' \<notin> set host"
  shows "parse_endpoint_string s = parse_port host r"
  using assms by (simp add: parse_endpoint_string_def until_char)

lemma parse_endpoint_v4:
  assumes "trim_copy s = host @ CHR '':'' # r" "CHR '':'' \<notin> set host" "host \<noteq> []" "hd host \<noteq> CHR ''[''"
  shows "parse_endpoint_string s = parse_port host (CHR '':'' # r)"
proof -
  obtain c cs where h: "host = c # cs" using assms(3) by (cases host) auto
  then have "parse_endpoint_string s =
      parse_port (takeWhile (\<lambda>x. x \<noteq> CHR '':'') (host @ CHR '':'' # r)) (dropWhile (\<lambda>x. x \<noteq> CHR '':'') (host @ CHR '':'' # r))"
    using assms by (simp add: parse_endpoint_string_def)
  then show ?thesis by (simp only: until_char [OF assms(2)])
qed

text \<open>A listening address is read back: for every host without the closing bracket (in brackets) or without a colon,
  not starting with a space or a bracket, and every port in the range of an \<^verbatim>\<open>int\<close>, the endpoint of the
  printed address is that host and the port modulo 65536, and the flag is the one that was printed.\<close>

theorem listen_endpoint_text:
  assumes "host \<noteq> []" "port < 2 ^ 31" "from_string host = Some a"
    "if v6 then CHR '']'' \<notin> set host
     else CHR '':'' \<notin> set host \<and> hd host \<noteq> CHR ''['' \<and> \<not> isspace (hd host)"
  shows "make_listen_endpoint from_string (endpoint_text v6 host port only) = Inr (Listen a (word_of_int (int port)), only)"
proof -
  define tail where "tail = (if only then ''-ipv6only'' else [])"
  let ?t = "endpoint_text v6 host port only"
  have tail: "tail = [] \<or> tail = ''-ipv6only''" "(tail \<noteq> []) = only" by (auto simp: tail_def)
  have t: "?t = (if v6 then CHR ''['' # host @ CHR '']'' # CHR '':'' # show_nat port @ tail
      else host @ CHR '':'' # show_nat port @ tail)"
    by (simp add: endpoint_text_def tail_def)
  have "?t \<noteq> []" using assms(1) by (simp add: t)
  moreover have "\<not> isspace (hd ?t)" unfolding t using assms(1,4) by (auto simp: isspace_def)
  moreover have "last ?t = (if tail = [] then last (show_nat port) else CHR ''y'')" using tail(1) by (auto simp: t)
  then have "\<not> isspace (last ?t)" using show_nat_last [of port] by (simp add: isspace_def split: if_splits)
  ultimately have trim: "trim_copy ?t = ?t" by (rule trim_copy_id)
  have "parse_endpoint_string ?t = parse_port host (CHR '':'' # show_nat port @ tail)"
  proof (cases v6)
    case True
    then show ?thesis using assms(4) trim t by (intro parse_endpoint_v6) simp_all
  next
    case False
    then show ?thesis using assms(1,4) trim t by (intro parse_endpoint_v4) simp_all
  qed
  then show ?thesis using assms(1-3) tail(2) by (simp add: make_listen_endpoint_def atoi_def parse_port_text [OF tail(1)])
qed

theorem listen_endpoint_text_witness:
  "make_listen_endpoint Some ''[::1]:443-ipv6only'' = Inr (Listen ''::1'' 443, True)"
proof -
  have "endpoint_text True ''::1'' 443 True = ''[::1]:443-ipv6only''" by code_simp
  then show ?thesis using listen_endpoint_text [of "''::1''" 443 Some "''::1''" True True] by simp
qed

end
