(* ===== verification/Pgsql_Traits.thy ===== *)
theory Pgsql_Traits
  imports Json
begin

text \<open>
  The conversions between C++ values and the texts the database stores, \<^verbatim>\<open>traits-pgsql.hpp\<close>: lists of integers, lists of
  strings and decimal numbers. Formatted input from a stream skips white space; extraction from a stream that has failed
  changes nothing.
\<close>

section \<open>Lists of strings\<close>

text \<open>The loop over the characters: the last one read, the element collected so far and the elements found.\<close>

fun strings_loop :: "string \<Rightarrow> char \<Rightarrow> string \<Rightarrow> string list \<Rightarrow> string list" where
  "strings_loop [] c temp v = (if (c = CHR ''}'' \<or> c = CHR '','') \<and> temp \<noteq> [] then v @ [temp] else v)"
| "strings_loop (d # rest) c temp v =
     (if d = CHR ''}'' then (if temp \<noteq> [] then v @ [temp] else v)
      else if d = CHR '','' then strings_loop rest d [] (if temp \<noteq> [] then v @ [temp] else v)
      else strings_loop rest d (temp @ [d]) v)"

text \<open>The first extraction takes the opening brace; in an empty text it leaves the character without a value.\<close>

definition set_value_strings :: "string option \<Rightarrow> string list result" where
  "set_value_strings b =
     (case b of
        None \<Rightarrow> Inr []
      | Some s \<Rightarrow>
          (case filter (\<lambda>c. \<not> isspace c) s of
             [] \<Rightarrow> Inl Undefined
           | c # rest \<Rightarrow> Inr (strings_loop rest c [] [])))"

fun comma_list :: "string list \<Rightarrow> string" where
  "comma_list [] = []"
| "comma_list [s] = s"
| "comma_list (s # t # ts) = s @ '','' @ comma_list (t # ts)"

definition set_image_strings :: "string list \<Rightarrow> string" where
  "set_image_strings v = ''{'' @ comma_list v @ ''}''"

definition plain_element :: "string \<Rightarrow> bool" where
  "plain_element s \<longleftrightarrow> s \<noteq> [] \<and> list_all (\<lambda>c. \<not> isspace c \<and> c \<noteq> CHR ''}'' \<and> c \<noteq> CHR '','') s"

lemma strings_loop_element:
  "list_all (\<lambda>c. \<not> isspace c \<and> c \<noteq> CHR ''}'' \<and> c \<noteq> CHR '','') s \<Longrightarrow>
   strings_loop (s @ d # rest) c temp v = strings_loop (d # rest) (if s = [] then c else last s) (temp @ s) v"
  by (induction s arbitrary: c temp) auto

lemma strings_loop_comma_list:
  assumes "list_all plain_element ss"
  shows "strings_loop (comma_list ss @ ''}'') c [] v = v @ ss"
  using assms
proof (induction ss arbitrary: c v rule: comma_list.induct)
  case (2 s)
  then show ?case by (simp add: plain_element_def strings_loop_element)
next
  case (3 s t ts)
  then show ?case by (simp add: plain_element_def strings_loop_element)
qed simp

lemma filter_comma_list:
  "list_all plain_element ss \<Longrightarrow> filter (\<lambda>c. \<not> isspace c) (comma_list ss) = comma_list ss"
proof (induction ss rule: comma_list.induct)
  case (2 s)
  then show ?case by (auto simp: plain_element_def list_all_iff intro: filter_True)
next
  case (3 s t ts)
  then have "filter (\<lambda>c. \<not> isspace c) s = s" by (auto simp: plain_element_def list_all_iff intro: filter_True)
  then show ?case using 3 by (simp add: isspace_def)
qed simp

section \<open>Lists of integers\<close>

definition show_int :: "int \<Rightarrow> string" where
  "show_int i = (if i < 0 then ''-'' @ show_nat (nat (- i)) else show_nat (nat i))"

text \<open>\<^verbatim>\<open>is >> int\<close>: the number and the rest of the text, or a failure of the stream.\<close>

definition int32_range :: "int \<Rightarrow> bool" where
  "int32_range i \<longleftrightarrow> - (2 ^ 31) \<le> i \<and> i < 2 ^ 31"

definition read_int_text :: "string \<Rightarrow> (int \<times> string) option" where
  "read_int_text s =
     (let t = dropWhile isspace s;
          neg = (t \<noteq> [] \<and> hd t = CHR ''-'');
          u = (if t \<noteq> [] \<and> (hd t = CHR ''-'' \<or> hd t = CHR ''+'') then tl t else t);
          ds = takeWhile isdigit u;
          i = (if neg then - int (digits_val ds) else int (digits_val ds))
      in if ds = [] \<or> \<not> int32_range i then None else Some (i, drop (length ds) u))"

text \<open>The loop, with the character its condition tests; a failure of the stream leaves that character as it is, so the
  loop does not end: \<open>None\<close>.\<close>

function ints_loop :: "char \<Rightarrow> string \<Rightarrow> int list \<Rightarrow> int list option" where
  "ints_loop c s v =
     (if c = CHR ''}'' then Some v
      else (case read_int_text s of
              None \<Rightarrow> None
            | Some (i, r) \<Rightarrow>
                (case dropWhile isspace r of
                   [] \<Rightarrow> None
                 | d # rest \<Rightarrow> ints_loop d rest (v @ [i]))))"
  by pat_completeness auto
termination
proof (relation "measure (\<lambda>(c, s, v). length s)")
  fix c s v p i r d rest
  assume p: "read_int_text s = Some p" "(i, r) = p" "dropWhile isspace r = d # rest"
  have "length r \<le> length s"
  proof -
    have "length (dropWhile isspace s) \<le> length s" by (rule length_dropWhile_le)
    moreover have "length r \<le> length (dropWhile isspace s)"
      using p(1,2) by (auto simp: read_int_text_def Let_def split: if_splits)
    ultimately show ?thesis by simp
  qed
  moreover have "length (d # rest) \<le> length r" using p(3) length_dropWhile_le [of isspace r] by simp
  ultimately show "((d, rest, v @ [i]), c, s, v) \<in> measure (\<lambda>(c, s, v). length s)" by simp
qed simp

declare ints_loop.simps [simp del]

text \<open>The first extraction takes the opening brace, the loop starts with the next character, white space or not.\<close>

definition set_value_ints :: "string option \<Rightarrow> int list option" where
  "set_value_ints b =
     (case b of
        None \<Rightarrow> Some []
      | Some s \<Rightarrow>
          (case dropWhile isspace s of
             [] \<Rightarrow> None
           | _ # rest \<Rightarrow> (case rest of [] \<Rightarrow> None | c # _ \<Rightarrow> ints_loop c rest [])))"

definition set_image_ints :: "int list \<Rightarrow> string" where
  "set_image_ints v = ''{'' @ comma_list (map show_int v) @ ''}''"

lemma show_nat_first: "isdigit (hd (show_nat n))"
  using show_nat_digits [of n] hd_in_set [of "show_nat n"] by auto

lemma isdigit_not: "isdigit c \<Longrightarrow> \<not> isspace c \<and> c \<noteq> CHR ''-'' \<and> c \<noteq> CHR ''+'' \<and> c \<noteq> CHR ''}''"
  by (auto simp: isdigit_def isspace_def)

lemma read_int_show:
  assumes "int32_range i" "r = [] \<or> \<not> isdigit (hd r)"
  shows "read_int_text (show_int i @ r) = Some (i, r)"
proof -
  have digits: "takeWhile isdigit (show_nat n @ r) = show_nat n" for n
    by (rule takeWhile_append_stop [OF show_nat_digits assms(2)])
  show ?thesis
  proof (cases "i < 0")
    case True
    then have "dropWhile isspace (show_int i @ r) = CHR ''-'' # show_nat (nat (- i)) @ r"
      by (simp add: show_int_def isspace_def)
    then show ?thesis using True assms(1) digits by (simp add: read_int_text_def Let_def)
  next
    case False
    have "\<not> isspace (hd (show_nat (nat i)))" "hd (show_nat (nat i)) \<noteq> CHR ''-''" "hd (show_nat (nat i)) \<noteq> CHR ''+''"
      using show_nat_first [of "nat i"] isdigit_not by blast+
    moreover from this have "dropWhile isspace (show_int i @ r) = show_nat (nat i) @ r"
      using False by (cases "show_nat (nat i)") (auto simp: show_int_def)
    ultimately show ?thesis using False assms(1) digits by (simp add: read_int_text_def Let_def)
  qed
qed

lemma ints_loop_end: "ints_loop (CHR ''}'') s v = Some v"
  by (subst ints_loop.simps) simp

lemma ints_loop_comma_list:
  assumes "list_all int32_range is" "is \<noteq> []" "c \<noteq> CHR ''}''"
  shows "ints_loop c (comma_list (map show_int is) @ ''}'') v = Some (v @ is)"
  using assms
proof (induction "is" arbitrary: c v rule: induct_list012)
  case (2 i)
  then have "read_int_text (show_int i @ ''}'') = Some (i, ''}'')" by (intro read_int_show) (auto simp: isdigit_def)
  then show ?case using 2 by (subst ints_loop.simps) (simp add: isspace_def ints_loop_end)
next
  case (3 i j js)
  let ?rest = "comma_list (map show_int (j # js)) @ ''}''"
  have "read_int_text (show_int i @ CHR '','' # ?rest) = Some (i, CHR '','' # ?rest)"
    using 3 by (intro read_int_show) (auto simp: isdigit_def)
  moreover have "ints_loop (CHR '','') ?rest (v @ [i]) = Some ((v @ [i]) @ j # js)" using 3 by (intro 3) auto
  ultimately show ?case using 3 by (subst ints_loop.simps) (simp add: isspace_def)
qed simp

section \<open>Round trips\<close>

text \<open>Lists of integers come back from the database, and lists of strings do when no element is empty or holds
  white space, a comma or a closing brace.\<close>

theorem pgsql_lists_roundtrip:
  assumes "list_all plain_element ss" "list_all int32_range is"
  shows "set_value_strings (Some (set_image_strings ss)) = Inr ss \<and> set_value_ints (Some (set_image_ints is)) = Some is"
proof
  have "filter (\<lambda>c. \<not> isspace c) (set_image_strings ss) = set_image_strings ss"
    using filter_comma_list [OF assms(1)] by (simp add: set_image_strings_def isspace_def)
  then show "set_value_strings (Some (set_image_strings ss)) = Inr ss"
    using strings_loop_comma_list [OF assms(1)] by (simp add: set_value_strings_def set_image_strings_def)
  show "set_value_ints (Some (set_image_ints is)) = Some is"
  proof (cases "is")
    case Nil
    then show ?thesis by (simp add: set_value_ints_def set_image_ints_def isspace_def ints_loop_end)
  next
    case (Cons i js)
    let ?rest = "comma_list (map show_int is) @ ''}''"
    have "show_int i \<noteq> [] \<and> hd (show_int i) \<noteq> CHR ''}''"
      using show_nat_first [of "nat i"] isdigit_not by (auto simp: show_int_def)
    then obtain c r where r: "?rest = c # r" "c \<noteq> CHR ''}''"
      using Cons by (cases js; cases "show_int i") auto
    then have "ints_loop c ?rest [] = Some ([] @ is)" using assms(2) Cons by (intro ints_loop_comma_list) auto
    moreover have "dropWhile isspace (set_image_ints is) = CHR ''{'' # ?rest" by (simp add: set_image_ints_def isspace_def)
    ultimately show ?thesis using r by (simp add: set_value_ints_def)
  qed
qed

theorem pgsql_lists_roundtrip_witness:
  "set_value_strings (Some ''{123,456}'') = Inr [''123'', ''456''] \<and> set_value_ints (Some ''{-1,20}'') = Some [- 1, 20]"
proof -
  have "set_image_strings [''123'', ''456''] = ''{123,456}''" "set_image_ints [- 1, 20] = ''{-1,20}''" by code_simp+
  moreover have "list_all plain_element [''123'', ''456'']" "list_all int32_range [- 1, 20]" by code_simp+
  ultimately show ?thesis using pgsql_lists_roundtrip [of "[''123'', ''456'']" "[- 1, 20]"] by simp
qed

text \<open>Elements with spaces come back without them, and a list that is not closed is read forever.\<close>

lemma spaces_lost: "set_value_strings (Some (set_image_strings [''a b'', []])) = Inr [''ab'']"
  by code_simp

lemma open_list_hangs: "set_value_ints (Some ''{1'') = None"
  by code_simp

section \<open>Decimal numbers\<close>

text \<open>\<^verbatim>\<open>numeric_to_string\<close>, on the text with a fixed number of digits that the stream prints: zeros at the end of the
  fraction go, and a point that is left at the end.\<close>

definition numeric_to_string :: "string \<Rightarrow> string" where
  "numeric_to_string result =
     (if CHR ''.'' \<in> set result then
        (let t = rev (dropWhile (\<lambda>c. c = CHR ''0'') (rev result))
         in if t \<noteq> [] \<and> last t = CHR ''.'' then butlast t else t)
      else result)"

lemma numeric_to_string_trim:
  assumes "CHR ''.'' \<notin> set i" "CHR ''.'' \<notin> set f" "f = [] \<or> last f \<noteq> CHR ''0''"
  shows "numeric_to_string (i @ ''.'' @ f @ replicate n (CHR ''0'')) = (if f = [] then i else i @ ''.'' @ f)"
proof -
  have zeros: "dropWhile (\<lambda>c. c = CHR ''0'') (replicate n (CHR ''0'') @ s) = dropWhile (\<lambda>c. c = CHR ''0'') s" for s
    by (induction n) simp_all
  show ?thesis
  proof (cases "f = []")
    case True
    then show ?thesis by (simp add: numeric_to_string_def zeros Let_def)
  next
    case False
    then obtain g c where f: "f = g @ [c]" by (metis append_butlast_last_id)
    then have "c \<noteq> CHR ''0''" "c \<noteq> CHR ''.''" using assms by auto
    then show ?thesis using f by (simp add: numeric_to_string_def zeros Let_def)
  qed
qed

end
