(* ===== verification/Async_Connect.thy ===== *)
theory Async_Connect
  imports Main
begin

text \<open>
  Connecting to the first of several addresses, \<^verbatim>\<open>utils/async_connect.hpp\<close>: all connections are tried at once, those
  over IPv4 delayed when there are addresses of both kinds. The state is the shared context; the steps are the
  completions the event loop delivers, in any order: a timer fires, a connection succeeds or fails. Sockets that are
  cancelled complete with an error. The handler's calls are recorded with their error and the index of the address.
\<close>

datatype connect_error = No_data | Not_found | Connect_failed nat

datatype attempt_state = Delayed | Connecting | Completed | Skipped | Rejected

record connect_context =
  cx_flag :: bool
  cx_num :: int
  cx_reject :: int
  cx_attempts :: "attempt_state list"
  cx_stream :: "nat option"
  cx_calls :: "(connect_error option \<times> nat) list"

section \<open>Starting\<close>

text \<open>The function of one address: the condition, then the connection.\<close>

definition conn_func :: "(nat \<Rightarrow> bool) \<Rightarrow> nat \<Rightarrow> connect_context \<Rightarrow> connect_context" where
  "conn_func condition i s =
     (if condition i then s\<lparr>cx_attempts := (cx_attempts s)[i := Connecting]\<rparr>
      else (let r = cx_reject s + 1; s' = s\<lparr>cx_reject := r, cx_attempts := (cx_attempts s)[i := Rejected]\<rparr>
            in if r = cx_num s then s'\<lparr>cx_calls := cx_calls s @ [(Some Not_found, i)]\<rparr> else s'))"

definition use_happy_eyeball :: "bool list \<Rightarrow> bool" where
  "use_happy_eyeball v4s \<longleftrightarrow> list_ex id v4s \<and> list_ex Not v4s"

text \<open>The addresses are given by whether they are IPv4; an attempt that has not started counts as delayed.\<close>

definition first_context :: "bool list \<Rightarrow> connect_context" where
  "first_context v4s =
     \<lparr>cx_flag = False, cx_num = int (length v4s), cx_reject = 0, cx_attempts = map (\<lambda>_. Delayed) v4s, cx_stream = None,
      cx_calls = []\<rparr>"

definition do_async_connect :: "(nat \<Rightarrow> bool) \<Rightarrow> bool list \<Rightarrow> connect_context" where
  "do_async_connect condition v4s =
     (if v4s = [] then (first_context v4s)\<lparr>cx_calls := [(Some No_data, 0)]\<rparr>
      else foldl (\<lambda>s i. if use_happy_eyeball v4s \<and> v4s ! i then s else conn_func condition i s)
             (first_context v4s) [0..<length v4s])"

section \<open>Completions\<close>

definition timer_fires :: "(nat \<Rightarrow> bool) \<Rightarrow> nat \<Rightarrow> connect_context \<Rightarrow> connect_context" where
  "timer_fires condition i s =
     (if cx_flag s then s\<lparr>cx_attempts := (cx_attempts s)[i := Skipped]\<rparr> else conn_func condition i s)"

definition connected :: "nat \<Rightarrow> connect_error option \<Rightarrow> connect_context \<Rightarrow> connect_context" where
  "connected i err s0 =
     (let s = s0\<lparr>cx_attempts := (cx_attempts s0)[i := Completed]\<rparr>
      in case err of
           None \<Rightarrow>
             (if cx_flag s then s
              else s\<lparr>cx_flag := True, cx_stream := Some i, cx_num := cx_num s - 1, cx_calls := cx_calls s @ [(None, i)]\<rparr>)
         | Some e \<Rightarrow>
             (let s' = s\<lparr>cx_num := cx_num s - 1\<rparr>
              in if cx_flag s' \<or> cx_num s' \<noteq> 0 then s' else s'\<lparr>cx_calls := cx_calls s @ [(Some e, i)]\<rparr>))"

inductive connect_step :: "(nat \<Rightarrow> bool) \<Rightarrow> connect_context \<Rightarrow> connect_context \<Rightarrow> bool" for condition where
  timer: "i < length (cx_attempts s) \<Longrightarrow> cx_attempts s ! i = Delayed \<Longrightarrow> connect_step condition s (timer_fires condition i s)"
| complete: "i < length (cx_attempts s) \<Longrightarrow> cx_attempts s ! i = Connecting \<Longrightarrow> connect_step condition s (connected i err s)"

definition reaches :: "(nat \<Rightarrow> bool) \<Rightarrow> bool list \<Rightarrow> connect_context \<Rightarrow> bool" where
  "reaches condition v4s s \<longleftrightarrow> (connect_step condition)\<^sup>*\<^sup>* (do_async_connect condition v4s) s"

section \<open>Every connection attempt is answered once\<close>

definition pending :: "connect_context \<Rightarrow> nat" where
  "pending s = length (filter (\<lambda>a. a = Delayed \<or> a = Connecting) (cx_attempts s))"

text \<open>What holds while no condition rejects an address: before a connection succeeds, the counter is the number of
  attempts that are not over and the handler is called when it is used up; afterwards it has been called once.\<close>

definition connect_ok :: "connect_context \<Rightarrow> bool" where
  "connect_ok s \<longleftrightarrow>
     (if cx_flag s then (\<exists>i. cx_calls s = [(None, i)] \<and> cx_stream s = Some i)
      else cx_num s = int (pending s) \<and> cx_stream s = None \<and>
        (if pending s = 0 then (\<exists>e i. cx_calls s = [(Some e, i)]) else cx_calls s = []))"

lemma length_filter_update:
  assumes "i < length xs" "p (xs ! i)"
  shows "length (filter p (xs[i := y])) = length (filter p xs) - (if p y then 0 else 1)" "0 < length (filter p xs)"
proof -
  have "length (filter p (take i xs @ xs ! i # drop (Suc i) xs)) = length (filter p xs)"
    using id_take_nth_drop [OF assms(1)] by simp
  moreover have "length (filter p (xs[i := y])) = length (filter p (take i xs)) + (if p y then 1 else 0) + length (filter p (drop (Suc i) xs))"
    using assms(1) by (simp add: upd_conv_take_nth_drop)
  ultimately show "length (filter p (xs[i := y])) = length (filter p xs) - (if p y then 0 else 1)" "0 < length (filter p xs)"
    using assms(2) by auto
qed

lemma pending_update:
  assumes "i < length (cx_attempts s)" "cx_attempts s ! i = Delayed \<or> cx_attempts s ! i = Connecting"
  shows "length (filter (\<lambda>a. a = Delayed \<or> a = Connecting) ((cx_attempts s)[i := a])) =
      pending s - (if a = Delayed \<or> a = Connecting then 0 else 1)" "0 < pending s"
  using length_filter_update [of i "cx_attempts s" "\<lambda>a. a = Delayed \<or> a = Connecting"] assms
  by (auto simp: pending_def)

lemma connect_ok_step:
  assumes "connect_step (\<lambda>_. True) s s'" "connect_ok s"
  shows "connect_ok s'"
  using assms
proof cases
  case (timer i)
  note p = pending_update(1) [of i s Connecting, OF timer(2)] pending_update(2) [of i s, OF timer(2)]
  show ?thesis
  proof (cases "cx_flag s")
    case True
    then show ?thesis using assms(2) timer(1) by (auto simp: timer_fires_def connect_ok_def)
  next
    case False
    then have "pending s' = pending s" "cx_num s' = cx_num s" "cx_stream s' = cx_stream s" "cx_calls s' = cx_calls s" "\<not> cx_flag s'"
      using p timer(1,3) by (simp_all add: timer_fires_def conn_func_def pending_def)
    then show ?thesis using assms(2) False by (simp add: connect_ok_def)
  qed
next
  case (complete i err)
  note p = pending_update(1) [of i s Completed, OF complete(2)] pending_update(2) [of i s, OF complete(2)]
  show ?thesis
  proof (cases "cx_flag s")
    case True
    then show ?thesis using assms(2) complete(1) by (auto simp: connected_def connect_ok_def Let_def split: option.splits)
  next
    case False
    then have num: "cx_num s = int (pending s)" "cx_stream s = None" "cx_calls s = []"
      using assms(2) p complete(3) by (auto simp: connect_ok_def)
    show ?thesis
    proof (cases err)
      case None
      then show ?thesis using False num complete(1) by (auto simp: connected_def connect_ok_def Let_def)
    next
      case (Some e)
      have "pending s' = pending s - 1"
        using p(1) complete(1,3) Some False by (simp add: connected_def Let_def pending_def split: if_splits)
      then have q: "pending s = Suc (pending s')" "\<not> cx_flag s'" "cx_stream s' = None" "cx_num s' = cx_num s - 1"
        using p complete(1,3) Some False num(2) by (auto simp: connected_def Let_def)
      have "cx_calls s' = (if pending s' = 0 then [(Some e, i)] else [])"
        using q(1) num complete(1) Some False by (auto simp: connected_def Let_def)
      then show ?thesis using q num(1) by (simp add: connect_ok_def)
    qed
  qed
qed

lemma fold_conn_func:
  assumes "set is \<subseteq> {..<length (cx_attempts s)}" "\<forall>i<length (cx_attempts s). cx_attempts s ! i \<in> {Delayed, Connecting}"
  shows "\<exists>as. foldl (\<lambda>s i. if c i then s else conn_func (\<lambda>_. True) i s) s is = s\<lparr>cx_attempts := as\<rparr> \<and>
    length as = length (cx_attempts s) \<and> (\<forall>i<length as. as ! i \<in> {Delayed, Connecting})"
  using assms
proof (induction "is" arbitrary: s)
  case Nil
  then show ?case by (intro exI [of _ "cx_attempts s"]) simp
next
  case (Cons i "is")
  define t where "t = (if c i then s else conn_func (\<lambda>_. True) i s)"
  have t: "t = s\<lparr>cx_attempts := cx_attempts t\<rparr>" "length (cx_attempts t) = length (cx_attempts s)"
    "\<forall>j<length (cx_attempts s). cx_attempts t ! j \<in> {Delayed, Connecting}"
    using Cons.prems by (auto simp: t_def conn_func_def nth_list_update)
  obtain as where "foldl (\<lambda>s i. if c i then s else conn_func (\<lambda>_. True) i s) t is = t\<lparr>cx_attempts := as\<rparr>"
    "length as = length (cx_attempts t)" "\<forall>i<length as. as ! i \<in> {Delayed, Connecting}"
    using Cons.IH [of t] Cons.prems(1) t(2,3) by auto
  moreover have "t\<lparr>cx_attempts := as\<rparr> = s\<lparr>cx_attempts := as\<rparr>" by (subst t(1)) simp
  ultimately show ?case using t(2) by (intro exI [of _ as]) (simp add: t_def [symmetric])
qed

lemma connect_ok_start:
  assumes "v4s \<noteq> []"
  shows "connect_ok (do_async_connect (\<lambda>_. True) v4s) \<and>
    cx_attempts (do_async_connect (\<lambda>_. True) v4s) \<noteq> []"
proof -
  have "set [0..<length v4s] \<subseteq> {..<length (cx_attempts (first_context v4s))}"
    "\<forall>i<length (cx_attempts (first_context v4s)). cx_attempts (first_context v4s) ! i \<in> {Delayed, Connecting}"
    by (auto simp: first_context_def)
  from fold_conn_func [OF this, of "\<lambda>i. use_happy_eyeball v4s \<and> v4s ! i"]
  obtain as where as: "do_async_connect (\<lambda>_. True) v4s = (first_context v4s)\<lparr>cx_attempts := as\<rparr>"
    "length as = length v4s" "\<forall>i<length as. as ! i \<in> {Delayed, Connecting}"
    using assms by (auto simp: do_async_connect_def first_context_def)
  then have "filter (\<lambda>a. a = Delayed \<or> a = Connecting) as = as"
    by (intro filter_True) (auto simp: in_set_conv_nth)
  then show ?thesis using as(1,2) assms by (auto simp: connect_ok_def pending_def first_context_def)
qed

lemma reaches_ok: "reaches (\<lambda>_. True) v4s s \<Longrightarrow> v4s \<noteq> [] \<Longrightarrow> connect_ok s"
  unfolding reaches_def
  by (induction rule: rtranclp_induct) (auto simp: connect_ok_start intro: connect_ok_step)

lemma stuck_not_pending:
  assumes "\<nexists>s'. connect_step condition s s'"
  shows "pending s = 0"
proof (rule ccontr)
  assume "pending s \<noteq> 0"
  then have "filter (\<lambda>a. a = Delayed \<or> a = Connecting) (cx_attempts s) \<noteq> []" by (simp add: pending_def)
  then obtain i where "i < length (cx_attempts s)" "cx_attempts s ! i = Delayed \<or> cx_attempts s ! i = Connecting"
    by (auto simp: filter_empty_conv in_set_conv_nth)
  then show False using assms timer [of i s condition] complete [of i s condition] by blast
qed

text \<open>(C22) The handler of a connection is called once: with the default condition and at least one address, in whatever
  order timers and connections complete, the handler is never called twice; a call without an error names the
  connection the stream was taken from; and when nothing is outstanding any more it has been called exactly
  once.\<close>

theorem handler_called_once:
  assumes "reaches (\<lambda>_. True) v4s s" "v4s \<noteq> []"
  shows "length (cx_calls s) \<le> 1 \<and> ((None, i) \<in> set (cx_calls s) \<longrightarrow> cx_stream s = Some i) \<and>
    ((\<nexists>s'. connect_step (\<lambda>_. True) s s') \<longrightarrow> length (cx_calls s) = 1)"
proof -
  have ok: "connect_ok s" by (rule reaches_ok [OF assms])
  then show ?thesis using stuck_not_pending [of "\<lambda>_. True" s] by (auto simp: connect_ok_def split: if_splits)
qed

section \<open>The event loop comes to rest\<close>

text \<open>A delayed attempt takes two more steps, one that is connecting one.\<close>

fun steps_left :: "attempt_state \<Rightarrow> nat" where
  "steps_left Delayed = 2"
| "steps_left Connecting = 1"
| "steps_left _ = 0"

lemma sum_list_update:
  "i < length xs \<Longrightarrow> f y < f (xs ! i) \<Longrightarrow> sum_list (map f (xs[i := y])) < (sum_list (map f xs) :: nat)"
  by (subst id_take_nth_drop [of i xs], assumption, simp add: upd_conv_take_nth_drop)

lemma connect_step_decreases:
  "connect_step condition s s' \<Longrightarrow> sum_list (map steps_left (cx_attempts s')) < sum_list (map steps_left (cx_attempts s))"
proof (induction rule: connect_step.induct)
  case (timer i s)
  then show ?case by (auto simp: timer_fires_def conn_func_def Let_def intro!: sum_list_update)
next
  case (complete i s err)
  then show ?case by (auto simp: connected_def Let_def intro!: sum_list_update split: option.splits)
qed


section \<open>Rejected addresses\<close>

text \<open>An address that the condition rejects is not counted down: when the others fail, nobody is told.\<close>

lemma rejection_hangs:
  defines "only \<equiv> \<lambda>i::nat. i = 0"
  shows "\<exists>s. reaches only [False, False] s \<and> (\<nexists>t. connect_step only s t) \<and> cx_calls s = []"
proof -
  let ?s = "do_async_connect only [False, False]"
  let ?t = "connected 0 (Some (Connect_failed 111)) ?s"
  have s: "?s = \<lparr>cx_flag = False, cx_num = 2, cx_reject = 1, cx_attempts = [Connecting, Rejected], cx_stream = None, cx_calls = []\<rparr>"
    by (simp add: do_async_connect_def first_context_def use_happy_eyeball_def conn_func_def only_def upt_rec Let_def)
  have "connect_step only ?s ?t" by (rule complete) (simp_all add: s)
  then have "reaches only [False, False] ?t" by (auto simp: reaches_def)
  moreover have t: "?t = \<lparr>cx_flag = False, cx_num = 1, cx_reject = 1, cx_attempts = [Completed, Rejected], cx_stream = None, cx_calls = []\<rparr>"
    by (simp add: s connected_def)
  moreover have "\<not> connect_step only ?t u" for u
    unfolding t by (auto elim!: connect_step.cases simp: less_Suc_eq)
  ultimately show ?thesis by (intro exI [of _ ?t]) simp
qed

section \<open>Example\<close>

theorem handler_called_once_witness:
  "length (cx_calls (connected 1 None (do_async_connect (\<lambda>_. True) [True, False]))) \<le> 1 \<and>
   cx_attempts (do_async_connect (\<lambda>_. True) [True, False]) = [Delayed, Connecting]"
proof -
  have s: "cx_attempts (do_async_connect (\<lambda>_. True) [True, False]) = [Delayed, Connecting]"
    by (simp add: do_async_connect_def first_context_def use_happy_eyeball_def conn_func_def upt_rec)
  then have "connect_step (\<lambda>_. True) (do_async_connect (\<lambda>_. True) [True, False])
      (connected 1 None (do_async_connect (\<lambda>_. True) [True, False]))" by (intro complete) simp_all
  then have "reaches (\<lambda>_. True) [True, False] (connected 1 None (do_async_connect (\<lambda>_. True) [True, False]))"
    by (auto simp: reaches_def)
  then show ?thesis using handler_called_once [of "[True, False]"] s by simp
qed


end
