(* ===== verification/Utf8.thy ===== *)
theory Utf8
  imports Bit_Io
begin

text \<open>
  The check of log messages for UTF-8 in \<^verbatim>\<open>utils/logging.hpp\<close>: a table of byte classes followed by the transition table
  of an automaton, one decoding step and the loop over a text. It is compared with the definition of UTF-8: the
  concatenation of the encodings of Unicode scalar values.
\<close>

section \<open>The automaton of the source\<close>

definition utf8d :: "nat list" where
  "utf8d = [
     0,0,0,0,0,0,0,0,0,0,0,0,0,0,0,0,0,0,0,0,0,0,0,0,0,0,0,0,0,0,0,0,
     0,0,0,0,0,0,0,0,0,0,0,0,0,0,0,0,0,0,0,0,0,0,0,0,0,0,0,0,0,0,0,0,
     0,0,0,0,0,0,0,0,0,0,0,0,0,0,0,0,0,0,0,0,0,0,0,0,0,0,0,0,0,0,0,0,
     0,0,0,0,0,0,0,0,0,0,0,0,0,0,0,0,0,0,0,0,0,0,0,0,0,0,0,0,0,0,0,0,
     1,1,1,1,1,1,1,1,1,1,1,1,1,1,1,1,9,9,9,9,9,9,9,9,9,9,9,9,9,9,9,9,
     7,7,7,7,7,7,7,7,7,7,7,7,7,7,7,7,7,7,7,7,7,7,7,7,7,7,7,7,7,7,7,7,
     8,8,2,2,2,2,2,2,2,2,2,2,2,2,2,2,2,2,2,2,2,2,2,2,2,2,2,2,2,2,2,2,
     0xa,0x3,0x3,0x3,0x3,0x3,0x3,0x3,0x3,0x3,0x3,0x3,0x3,0x4,0x3,0x3,
     0xb,0x6,0x6,0x6,0x5,0x8,0x8,0x8,0x8,0x8,0x8,0x8,0x8,0x8,0x8,0x8,
     0x0,0x1,0x2,0x3,0x5,0x8,0x7,0x1,0x1,0x1,0x4,0x6,0x1,0x1,0x1,0x1,
     1,1,1,1,1,1,1,1,1,1,1,1,1,1,1,1,1,0,1,1,1,1,1,0,1,0,1,1,1,1,1,1,
     1,2,1,1,1,1,1,2,1,2,1,1,1,1,1,1,1,1,1,1,1,1,1,2,1,1,1,1,1,1,1,1,
     1,2,1,1,1,1,1,1,1,2,1,1,1,1,1,1,1,1,1,1,1,1,1,3,1,3,1,1,1,1,1,1,
     1,3,1,1,1,1,1,3,1,3,1,1,1,1,1,1,1,3,1,1,1,1,1,1,1,1,1,1,1,1,1,1]"

text \<open>One byte: the new state and code point. The states are entries of the table.\<close>

definition decode :: "nat \<Rightarrow> u32 \<Rightarrow> u32 \<Rightarrow> nat \<times> u32" where
  "decode state codep byte =
     (let type = utf8d ! unat byte
      in (utf8d ! (256 + state * 16 + type),
          if state \<noteq> 0 then (byte AND 0x3f) OR push_bit 6 codep else drop_bit type 0xff AND byte))"

text \<open>The loop over the text; the code point starts with no defined value.\<close>

fun utf8_loop :: "nat \<Rightarrow> u32 \<Rightarrow> string \<Rightarrow> bool" where
  "utf8_loop state codep [] \<longleftrightarrow> state = 0"
| "utf8_loop state codep (c # s) \<longleftrightarrow>
     (case decode state codep (of_char c) of (state', codep') \<Rightarrow> state' \<noteq> 1 \<and> utf8_loop state' codep' s)"

definition utf8_check_is_valid :: "u32 \<Rightarrow> string \<Rightarrow> bool" where
  "utf8_check_is_valid codepoint str = utf8_loop 0 codepoint str"

section \<open>The definition of UTF-8\<close>

definition scalar_value :: "nat \<Rightarrow> bool" where
  "scalar_value cp \<longleftrightarrow> cp < 0x110000 \<and> \<not> (0xD800 \<le> cp \<and> cp < 0xE000)"

definition utf8_bytes :: "nat \<Rightarrow> nat list" where
  "utf8_bytes cp =
     (if cp < 0x80 then [cp]
      else if cp < 0x800 then [0xC0 + cp div 0x40, 0x80 + cp mod 0x40]
      else if cp < 0x10000 then [0xE0 + cp div 0x1000, 0x80 + cp div 0x40 mod 0x40, 0x80 + cp mod 0x40]
      else [0xF0 + cp div 0x40000, 0x80 + cp div 0x1000 mod 0x40, 0x80 + cp div 0x40 mod 0x40, 0x80 + cp mod 0x40])"

definition utf8_encode :: "nat list \<Rightarrow> string" where
  "utf8_encode cps = map char_of (concat (map utf8_bytes cps))"

section \<open>The tables\<close>

lemma utf8d_blocks:
  "utf8d = (replicate 128 0 @ replicate 16 1 @ replicate 16 9 @ replicate 32 7 @ replicate 2 8 @ replicate 30 2 @
      10 # replicate 12 3 @ 4 # replicate 2 3 @ 11 # replicate 3 6 @ 5 # replicate 11 8) @
      [0,1,2,3,5,8,7,1,1,1,4,6,1,1,1,1] @ replicate 16 1 @
      [1,0,1,1,1,1,1,0,1,0,1,1,1,1,1,1] @ [1,2,1,1,1,1,1,2,1,2,1,1,1,1,1,1] @ [1,1,1,1,1,1,1,2,1,1,1,1,1,1,1,1] @
      [1,2,1,1,1,1,1,1,1,2,1,1,1,1,1,1] @ [1,1,1,1,1,1,1,3,1,3,1,1,1,1,1,1] @ [1,3,1,1,1,1,1,3,1,3,1,1,1,1,1,1] @
      [1,3,1,1,1,1,1,1,1,1,1,1,1,1,1,1]"
  unfolding utf8d_def by (simp add: numeral_eq_Suc)

text \<open>The classes of the bytes.\<close>

definition byte_class :: "nat \<Rightarrow> nat" where
  "byte_class b =
     (if b < 0x80 then 0 else if b < 0x90 then 1 else if b < 0xA0 then 9 else if b < 0xC0 then 7 else if b < 0xC2 then 8
      else if b < 0xE0 then 2 else if b = 0xE0 then 10 else if b < 0xED then 3 else if b = 0xED then 4 else if b < 0xF0 then 3
      else if b = 0xF0 then 11 else if b < 0xF4 then 6 else if b = 0xF4 then 5 else 8)"

lemma utf8d_class:
  assumes "b < 256"
  shows "utf8d ! b = byte_class b"
  using assms unfolding utf8d_blocks byte_class_def by (auto simp: nth_append nth_Cons' less_diff_conv2)

lemma byte_class_less: "byte_class b < 12"
  by (simp add: byte_class_def)

definition next_rows :: "nat list list" where
  "next_rows =
     [[0,1,2,3,5,8,7,1,1,1,4,6], replicate 12 1, [1,0,1,1,1,1,1,0,1,0,1,1], [1,2,1,1,1,1,1,2,1,2,1,1],
      [1,1,1,1,1,1,1,2,1,1,1,1], [1,2,1,1,1,1,1,1,1,2,1,1], [1,1,1,1,1,1,1,3,1,3,1,1], [1,3,1,1,1,1,1,3,1,3,1,1],
      [1,3,1,1,1,1,1,1,1,1,1,1]]"

lemma utf8d_rows: "map (\<lambda>st. take 12 (drop (256 + st * 16) utf8d)) [0..<9] = next_rows"
  by code_simp

lemma utf8d_next:
  assumes "st < 9" "c < 12"
  shows "utf8d ! (256 + st * 16 + c) = next_rows ! st ! c"
proof -
  have "length utf8d = 400" unfolding utf8d_blocks by simp
  moreover have "next_rows ! st = take 12 (drop (256 + st * 16) utf8d)"
    using arg_cong [OF utf8d_rows, of "\<lambda>xs. xs ! st"] assms(1) by simp
  ultimately show ?thesis using assms by simp
qed

text \<open>The automaton over byte values, without the code point.\<close>

fun accepts :: "nat \<Rightarrow> nat list \<Rightarrow> bool" where
  "accepts st [] \<longleftrightarrow> st = 0"
| "accepts st (b # bs) \<longleftrightarrow> next_rows ! st ! byte_class b \<noteq> 1 \<and> accepts (next_rows ! st ! byte_class b) bs"

lemma next_less: "st < 9 \<Longrightarrow> c < 12 \<Longrightarrow> next_rows ! st ! c < 9"
  by (simp add: next_rows_def less_Suc_eq numeral_eq_Suc) (elim disjE; simp)

lemma utf8_loop_accepts:
  "st < 9 \<Longrightarrow> utf8_loop st cp s \<longleftrightarrow> accepts st (map of_char s)"
proof (induction s arbitrary: st cp)
  case (Cons c s)
  have lt: "of_char c < (256 :: nat)" by simp
  have "(of_char c :: nat) mod 2 ^ 32 = of_char c" by (rule mod_less) (rule less_trans [OF lt], simp)
  then have b: "unat (of_char c :: u32) = of_char c"
    by (simp add: unsigned_of_nat take_bit_eq_mod flip: of_nat_of_char [where ?'a = u32])
  show ?case using Cons.prems Cons.IH next_less [OF Cons.prems byte_class_less]
    by (simp add: decode_def b lt utf8d_class utf8d_next byte_class_less Let_def)
qed simp

section \<open>Each kind of encoding is accepted\<close>

lemma accepts_0:
  "accepts 0 (b # bs) \<longleftrightarrow>
     (if b < 0x80 then accepts 0 bs else if b < 0xC2 then False else if b < 0xE0 then accepts 2 bs
      else if b = 0xE0 then accepts 4 bs else if b = 0xED then accepts 5 bs else if b < 0xF0 then accepts 3 bs
      else if b = 0xF0 then accepts 6 bs else if b < 0xF4 then accepts 7 bs else if b = 0xF4 then accepts 8 bs else False)"
  by (auto simp: byte_class_def next_rows_def)

lemma next_row:
  assumes "c < 12"
  shows "next_rows ! 2 ! c = (if c = 1 \<or> c = 7 \<or> c = 9 then 0 else 1)"
    "next_rows ! 3 ! c = (if c = 1 \<or> c = 7 \<or> c = 9 then 2 else 1)"
    "next_rows ! 4 ! c = (if c = 7 then 2 else 1)"
    "next_rows ! 5 ! c = (if c = 1 \<or> c = 9 then 2 else 1)"
    "next_rows ! 6 ! c = (if c = 7 \<or> c = 9 then 3 else 1)"
    "next_rows ! 7 ! c = (if c = 1 \<or> c = 7 \<or> c = 9 then 3 else 1)"
    "next_rows ! 8 ! c = (if c = 1 then 3 else 1)"
proof -
  have "c = 0 \<or> c = 1 \<or> c = 2 \<or> c = 3 \<or> c = 4 \<or> c = 5 \<or> c = 6 \<or> c = 7 \<or> c = 8 \<or> c = 9 \<or> c = 10 \<or> c = 11"
    using assms by (auto simp: numeral_eq_Suc less_Suc_eq)
  then show "next_rows ! 2 ! c = (if c = 1 \<or> c = 7 \<or> c = 9 then 0 else 1)"
    "next_rows ! 3 ! c = (if c = 1 \<or> c = 7 \<or> c = 9 then 2 else 1)"
    "next_rows ! 4 ! c = (if c = 7 then 2 else 1)"
    "next_rows ! 5 ! c = (if c = 1 \<or> c = 9 then 2 else 1)"
    "next_rows ! 6 ! c = (if c = 7 \<or> c = 9 then 3 else 1)"
    "next_rows ! 7 ! c = (if c = 1 \<or> c = 7 \<or> c = 9 then 3 else 1)"
    "next_rows ! 8 ! c = (if c = 1 then 3 else 1)"
    by (elim disjE; simp add: next_rows_def)+
qed

lemma class_range:
  "byte_class b = 1 \<longleftrightarrow> 0x80 \<le> b \<and> b < 0x90" "byte_class b = 9 \<longleftrightarrow> 0x90 \<le> b \<and> b < 0xA0"
  "byte_class b = 7 \<longleftrightarrow> 0xA0 \<le> b \<and> b < 0xC0"
  by (auto simp: byte_class_def)

lemma accepts_rest:
  "accepts 2 (b # bs) \<longleftrightarrow> 0x80 \<le> b \<and> b < 0xC0 \<and> accepts 0 bs"
  "accepts 3 (b # bs) \<longleftrightarrow> 0x80 \<le> b \<and> b < 0xC0 \<and> accepts 2 bs"
  "accepts 4 (b # bs) \<longleftrightarrow> 0xA0 \<le> b \<and> b < 0xC0 \<and> accepts 2 bs"
  "accepts 5 (b # bs) \<longleftrightarrow> 0x80 \<le> b \<and> b < 0xA0 \<and> accepts 2 bs"
  "accepts 6 (b # bs) \<longleftrightarrow> 0x90 \<le> b \<and> b < 0xC0 \<and> accepts 3 bs"
  "accepts 7 (b # bs) \<longleftrightarrow> 0x80 \<le> b \<and> b < 0xC0 \<and> accepts 3 bs"
  "accepts 8 (b # bs) \<longleftrightarrow> 0x80 \<le> b \<and> b < 0x90 \<and> accepts 3 bs"
  by (auto simp: next_row [OF byte_class_less] class_range class_range(1) [unfolded One_nat_def] split: if_splits)

declare accepts.simps(2) [simp del]

text \<open>A code point by its groups of six bits.\<close>

lemma group_div:
  fixes a z :: nat
  assumes "z < 64"
  shows "(a * 64 + z) div 64 = a" "(a * 64 + z) mod 64 = z" "(a * 64 + z) div 4096 = a div 64"
    "(a * 64 + z) div 262144 = a div 4096"
proof -
  show d: "(a * 64 + z) div 64 = a" and "(a * 64 + z) mod 64 = z" using assms by simp_all
  show "(a * 64 + z) div 4096 = a div 64" "(a * 64 + z) div 262144 = a div 4096"
    using d div_mult2_eq [of "a * 64 + z" 64 64] div_mult2_eq [of "a * 64 + z" 64 4096] by simp_all
qed

lemma two_byte_code:
  assumes "2 \<le> y" "y < 32" "z < 64"
  shows "utf8_bytes (y * 64 + z) = [0xC0 + y, 0x80 + z]" "scalar_value (y * 64 + z)"
    "accepts 0 ([0xC0 + y, 0x80 + z] @ bs) \<longleftrightarrow> accepts 0 bs"
  using assms
  by (simp_all add: group_div utf8_bytes_def scalar_value_def accepts_0 accepts_rest)

lemma three_byte_code:
  assumes "x < 16" "y < 64" "z < 64"
  shows "0 < x \<or> 32 \<le> y \<Longrightarrow> utf8_bytes ((x * 64 + y) * 64 + z) = [0xE0 + x, 0x80 + y, 0x80 + z]"
    "scalar_value ((x * 64 + y) * 64 + z) \<longleftrightarrow> \<not> (x = 13 \<and> 32 \<le> y)"
    "accepts 0 ([0xE0 + x, 0x80 + y, 0x80 + z] @ bs) \<longleftrightarrow>
       (0 < x \<or> 32 \<le> y) \<and> \<not> (x = 13 \<and> 32 \<le> y) \<and> accepts 0 bs"
proof -
  show "utf8_bytes ((x * 64 + y) * 64 + z) = [0xE0 + x, 0x80 + y, 0x80 + z]"
    if "0 < x \<or> 32 \<le> y"
  proof -
    have "\<not> (x * 64 + y) * 64 + z < 0x80" "\<not> (x * 64 + y) * 64 + z < 0x800" "(x * 64 + y) * 64 + z < 0x10000"
      using assms that by auto
    then show ?thesis by (simp only: utf8_bytes_def if_False if_True group_div assms)
  qed
  have "x \<le> 12 \<or> x = 13 \<or> 14 \<le> x" by linarith
  then show "scalar_value ((x * 64 + y) * 64 + z) \<longleftrightarrow> \<not> (x = 13 \<and> 32 \<le> y)"
    using assms by (elim disjE) (auto simp: scalar_value_def)
  show "accepts 0 ([0xE0 + x, 0x80 + y, 0x80 + z] @ bs) \<longleftrightarrow>
       (0 < x \<or> 32 \<le> y) \<and> \<not> (x = 13 \<and> 32 \<le> y) \<and> accepts 0 bs"
    using assms by (auto simp: accepts_0 accepts_rest)
qed

lemma four_byte_code:
  assumes "w < 8" "x < 64" "y < 64" "z < 64"
  shows "0 < w \<or> 16 \<le> x \<Longrightarrow>
      utf8_bytes (((w * 64 + x) * 64 + y) * 64 + z) = [0xF0 + w, 0x80 + x, 0x80 + y, 0x80 + z]"
    "0 < w \<or> 16 \<le> x \<Longrightarrow>
      scalar_value (((w * 64 + x) * 64 + y) * 64 + z) \<longleftrightarrow> w < 4 \<or> w = 4 \<and> x < 16"
    "accepts 0 ([0xF0 + w, 0x80 + x, 0x80 + y, 0x80 + z] @ bs) \<longleftrightarrow>
       (0 < w \<or> 16 \<le> x) \<and> (w < 4 \<or> w = 4 \<and> x < 16) \<and> accepts 0 bs"
proof -
  show "utf8_bytes (((w * 64 + x) * 64 + y) * 64 + z) = [0xF0 + w, 0x80 + x, 0x80 + y, 0x80 + z]"
    if "0 < w \<or> 16 \<le> x"
  proof -
    have "\<not> ((w * 64 + x) * 64 + y) * 64 + z < 0x80" "\<not> ((w * 64 + x) * 64 + y) * 64 + z < 0x800"
      "\<not> ((w * 64 + x) * 64 + y) * 64 + z < 0x10000"
      using assms that by auto
    then show ?thesis by (simp only: utf8_bytes_def if_False if_True group_div assms)
  qed
  show "0 < w \<or> 16 \<le> x \<Longrightarrow>
      scalar_value (((w * 64 + x) * 64 + y) * 64 + z) \<longleftrightarrow> w < 4 \<or> w = 4 \<and> x < 16"
    using assms by (auto simp: scalar_value_def)
  show "accepts 0 ([0xF0 + w, 0x80 + x, 0x80 + y, 0x80 + z] @ bs) \<longleftrightarrow>
       (0 < w \<or> 16 \<le> x) \<and> (w < 4 \<or> w = 4 \<and> x < 16) \<and> accepts 0 bs"
    using assms by (auto simp: accepts_0 accepts_rest)
qed

section \<open>The check decides UTF-8\<close>

lemma accepts_encoded:
  assumes "scalar_value cp"
  shows "accepts 0 (utf8_bytes cp @ bs) \<longleftrightarrow> accepts 0 bs"
proof -
  define z y x w where "z = cp mod 64" and "y = cp div 64 mod 64" and "x = cp div 4096 mod 64" and "w = cp div 262144"
  have lt: "z < 64" "y < 64" "x < 64" by (simp_all add: z_def y_def x_def)
  have d: "cp div 4096 = cp div 64 div 64" "cp div 262144 = cp div 4096 div 64"
    using div_mult2_eq [of cp 64 64] div_mult2_eq [of cp 4096 64] by simp_all
  have cp: "cp = cp div 64 * 64 + z" "cp div 64 = cp div 4096 * 64 + y" "cp div 4096 = w * 64 + x"
    by (simp_all add: z_def y_def x_def w_def d)
  consider "cp < 0x80" | "0x80 \<le> cp" "cp < 0x800" | "0x800 \<le> cp" "cp < 0x10000" | "0x10000 \<le> cp" by linarith
  then show ?thesis
  proof cases
    case 1
    then show ?thesis by (simp add: utf8_bytes_def accepts_0)
  next
    case 2
    then have "2 \<le> cp div 64" "cp div 64 < 32" by linarith+
    then show ?thesis using two_byte_code [of "cp div 64" z] lt cp(1) by simp
  next
    case 3
    then have x: "w = 0" "x < 16" using cp lt by linarith+
    then have x0: "0 < x \<or> 32 \<le> y" using 3(1) cp lt(1) by linarith
    have "cp = (x * 64 + y) * 64 + z" using cp x(1) by simp
    then show ?thesis using three_byte_code [OF x(2) lt(2,1)] x0 assms by simp
  next
    case 4
    then have w: "w < 8" "0 < w \<or> 16 \<le> x" using cp lt assms unfolding scalar_value_def by linarith+
    moreover have "cp = ((w * 64 + x) * 64 + y) * 64 + z" using cp by simp
    ultimately show ?thesis using four_byte_code [OF w(1) lt(3,2,1)] assms by simp
  qed
qed

lemma accepts_continues:
  assumes "accepts st bs" "2 \<le> st" "st < 9"
  shows "\<exists>y r. y < 64 \<and> bs = (0x80 + y) # r \<and> accepts (if st = 2 then 0 else if st \<le> 5 then 2 else 3) r"
proof (cases bs)
  case (Cons b r)
  from assms(2,3) have "st \<in> {2, 3, 4, 5, 6, 7, 8}" by auto
  then have "0x80 \<le> b \<and> b < 0xC0 \<and> accepts (if st = 2 then 0 else if st \<le> 5 then 2 else 3) r"
    using assms(1) Cons by (elim insertE) (auto simp: accepts_rest)
  then show ?thesis using Cons by (intro exI [of _ "b - 0x80"] exI [of _ r]) auto
qed (use assms in simp)

lemma accepts_pair:
  assumes "accepts st bs" "st \<in> {3, 4, 5}"
  shows "\<exists>y z r. y < 64 \<and> z < 64 \<and> bs = [0x80 + y, 0x80 + z] @ r"
proof -
  obtain y r where "y < 64" "bs = (0x80 + y) # r" "accepts 2 r"
    using accepts_continues [OF assms(1)] assms(2) by (auto split: if_splits)
  then show ?thesis using accepts_continues [of 2 r] by auto
qed

lemma accepts_first:
  assumes "accepts 0 bs" "bs \<noteq> []"
  shows "\<exists>cp r. scalar_value cp \<and> bs = utf8_bytes cp @ r \<and> accepts 0 r"
proof -
  obtain b r where bs: "bs = b # r" using assms(2) by (cases bs) auto
  have acc: "accepts 0 (b # r)" using assms(1) bs by simp
  consider "b < 0x80" | "0xC2 \<le> b" "b < 0xE0" | "0xE0 \<le> b" "b < 0xF0" | "0xF0 \<le> b" "b < 0xF5"
    using acc by (fastforce simp: accepts_0 split: if_splits)
  then show ?thesis
  proof cases
    case 1
    then show ?thesis using acc bs by (intro exI [of _ b] exI [of _ r]) (simp add: scalar_value_def utf8_bytes_def accepts_0)
  next
    case 2
    then have "accepts 2 r" using acc by (simp add: accepts_0)
    then obtain z r' where "z < 64" "r = (0x80 + z) # r'" "accepts 0 r'" using accepts_continues [of 2 r] by auto
    then show ?thesis using 2 bs two_byte_code [of "b - 0xC0" z]
      by (intro exI [of _ "(b - 0xC0) * 64 + z"] exI [of _ r']) auto
  next
    case 3
    define x where "x = b - 0xE0"
    have "accepts 3 r \<or> accepts 4 r \<or> accepts 5 r" using acc 3 by (auto simp: accepts_0 split: if_splits)
    then obtain y z r' where r: "y < 64" "z < 64" "r = [0x80 + y, 0x80 + z] @ r'" using accepts_pair by blast
    have x: "x < 16" "b = 0xE0 + x" using 3 by (auto simp: x_def)
    show ?thesis using acc r(3) x(2) bs three_byte_code [OF x(1) r(1,2)]
      by (intro exI [of _ "(x * 64 + y) * 64 + z"] exI [of _ r']) simp
  next
    case 4
    define w where "w = b - 0xF0"
    have "accepts 6 r \<or> accepts 7 r \<or> accepts 8 r" using acc 4 by (auto simp: accepts_0 split: if_splits)
    then obtain x r1 where r1: "x < 64" "r = (0x80 + x) # r1" "accepts 3 r1"
      using accepts_continues [of 6 r] accepts_continues [of 7 r] accepts_continues [of 8 r] by auto
    obtain y z r' where r: "y < 64" "z < 64" "r1 = [0x80 + y, 0x80 + z] @ r'" using accepts_pair [OF r1(3)] by blast
    have w: "w < 8" "b = 0xF0 + w" using 4 by (auto simp: w_def)
    show ?thesis using acc r1(2) r(3) w(2) bs four_byte_code [OF w(1) r1(1) r(1,2)]
      by (intro exI [of _ "((w * 64 + x) * 64 + y) * 64 + z"] exI [of _ r']) simp
  qed
qed

lemma utf8_bytes_nonempty: "utf8_bytes cp \<noteq> []"
  by (simp add: utf8_bytes_def)

lemma accepts_text:
  "accepts 0 bs \<longleftrightarrow> (\<exists>cps. list_all scalar_value cps \<and> bs = concat (map utf8_bytes cps))"
proof
  assume "\<exists>cps. list_all scalar_value cps \<and> bs = concat (map utf8_bytes cps)"
  then obtain cps where "list_all scalar_value cps" "bs = concat (map utf8_bytes cps)" by blast
  then show "accepts 0 bs" by (induction cps arbitrary: bs) (simp_all add: accepts_encoded)
next
  assume "accepts 0 bs"
  then show "\<exists>cps. list_all scalar_value cps \<and> bs = concat (map utf8_bytes cps)"
  proof (induction bs rule: length_induct)
    case (1 bs)
    show ?case
    proof (cases "bs = []")
      case False
      then obtain cp r where r: "scalar_value cp" "bs = utf8_bytes cp @ r" "accepts 0 r"
        using accepts_first [OF "1.prems"] by blast
      moreover obtain cps where "list_all scalar_value cps" "r = concat (map utf8_bytes cps)"
        using "1.IH" [rule_format, of r] r utf8_bytes_nonempty [of cp] by auto
      ultimately show ?thesis by (intro exI [of _ "cp # cps"]) simp
    qed (intro exI [of _ "[]"], simp)
  qed
qed

lemma utf8_bytes_less: "scalar_value cp \<Longrightarrow> b \<in> set (utf8_bytes cp) \<Longrightarrow> b < 256"
  by (auto simp: utf8_bytes_def scalar_value_def split: if_splits)

text \<open>(C15) The check of a log message decides UTF-8: a text passes exactly when it is the concatenation of the encodings of
  Unicode scalar values, shortest form, without surrogates and up to U+10FFFF, whatever the variable of the code point
  held before.\<close>

theorem utf8_check_text:
  "utf8_check_is_valid codepoint s \<longleftrightarrow> (\<exists>cps. list_all scalar_value cps \<and> s = utf8_encode cps)"
proof -
  have enc: "map of_char (utf8_encode cps) = concat (map utf8_bytes cps)" if "list_all scalar_value cps" for cps
    using that unfolding utf8_encode_def
    by (induction cps) (auto intro!: map_idI simp: utf8_bytes_less)
  have "s = utf8_encode cps \<longleftrightarrow> map of_char s = concat (map utf8_bytes cps)" if "list_all scalar_value cps" for cps
    unfolding enc [OF that, symmetric] by (simp add: inj_map_eq_map inj_of_char)
  then show ?thesis unfolding utf8_check_is_valid_def by (auto simp: utf8_loop_accepts accepts_text)
qed

end
