(* ===== verification/Logging.thy ===== *)
theory Logging
  imports Utf8 Http_Date
begin

text \<open>
  Logging, \<^verbatim>\<open>utils/logging.hpp\<close>: the log file with its hourly archives, the compression of an archive in the
  background, the prefix of a line, the writer with its queue, and the stream that collects a message. Files are a map from
  paths to contents; what the operating system answers is given with each operation, \<^verbatim>\<open>localtime\<close>,
  \<^verbatim>\<open>mktime\<close> and the compression of zlib are parameters. A member \<^verbatim>\<open>m_ofstream\<close> is \<open>None\<close> when
  it is null, \<open>Some None\<close> when opening failed and holds the path it was opened with otherwise.
\<close>

type_synonym files = "string \<Rightarrow> string option"

record log_file =
  m_log_path :: string
  m_ofstream :: "string option option"
  m_last_time :: int
  m_log_size :: nat
  lf_files :: files
  lf_jobs :: "string list"

record log_system =
  ls_localtime :: "int \<Rightarrow> short_tm option"
  ls_mktime :: "short_tm \<Rightarrow> int"
  ls_gzip :: "string \<Rightarrow> string"
  ls_max :: int

section \<open>Numbers and times\<close>

text \<open>\<^verbatim>\<open>%0wd\<close> of \<^verbatim>\<open>printf\<close> and \<^verbatim>\<open>{:0wd}\<close> of \<^verbatim>\<open>std::format\<close>: the sign counts.\<close>

definition pad :: "nat \<Rightarrow> int \<Rightarrow> string" where
  "pad w n =
     (let sign = (if n < 0 then ''-'' else []); digits = show_nat (nat \<bar>n\<bar>)
      in sign @ replicate (w - length sign - length digits) CHR ''0'' @ digits)"

text \<open>The remainder of C++ has the sign of the dividend.\<close>

definition cmod :: "int \<Rightarrow> int \<Rightarrow> int" where
  "cmod a b = a - b * cdiv a b"

text \<open>The text of a time in milliseconds; \<open>None\<close> when there is no local time, and the buffer is left empty.\<close>

definition time_to_string :: "log_system \<Rightarrow> int \<Rightarrow> string option" where
  "time_to_string sys time =
     (case ls_localtime sys (cdiv time 1000) of
        None \<Rightarrow> None
      | Some ptm \<Rightarrow> Some (pad 4 (tm_year ptm + 1900) @ ''-'' @ pad 2 (tm_mon ptm + 1) @ ''-'' @ pad 2 (tm_mday ptm) @ '' '' @
          pad 2 (tm_hour ptm) @ '':'' @ pad 2 (tm_min ptm) @ '':'' @ pad 2 (tm_sec ptm) @ ''.'' @ pad 3 (cmod time 1000)))"

section \<open>The log file\<close>

definition path_parent :: "string \<Rightarrow> string" where
  "path_parent p =
     (let r = dropWhile (\<lambda>c. c \<noteq> CHR ''/'') (rev p); d = dropWhile (\<lambda>c. c = CHR ''/'') r
      in if r = [] then [] else if d = [] then ''/'' else rev d)"

definition log_path_join :: "string \<Rightarrow> string \<Rightarrow> string" where
  "log_path_join d f = (if d = [] then f else if last d = CHR ''/'' then d @ f else d @ ''/'' @ f)"

definition auto_logger_file :: "files \<Rightarrow> log_file" where
  "auto_logger_file fs =
     \<lparr>m_log_path = log_path_join ''./logs'' ''application.log'', m_ofstream = None, m_last_time = - 1, m_log_size = 0,
      lf_files = fs, lf_jobs = []\<rparr>"

definition open_log :: "string \<Rightarrow> log_file \<Rightarrow> log_file" where
  "open_log path f = f\<lparr>m_log_path := path\<rparr>"

definition log_hours :: "int \<Rightarrow> int" where
  "log_hours time = cdiv (cdiv time 1000) 3600"

definition as_int :: "nat \<Rightarrow> int" where
  "as_int n = sint (of_nat n :: 32 word)"

definition rotation_due :: "log_system \<Rightarrow> int \<Rightarrow> log_file \<Rightarrow> bool" where
  "rotation_due sys time f \<longleftrightarrow>
     ls_max sys < as_int (m_log_size f) \<and> 0 < ls_max sys \<or>
     log_hours (m_last_time f) \<noteq> log_hours time \<and> ls_max sys < 0"

text \<open>The name of an archive: by the hour, or by the second where a size is configured.\<close>

definition archive_name :: "log_system \<Rightarrow> short_tm \<Rightarrow> string" where
  "archive_name sys ptm =
     pad 4 (tm_year ptm + 1900) @ pad 2 (tm_mon ptm + 1) @ pad 2 (tm_mday ptm) @ ''-'' @
     (if ls_max sys \<le> 0 then pad 2 (tm_hour ptm) else pad 0 (ls_mktime sys ptm)) @ ''.log''"

text \<open>What the system answers during a write: whether copying works, where it is possible at all, whether the file can be
  cut to length 0, and whether it can be opened.\<close>

record write_answers =
  wa_copy :: bool
  wa_resize :: bool
  wa_open :: bool

text \<open>\<^verbatim>\<open>std::filesystem::copy_file\<close> does not overwrite.\<close>

definition log_copy_file :: "bool \<Rightarrow> string \<Rightarrow> string \<Rightarrow> files \<Rightarrow> files option" where
  "log_copy_file ok from to fs =
     (case fs from of
        Some text \<Rightarrow> (if ok \<and> fs to = None then Some (fs(to \<mapsto> text)) else None)
      | None \<Rightarrow> None)"

definition archive_log :: "log_system \<Rightarrow> write_answers \<Rightarrow> int \<Rightarrow> short_tm \<Rightarrow> log_file \<Rightarrow> log_file" where
  "archive_log sys wa time ptm f0 =
     (let filename = log_path_join (path_parent (m_log_path f0)) (archive_name sys ptm);
          f = f0\<lparr>m_ofstream := None, m_last_time := time\<rparr>
      in case log_copy_file (wa_copy wa) (m_log_path f) filename (lf_files f) of
           None \<Rightarrow> f
         | Some fs \<Rightarrow>
             f\<lparr>lf_files := (if wa_resize wa then fs(m_log_path f \<mapsto> []) else fs), m_log_size := 0,
               lf_jobs := lf_jobs f @ [filename]\<rparr>)"

definition rotate_log :: "log_system \<Rightarrow> write_answers \<Rightarrow> int \<Rightarrow> log_file \<Rightarrow> log_file result" where
  "rotate_log sys wa time f =
     (if m_last_time f = - 1 then Inr (f\<lparr>m_last_time := time\<rparr>)
      else case (ls_localtime sys (cdiv (m_last_time f) 1000), m_ofstream f) of
             (Some ptm, Some _) \<Rightarrow> Inr (archive_log sys wa time ptm f)
           | _ \<Rightarrow> Inl Undefined)"

definition file_text :: "files \<Rightarrow> string \<Rightarrow> string" where
  "file_text fs p = (case fs p of None \<Rightarrow> [] | Some t \<Rightarrow> t)"

definition reopen_log :: "write_answers \<Rightarrow> log_file \<Rightarrow> log_file" where
  "reopen_log wa f =
     (if m_ofstream f \<noteq> None then f
      else if wa_open wa
      then f\<lparr>m_ofstream := Some (Some (m_log_path f)), lf_files := (lf_files f)(m_log_path f \<mapsto> file_text (lf_files f) (m_log_path f))\<rparr>
      else f\<lparr>m_ofstream := Some None\<rparr>)"

definition append_log :: "string \<Rightarrow> log_file \<Rightarrow> log_file" where
  "append_log str f =
     (case m_ofstream f of
        Some (Some p) \<Rightarrow>
          f\<lparr>m_log_size := m_log_size f + length str, lf_files := (lf_files f)(p \<mapsto> file_text (lf_files f) p @ str)\<rparr>
      | _ \<Rightarrow> f)"

definition write_log :: "log_system \<Rightarrow> write_answers \<Rightarrow> int \<Rightarrow> string \<Rightarrow> log_file \<Rightarrow> log_file result" where
  "write_log sys wa time str f =
     (case (if rotation_due sys time f then rotate_log sys wa time f else Inr f) of
        Inl e \<Rightarrow> Inl e
      | Inr f' \<Rightarrow> Inr (append_log str (reopen_log wa f')))"

section \<open>Compression in the background\<close>

text \<open>What zlib and the C library answer: whether the output opens, in which rounds reading fails, and what
  \<^verbatim>\<open>gzwrite\<close> returns, by the number of the call and the bytes offered.\<close>

record gz_answers =
  ga_open :: bool
  ga_read_error :: "nat \<Rightarrow> bool"
  ga_write :: "nat \<Rightarrow> nat \<Rightarrow> int"

text \<open>The inner loop: the text written, and the number of calls made. The outer one reads blocks of 65536 bytes.\<close>

function gz_write_all :: "(nat \<Rightarrow> nat \<Rightarrow> int) \<Rightarrow> nat \<Rightarrow> string \<Rightarrow> (string \<times> nat) option" where
  "gz_write_all gzwrite k buf =
     (if buf = [] then Some ([], k)
      else (let ret = gzwrite k (length buf)
            in if ret \<le> 0 then None
               else (case gz_write_all gzwrite (Suc k) (drop (nat ret) buf) of
                       None \<Rightarrow> None
                     | Some (w, k') \<Rightarrow> Some (take (nat ret) buf @ w, k'))))"
  by pat_completeness auto
termination by (relation "measure (\<lambda>(g, k, buf). length buf)") auto

function gz_blocks :: "gz_answers \<Rightarrow> nat \<Rightarrow> nat \<Rightarrow> string \<Rightarrow> string option" where
  "gz_blocks ga round k rest =
     (if ga_read_error ga round then None
      else if rest = [] then Some []
      else (case gz_write_all (ga_write ga) k (take 65536 rest) of
              None \<Rightarrow> None
            | Some (w, k') \<Rightarrow> map_option (\<lambda>r. w @ r) (gz_blocks ga (Suc round) k' (drop 65536 rest))))"
  by pat_completeness auto
termination by (relation "measure (\<lambda>(ga, round, k, rest). length rest)") auto

declare gz_write_all.simps [simp del] gz_blocks.simps [simp del]

text \<open>Whether the archive was compressed, and the files. An output that was opened is there, complete or not.\<close>

definition do_compress_gz :: "log_system \<Rightarrow> gz_answers \<Rightarrow> string \<Rightarrow> files \<Rightarrow> bool \<times> files" where
  "do_compress_gz sys ga infile fs =
     (if \<not> ga_open ga then (False, fs)
      else (let fs1 = fs(infile @ ''.gz'' \<mapsto> ls_gzip sys [])
            in case fs1 infile of
                 None \<Rightarrow> (False, fs1)
               | Some text \<Rightarrow>
                   (case gz_blocks ga 0 0 text of
                      None \<Rightarrow> (False, fs1)
                    | Some w \<Rightarrow> (True, fs1(infile @ ''.gz'' \<mapsto> ls_gzip sys w)))))"

definition compress_thread :: "log_system \<Rightarrow> gz_answers \<Rightarrow> string \<Rightarrow> files \<Rightarrow> files" where
  "compress_thread sys ga fn fs =
     (case do_compress_gz sys ga fn fs of
        (False, fs') \<Rightarrow> fs'(fn @ ''.gz'' := None)
      | (True, fs') \<Rightarrow> fs'(fn := None))"

text \<open>The threads take the lock in any order.\<close>

definition run_job :: "log_system \<Rightarrow> gz_answers \<Rightarrow> nat \<Rightarrow> log_file \<Rightarrow> log_file" where
  "run_job sys ga i f =
     (if i < length (lf_jobs f)
      then f\<lparr>lf_files := compress_thread sys ga (lf_jobs f ! i) (lf_files f), lf_jobs := take i (lf_jobs f) @ drop (Suc i) (lf_jobs f)\<rparr>
      else f)"

section \<open>Messages\<close>

text \<open>What can be put into a message. Floating-point numbers come as the text \<^verbatim>\<open>std::format\<close> gives them.\<close>

record log_date =
  ld_year :: nat
  ld_month :: nat
  ld_day :: nat
  ld_ms :: nat

datatype log_item =
    LBool bool | LChar char | LInt int | LFloat string | LText string | LPointer nat
  | LNs int | LUs int | LMs int | LS int | LMin int | LH int | LPtime "log_date option"

fun show_hex :: "nat \<Rightarrow> string" where
  "show_hex n = (if n < 16 then [''0123456789abcdef'' ! n] else show_hex (n div 16) @ [''0123456789abcdef'' ! (n mod 16)])"

declare show_hex.simps [simp del]

definition show_pointer :: "nat \<Rightarrow> string" where
  "show_pointer v = ''0x'' @ replicate (8 - length (show_hex v)) CHR ''0'' @ show_hex v"

text \<open>A time: the milliseconds are left out when they are 0.\<close>

definition show_ptime :: "log_date option \<Rightarrow> string" where
  "show_ptime p =
     (case p of
        None \<Rightarrow> ''NOT A DATE TIME''
      | Some d \<Rightarrow>
          (let s = ld_ms d div 1000; ms = ld_ms d mod 1000
           in pad 4 (int (ld_year d)) @ ''-'' @ pad 2 (int (ld_month d)) @ ''-'' @ pad 2 (int (ld_day d)) @ '' '' @
              pad 2 (int (s div 3600)) @ '':'' @ pad 2 (int (s div 60 mod 60)) @ '':'' @ pad 2 (int (s mod 60)) @
              (if ms = 0 then [] else ''.'' @ pad 3 (int ms))))"

fun show_item :: "log_item \<Rightarrow> string" where
  "show_item (LBool b) = (if b then ''true'' else ''false'')"
| "show_item (LChar c) = [c]"
| "show_item (LInt n) = pad 0 n"
| "show_item (LFloat t) = t"
| "show_item (LText t) = t"
| "show_item (LPointer v) = show_pointer v"
| "show_item (LNs n) = pad 0 n @ ''ns''"
| "show_item (LUs n) = pad 0 n @ ''us''"
| "show_item (LMs n) = pad 0 n @ ''ms''"
| "show_item (LS n) = pad 0 n @ ''s''"
| "show_item (LMin n) = pad 0 n @ ''min''"
| "show_item (LH n) = pad 0 n @ ''h''"
| "show_item (LPtime p) = show_ptime p"

section \<open>The writer\<close>

type_synonym log_entry = "int \<times> int \<times> string \<times> bool"

record logger =
  global_logging :: bool
  global_logger_obj :: "log_entry list option"
  lg_file :: log_file
  lg_console :: "string list"

definition logger_level_string :: "int \<Rightarrow> string" where
  "logger_level_string level =
     (if level = 0 then ''DEBUG'' else if level = 1 then ''INFO'' else if level = 2 then ''WARNING''
      else if level = 3 then ''ERROR'' else if level = 4 then ''FILE'' else ''DEBUG'')"

definition logger_output_console :: "int \<Rightarrow> string \<Rightarrow> string \<Rightarrow> string" where
  "logger_output_console level prefix message =
     (let esc = [char_of (27 :: nat)];
          paint = (\<lambda>colour. esc @ colour @ prefix @ esc @ ''[0m'' @ message)
      in if level = 1 then paint ''[32m'' else if level = 0 then paint ''[1;32m''
         else if level = 2 then paint ''[1;33m'' else if level = 3 then paint ''[1;31m'' else [])"

definition log_prefix :: "log_system \<Rightarrow> int \<Rightarrow> int \<Rightarrow> string" where
  "log_prefix sys time level =
     (case time_to_string sys time of None \<Rightarrow> [] | Some ts \<Rightarrow> ts) @ '' ['' @ logger_level_string level @ '']: ''"

definition log_line :: "log_system \<Rightarrow> log_entry \<Rightarrow> string" where
  "log_line sys m = (case m of (time, level, message, _) \<Rightarrow> log_prefix sys time level @ message @ ''\<newline>'')"

text \<open>\<open>console\<close> says whether the program is built with output to the console.\<close>

definition logger_writer :: "bool \<Rightarrow> log_system \<Rightarrow> write_answers \<Rightarrow> log_entry \<Rightarrow> logger \<Rightarrow> logger result" where
  "logger_writer console sys wa m lg =
     (case m of (time, level, message, _) \<Rightarrow>
        (case write_log sys wa time (log_line sys m) (lg_file lg) of
           Inl e \<Rightarrow> Inl e
         | Inr f \<Rightarrow>
             Inr (lg\<lparr>lg_file := f,
                     lg_console := (if console
                       then lg_console lg @ [logger_output_console level (log_prefix sys time level) (message @ ''\<newline>'')]
                       else lg_console lg)\<rparr>)))"

definition init_logging :: "bool \<Rightarrow> string \<Rightarrow> logger \<Rightarrow> logger" where
  "init_logging use_async path lg =
     (let lg1 = (if path \<noteq> [] then lg\<lparr>lg_file := open_log path (lg_file lg)\<rparr> else lg)
      in if use_async \<and> global_logger_obj lg1 = None then lg1\<lparr>global_logger_obj := Some []\<rparr> else lg1)"

text \<open>Stopping the pool of one thread abandons what is still queued.\<close>

definition shutdown_logging :: "logger \<Rightarrow> logger" where
  "shutdown_logging lg = lg\<lparr>global_logger_obj := None\<rparr>"

definition toggle_logging :: "logger \<Rightarrow> logger" where
  "toggle_logging lg = lg\<lparr>global_logging := \<not> global_logging lg\<rparr>"

text \<open>A text that is no UTF-8 is converted from the encoding of the locale where that works.\<close>

definition string_utf8 :: "(string \<Rightarrow> string option) \<Rightarrow> u32 \<Rightarrow> string \<Rightarrow> string" where
  "string_utf8 convert codepoint str =
     (if utf8_check_is_valid codepoint str then str else case convert str of Some t \<Rightarrow> t | None \<Rightarrow> str)"

text \<open>The stream of one message: what it collects, and its end, which posts the message or writes it at once.\<close>

definition collect_message :: "logger \<Rightarrow> log_item list \<Rightarrow> string" where
  "collect_message lg items = foldl (\<lambda>out v. if global_logging lg then out @ show_item v else out) [] items"

definition log_message ::
  "bool \<Rightarrow> log_system \<Rightarrow> (string \<Rightarrow> string option) \<Rightarrow> u32 \<Rightarrow> write_answers \<Rightarrow> int \<Rightarrow> int \<Rightarrow> bool \<Rightarrow> log_item list \<Rightarrow> logger
     \<Rightarrow> logger result" where
  "log_message console sys convert codepoint wa now level disable_cout items lg =
     (if \<not> global_logging lg then Inr lg
      else (let m = (now, level, string_utf8 convert codepoint (collect_message lg items), disable_cout)
            in case global_logger_obj lg of
                 Some q \<Rightarrow> Inr (lg\<lparr>global_logger_obj := Some (q @ [m])\<rparr>)
               | None \<Rightarrow> logger_writer console sys wa m lg))"

text \<open>The thread of the pool takes the first message.\<close>

definition run_posted :: "bool \<Rightarrow> log_system \<Rightarrow> write_answers \<Rightarrow> logger \<Rightarrow> logger result" where
  "run_posted console sys wa lg =
     (case global_logger_obj lg of
        Some (m # q) \<Rightarrow> logger_writer console sys wa m (lg\<lparr>global_logger_obj := Some q\<rparr>)
      | _ \<Rightarrow> Inr lg)"

end
