(* ===== verification/Log_Kept.thy ===== *)
theory Log_Kept
  imports Logging
begin

text \<open>
  What the logger keeps: a sequence of writes and compressions loses no line as long as different hours have archives of
  different names; with a repeated hour, as at the end of summer time, a line can be lost. Logging through the queue
  writes what logging at once writes.
\<close>

section \<open>Archives\<close>

definition archive_path :: "log_system \<Rightarrow> string \<Rightarrow> int \<Rightarrow> string" where
  "archive_path sys path t =
     log_path_join (path_parent path) (archive_name sys (the (ls_localtime sys (cdiv t 1000))))"

text \<open>The text of an archive, compressed or not.\<close>

definition archived :: "(string \<Rightarrow> string) \<Rightarrow> files \<Rightarrow> string \<Rightarrow> string" where
  "archived gunzip fs n =
     (case fs n of Some t \<Rightarrow> t | None \<Rightarrow> (case fs (n @ ''.gz'') of Some z \<Rightarrow> gunzip z | None \<Rightarrow> []))"

datatype log_event = Line write_answers int string | Compress gz_answers nat

fun log_run :: "log_system \<Rightarrow> log_file \<Rightarrow> log_event list \<Rightarrow> log_file result" where
  "log_run sys f [] = Inr f"
| "log_run sys f (Line wa time str # es) =
     (case write_log sys wa time str f of Inl e \<Rightarrow> Inl e | Inr f' \<Rightarrow> log_run sys f' es)"
| "log_run sys f (Compress ga i # es) = log_run sys (run_job sys ga i f) es"

fun event_times :: "log_event list \<Rightarrow> int list" where
  "event_times [] = []"
| "event_times (Line wa time str # es) = time # event_times es"
| "event_times (Compress ga i # es) = event_times es"

fun event_lines :: "log_event list \<Rightarrow> string" where
  "event_lines [] = []"
| "event_lines (Line wa time str # es) = str @ event_lines es"
| "event_lines (Compress ga i # es) = event_lines es"

text \<open>The file can be opened and cut; copying and compressing may fail.\<close>

fun writable :: "log_event \<Rightarrow> bool" where
  "writable (Line wa time str) \<longleftrightarrow> wa_open wa \<and> wa_resize wa"
| "writable (Compress ga i) \<longleftrightarrow> True"

definition hour_archives :: "log_system \<Rightarrow> (string \<Rightarrow> string) \<Rightarrow> string \<Rightarrow> int list \<Rightarrow> bool" where
  "hour_archives sys gunzip path ts \<longleftrightarrow>
     ls_max sys < 0 \<and> (\<forall>w. gunzip (ls_gzip sys w) = w) \<and>
     list_all (\<lambda>t. 0 \<le> t \<and> ls_localtime sys (cdiv t 1000) \<noteq> None \<and>
       archive_path sys path t \<noteq> path \<and> archive_path sys path t @ ''.gz'' \<noteq> path) ts \<and>
     list_all (\<lambda>t. list_all (\<lambda>u. log_hours t \<noteq> log_hours u \<longrightarrow> archive_path sys path t \<noteq> archive_path sys path u) ts) ts"

definition log_ok :: "log_system \<Rightarrow> (string \<Rightarrow> string) \<Rightarrow> string \<Rightarrow> int list \<Rightarrow> string \<Rightarrow> log_file \<Rightarrow> string list \<Rightarrow> bool" where
  "log_ok sys gunzip path P L f names \<longleftrightarrow>
     m_log_path f = path \<and> (m_ofstream f = Some (Some path) \<or> m_ofstream f = None \<and> m_last_time f = - 1) \<and>
     (m_last_time f = - 1 \<or> m_last_time f \<in> set P) \<and>
     (\<forall>n\<in>set names. \<exists>u\<in>set P. n = archive_path sys path u \<and> log_hours u < log_hours (m_last_time f)) \<and>
     distinct names \<and> distinct (lf_jobs f) \<and> set (lf_jobs f) \<subseteq> set names \<and> (\<forall>j\<in>set (lf_jobs f). lf_files f j \<noteq> None) \<and>
     concat (map (archived gunzip (lf_files f)) names) @ file_text (lf_files f) path = L"

section \<open>Every step keeps the text\<close>

lemma cdiv_mono: "0 < b \<Longrightarrow> x \<le> y \<Longrightarrow> cdiv x b \<le> cdiv y b"
proof -
  assume b: "0 < b" "x \<le> y"
  consider "y < 0" | "0 \<le> x" | "x < 0" "0 \<le> y" by linarith
  then show ?thesis
  proof cases
    case 3
    then have "0 \<le> (- x) div b" "0 \<le> y div b" using b by (auto simp: pos_imp_zdiv_nonneg_iff)
    then show ?thesis using 3 by (simp add: cdiv_def)
  qed (use b zdiv_mono1 [of "- y" "- x" b] zdiv_mono1 [of x y b] in \<open>auto simp: cdiv_def\<close>)
qed

lemma log_hours_mono: "x \<le> y \<Longrightarrow> log_hours x \<le> log_hours y"
  by (simp add: log_hours_def cdiv_mono)

lemma log_hours_nonneg: "0 \<le> x \<Longrightarrow> 0 \<le> log_hours x"
  by (simp add: log_hours_def cdiv_def pos_imp_zdiv_nonneg_iff)

lemma log_hours_unset [simp]: "log_hours (- 1) = 0"
  by (simp add: log_hours_def cdiv_def)

lemma archive_path_last: "last (archive_path sys path t) = CHR ''g''"
  by (simp add: archive_path_def log_path_join_def archive_name_def)

lemma archive_path_gz: "archive_path sys path t @ ''.gz'' \<noteq> archive_path sys path u"
proof
  assume "archive_path sys path t @ ''.gz'' = archive_path sys path u"
  from arg_cong [OF this, of last] show False by (simp add: archive_path_last)
qed

lemma archived_other: "n \<noteq> p \<Longrightarrow> n @ ''.gz'' \<noteq> p \<Longrightarrow> archived gunzip (fs(p := x)) n = archived gunzip fs n"
  by (auto simp: archived_def split: option.splits)

lemma archived_map:
  "(\<And>n. n \<in> set names \<Longrightarrow> n \<noteq> p \<and> n @ ''.gz'' \<noteq> p) \<Longrightarrow>
     map (archived gunzip (fs(p := x))) names = map (archived gunzip fs) names"
  by (simp add: archived_other)

lemma append_reopened:
  assumes "m_log_path f = path" "m_ofstream f = Some (Some path) \<or> m_ofstream f = None" "wa_open wa"
  shows "\<exists>k. append_log str (reopen_log wa f) =
    f\<lparr>m_ofstream := Some (Some path), m_log_size := k, lf_files := (lf_files f)(path \<mapsto> file_text (lf_files f) path @ str)\<rparr>"
proof -
  have "append_log str (reopen_log wa f) =
    f\<lparr>m_ofstream := Some (Some path), m_log_size := m_log_size f + length str,
      lf_files := (lf_files f)(path \<mapsto> file_text (lf_files f) path @ str)\<rparr>"
    using assms by (auto simp: append_log_def reopen_log_def file_text_def)
  then show ?thesis by blast
qed

text \<open>Appending a line to the current file.\<close>

lemma log_ok_append:
  assumes "log_ok sys gunzip path P L (g\<lparr>m_ofstream := Some (Some path)\<rparr>) names" "m_log_path g = path"
    and "m_ofstream g = Some (Some path) \<or> m_ofstream g = None" "wa_open wa" "hour_archives sys gunzip path (P @ ts)"
  shows "log_ok sys gunzip path P (L @ str) (append_log str (reopen_log wa g)) names"
proof -
  obtain k where app: "append_log str (reopen_log wa g) =
      g\<lparr>m_ofstream := Some (Some path), m_log_size := k, lf_files := (lf_files g)(path \<mapsto> file_text (lf_files g) path @ str)\<rparr>"
    using append_reopened [OF assms(2-4)] by blast
  have "n \<noteq> path \<and> n @ ''.gz'' \<noteq> path" if n: "n \<in> set names" for n
  proof -
    obtain u where "u \<in> set P" "n = archive_path sys path u" using assms(1) n unfolding log_ok_def by blast
    then show ?thesis using assms(5) by (auto simp: hour_archives_def list_all_iff)
  qed
  then have old: "map (archived gunzip ((lf_files g)(path \<mapsto> x))) names = map (archived gunzip (lf_files g)) names" for x
    by (rule archived_map)
  have mine: "file_text ((lf_files g)(path \<mapsto> x)) path = x" for x by (simp add: file_text_def)
  show ?thesis using assms(1) unfolding app log_ok_def by (auto simp: old mine)
qed

lemma log_ok_times: "log_ok sys gunzip path P L f names \<Longrightarrow> set P \<subseteq> set Q \<Longrightarrow> log_ok sys gunzip path Q L f names"
  unfolding log_ok_def by blast

text \<open>Before a line of a later hour the text moves to an archive, or stays where copying fails.\<close>

lemma log_ok_archive:
  assumes ok: "log_ok sys gunzip path P L f names" and "m_last_time f \<noteq> - 1" "wa_resize wa"
    and hour: "log_hours (m_last_time f) < log_hours t" and set: "hour_archives sys gunzip path (P @ ts)" "t \<in> set Q" "set P \<subseteq> set Q"
    and ptm: "ls_localtime sys (cdiv (m_last_time f) 1000) = Some ptm"
  shows "\<exists>names'. log_ok sys gunzip path Q L ((archive_log sys wa t ptm f)\<lparr>m_ofstream := Some (Some path)\<rparr>) names' \<and>
    m_log_path (archive_log sys wa t ptm f) = path \<and> m_ofstream (archive_log sys wa t ptm f) = None"
proof -
  define name where "name = archive_path sys path (m_last_time f)"
  have path: "m_log_path f = path" and last: "m_last_time f \<in> set P" using ok assms(2) by (auto simp: log_ok_def)
  have names: "\<exists>u\<in>set P. n = archive_path sys path u \<and> log_hours u < log_hours (m_last_time f)" if "n \<in> set names" for n
    using ok that by (auto simp: log_ok_def)
  have fname: "log_path_join (path_parent path) (archive_name sys ptm) = name" by (simp add: name_def archive_path_def ptm)
  have later: "\<exists>u\<in>set Q. n = archive_path sys path u \<and> log_hours u < log_hours t" if "n \<in> set names" for n
    using names [OF that] set(3) hour by force
  show ?thesis
  proof (cases "log_copy_file (wa_copy wa) path name (lf_files f)")
    case None
    then show ?thesis using ok path fname set(2) later
      by (intro exI [of _ names]) (auto simp: archive_log_def log_ok_def)
  next
    case (Some fs)
    then obtain cur where cur: "lf_files f path = Some cur" "lf_files f name = None" "fs = (lf_files f)(name \<mapsto> cur)"
      by (auto simp: log_copy_file_def split: option.splits if_splits)
    have new: "name \<notin> set names" "n @ ''.gz'' \<noteq> name" "n \<noteq> path" "n @ ''.gz'' \<noteq> path" "name \<noteq> path"
      if n: "n \<in> set names \<or> n = name" for n
    proof -
      show "name \<notin> set names"
        using names [of name] set(1) last unfolding name_def hour_archives_def by (fastforce simp: list_all_iff)
      obtain u where "u \<in> set P" "n = archive_path sys path u" using n names last name_def by blast
      then show "n @ ''.gz'' \<noteq> name" "n \<noteq> path" "n @ ''.gz'' \<noteq> path" "name \<noteq> path"
        using archive_path_gz set(1) last unfolding name_def hour_archives_def by (auto simp: list_all_iff)
    qed
    define fs' where "fs' = fs(path \<mapsto> [])"
    have old: "map (archived gunzip fs') names = map (archived gunzip (lf_files f)) names"
      unfolding fs'_def cur(3) using new by (subst archived_map, blast, subst archived_map) auto
    have mine: "archived gunzip fs' name = cur" "file_text fs' path = []"
      using new(5) [of name] by (simp_all add: archived_def fs'_def cur(3) file_text_def)
    have arch: "archive_log sys wa t ptm f = f\<lparr>m_ofstream := None, m_last_time := t, lf_files := fs', m_log_size := 0,
        lf_jobs := lf_jobs f @ [name]\<rparr>"
      using Some assms(3) by (simp add: archive_log_def path fname fs'_def Let_def)
    have "concat (map (archived gunzip fs') (names @ [name])) @ file_text fs' path = L"
      using ok cur(1) by (simp add: old mine log_ok_def file_text_def [of "lf_files f"])
    moreover have "\<forall>j\<in>set (lf_jobs f @ [name]). fs' j \<noteq> None"
      using ok by (auto simp: log_ok_def fs'_def cur(3))
    moreover have "\<exists>u\<in>set Q. name = archive_path sys path u \<and> log_hours u < log_hours t"
      using last set(3) hour name_def by blast
    moreover have "distinct (names @ [name])" "distinct (lf_jobs f @ [name])" "set (lf_jobs f @ [name]) \<subseteq> set (names @ [name])"
      using ok new(1) [of name] by (auto simp: log_ok_def)
    ultimately show ?thesis using path set(2) later
      by (intro exI [of _ "names @ [name]"]) (auto simp: arch log_ok_def)
  qed
qed

lemma log_ok_write:
  assumes ok: "log_ok sys gunzip path P L f names" and wa: "wa_open wa" "wa_resize wa"
    and set: "hour_archives sys gunzip path (P @ t # ts)" "\<forall>p\<in>set P. p \<le> t"
  shows "\<exists>f' names'. write_log sys wa t str f = Inr f' \<and> log_ok sys gunzip path (P @ [t]) (L @ str) f' names'"
proof -
  let ?Q = "P @ [t]"
  have path: "m_log_path f = path" using ok by (simp add: log_ok_def)
  have t: "0 \<le> t" "ls_max sys < 0" using set(1) by (auto simp: hour_archives_def)
  have setQ: "hour_archives sys gunzip path (?Q @ ts)" using set(1) by simp
  have due: "rotation_due sys t f \<longleftrightarrow> log_hours (m_last_time f) \<noteq> log_hours t" using t by (auto simp: rotation_due_def)
  consider "\<not> rotation_due sys t f" | "rotation_due sys t f" "m_last_time f = - 1" | "rotation_due sys t f" "m_last_time f \<noteq> - 1"
    by blast
  then obtain g names' where g:
    "(if rotation_due sys t f then rotate_log sys wa t f else Inr f) = Inr g"
    "log_ok sys gunzip path ?Q L (g\<lparr>m_ofstream := Some (Some path)\<rparr>) names'" "m_log_path g = path"
    "m_ofstream g = Some (Some path) \<or> m_ofstream g = None"
  proof cases
    case 1
    moreover have "log_ok sys gunzip path ?Q L f names" by (rule log_ok_times [OF ok]) auto
    then have "log_ok sys gunzip path ?Q L (f\<lparr>m_ofstream := Some (Some path)\<rparr>) names" by (simp add: log_ok_def)
    ultimately show ?thesis using that [of f names] path ok by (auto simp: log_ok_def)
  next
    case 2
    have "names = []"
    proof (rule ccontr)
      assume "names \<noteq> []"
      then obtain u where "u \<in> set P" "log_hours u < 0" using ok 2(2) by (cases names) (auto simp: log_ok_def)
      then show False using log_hours_nonneg [of u] set(1) by (fastforce simp: hour_archives_def list_all_iff)
    qed
    then have "log_ok sys gunzip path ?Q L (f\<lparr>m_last_time := t, m_ofstream := Some (Some path)\<rparr>) []"
      using ok by (auto simp: log_ok_def)
    then show ?thesis using that [of "f\<lparr>m_last_time := t\<rparr>" "[]"] path ok 2 by (auto simp: log_ok_def rotate_log_def)
  next
    case 3
    have last: "m_last_time f \<in> set P" "m_ofstream f = Some (Some path)" using ok 3(2) by (auto simp: log_ok_def)
    then obtain ptm where ptm: "ls_localtime sys (cdiv (m_last_time f) 1000) = Some ptm"
      using set(1) by (fastforce simp: hour_archives_def list_all_iff)
    have hour: "log_hours (m_last_time f) < log_hours t"
      using log_hours_mono [of "m_last_time f" t] 3(1) due last(1) set(2) by (simp add: order_less_le)
    have "t \<in> set ?Q" "set P \<subseteq> set ?Q" by auto
    from log_ok_archive [OF ok 3(2) wa(2) hour set(1) this ptm]
    show ?thesis using that [of "archive_log sys wa t ptm f"] 3 ptm last(2) by (auto simp: rotate_log_def)
  qed
  from log_ok_append [OF g(2-4) wa(1) setQ, of str] g(1) show ?thesis by (auto simp: write_log_def)
qed

lemma gz_write_all_text: "gz_write_all g k buf = Some (w, k') \<Longrightarrow> w = buf"
proof (induction g k buf arbitrary: w k' rule: gz_write_all.induct)
  case (1 g k buf)
  show ?case using "1.prems" "1.IH" [OF _ refl]
    by (subst (asm) gz_write_all.simps) (auto simp: Let_def split: if_splits option.splits)
qed

lemma gz_blocks_text: "gz_blocks ga round k rest = Some w \<Longrightarrow> w = rest"
proof (induction ga round k rest arbitrary: w rule: gz_blocks.induct)
  case (1 ga round k rest)
  show ?case
  proof (cases "rest = []")
    case False
    then obtain a b z where "gz_write_all (ga_write ga) k (take 65536 rest) = Some (a, b)" "w = a @ z"
      "gz_blocks ga (Suc round) b (drop 65536 rest) = Some z" "\<not> ga_read_error ga round"
      using "1.prems" by (subst (asm) gz_blocks.simps) (auto split: if_splits option.splits)
    then show ?thesis using "1.IH" [of "(a, b)" a b z] False gz_write_all_text by fastforce
  qed (use "1.prems" in \<open>subst (asm) gz_blocks.simps, simp split: if_splits\<close>)
qed

text \<open>A compression replaces an archive by its compressed text or leaves it.\<close>

lemma compress_thread_cases:
  assumes "fs fn = Some t"
  shows "(\<exists>z. compress_thread sys ga fn fs = fs(fn @ ''.gz'' := z)) \<or>
    compress_thread sys ga fn fs = fs(fn @ ''.gz'' \<mapsto> ls_gzip sys t, fn := None)"
  using assms gz_blocks_text [of ga 0 0 t]
  by (auto simp: compress_thread_def do_compress_gz_def Let_def split: option.splits)

lemma distinct_drop_nth:
  assumes "distinct xs" "i < length xs"
  shows "distinct (take i xs @ drop (Suc i) xs) \<and> set (take i xs @ drop (Suc i) xs) = set xs - {xs ! i}"
proof -
  have "xs = take i xs @ xs ! i # drop (Suc i) xs" by (rule id_take_nth_drop [OF assms(2)])
  then obtain a x b where "xs = a @ x # b" "take i xs = a" "xs ! i = x" "drop (Suc i) xs = b" by blast
  then show ?thesis using assms(1) by auto
qed

lemma log_ok_job:
  assumes ok: "log_ok sys gunzip path P L f names" and set: "hour_archives sys gunzip path (P @ ts)"
  shows "log_ok sys gunzip path P L (run_job sys ga i f) names"
proof (cases "i < length (lf_jobs f)")
  case True
  define n where "n = lf_jobs f ! i"
  define js where "js = take i (lf_jobs f) @ drop (Suc i) (lf_jobs f)"
  have js: "distinct js" "set js = set (lf_jobs f) - {n}"
    using ok True distinct_drop_nth [of "lf_jobs f" i] by (auto simp: log_ok_def js_def n_def)
  have n: "n \<in> set (lf_jobs f)" "n \<in> set names" using ok True by (auto simp: log_ok_def n_def)
  then obtain t where t: "lf_files f n = Some t" using ok by (auto simp: log_ok_def)
  define fs where "fs = compress_thread sys ga n (lf_files f)"
  have other: "m @ ''.gz'' \<noteq> n" "n @ ''.gz'' \<noteq> m" "m \<noteq> path \<and> m @ ''.gz'' \<noteq> path" if m: "m \<in> set names" for m
  proof -
    obtain u v where "u \<in> set P" "m = archive_path sys path u" "n = archive_path sys path v"
      using ok m n(2) unfolding log_ok_def by blast
    then show "m @ ''.gz'' \<noteq> n" "n @ ''.gz'' \<noteq> m" "m \<noteq> path \<and> m @ ''.gz'' \<noteq> path"
      using archive_path_gz set by (auto simp: hour_archives_def list_all_iff)
  qed
  have gunzip: "gunzip (ls_gzip sys t) = t" using set by (simp add: hour_archives_def)
  have "archived gunzip fs m = archived gunzip (lf_files f) m" if "m \<in> set names" for m
  proof (cases "m = n")
    case True
    then show ?thesis using compress_thread_cases [of "lf_files f" n t sys ga, OF t] t gunzip
      by (auto simp: fs_def archived_def)
  next
    case False
    then show ?thesis using compress_thread_cases [of "lf_files f" n t sys ga, OF t] other [OF that]
      by (auto simp: fs_def archived_other)
  qed
  then have arch: "map (archived gunzip fs) names = map (archived gunzip (lf_files f)) names" by simp
  have "fs path = lf_files f path"
    using compress_thread_cases [of "lf_files f" n t sys ga, OF t] other(3) [OF n(2)] by (auto simp: fs_def)
  moreover have "fs j \<noteq> None" if "j \<in> set js" for j
    using compress_thread_cases [of "lf_files f" n t sys ga, OF t] that js(2) ok other(2)
    by (fastforce simp: fs_def log_ok_def)
  ultimately show ?thesis using ok js True
    by (auto simp: run_job_def log_ok_def file_text_def arch simp flip: fs_def n_def js_def)
qed (use ok in \<open>simp add: run_job_def\<close>)

lemma log_ok_run:
  assumes "log_ok sys gunzip path P L f names" "hour_archives sys gunzip path (P @ event_times es)" "list_all writable es"
    and "sorted (P @ event_times es)"
  shows "\<exists>f' names'. log_run sys f es = Inr f' \<and> log_ok sys gunzip path (P @ event_times es) (L @ event_lines es) f' names'"
  using assms
proof (induction es arbitrary: P L f names)
  case Nil
  then show ?case by auto
next
  case (Cons e es)
  show ?case
  proof (cases e)
    case (Line wa t str)
    then obtain f' names' where "write_log sys wa t str f = Inr f'" "log_ok sys gunzip path (P @ [t]) (L @ str) f' names'"
      using log_ok_write [OF Cons.prems(1), of wa t "event_times es" str] Cons.prems(2-4) by (auto simp: sorted_append)
    then show ?thesis using Cons.IH [of "P @ [t]" "L @ str" f' names'] Cons.prems Line by simp
  next
    case (Compress ga i)
    then show ?thesis using Cons.IH [of P L "run_job sys ga i f" names] log_ok_job [OF Cons.prems(1,2)] Cons.prems by simp
  qed
qed


text \<open>A clock: hours since the epoch as the hour of one day, days of a month of 31 days.\<close>

definition sample_localtime :: "int \<Rightarrow> short_tm option" where
  "sample_localtime t =
     Some \<lparr>tm_sec = t mod 60, tm_min = t div 60 mod 60, tm_hour = t div 3600 mod 24, tm_mday = 1 + t div 86400, tm_mon = 0,
           tm_year = 70\<rparr>"

definition sample_log_system :: log_system where
  "sample_log_system = \<lparr>ls_localtime = sample_localtime, ls_mktime = (\<lambda>tm. 0), ls_gzip = rev, ls_max = - 1\<rparr>"

definition all_works :: write_answers where
  "all_works = \<lparr>wa_copy = True, wa_resize = True, wa_open = True\<rparr>"

definition gz_works :: gz_answers where
  "gz_works = \<lparr>ga_open = True, ga_read_error = (\<lambda>_. False), ga_write = (\<lambda>_ n. int n)\<rparr>"

definition sample_events :: "log_event list" where
  "sample_events = [Line all_works 3600000 ''a'', Line all_works 7200000 ''b'', Compress gz_works 0, Line all_works 10800000 ''c'']"

lemma sample_archive_paths:
  "archive_path sample_log_system ''l/app.log'' 3600000 = ''l/19700101-01.log''"
  "archive_path sample_log_system ''l/app.log'' 7200000 = ''l/19700101-02.log''"
  "archive_path sample_log_system ''l/app.log'' 10800000 = ''l/19700101-03.log''"
  by code_simp+

lemma sample_archives: "hour_archives sample_log_system rev ''l/app.log'' (event_times sample_events)"
  by (simp add: hour_archives_def sample_events_def sample_archive_paths) (simp add: sample_log_system_def sample_localtime_def)


text \<open>A clock that is put back: its hours 1 and 2 have the same name.\<close>

definition autumn_system :: log_system where
  "autumn_system = sample_log_system\<lparr>ls_localtime := (\<lambda>t. sample_localtime (if 7200 \<le> t then t - 3600 else t))\<rparr>"

definition autumn_events :: "log_event list" where
  "autumn_events =
     [Line all_works 3600000 ''a'', Line all_works 7200000 ''b'', Compress gz_works 0,
      Line all_works 10800000 ''c'', Compress gz_works 0]"

lemma gz_write_all_works: "gz_write_all (\<lambda>_ n. int n) k buf = Some (buf, if buf = [] then k else Suc k)"
  by (subst gz_write_all.simps, subst gz_write_all.simps) simp

lemma gz_blocks_works: "gz_blocks gz_works round k rest = Some rest"
proof (induction gz_works round k rest rule: gz_blocks.induct)
  case (1 round k rest)
  then show ?case
    by (subst gz_blocks.simps) (auto simp: gz_works_def gz_write_all_works split: option.splits)
qed

lemma compress_works:
  "fs fn = Some t \<Longrightarrow> compress_thread sys gz_works fn fs = fs(fn @ ''.gz'' \<mapsto> ls_gzip sys t, fn := None)"
  using gz_blocks_works [of 0 0 t] by (simp add: compress_thread_def do_compress_gz_def) (simp add: gz_works_def)

lemma autumn_clock:
  "ls_max autumn_system = - 1" "ls_gzip autumn_system = rev"
  "ls_localtime autumn_system 3600 = sample_localtime 3600" "ls_localtime autumn_system 7200 = sample_localtime 3600"
  "sample_localtime 3600 = Some \<lparr>tm_sec = 0, tm_min = 0, tm_hour = 1, tm_mday = 1, tm_mon = 0, tm_year = 70\<rparr>"
  "archive_name autumn_system \<lparr>tm_sec = 0, tm_min = 0, tm_hour = 1, tm_mday = 1, tm_mon = 0, tm_year = 70\<rparr> = ''19700101-01.log''"
  by (simp_all add: autumn_system_def sample_log_system_def sample_localtime_def) code_simp

text \<open>The second archive of that name replaces the first once that is compressed: the line \<^verbatim>\<open>a\<close> is gone.\<close>

lemma repeated_hour_lost:
  "case log_run autumn_system (open_log ''l/app.log'' (auto_logger_file Map.empty)) autumn_events of
     Inl _ \<Rightarrow> False
   | Inr f \<Rightarrow> lf_files f ''l/app.log'' = Some ''c'' \<and> lf_files f ''l/19700101-01.log'' = None \<and>
       map_option rev (lf_files f ''l/19700101-01.log.gz'') = Some ''b'' \<and> lf_jobs f = []"
proof -
  let ?f = "\<lambda>t k fs js. \<lparr>m_log_path = ''l/app.log'', m_ofstream = Some (Some ''l/app.log''), m_last_time = t,
    m_log_size = k, lf_files = fs, lf_jobs = js\<rparr>"
  let ?n = "''l/19700101-01.log''"
  have dir: "log_path_join (path_parent ''l/app.log'') ''19700101-01.log'' = ?n" by (simp add: log_path_join_def path_parent_def)
  have first: "write_log autumn_system all_works 3600000 ''a'' (open_log ''l/app.log'' (auto_logger_file Map.empty)) =
      Inr (?f 3600000 1 [''l/app.log'' \<mapsto> ''a''] [])"
    by (simp add: write_log_def rotation_due_def rotate_log_def open_log_def auto_logger_file_def autumn_clock reopen_log_def
        append_log_def file_text_def all_works_def log_hours_def cdiv_def)
  have later: "write_log autumn_system all_works t x (?f u (length y) fs []) =
      Inr (?f t (length x) (fs(?n \<mapsto> y, ''l/app.log'' \<mapsto> x)) [?n])"
    if "u = 3600000 \<and> t = 7200000 \<or> u = 7200000 \<and> t = 10800000" "fs ''l/app.log'' = Some y" "fs ?n = None" for t x u y fs
    using that by (elim disjE) (simp_all add: write_log_def rotation_due_def rotate_log_def autumn_clock reopen_log_def
        append_log_def file_text_def all_works_def log_hours_def cdiv_def archive_log_def dir log_copy_file_def Let_def)
  have job: "run_job autumn_system gz_works 0 (?f t k fs [?n]) = ?f t k (fs(''l/19700101-01.log.gz'' \<mapsto> rev y, ?n := None)) []"
    if "fs ?n = Some y" for t k fs y
    using compress_works [of fs ?n y autumn_system, OF that] by (simp add: run_job_def autumn_clock)
  show ?thesis
    using later [of 3600000 7200000 "[''l/app.log'' \<mapsto> ''a'']" "''a''" "''b''"]
      later [of 7200000 10800000 "[''l/app.log'' \<mapsto> ''b'', ''l/19700101-01.log.gz'' \<mapsto> ''a'']" "''b''" "''c''"]
    by (simp add: autumn_events_def first job fun_upd_twist)
qed

section \<open>The queue\<close>

datatype logger_event = Post int int bool "log_item list" | Work write_answers

fun logger_run ::
  "bool \<Rightarrow> log_system \<Rightarrow> (string \<Rightarrow> string option) \<Rightarrow> u32 \<Rightarrow> write_answers \<Rightarrow> logger_event list \<Rightarrow> logger \<Rightarrow> logger result" where
  "logger_run console sys convert cp wa0 [] lg = Inr lg"
| "logger_run console sys convert cp wa0 (Post now level dc items # es) lg =
     (case log_message console sys convert cp wa0 now level dc items lg of
        Inl e \<Rightarrow> Inl e | Inr lg' \<Rightarrow> logger_run console sys convert cp wa0 es lg')"
| "logger_run console sys convert cp wa0 (Work wa # es) lg =
     (case run_posted console sys wa lg of Inl e \<Rightarrow> Inl e | Inr lg' \<Rightarrow> logger_run console sys convert cp wa0 es lg')"

fun posted :: "(string \<Rightarrow> string option) \<Rightarrow> u32 \<Rightarrow> logger_event list \<Rightarrow> log_entry list" where
  "posted convert cp [] = []"
| "posted convert cp (Post now level dc items # es) =
     (now, level, string_utf8 convert cp (concat (map show_item items)), dc) # posted convert cp es"
| "posted convert cp (Work wa # es) = posted convert cp es"

fun write_all :: "bool \<Rightarrow> log_system \<Rightarrow> (log_entry \<times> write_answers) list \<Rightarrow> logger \<Rightarrow> logger result" where
  "write_all console sys [] lg = Inr lg"
| "write_all console sys ((m, wa) # ps) lg =
     (case logger_writer console sys wa m lg of Inl e \<Rightarrow> Inl e | Inr lg' \<Rightarrow> write_all console sys ps lg')"

lemma collect_all: "global_logging lg \<Longrightarrow> collect_message lg items = concat (map show_item items)"
proof -
  assume "global_logging lg"
  then have "foldl (\<lambda>out v. if global_logging lg then out @ show_item v else out) acc items = acc @ concat (map show_item items)"
    for acc by (induction items arbitrary: acc) simp_all
  then show ?thesis by (simp add: collect_message_def)
qed

lemma writer_queue:
  "logger_writer console sys wa m (lg\<lparr>global_logger_obj := q\<rparr>) =
     (case logger_writer console sys wa m lg of Inl e \<Rightarrow> Inl e | Inr lg' \<Rightarrow> Inr (lg'\<lparr>global_logger_obj := q\<rparr>))"
  by (cases m) (simp add: logger_writer_def split: sum.splits)

lemma writer_keeps:
  "logger_writer console sys wa m lg = Inr lg' \<Longrightarrow>
     global_logging lg' = global_logging lg \<and> global_logger_obj lg' = global_logger_obj lg"
  by (cases m) (auto simp: logger_writer_def split: sum.splits)

lemma logger_run_queue:
  assumes "global_logging lg" "global_logger_obj lg = Some q" "logger_run console sys convert cp wa0 es lg = Inr lg'"
  shows "\<exists>ps q'. global_logger_obj lg' = Some q' \<and> map fst ps @ q' = q @ posted convert cp es \<and>
    write_all console sys ps (lg\<lparr>global_logger_obj := None\<rparr>) = Inr (lg'\<lparr>global_logger_obj := None\<rparr>)"
  using assms
proof (induction es arbitrary: lg q)
  case Nil
  then show ?case by (intro exI [of _ "[]"] exI [of _ q]) simp
next
  case (Cons e es)
  show ?case
  proof (cases e)
    case (Post now level dc items)
    define m where "m = (now, level, string_utf8 convert cp (concat (map show_item items)), dc)"
    have "log_message console sys convert cp wa0 now level dc items lg = Inr (lg\<lparr>global_logger_obj := Some (q @ [m])\<rparr>)"
      using Cons.prems(1,2) by (simp add: log_message_def collect_all m_def)
    then show ?thesis
      using Cons.IH [of "lg\<lparr>global_logger_obj := Some (q @ [m])\<rparr>" "q @ [m]"] Cons.prems Post by (simp add: m_def)
  next
    case (Work wa)
    show ?thesis
    proof (cases q)
      case Nil
      then show ?thesis using Cons.IH [of lg q] Cons.prems Work by (simp add: run_posted_def)
    next
      case (Cons m r)
      obtain lg1 where lg1: "logger_writer console sys wa m (lg\<lparr>global_logger_obj := Some r\<rparr>) = Inr lg1"
        "logger_run console sys convert cp wa0 es lg1 = Inr lg'"
        using Cons.prems(2,3) Work Cons by (auto simp: run_posted_def split: sum.splits)
      have keeps: "global_logging lg1" "global_logger_obj lg1 = Some r" using writer_keeps [OF lg1(1)] Cons.prems(1) by simp_all
      obtain ps q' where ps: "global_logger_obj lg' = Some q'" "map fst ps @ q' = r @ posted convert cp es"
        "write_all console sys ps (lg1\<lparr>global_logger_obj := None\<rparr>) = Inr (lg'\<lparr>global_logger_obj := None\<rparr>)"
        using Cons.IH [OF keeps lg1(2)] by blast
      have "logger_writer console sys wa m (lg\<lparr>global_logger_obj := None\<rparr>) = Inr (lg1\<lparr>global_logger_obj := None\<rparr>)"
        using writer_queue [where lg = "lg\<lparr>global_logger_obj := Some r\<rparr>" and q = None] lg1(1) by simp
      then show ?thesis using ps Cons Work by (intro exI [of _ "(m, wa) # ps"]) simp
    qed
  qed
qed

text \<open>(C24) Logging through the queue writes the messages in the order they were posted: in any interleaving of messages and the
  work of the thread, what has been written is what writing at once the first of the messages writes, and the rest is
  still queued; nothing is written twice or out of order.\<close>

theorem queue_writes_in_order:
  assumes "global_logging lg" "global_logger_obj lg = None"
    and "logger_run console sys convert cp wa0 es (init_logging True [] lg) = Inr lg'"
  shows "\<exists>ps q. global_logger_obj lg' = Some q \<and> map fst ps @ q = posted convert cp es \<and>
    write_all console sys ps lg = Inr (lg'\<lparr>global_logger_obj := None\<rparr>)"
proof -
  have same: "lg\<lparr>global_logger_obj := None\<rparr> = lg" using assms(2) by (cases lg) simp
  show ?thesis
    using logger_run_queue [of "init_logging True [] lg" "[]" console sys convert cp wa0 es lg'] assms
    by (simp add: init_logging_def same)
qed

definition sample_logger :: logger where
  "sample_logger = \<lparr>global_logging = True, global_logger_obj = None, lg_file = auto_logger_file Map.empty, lg_console = []\<rparr>"

definition sample_posts :: "logger_event list" where
  "sample_posts = [Post 3600000 1 False [LText ''n='', LInt 5], Work all_works, Work all_works, Post 3600001 3 False [LText ''end'']]"

theorem queue_writes_in_order_witness:
  "\<exists>lg' ps q. logger_run True sample_log_system (\<lambda>_. None) 0 all_works sample_posts (init_logging True [] sample_logger) = Inr lg' \<and>
    lf_files (lg_file lg') ''./logs/application.log'' = Some ''1970-01-01 01:00:00.000 [INFO]: n=5\<newline>'' \<and>
    global_logger_obj lg' = Some q \<and> map fst ps @ q = posted (\<lambda>_. None) 0 sample_posts \<and>
    write_all True sample_log_system ps sample_logger = Inr (lg'\<lparr>global_logger_obj := None\<rparr>)"
proof -
  have "case logger_run True sample_log_system (\<lambda>_. None) 0 all_works sample_posts (init_logging True [] sample_logger) of
      Inl _ \<Rightarrow> False
    | Inr l \<Rightarrow> lf_files (lg_file l) ''./logs/application.log'' = Some ''1970-01-01 01:00:00.000 [INFO]: n=5\<newline>''"
    by code_simp
  then obtain lg' where "logger_run True sample_log_system (\<lambda>_. None) 0 all_works sample_posts (init_logging True [] sample_logger) = Inr lg'"
    "lf_files (lg_file lg') ''./logs/application.log'' = Some ''1970-01-01 01:00:00.000 [INFO]: n=5\<newline>''"
    by (auto split: sum.splits)
  moreover have "global_logging sample_logger" "global_logger_obj sample_logger = None" by (simp_all add: sample_logger_def)
  ultimately show ?thesis using queue_writes_in_order [of sample_logger] by blast
qed

text \<open>Shutting down drops what is queued.\<close>

lemma shutdown_drops: "lg_file (shutdown_logging lg) = lg_file lg \<and> global_logger_obj (shutdown_logging lg) = None"
  by (simp add: shutdown_logging_def)

end
