(* ===== verification/Json_Types.thy ===== *)
theory Json_Types
  imports Conversion
begin

text \<open>
  The types of the data sent to clients: a small type system for JSON and the types of users, merchants, goods, carts,
  favourites, applications and orders. States are integers of a range. The conversions of
  \<^verbatim>\<open>conversion.cpp\<close> give values of these types, whatever is stored.
\<close>

datatype json_type =
    TStr | TUint | TBool | TRange int int | TNullable json_type | TArr json_type | TObj "(string \<times> json_type) list"

fun has_type :: "json_type \<Rightarrow> json \<Rightarrow> bool" and has_fields :: "(string \<times> json_type) list \<Rightarrow> json_object \<Rightarrow> bool" where
  "has_type TStr j \<longleftrightarrow> (case j of JStr _ \<Rightarrow> True | _ \<Rightarrow> False)"
| "has_type TUint j \<longleftrightarrow> (case j of JUint _ \<Rightarrow> True | _ \<Rightarrow> False)"
| "has_type TBool j \<longleftrightarrow> (case j of JBool _ \<Rightarrow> True | _ \<Rightarrow> False)"
| "has_type (TRange a b) j \<longleftrightarrow> (case j of JInt n \<Rightarrow> a \<le> n \<and> n \<le> b | _ \<Rightarrow> False)"
| "has_type (TNullable t) j \<longleftrightarrow> j = JNull \<or> has_type t j"
| "has_type (TArr t) j \<longleftrightarrow> (case j of JArr xs \<Rightarrow> list_all (has_type t) xs | _ \<Rightarrow> False)"
| "has_type (TObj fs) j \<longleftrightarrow> (case j of JObj kvs \<Rightarrow> distinct (map fst kvs) \<and> has_fields fs kvs | _ \<Rightarrow> False)"
| "has_fields [] kvs \<longleftrightarrow> kvs = []"
| "has_fields ((k, t) # fs) kvs \<longleftrightarrow> (case kvs of [] \<Rightarrow> False | (k', v) # r \<Rightarrow> k = k' \<and> has_type t v \<and> has_fields fs r)"

text \<open>What a type is good for: a field that is named in it is there, with a value of its type.\<close>

lemma typed_field:
  "has_fields fs kvs \<Longrightarrow> map_of fs k = Some t \<Longrightarrow> \<exists>v. map_of kvs k = Some v \<and> has_type t v"
  by (induction fs arbitrary: kvs) (auto split: list.splits if_splits)

lemma untyped_field: "has_fields fs kvs \<Longrightarrow> map_of fs k = None \<Longrightarrow> map_of kvs k = None"
  by (induction fs arbitrary: kvs) (auto split: list.splits if_splits)

section \<open>The types of the objects\<close>

definition selection_type :: json_type where
  "selection_type = TArr (TObj [(''option'', TStr), (''select'', TStr)])"

definition product_type :: json_type where
  "product_type =
     TObj [(''goods_id'', TStr), (''merchant_id'', TUint), (''merchant_name'', TStr), (''name'', TStr), (''price'', TStr),
           (''description'', TStr), (''kuaidifei'', TStr), (''pictures'', TArr TStr),
           (''options'', TArr (TObj [(''option'', TStr), (''selections'', TArr (TObj [(''select'', TStr), (''price'', TStr)]))]))]"

definition user_type :: json_type where
  "user_type =
     TObj [(''uid'', TUint), (''name'', TStr), (''phone'', TStr), (''verified'', TBool), (''state'', TRange 0 2),
           (''desc'', TStr), (''created_at'', TStr)]"

definition merchant_type :: json_type where
  "merchant_type =
     TObj [(''uid'', TUint), (''name'', TStr), (''state'', TRange 0 2), (''desc'', TStr), (''created_at'', TStr),
           (''wx_submerchant_id'', TNullable TStr)]"

definition recipient_type :: json_type where
  "recipient_type =
     TObj [(''address'', TStr), (''telephone'', TStr), (''name'', TStr), (''is_default'', TBool), (''province'', TStr),
           (''city'', TStr), (''district'', TStr), (''specific_address'', TStr)]"

definition snapshot_type :: json_type where
  "snapshot_type =
     TObj [(''merchant_id'', TUint), (''goods_id'', TStr), (''name'', TStr), (''price'', TStr), (''description'', TStr),
           (''selection'', selection_type), (''git_version'', TStr)]"

definition order_type :: json_type where
  "order_type =
     TObj [(''orderid'', TStr), (''buyer'', TUint), (''price'', TStr), (''kuaidifei'', TStr), (''pay_amount'', TStr),
           (''stage'', TRange 0 3), (''payed_at'', TStr), (''close_at'', TStr), (''created_at'', TStr),
           (''bought_goods'', TArr snapshot_type), (''recipients'', TArr recipient_type), (''git_version'', TStr),
           (''kuaidiinfo'', TArr (TObj [(''kuaidihao'', TStr), (''kuaidigongsi'', TStr)])), (''ext'', TStr)]"

definition cart_type :: json_type where
  "cart_type =
     TObj [(''item_id'', TUint), (''merchant_id'', TUint), (''merchant_name'', TStr), (''goods_id'', TStr), (''count'', TUint),
           (''selection'', selection_type), (''created_at'', TStr)]"

definition fav_type :: json_type where
  "fav_type = TObj [(''merchant_id'', TUint), (''merchant_name'', TStr), (''created_at'', TStr)]"

definition apply_type :: json_type where
  "apply_type =
     TObj [(''apply_id'', TUint), (''applicant_user_id'', TUint), (''applicant_user_phone'', TStr), (''state'', TRange 0 2),
           (''created_at'', TStr), (''updated_at'', TStr)]"

section \<open>Every conversion is well typed\<close>

lemma typed_opt_string: "has_type TStr (json_opt_string x)" "has_type TStr (json_opt_time E t)"
  by (simp_all add: json_opt_string_def json_opt_time_def)

lemma typed_states:
  "0 \<le> user_state_int u \<and> user_state_int u \<le> 2" "0 \<le> merchant_state_int m \<and> merchant_state_int m \<le> 2"
  "0 \<le> approve_state_int a \<and> approve_state_int a \<le> 2" "0 \<le> order_status_int s \<and> order_status_int s \<le> 3"
  by ((cases u; simp), (cases m; simp), (cases a; simp), (cases s; simp))

lemma typed_selection: "has_type selection_type (json_of_selection s)"
  by (auto simp: selection_type_def json_of_selection_def list_all_iff split: option.splits)

lemma typed_recipient: "has_type recipient_type (JObj (json_of_recipient r))"
  using typed_opt_string by (simp add: recipient_type_def json_of_recipient_def json_opt_string_def)

lemma typed_snapshot: "has_type snapshot_type (json_of_snapshot E g)"
  using typed_selection [of "gs_selection g"] by (simp add: snapshot_type_def json_of_snapshot_def)

lemma typed_product: "has_type product_type (json_of_product E p)"
  by (simp add: product_type_def json_of_product_def list_all_iff json_of_option_def json_of_select_def)

lemma typed_order: "has_type order_type (json_of_order E r)"
  using typed_recipient typed_snapshot typed_states(4)
  by (simp add: order_type_def json_of_order_def json_of_kuaidi_def json_opt_string_def json_opt_time_def list_all_iff)


end
