(* ===== verification/Acceptor.thy ===== *)
theory Acceptor
  imports Endpoint
begin

text \<open>
  The acceptors of \<^verbatim>\<open>incubator/httpd\<close>, for TCP, TLS and Unix sockets: how a listening socket is set up, and the
  concurrent accept loops with the table of connected clients. The operating system answers each stage of the set-up; the
  loops are driven by events in any order: an accept completes, a TLS handshake completes, the coroutine of a client ends.
\<close>

section \<open>Setting up the socket\<close>

datatype socket_option = Reuse_port | Reuse_address | V6_only

record accept_socket =
  sk_open :: bool
  sk_cloexec :: bool
  sk_options :: "socket_option list"
  sk_bound :: bool
  sk_listening :: bool

definition new_socket :: accept_socket where
  "new_socket = \<lparr>sk_open = False, sk_cloexec = False, sk_options = [], sk_bound = False, sk_listening = False\<rparr>"

datatype listen_error = Address_error | Host_error | System_error_code nat

record listen_answers =
  la_open :: "nat option"
  la_option :: "socket_option \<Rightarrow> nat option"
  la_bind :: "nat option"
  la_listen :: "nat option"

text \<open>One call with an error code: nothing is done after an error.\<close>

definition stage ::
  "nat option \<Rightarrow> (accept_socket \<Rightarrow> accept_socket) \<Rightarrow> accept_socket \<times> listen_error option \<Rightarrow> accept_socket \<times> listen_error option" where
  "stage answer effect = (\<lambda>(s, ec).
     case ec of
       Some e \<Rightarrow> (s, Some e)
     | None \<Rightarrow> (case answer of Some n \<Rightarrow> (s, Some (System_error_code n)) | None \<Rightarrow> (effect s, None)))"

definition set_sock_option :: "listen_answers \<Rightarrow> socket_option \<Rightarrow> accept_socket \<times> listen_error option \<Rightarrow> accept_socket \<times> listen_error option" where
  "set_sock_option la opt = stage (la_option la opt) (\<lambda>s. s\<lparr>sk_options := sk_options s @ [opt]\<rparr>)"

definition open_cloexec :: "listen_answers \<Rightarrow> accept_socket \<times> listen_error option \<Rightarrow> accept_socket \<times> listen_error option" where
  "open_cloexec la = stage (la_open la) (\<lambda>s. s\<lparr>sk_open := True, sk_cloexec := True\<rparr>)"

definition bind_listen :: "listen_answers \<Rightarrow> accept_socket \<times> listen_error option \<Rightarrow> accept_socket \<times> listen_error option" where
  "bind_listen la s = stage (la_listen la) (\<lambda>s. s\<lparr>sk_listening := True\<rparr>) (stage (la_bind la) (\<lambda>s. s\<lparr>sk_bound := True\<rparr>) s)"

text \<open>\<open>reuseport\<close> is \<^verbatim>\<open>has_so_reuseport()\<close>. A port that does not fit into an \<^verbatim>\<open>int\<close> is undefined.\<close>

definition listen_tcp :: "bool \<Rightarrow> (string \<Rightarrow> 'a option) \<Rightarrow> listen_answers \<Rightarrow> string \<Rightarrow> accept_socket \<Rightarrow> (accept_socket \<times> listen_error option) result" where
  "listen_tcp reuseport from_string la address s =
     (case make_listen_endpoint from_string address of
        Inl e \<Rightarrow> Inl e
      | Inr (Bad_address, _) \<Rightarrow> Inr (s, Some Address_error)
      | Inr (Bad_host _, _) \<Rightarrow> Inr (s, Some Host_error)
      | Inr (Listen _ _, ipv6only) \<Rightarrow>
          (let s1 = open_cloexec la (s, None);
               s2 = (if reuseport then set_sock_option la Reuse_port s1 else s1);
               s3 = set_sock_option la Reuse_address s2;
               s4 = (if ipv6only then set_sock_option la V6_only s3 else s3)
           in Inr (bind_listen la s4)))"

text \<open>A TLS acceptor sets its socket up in the same way.\<close>

definition listen_ssl :: "bool \<Rightarrow> (string \<Rightarrow> 'a option) \<Rightarrow> listen_answers \<Rightarrow> string \<Rightarrow> accept_socket \<Rightarrow> (accept_socket \<times> listen_error option) result" where
  "listen_ssl = listen_tcp"

text \<open>The Unix socket: an old file is removed first, and the permissions are opened at the end; both throw where they
  fail.\<close>

definition listen_unix :: "exn option \<Rightarrow> exn option \<Rightarrow> listen_answers \<Rightarrow> accept_socket \<Rightarrow> (accept_socket \<times> listen_error option) result" where
  "listen_unix removed permissions la s =
     (case removed of
        Some e \<Rightarrow> Inl e
      | None \<Rightarrow>
          (let (s', ec) = bind_listen la (set_sock_option la Reuse_address (open_cloexec la (s, None)))
           in if ec = None then (case permissions of Some e \<Rightarrow> Inl e | None \<Rightarrow> Inr (s', None)) else Inr (s', ec)))"

text \<open>\<^verbatim>\<open>init_ws_acceptors\<close> and its like: an acceptor for each address and, with \<^verbatim>\<open>SO_REUSEPORT\<close>, each thread; the first
  error ends it, with the acceptor it occurred in already in the list.\<close>

fun init_acceptors :: "('b \<Rightarrow> (accept_socket \<times> listen_error option) result) \<Rightarrow> 'b list \<Rightarrow> (bool \<times> accept_socket list) result" where
  "init_acceptors listen [] = Inr (True, [])"
| "init_acceptors listen (a # as) =
     (case listen a of
        Inl e \<Rightarrow> Inl e
      | Inr (s, Some _) \<Rightarrow> Inr (False, [s])
      | Inr (s, None) \<Rightarrow>
          (case init_acceptors listen as of Inl e \<Rightarrow> Inl e | Inr (ok, ss) \<Rightarrow> Inr (ok, s # ss)))"

definition listen_places :: "bool \<Rightarrow> nat \<Rightarrow> string list \<Rightarrow> (string \<times> nat) list" where
  "listen_places reuseport pool_size listens =
     concat (map (\<lambda>a. if reuseport then map (\<lambda>i. (a, i)) [0..<pool_size] else [(a, 0)]) listens)"

section \<open>What setting up gives\<close>

lemma stage_error: "stage a f (s, Some e) = (s, Some e)"
  by (simp add: stage_def)

lemma stage_cases: "stage a f (s, None) = (case a of None \<Rightarrow> (f s, None) | Some n \<Rightarrow> (s, Some (System_error_code n)))"
  by (simp add: stage_def)

lemmas listen_stages = open_cloexec_def set_sock_option_def bind_listen_def stage_error stage_cases

text \<open>Setting up a TCP socket: it listens exactly when the address could be read and no call failed, and has then the options
  that were asked for, in the order of the calls; after an error it never listens.\<close>

theorem listen_tcp_outcome:
  assumes "make_listen_endpoint from_string address = Inr (Listen ip port, ipv6only)"
  shows "\<exists>s ec. listen_tcp reuseport from_string la address new_socket = Inr (s, ec) \<and> (sk_listening s \<longleftrightarrow> ec = None) \<and>
    (ec = None \<longleftrightarrow> la_open la = None \<and> (reuseport \<longrightarrow> la_option la Reuse_port = None) \<and> la_option la Reuse_address = None \<and>
       (ipv6only \<longrightarrow> la_option la V6_only = None) \<and> la_bind la = None \<and> la_listen la = None) \<and>
    (ec = None \<longrightarrow> sk_open s \<and> sk_cloexec s \<and> sk_bound s \<and>
       sk_options s = (if reuseport then [Reuse_port] else []) @ [Reuse_address] @ (if ipv6only then [V6_only] else []))"
  by (cases "la_open la"; cases "la_option la Reuse_port"; cases "la_option la Reuse_address"; cases "la_option la V6_only";
      cases "la_bind la"; cases "la_listen la"; cases reuseport; cases ipv6only)
    (simp_all add: listen_tcp_def assms listen_stages new_socket_def Let_def)

text \<open>The acceptors are complete exactly when all of them listen.\<close>

lemma init_acceptors_ok:
  assumes "\<And>a s. listen a = Inr (s, None) \<Longrightarrow> sk_listening s" "\<And>a s e. listen a = Inr (s, Some e) \<Longrightarrow> \<not> sk_listening s"
    and "init_acceptors listen as = Inr (ok, ss)"
  shows "ok \<longleftrightarrow> list_all sk_listening ss \<and> length ss = length as"
  using assms(3)
proof (induction "as" arbitrary: ok ss)
  case (Cons a as)
  then show ?case using assms(1,2) by (auto split: sum.splits prod.splits option.splits)
qed simp

section \<open>The accept loops\<close>

datatype acceptor_kind = Tcp | Ssl | Unix

datatype peer_endpoint = V4 string nat | V6 string nat | Path string

datatype accept_result = Aborted | Bad_descriptor | Other_error | Accepted "peer_endpoint option"

datatype accept_loop_state = Accepting nat | Handshaking nat "peer_endpoint option" | Ended

text \<open>The counter of connection ids, the loops, the table \<^verbatim>\<open>all_client\<close> with the name of the peer, and for which
  connections \<^verbatim>\<open>client_connected\<close> and \<^verbatim>\<open>client_disconnected\<close> were spawned.\<close>

record acceptor_state =
  ac_next_id :: nat
  ac_loops :: "accept_loop_state list"
  all_client :: "(nat \<times> string) list"
  ac_connected :: "nat list"
  ac_disconnected :: "nat list"
  ac_closed :: "nat list"

fun remote_host :: "peer_endpoint option \<Rightarrow> string" where
  "remote_host None = []"
| "remote_host (Some (V6 a p)) = ''['' @ a @ '']:'' @ show_nat p"
| "remote_host (Some (V4 a p)) = a @ '':'' @ show_nat p"
| "remote_host (Some (Path p)) = ''{'' @ p @ ''}''"

definition run_accept_loop :: "nat \<Rightarrow> nat \<Rightarrow> acceptor_state" where
  "run_accept_loop first n =
     \<lparr>ac_next_id = first + n, ac_loops = map Accepting [first..<first + n], all_client = [], ac_connected = [], ac_disconnected = [],
      ac_closed = []\<rparr>"

definition next_round :: "nat \<Rightarrow> acceptor_state \<Rightarrow> acceptor_state" where
  "next_round i s = s\<lparr>ac_loops := (ac_loops s)[i := Accepting (ac_next_id s)], ac_next_id := ac_next_id s + 1\<rparr>"

definition admit :: "nat \<Rightarrow> nat \<Rightarrow> peer_endpoint option \<Rightarrow> acceptor_state \<Rightarrow> acceptor_state" where
  "admit i cid peer s =
     next_round i (s\<lparr>all_client := (cid, remote_host peer) # all_client s, ac_connected := cid # ac_connected s\<rparr>)"

definition accept_completes :: "acceptor_kind \<Rightarrow> nat \<Rightarrow> nat \<Rightarrow> accept_result \<Rightarrow> acceptor_state \<Rightarrow> acceptor_state" where
  "accept_completes kind i cid r s =
     (case r of
        Aborted \<Rightarrow> s\<lparr>ac_loops := (ac_loops s)[i := Ended]\<rparr>
      | Bad_descriptor \<Rightarrow> s\<lparr>ac_loops := (ac_loops s)[i := Ended]\<rparr>
      | Other_error \<Rightarrow> next_round i s
      | Accepted peer \<Rightarrow>
          (if kind = Ssl then s\<lparr>ac_loops := (ac_loops s)[i := Handshaking cid peer]\<rparr> else admit i cid peer s))"

text \<open>A handshake that fails throws, and the exception ends the loop.\<close>

definition handshake_completes :: "nat \<Rightarrow> nat \<Rightarrow> peer_endpoint option \<Rightarrow> bool \<Rightarrow> acceptor_state \<Rightarrow> acceptor_state" where
  "handshake_completes i cid peer ok s =
     (if ok then admit i cid peer s else s\<lparr>ac_loops := (ac_loops s)[i := Ended]\<rparr>)"

definition client_ends :: "nat \<Rightarrow> acceptor_state \<Rightarrow> acceptor_state" where
  "client_ends cid s =
     s\<lparr>all_client := filter (\<lambda>(c, _). c \<noteq> cid) (all_client s), ac_disconnected := cid # ac_disconnected s\<rparr>"

text \<open>\<^verbatim>\<open>clean_shutdown\<close> closes the clients of the table and then waits until it is empty.\<close>

definition close_clients :: "acceptor_state \<Rightarrow> acceptor_state" where
  "close_clients s = s\<lparr>ac_closed := map fst (all_client s)\<rparr>"

definition shutdown_done :: "acceptor_state \<Rightarrow> bool" where
  "shutdown_done s \<longleftrightarrow> all_client s = []"

datatype acceptor_event = Accept nat accept_result | Handshake nat bool | Client_end nat | Shutdown | Other_acceptor

text \<open>An event that is not possible in a state leaves it. The counter is shared with the other acceptors of the kind.\<close>

definition accept_event :: "acceptor_kind \<Rightarrow> acceptor_event \<Rightarrow> acceptor_state \<Rightarrow> acceptor_state" where
  "accept_event kind e s =
     (case e of
        Accept i r \<Rightarrow>
          (if i < length (ac_loops s)
           then (case ac_loops s ! i of Accepting cid \<Rightarrow> accept_completes kind i cid r s | _ \<Rightarrow> s) else s)
      | Handshake i ok \<Rightarrow>
          (if i < length (ac_loops s)
           then (case ac_loops s ! i of Handshaking cid peer \<Rightarrow> handshake_completes i cid peer ok s | _ \<Rightarrow> s) else s)
      | Client_end cid \<Rightarrow> (if cid \<in> fst ` set (all_client s) then client_ends cid s else s)
      | Shutdown \<Rightarrow> close_clients s
      | Other_acceptor \<Rightarrow> s\<lparr>ac_next_id := ac_next_id s + 1\<rparr>)"

definition accept_run :: "acceptor_kind \<Rightarrow> acceptor_event list \<Rightarrow> acceptor_state \<Rightarrow> acceptor_state" where
  "accept_run kind es s = foldl (\<lambda>s e. accept_event kind e s) s es"

section \<open>Every connection is served once\<close>

fun loop_id :: "accept_loop_state \<Rightarrow> nat option" where
  "loop_id (Accepting c) = Some c"
| "loop_id (Handshaking c _) = Some c"
| "loop_id Ended = None"

definition loops_ok :: "nat \<Rightarrow> nat set \<Rightarrow> accept_loop_state list \<Rightarrow> bool" where
  "loops_ok n C ls \<longleftrightarrow>
     (\<forall>i<length ls. \<forall>c. loop_id (ls ! i) = Some c \<longrightarrow>
        c < n \<and> c \<notin> C \<and> (\<forall>j<length ls. j \<noteq> i \<longrightarrow> loop_id (ls ! j) \<noteq> Some c))"

definition client_table_ok :: "nat \<Rightarrow> nat list \<Rightarrow> nat list \<Rightarrow> nat list \<Rightarrow> bool" where
  "client_table_ok n connected clients disconnected \<longleftrightarrow>
     (\<forall>c\<in>set connected. c < n) \<and> distinct connected \<and> distinct (clients @ disconnected) \<and>
     set (clients @ disconnected) = set connected"

definition acceptor_ok :: "acceptor_state \<Rightarrow> bool" where
  "acceptor_ok s \<longleftrightarrow>
     loops_ok (ac_next_id s) (set (ac_connected s)) (ac_loops s) \<and>
     client_table_ok (ac_next_id s) (ac_connected s) (map fst (all_client s)) (ac_disconnected s)"

lemma nth_update: "j < length ls \<Longrightarrow> ls[i := x] ! j = (if i = j then x else ls ! j)"
  by (cases "i = j") simp_all

lemma loops_okD:
  assumes "loops_ok n C ls" "i < length ls" "loop_id (ls ! i) = Some c"
  shows "c < n" "c \<notin> C" "\<And>j. j < length ls \<Longrightarrow> j \<noteq> i \<Longrightarrow> loop_id (ls ! j) \<noteq> Some c"
  using assms unfolding loops_ok_def by blast+

lemma loops_ok_later: "loops_ok n C ls \<Longrightarrow> loops_ok (Suc n) C ls"
  unfolding loops_ok_def using less_SucI by blast

lemma loops_ok_same:
  assumes "loops_ok n C ls" "loop_id l = loop_id (ls ! i)"
  shows "loops_ok n C (ls[i := l])"
proof -
  have "loop_id (ls[i := l] ! j) = loop_id (ls ! j)" if "j < length ls" for j
    using assms(2) that by (cases "i = j") simp_all
  then show ?thesis using assms(1) by (simp add: loops_ok_def)
qed

lemma loops_ok_end:
  assumes "loops_ok n C ls"
  shows "loops_ok n C (ls[i := Ended])"
  unfolding loops_ok_def
proof (intro allI impI)
  fix j c
  assume j: "j < length (ls[i := Ended])" "loop_id (ls[i := Ended] ! j) = Some c"
  then have ij: "loop_id (ls ! j) = Some c" "j < length ls" by (auto simp: nth_update split: if_splits)
  note loops_okD [OF assms ij(2,1)]
  then show "c < n \<and> c \<notin> C \<and> (\<forall>k<length (ls[i := Ended]). k \<noteq> j \<longrightarrow> loop_id (ls[i := Ended] ! k) \<noteq> Some c)"
    by (auto simp: nth_update)
qed

lemma loops_ok_new:
  assumes "loops_ok n C ls" "\<forall>c\<in>C. c < n"
  shows "loops_ok (Suc n) C (ls[i := Accepting n])"
  unfolding loops_ok_def
proof (intro allI impI)
  fix j c
  assume j: "j < length (ls[i := Accepting n])" "loop_id (ls[i := Accepting n] ! j) = Some c"
  show "c < Suc n \<and> c \<notin> C \<and> (\<forall>k<length (ls[i := Accepting n]). k \<noteq> j \<longrightarrow> loop_id (ls[i := Accepting n] ! k) \<noteq> Some c)"
  proof (cases "i = j")
    case True
    then have "c = n" using j by simp
    then show ?thesis using assms loops_okD(1) [OF assms(1)] True by (fastforce simp: nth_update)
  next
    case False
    then have "loop_id (ls ! j) = Some c" "j < length ls" using j by simp_all
    note loops_okD [OF assms(1) this(2,1)]
    then show ?thesis by (auto simp: nth_update)
  qed
qed

lemma loops_ok_insert:
  assumes "loops_ok n C ls" "i < length ls" "loop_id (ls ! i) = Some c"
  shows "loops_ok n (insert c C) (ls[i := Ended])"
  unfolding loops_ok_def
proof (intro allI impI)
  fix j d
  assume j: "j < length (ls[i := Ended])" "loop_id (ls[i := Ended] ! j) = Some d"
  then have ij: "i \<noteq> j" "loop_id (ls ! j) = Some d" "j < length ls" by (auto simp: nth_update split: if_splits)
  note loops_okD [OF assms(1) ij(3,2)]
  moreover have "c \<noteq> d" using loops_okD(3) [OF assms, of j] ij by auto
  ultimately show "d < n \<and> d \<notin> insert c C \<and> (\<forall>k<length (ls[i := Ended]). k \<noteq> j \<longrightarrow> loop_id (ls[i := Ended] ! k) \<noteq> Some d)"
    by (auto simp: nth_update)
qed

lemma client_table_ok_later: "client_table_ok n conn cl dis \<Longrightarrow> client_table_ok (Suc n) conn cl dis"
  by (auto simp: client_table_ok_def)

lemma ok_next_round: "acceptor_ok s \<Longrightarrow> acceptor_ok (next_round i s)"
  by (auto simp: acceptor_ok_def next_round_def client_table_ok_def intro: loops_ok_new)

lemma ok_admit:
  assumes "acceptor_ok s" "i < length (ac_loops s)" "loop_id (ac_loops s ! i) = Some c"
  shows "acceptor_ok (admit i c peer s)"
proof -
  have loops: "loops_ok (ac_next_id s) (set (ac_connected s)) (ac_loops s)" using assms(1) by (simp add: acceptor_ok_def)
  let ?t = "s\<lparr>all_client := (c, remote_host peer) # all_client s, ac_connected := c # ac_connected s,
    ac_loops := (ac_loops s)[i := Ended]\<rparr>"
  have "acceptor_ok ?t"
    using assms(1) loops_ok_insert [OF loops assms(2,3)] loops_okD(1,2) [OF loops assms(2,3)]
    by (auto simp: acceptor_ok_def client_table_ok_def)
  moreover have "next_round i ?t = admit i c peer s" by (simp add: admit_def next_round_def)
  ultimately show ?thesis using ok_next_round [of ?t i] by simp
qed

lemma ok_client_ends:
  assumes "acceptor_ok s" "c \<in> fst ` set (all_client s)"
  shows "acceptor_ok (client_ends c s)"
proof -
  have keys: "map fst (filter (\<lambda>(d, _). d \<noteq> c) (all_client s)) = filter (\<lambda>d. d \<noteq> c) (map fst (all_client s))"
    by (induction "all_client s") (auto simp: filter_map o_def split_beta)
  show ?thesis using assms unfolding acceptor_ok_def client_ends_def by (auto simp: keys client_table_ok_def)
qed

lemma ok_event: "acceptor_ok s \<Longrightarrow> acceptor_ok (accept_event kind e s)"
proof (cases e)
  case (Accept i r)
  assume ok: "acceptor_ok s"
  show ?thesis
  proof (cases "i < length (ac_loops s) \<and> (\<exists>c. ac_loops s ! i = Accepting c)")
    case True
    then obtain c where c: "i < length (ac_loops s)" "ac_loops s ! i = Accepting c" by blast
    have "acceptor_ok (accept_completes kind i c r s)"
      using ok c ok_next_round [OF ok, of i] ok_admit [OF ok c(1), of c]
      by (auto simp: accept_completes_def acceptor_ok_def intro: loops_ok_end loops_ok_same split: accept_result.splits)
    then show ?thesis using Accept c by (simp add: accept_event_def)
  qed (use ok Accept in \<open>auto simp: accept_event_def split: accept_loop_state.splits\<close>)
next
  case (Handshake i okay)
  assume ok: "acceptor_ok s"
  show ?thesis
  proof (cases "i < length (ac_loops s) \<and> (\<exists>c p. ac_loops s ! i = Handshaking c p)")
    case True
    then obtain c p where c: "i < length (ac_loops s)" "ac_loops s ! i = Handshaking c p" by blast
    have "acceptor_ok (handshake_completes i c p okay s)"
      using ok ok_admit [OF ok c(1), of c p] c
      by (auto simp: handshake_completes_def acceptor_ok_def intro: loops_ok_end)
    then show ?thesis using Handshake c by (simp add: accept_event_def)
  qed (use ok Handshake in \<open>auto simp: accept_event_def split: accept_loop_state.splits\<close>)
next
  case Other_acceptor
  assume "acceptor_ok s"
  then show ?thesis using Other_acceptor
    by (simp add: accept_event_def acceptor_ok_def loops_ok_later client_table_ok_later)
next
  case Shutdown
  assume "acceptor_ok s"
  then show ?thesis using Shutdown by (simp add: accept_event_def close_clients_def acceptor_ok_def)
qed (auto simp: accept_event_def ok_client_ends)

lemma ok_start: "acceptor_ok (run_accept_loop first n)"
  by (auto simp: acceptor_ok_def run_accept_loop_def loops_ok_def client_table_ok_def)

lemma ok_run: "acceptor_ok s \<Longrightarrow> acceptor_ok (accept_run kind es s)"
  unfolding accept_run_def by (induction es arbitrary: s) (simp_all add: ok_event)

text \<open>(C27) Every connection is served once: in any order of events, with any number of loops, the ids of the connections that
  were accepted are different, a connection is reported as disconnected at most once and only after it was connected,
  and the table of clients holds exactly those that are connected and have not ended, each once.\<close>

theorem connections_served_once:
  assumes "s = accept_run kind es (run_accept_loop first n)"
  shows "distinct (ac_connected s) \<and> distinct (ac_disconnected s) \<and> set (ac_disconnected s) \<subseteq> set (ac_connected s) \<and>
    distinct (map fst (all_client s)) \<and> set (map fst (all_client s)) = set (ac_connected s) - set (ac_disconnected s)"
  using ok_run [OF ok_start [of first n], of kind es] assms by (auto simp: acceptor_ok_def client_table_ok_def)

definition sample_accepts :: "acceptor_event list" where
  "sample_accepts = [Accept 0 (Accepted (Some (V4 ''1.2.3.4'' 80))), Accept 1 (Accepted None), Client_end 1, Accept 0 Other_error]"

theorem connections_served_once_witness:
  "\<exists>s. s = accept_run Tcp sample_accepts (run_accept_loop 0 2) \<and> all_client s = [(0, ''1.2.3.4:80'')] \<and>
    set (map fst (all_client s)) = set (ac_connected s) - set (ac_disconnected s)"
proof -
  define s where "s = accept_run Tcp sample_accepts (run_accept_loop 0 2)"
  have "all_client s = [(0, ''1.2.3.4:80'')]" unfolding s_def by code_simp
  then show ?thesis using connections_served_once [OF s_def] s_def by blast
qed

section \<open>Which loops stay alive\<close>

definition live_loops :: "acceptor_state \<Rightarrow> nat" where
  "live_loops s = length (filter (\<lambda>l. l \<noteq> Ended) (ac_loops s))"

fun ends_loop :: "acceptor_event \<Rightarrow> bool" where
  "ends_loop (Accept _ r) \<longleftrightarrow> r = Aborted \<or> r = Bad_descriptor"
| "ends_loop (Handshake _ ok) \<longleftrightarrow> \<not> ok"
| "ends_loop _ \<longleftrightarrow> False"

lemma all_live_update: "Ended \<notin> set ls \<Longrightarrow> l \<noteq> Ended \<Longrightarrow> Ended \<notin> set (ls[i := l])"
  using set_update_subset_insert [of ls i l] by auto

lemma live_event:
  assumes "Ended \<notin> set (ac_loops s)" "\<not> ends_loop e"
  shows "Ended \<notin> set (ac_loops (accept_event kind e s)) \<and> length (ac_loops (accept_event kind e s)) = length (ac_loops s)"
  using assms
  by (cases e)
    (auto simp: accept_event_def accept_completes_def handshake_completes_def next_round_def admit_def client_ends_def
      close_clients_def all_live_update split: accept_loop_state.splits accept_result.splits)

lemma live_run:
  "Ended \<notin> set (ac_loops s) \<Longrightarrow> list_all (\<lambda>e. \<not> ends_loop e) es \<Longrightarrow>
     Ended \<notin> set (ac_loops (accept_run kind es s)) \<and> length (ac_loops (accept_run kind es s)) = length (ac_loops s)"
  unfolding accept_run_def
proof (induction es arbitrary: s)
  case (Cons e es)
  then show ?case using live_event [of s e kind] Cons.IH [of "accept_event kind e s"] by simp
qed simp

lemma ended_event:
  assumes "set (ac_loops s) \<subseteq> {Ended}"
  shows "ac_connected (accept_event kind e s) = ac_connected s \<and> ac_loops (accept_event kind e s) = ac_loops s"
proof -
  have "ac_loops s ! i = Ended" if "i < length (ac_loops s)" for i using assms that nth_mem by blast
  then show ?thesis
    by (cases e) (auto simp: accept_event_def client_ends_def close_clients_def split: accept_loop_state.splits)
qed

lemma ended_run:
  "set (ac_loops s) \<subseteq> {Ended} \<Longrightarrow> ac_connected (accept_run kind es s) = ac_connected s"
  unfolding accept_run_def
proof (induction es arbitrary: s)
  case (Cons e es)
  then show ?case using ended_event [of s kind e] by simp
qed simp

text \<open>One failed handshake for each loop.\<close>

definition failed_handshakes :: "nat \<Rightarrow> acceptor_event list" where
  "failed_handshakes n = concat (map (\<lambda>i. [Accept i (Accepted None), Handshake i False]) [0..<n])"

lemma failed_handshake_loops:
  assumes "m \<le> length (ac_loops s)" "\<forall>i<length (ac_loops s). \<exists>c. ac_loops s ! i = Accepting c"
  shows "ac_loops (accept_run Ssl (failed_handshakes m) s) = replicate m Ended @ drop m (ac_loops s) \<and>
    ac_connected (accept_run Ssl (failed_handshakes m) s) = ac_connected s"
  using assms(1)
proof (induction m)
  case 0
  then show ?case by (simp add: failed_handshakes_def accept_run_def)
next
  case (Suc m)
  let ?t = "accept_run Ssl (failed_handshakes m) s"
  have t: "ac_loops ?t = replicate m Ended @ drop m (ac_loops s)" "ac_connected ?t = ac_connected s" using Suc by simp_all
  have m: "m < length (ac_loops s)" using Suc.prems by simp
  then obtain c where c: "ac_loops s ! m = Accepting c" using assms(2) by blast
  have d: "drop m (ac_loops s) = Accepting c # drop (Suc m) (ac_loops s)" using Cons_nth_drop_Suc [OF m] c by simp
  have "accept_run Ssl (failed_handshakes (Suc m)) s =
      accept_event Ssl (Handshake m False) (accept_event Ssl (Accept m (Accepted None)) ?t)"
    by (simp add: failed_handshakes_def accept_run_def)
  then show ?case using t d
    by (simp add: accept_event_def accept_completes_def handshake_completes_def nth_append list_update_append replicate_append_same)
qed



text \<open>A socket that was opened but does not listen fails every accept with an error that is not looked at: the
  loop goes on without end, and only the counter of ids moves.\<close>

lemma unlistened_socket_spins:
  "i < length (ac_loops s) \<Longrightarrow> ac_loops s ! i = Accepting c \<Longrightarrow>
     \<exists>c'. accept_run kind (replicate k (Accept i Other_error)) s =
       s\<lparr>ac_next_id := ac_next_id s + k, ac_loops := (ac_loops s)[i := Accepting c']\<rparr>"
proof (induction k arbitrary: s c)
  case 0
  then show ?case by (intro exI [of _ c]) (simp add: accept_run_def list_update_same_conv [THEN iffD2])
next
  case (Suc k)
  let ?t = "next_round i s"
  have "accept_run kind (replicate (Suc k) (Accept i Other_error)) s = accept_run kind (replicate k (Accept i Other_error)) ?t"
    using Suc.prems by (simp add: accept_run_def accept_event_def accept_completes_def)
  moreover have "i < length (ac_loops ?t)" "ac_loops ?t ! i = Accepting (ac_next_id s)"
    using Suc.prems by (simp_all add: next_round_def)
  ultimately show ?case using Suc.IH [of ?t] by (auto simp: next_round_def)
qed

end
