(* ===== verification/Program_Start.thy ===== *)
theory Program_Start
  imports Json
begin

text \<open>
  The start of the program: the pool of event loops (\<^verbatim>\<open>io_context_pool.cpp\<close>), the search path, the version of the
  kernel and the course of \<^verbatim>\<open>co_main\<close> (\<^verbatim>\<open>main.cpp\<close>) up to its exit code. What is read from the command line and a
  configuration file is given as maps from names of options; the parser of the options is a parameter by its results, and
  the outcomes of the service's calls are given.
\<close>

section \<open>The pool of event loops\<close>

record io_context_pool =
  pool_work :: "bool list"
  next_io_context :: nat

definition new_io_context_pool :: "nat \<Rightarrow> io_context_pool result" where
  "new_io_context_pool pool_size =
     (if pool_size = 0 then Inl Runtime_error
      else Inr \<lparr>pool_work = replicate pool_size True, next_io_context = 0\<rparr>)"

definition stop_pool :: "io_context_pool \<Rightarrow> io_context_pool" where
  "stop_pool p = p\<lparr>pool_work := map (\<lambda>_. False) (pool_work p)\<rparr>"

definition get_io_context :: "io_context_pool \<Rightarrow> nat \<times> io_context_pool" where
  "get_io_context p = (next_io_context p, p\<lparr>next_io_context := (next_io_context p + 1) mod length (pool_work p)\<rparr>)"

definition get_io_context_at :: "nat \<Rightarrow> io_context_pool \<Rightarrow> nat result" where
  "get_io_context_at index p = (if index < length (pool_work p) then Inr index else Inl Undefined)"

fun drawn_contexts :: "nat \<Rightarrow> io_context_pool \<Rightarrow> nat list" where
  "drawn_contexts 0 p = []"
| "drawn_contexts (Suc k) p = (case get_io_context p of (i, p') \<Rightarrow> i # drawn_contexts k p')"

lemma drawn_round_robin:
  "next_io_context p < length (pool_work p) \<Longrightarrow>
     drawn_contexts k p = map (\<lambda>j. (next_io_context p + j) mod length (pool_work p)) [0..<k]"
proof (induction k arbitrary: p)
  case (Suc k)
  let ?q = "p\<lparr>next_io_context := (next_io_context p + 1) mod length (pool_work p)\<rparr>"
  have "0 < length (pool_work p)" using Suc.prems by linarith
  then have "next_io_context ?q < length (pool_work ?q)" by simp
  then have "drawn_contexts k ?q = map (\<lambda>j. (next_io_context p + Suc j) mod length (pool_work p)) [0..<k]"
    using Suc.IH [of ?q] by (simp add: mod_add_left_eq)
  moreover have "map (\<lambda>j. (next_io_context p + j) mod length (pool_work p)) [0..<Suc k] =
      next_io_context p # map (\<lambda>j. (next_io_context p + Suc j) mod length (pool_work p)) [0..<k]"
    using Suc.prems by (simp only: upt_conv_Cons map_Suc_upt [symmetric] zero_less_Suc list.map) simp
  ultimately show ?case by (simp only: drawn_contexts.simps get_io_context_def prod.case)
qed simp

lemma count_one_round:
  "n \<noteq> 0 \<Longrightarrow> i < n \<Longrightarrow> length (filter (\<lambda>j. (m * n + j) mod n = i) [0..<n]) = 1"
proof -
  assume "n \<noteq> 0" "i < n"
  then have "filter (\<lambda>j. (m * n + j) mod n = i) [0..<n] = filter (\<lambda>j. j = i) [0..<n]" by (intro filter_cong) auto
  moreover have "length (filter (\<lambda>j. j = i) [0..<n]) = 1"
    using \<open>i < n\<close> by (simp add: length_filter_conv_card Collect_conv_if cong: conj_cong)
  ultimately show ?thesis by simp
qed

text \<open>Connections are spread evenly: after any number of full rounds every event loop was handed out equally
  often.\<close>

theorem round_robin_fair:
  assumes "new_io_context_pool n = Inr p" "i < n"
  shows "length (filter (\<lambda>x. x = i) (drawn_contexts (k * n) p)) = k"
proof -
  have p: "next_io_context p = 0" "length (pool_work p) = n" "n \<noteq> 0"
    using assms(1) by (auto simp: new_io_context_pool_def split: if_splits)
  have "length (filter (\<lambda>j. j mod n = i) [0..<k * n]) = k"
  proof (induction k)
    case (Suc k)
    have "[0..<Suc k * n] = [0..<k * n] @ map (\<lambda>j. k * n + j) [0..<n]"
      using upt_add_eq_append [of 0 "k * n" n] by (simp add: map_add_upt add.commute)
    then show ?case using Suc count_one_round [OF p(3) assms(2), of k] by (simp add: filter_map o_def)
  qed simp
  then show ?thesis using p drawn_round_robin [of p "k * n"] by (simp add: filter_map o_def)
qed

section \<open>The search path\<close>

text \<open>\<^verbatim>\<open>platform_init\<close>; a missing variable is a null pointer.\<close>

definition extend_path :: "string \<Rightarrow> string option \<Rightarrow> string result" where
  "extend_path self_dir env =
     (case env of
        None \<Rightarrow> Inl Undefined
      | Some path_env \<Rightarrow>
          Inr (if self_dir \<in> set (split_any '':'' path_env) then path_env else path_env @ '':'' @ self_dir))"

lemma split_any_last: "split_any seps (a @ c # b) = split_any seps a @ split_any seps b" if "c \<in> set seps"
proof (induction a)
  case (Cons x a)
  then show ?case using that by (cases "split_any seps a") auto
qed (simp add: that)

text \<open>The directory of the program is on the search path afterwards, behind the directories there were, and extending
  the path again changes nothing.\<close>

theorem extend_path_finds:
  assumes "extend_path dir (Some env) = Inr path" "CHR '':'' \<notin> set dir"
  shows "dir \<in> set (split_any '':'' path) \<and> (\<exists>ds. split_any '':'' path = split_any '':'' env @ ds) \<and>
    extend_path dir (Some path) = Inr path"
proof -
  have "split_any '':'' dir = [dir]" using assms(2) by (intro split_any_no_sep) auto
  then have new: "split_any '':'' (env @ '':'' @ dir) = split_any '':'' env @ [dir]"
    using split_any_last [of "CHR '':''" "'':''" env dir] by simp
  show ?thesis using assms(1) new by (auto simp: extend_path_def split: if_splits)
qed

section \<open>The version of the kernel\<close>

definition kernel_version :: "int \<Rightarrow> int \<Rightarrow> int \<Rightarrow> int" where
  "kernel_version ma_ver mi_ver patch_ver = ma_ver * 10000 + mi_ver * 100 + patch_ver"

definition old_kernel :: "string \<Rightarrow> int \<Rightarrow> int \<Rightarrow> int \<Rightarrow> bool" where
  "old_kernel sysname ma mi patch \<longleftrightarrow> sysname = ''Linux'' \<and> kernel_version ma mi patch < 50800"

text \<open>The warning appears exactly before 5.8 while minor and patch versions have at most two digits; a larger
  patch version hides an old kernel.\<close>

lemma old_kernel_versions:
  "0 \<le> mi \<Longrightarrow> mi < 100 \<Longrightarrow> 0 \<le> patch \<Longrightarrow> patch < 100 \<Longrightarrow> old_kernel ''Linux'' ma mi patch \<longleftrightarrow> ma < 5 \<or> ma = 5 \<and> mi < 8"
  "\<not> old_kernel ''Linux'' 5 4 400"
  by (auto simp: old_kernel_def kernel_version_def)

section \<open>The course of the main coroutine\<close>

type_synonym options = "string \<Rightarrow> string option"

text \<open>The default values; an option without one leaves its variable as it was initialised.\<close>

definition option_defaults :: options where
  "option_defaults = map_of
     [(''db_name'', ''cmall''), (''db_host'', ''''), (''db_port'', ''5432''), (''db_user'', ''postgres''),
      (''db_passwd'', ''postgres''), (''repo_root'', ''/repos''), (''gitea_template_user'', ''admin''), (''site_name'', ''cmall'')]"

definition option_initial :: options where
  "option_initial = map_of [(''gitea_api_path'', ''http://localhost:3000''), (''gitea_template_reponame'', ''shop-template'')]"

text \<open>What is stored first wins over what is stored later, and both over defaults.\<close>

definition option_value :: "options \<Rightarrow> options \<Rightarrow> string \<Rightarrow> string" where
  "option_value cmdline config k =
     (case cmdline k of
        Some v \<Rightarrow> v
      | None \<Rightarrow>
          (case config k of
             Some v \<Rightarrow> v
           | None \<Rightarrow> (case option_defaults k of Some v \<Rightarrow> v | None \<Rightarrow> (case option_initial k of Some v \<Rightarrow> v | None \<Rightarrow> []))))"

datatype start_action =
    Print_help | Load_configs | Load_repos | Init_ws | Init_wss | Init_unix | Run_until_signal | Stop

record start_env =
  se_argc :: nat
  se_cmdline :: "options result"
  se_exists :: "string \<Rightarrow> bool"
  se_config :: "string \<Rightarrow> options result"
  se_load_configs :: bool
  se_load_repos :: bool
  se_init_ws :: bool
  se_init_unix :: bool
  se_init_wss :: bool
  se_io_uring :: bool
  se_wss_listens :: "string list"

text \<open>The options in force, or the exit code of an early end. An exception of the parser ends the program.\<close>

definition start_options :: "start_env \<Rightarrow> (options \<times> options) + (bool \<times> start_action list)" where
  "start_options E =
     (case se_cmdline E of
        Inl _ \<Rightarrow> Inr (False, [])
      | Inr cmdline \<Rightarrow>
          if cmdline ''help'' \<noteq> None \<or> se_argc E = 1 then Inr (True, [Print_help])
          else (case cmdline ''config'' of
                  None \<Rightarrow> Inl (cmdline, Map.empty)
                | Some path \<Rightarrow>
                    if \<not> se_exists E path then Inr (False, [])
                    else (case se_config E path of Inl _ \<Rightarrow> Inr (False, []) | Inr config \<Rightarrow> Inl (cmdline, config))))"

text \<open>Whether the program succeeds, and what it does. The results of setting up the acceptors are not looked at; TLS is set up only
  where files can be read asynchronously.\<close>

definition co_main :: "start_env \<Rightarrow> bool \<times> start_action list" where
  "co_main E =
     (case start_options E of
        Inr early \<Rightarrow> early
      | Inl _ \<Rightarrow>
          if \<not> se_load_configs E then (False, [Load_configs])
          else if \<not> se_load_repos E then (False, [Load_configs, Load_repos])
          else (True, [Load_configs, Load_repos, Init_ws] @
                  (if se_io_uring E \<and> se_wss_listens E \<noteq> [] then [Init_wss] else []) @
                  [Init_unix, Run_until_signal, Stop]))"

text \<open>The service runs only behind its data, and is then always stopped and the program successful; whether any
  address could be listened on plays no part.\<close>

theorem co_main_runs:
  "Run_until_signal \<in> set (snd (co_main E)) \<longleftrightarrow>
     (\<exists>cmd cfg. start_options E = Inl (cmd, cfg)) \<and> se_load_configs E \<and> se_load_repos E"
  "Run_until_signal \<in> set (snd (co_main E)) \<Longrightarrow> fst (co_main E) \<and> last (snd (co_main E)) = Stop"
  "co_main (E\<lparr>se_init_ws := a, se_init_unix := b, se_init_wss := c\<rparr>) = co_main E"
  by (auto simp: co_main_def start_options_def split: sum.splits option.splits if_splits)

end
