(* ===== verification/Dirmon.thy ===== *)
theory Dirmon
  imports Json "HOL-Library.AList"
begin

text \<open>
  The monitor of the repositories' directory on Linux, \<^verbatim>\<open>incubator/dirmon/linux/inotify_dirmon.hpp\<close>: it watches a
  directory and those below it, keeps the paths of its watches in a map that can be read both ways, and follows directories
  that are made, removed and renamed. \<^verbatim>\<open>inotify_add_watch\<close> is a parameter; the events are those the kernel delivers in
  one read.
\<close>

record dirmon =
  wd_map :: "(int \<times> string) list"
  wd_of_cookie :: "(nat \<times> int) list"

record inotify_event =
  ev_wd :: int
  ev_name :: string
  ev_cookie :: nat
  ev_isdir :: bool
  ev_create :: bool
  ev_delete_self :: bool
  ev_delete :: bool
  ev_moved_from :: bool
  ev_moved_to :: bool

section \<open>The map of watches\<close>

text \<open>A map that is unique both ways takes a pair only if neither side is there.\<close>

definition bimap_insert :: "int \<Rightarrow> string \<Rightarrow> (int \<times> string) list \<Rightarrow> (int \<times> string) list" where
  "bimap_insert wd p m = (if wd \<in> fst ` set m \<or> p \<in> snd ` set m then m else (wd, p) # m)"

definition right_find :: "string \<Rightarrow> (int \<times> string) list \<Rightarrow> int option" where
  "right_find p m = map_of (map prod.swap m) p"

definition right_erase :: "string \<Rightarrow> (int \<times> string) list \<Rightarrow> (int \<times> string) list" where
  "right_erase p m = filter (\<lambda>(_, q). q \<noteq> p) m"

text \<open>\<^verbatim>\<open>replace_data\<close> does nothing where the path belongs to another watch.\<close>

definition replace_data :: "int \<Rightarrow> string \<Rightarrow> (int \<times> string) list \<Rightarrow> (int \<times> string) list" where
  "replace_data wd p m =
     (if \<exists>(w, q)\<in>set m. q = p \<and> w \<noteq> wd then m else map (\<lambda>(w, q). (w, if w = wd then p else q)) m)"

definition sub_path :: "string \<Rightarrow> string \<Rightarrow> string" where
  "sub_path d f = (if d = [] then f else if last d = CHR ''/'' then d @ f else d @ ''/'' @ f)"

definition add_watch :: "(string \<Rightarrow> int) \<Rightarrow> string \<Rightarrow> dirmon \<Rightarrow> dirmon" where
  "add_watch inotify_add_watch dirname s =
     (let wd = inotify_add_watch dirname
      in if 0 \<le> wd then s\<lparr>wd_map := bimap_insert wd dirname (wd_map s)\<rparr> else s)"

text \<open>The directories below a directory, in the order they are listed.\<close>

datatype dir_tree = Dir string "dir_tree list"

fun add_subdirs :: "(string \<Rightarrow> int) \<Rightarrow> string \<Rightarrow> dir_tree list \<Rightarrow> dirmon \<Rightarrow> dirmon" where
  "add_subdirs add dirname subs s =
     fold (\<lambda>t s. case t of Dir name subs' \<Rightarrow> add_subdirs add (sub_path dirname name) subs' s) subs (add_watch add dirname s)"

declare add_subdirs.simps [simp del]

section \<open>Events\<close>

definition directory_event :: "(string \<Rightarrow> int) \<Rightarrow> inotify_event \<Rightarrow> string \<Rightarrow> dirmon \<Rightarrow> dirmon result" where
  "directory_event add e path s =
     (if ev_create e then Inr (add_watch add path s)
      else if ev_delete_self e then Inr (s\<lparr>wd_map := right_erase path (wd_map s)\<rparr>)
      else if ev_delete e then
        Inr (if right_find path (wd_map s) \<noteq> None then s\<lparr>wd_map := right_erase path (wd_map s)\<rparr> else s)
      else if ev_moved_from e then
        Inr (case right_find path (wd_map s) of
               Some wd \<Rightarrow> s\<lparr>wd_of_cookie := AList.update (ev_cookie e) wd (wd_of_cookie s)\<rparr>
             | None \<Rightarrow> s)
      else if ev_moved_to e then
        (let wd = (case map_of (wd_of_cookie s) (ev_cookie e) of Some wd \<Rightarrow> wd | None \<Rightarrow> 0)
         in case map_of (wd_map s) wd of
              None \<Rightarrow> Inl Undefined
            | Some _ \<Rightarrow>
                Inr (s\<lparr>wd_map := replace_data wd path (wd_map s),
                       wd_of_cookie := AList.delete (ev_cookie e) (wd_of_cookie s)\<rparr>))
      else Inr s)"

text \<open>One event: an event without a name is passed over; the name is joined to the path of its watch, which must be known.\<close>

definition handle_event :: "(string \<Rightarrow> int) \<Rightarrow> inotify_event \<Rightarrow> string list \<times> dirmon \<Rightarrow> (string list \<times> dirmon) result" where
  "handle_event add e = (\<lambda>(ret, s).
     if ev_name e = [] then Inr (ret, s)
     else case map_of (wd_map s) (ev_wd e) of
            None \<Rightarrow> Inl Undefined
          | Some dir \<Rightarrow>
              (let path = sub_path dir (ev_name e)
               in if ev_isdir e
                  then (case directory_event add e path s of Inl x \<Rightarrow> Inl x | Inr s' \<Rightarrow> Inr (ret @ [path], s'))
                  else Inr (ret @ [path], s)))"

fun wait_dirchange :: "(string \<Rightarrow> int) \<Rightarrow> inotify_event list \<Rightarrow> string list \<times> dirmon \<Rightarrow> (string list \<times> dirmon) result" where
  "wait_dirchange add [] r = Inr r"
| "wait_dirchange add (e # es) r = (case handle_event add e r of Inl x \<Rightarrow> Inl x | Inr r' \<Rightarrow> wait_dirchange add es r')"

section \<open>The watches follow the directories\<close>

definition bimap_ok :: "(int \<times> string) list \<Rightarrow> bool" where
  "bimap_ok m \<longleftrightarrow> distinct (map fst m) \<and> distinct (map snd m)"

lemma bimap_mem: "bimap_ok m \<Longrightarrow> map_of m w = Some p \<longleftrightarrow> (w, p) \<in> set m"
  by (auto simp: bimap_ok_def dest: map_of_SomeD)

lemma bimap_unique: "bimap_ok m \<Longrightarrow> map_of m v = Some p \<Longrightarrow> map_of m w = Some p \<Longrightarrow> v = w"
  by (simp add: bimap_mem) (metis bimap_ok_def distinct_map inj_onD prod.inject snd_conv)

lemma right_find_Some:
  assumes "bimap_ok m"
  shows "right_find p m = Some w \<longleftrightarrow> map_of m w = Some p"
proof -
  have "distinct (map fst (map prod.swap m))" using assms by (simp add: bimap_ok_def o_def)
  then show ?thesis unfolding right_find_def bimap_mem [OF assms]
    by (subst map_of_eq_Some_iff) (auto intro: rev_image_eqI)
qed

lemma right_erase_ok:
  assumes "bimap_ok m"
  shows "bimap_ok (right_erase p m)"
    "map_of (right_erase p m) = (\<lambda>w. if map_of m w = Some p then None else map_of m w)"
proof -
  show ok: "bimap_ok (right_erase p m)"
    using assms unfolding bimap_ok_def right_erase_def by (auto intro: distinct_map_filter)
  have iff: "map_of (right_erase p m) w = Some q \<longleftrightarrow> map_of m w = Some q \<and> q \<noteq> p" for w q
    unfolding bimap_mem [OF ok] bimap_mem [OF assms] by (auto simp: right_erase_def)
  show "map_of (right_erase p m) = (\<lambda>w. if map_of m w = Some p then None else map_of m w)"
  proof
    fix w
    show "map_of (right_erase p m) w = (if map_of m w = Some p then None else map_of m w)"
    proof (cases "\<exists>q. map_of m w = Some q \<and> q \<noteq> p")
      case True
      then show ?thesis using iff by auto
    next
      case False
      then have "map_of (right_erase p m) w = None" using iff [of w] not_Some_eq by metis
      then show ?thesis using False by (cases "map_of m w") auto
    qed
  qed
qed

lemma bimap_insert_ok:
  assumes "bimap_ok m" "map_of m wd = None" "p \<notin> ran (map_of m)"
  shows "bimap_ok (bimap_insert wd p m)" "map_of (bimap_insert wd p m) = (map_of m)(wd \<mapsto> p)"
proof -
  have "wd \<notin> fst ` set m" using assms(2) by (simp add: map_of_eq_None_iff)
  moreover have "p \<notin> snd ` set m" using assms(1,3) by (auto simp: ran_def bimap_mem)
  ultimately show "bimap_ok (bimap_insert wd p m)" "map_of (bimap_insert wd p m) = (map_of m)(wd \<mapsto> p)"
    using assms(1) by (simp_all add: bimap_insert_def bimap_ok_def)
qed

lemma replace_data_ok:
  assumes "bimap_ok m" "map_of m wd = Some q" "p \<notin> ran (map_of m)"
  shows "bimap_ok (replace_data wd p m)" "map_of (replace_data wd p m) = (map_of m)(wd \<mapsto> p)"
proof -
  have no: "p \<notin> snd ` set m" using assms(1,3) by (auto simp: ran_def bimap_mem)
  then have "\<not> (\<exists>(w, q)\<in>set m. q = p \<and> w \<noteq> wd)" by force
  then have eq: "replace_data wd p m = map (\<lambda>(w, q). (w, if w = wd then p else q)) m" by (simp only: replace_data_def if_False)
  have "map fst (map (\<lambda>(w, q). (w, if w = wd then p else q)) m) = map fst m" by (simp add: split_beta o_def)
  moreover have "inj_on (\<lambda>(w, q). if w = wd then p else q) (set m)"
  proof (rule inj_onI, clarify)
    fix v q w r
    assume m: "(v, q) \<in> set m" "(w, r) \<in> set m" and eq: "(if v = wd then p else q) = (if w = wd then p else r)"
    have "q \<noteq> p" "r \<noteq> p" using no m by force+
    then have "v = w \<or> q = r" using eq by (auto split: if_splits)
    moreover have "map_of m v = Some q" "map_of m w = Some r" using m bimap_mem [OF assms(1)] by simp_all
    ultimately show "v = w \<and> q = r" using bimap_unique [OF assms(1), of v q w] by auto
  qed
  then have "distinct (map snd (map (\<lambda>(w, q). (w, if w = wd then p else q)) m))"
    using assms(1) by (simp add: bimap_ok_def distinct_map o_def case_prod_unfold)
  ultimately show ok: "bimap_ok (replace_data wd p m)" using assms(1) by (simp only: bimap_ok_def eq)
  have "map_of (replace_data wd p m) w = map_option (\<lambda>q. if w = wd then p else q) (map_of m w)" for w
    unfolding eq by (induction m) (auto split: if_splits)
  then show "map_of (replace_data wd p m) = (map_of m)(wd \<mapsto> p)"
    using assms(2) by (intro ext) (auto simp: option.map_ident)
qed

text \<open>What happens to the directories: one is made, removed or renamed in watched directories, or something else happens
  there. \<open>change_events\<close> are the events of it, \<open>change_paths\<close> the paths to be reported and \<open>change_map\<close> where the watched
  directories are afterwards.\<close>

datatype dir_change = Made int string | Removed int string | Renamed int string int string nat | Touched int string

definition plain_event :: "int \<Rightarrow> string \<Rightarrow> inotify_event" where
  "plain_event wd name =
     \<lparr>ev_wd = wd, ev_name = name, ev_cookie = 0, ev_isdir = False, ev_create = False, ev_delete_self = False,
      ev_delete = False, ev_moved_from = False, ev_moved_to = False\<rparr>"

fun change_events :: "dir_change \<Rightarrow> inotify_event list" where
  "change_events (Made wd name) = [(plain_event wd name)\<lparr>ev_isdir := True, ev_create := True\<rparr>]"
| "change_events (Removed wd name) = [(plain_event wd name)\<lparr>ev_isdir := True, ev_delete := True\<rparr>]"
| "change_events (Renamed wd name wd' name' cookie) =
     [(plain_event wd name)\<lparr>ev_isdir := True, ev_moved_from := True, ev_cookie := cookie\<rparr>,
      (plain_event wd' name')\<lparr>ev_isdir := True, ev_moved_to := True, ev_cookie := cookie\<rparr>]"
| "change_events (Touched wd name) = [plain_event wd name]"

definition place :: "(int \<Rightarrow> string option) \<Rightarrow> int \<Rightarrow> string \<Rightarrow> string" where
  "place M wd name = sub_path (the (M wd)) name"

fun change_paths :: "(int \<Rightarrow> string option) \<Rightarrow> dir_change \<Rightarrow> string list" where
  "change_paths M (Made wd name) = [place M wd name]"
| "change_paths M (Removed wd name) = [place M wd name]"
| "change_paths M (Renamed wd name wd' name' cookie) = [place M wd name, place M wd' name']"
| "change_paths M (Touched wd name) = [place M wd name]"

fun change_map :: "(string \<Rightarrow> int) \<Rightarrow> dir_change \<Rightarrow> (int \<Rightarrow> string option) \<Rightarrow> int \<Rightarrow> string option" where
  "change_map add (Made wd name) M = M(add (place M wd name) \<mapsto> place M wd name)"
| "change_map add (Removed wd name) M = (\<lambda>w. if M w = Some (place M wd name) then None else M w)"
| "change_map add (Renamed wd name wd' name' cookie) M =
     (\<lambda>w. if M w = Some (place M wd name) then Some (place M wd' name') else M w)"
| "change_map add (Touched wd name) M = M"

text \<open>When a change is possible: its directories are watched, a new path is no other watched one, a new watch gets a fresh
  number, and a renamed directory was watched.\<close>

fun change_ok :: "(string \<Rightarrow> int) \<Rightarrow> (int \<Rightarrow> string option) \<Rightarrow> dir_change \<Rightarrow> bool" where
  "change_ok add M (Made wd name) \<longleftrightarrow>
     M wd \<noteq> None \<and> name \<noteq> [] \<and> 0 \<le> add (place M wd name) \<and> M (add (place M wd name)) = None \<and> place M wd name \<notin> ran M"
| "change_ok add M (Removed wd name) \<longleftrightarrow> M wd \<noteq> None \<and> name \<noteq> []"
| "change_ok add M (Renamed wd name wd' name' cookie) \<longleftrightarrow>
     M wd \<noteq> None \<and> name \<noteq> [] \<and> M wd' \<noteq> None \<and> name' \<noteq> [] \<and> place M wd name \<in> ran M \<and> place M wd' name' \<notin> ran M"
| "change_ok add M (Touched wd name) \<longleftrightarrow> M wd \<noteq> None \<and> name \<noteq> []"

fun changes_ok :: "(string \<Rightarrow> int) \<Rightarrow> (int \<Rightarrow> string option) \<Rightarrow> dir_change list \<Rightarrow> bool" where
  "changes_ok add M [] \<longleftrightarrow> True"
| "changes_ok add M (c # cs) \<longleftrightarrow> change_ok add M c \<and> changes_ok add (change_map add c M) cs"

fun changes_paths :: "(string \<Rightarrow> int) \<Rightarrow> (int \<Rightarrow> string option) \<Rightarrow> dir_change list \<Rightarrow> string list" where
  "changes_paths add M [] = []"
| "changes_paths add M (c # cs) = change_paths M c @ changes_paths add (change_map add c M) cs"

lemma rename_map:
  assumes "bimap_ok m" "map_of m w = Some p"
  shows "(\<lambda>v. if map_of m v = Some p then Some q else map_of m v) = (map_of m)(w \<mapsto> q)"
proof
  fix v
  show "(if map_of m v = Some p then Some q else map_of m v) = ((map_of m)(w \<mapsto> q)) v"
    using bimap_unique [OF assms(1) _ assms(2), of v] assms(2) by (cases "v = w") auto
qed

lemma one_change:
  assumes "bimap_ok (wd_map s)" "change_ok add (map_of (wd_map s)) c"
  shows "\<exists>s'. wait_dirchange add (change_events c) (ret, s) = Inr (ret @ change_paths (map_of (wd_map s)) c, s') \<and>
    bimap_ok (wd_map s') \<and> map_of (wd_map s') = change_map add c (map_of (wd_map s))"
proof (cases c)
  case (Made wd name)
  then show ?thesis using assms bimap_insert_ok [OF assms(1)]
    by (auto simp: handle_event_def directory_event_def add_watch_def plain_event_def place_def Let_def)
next
  case (Removed wd name)
  obtain d where d: "map_of (wd_map s) wd = Some d" "name \<noteq> []" using assms(2) Removed by auto
  let ?p = "sub_path d name"
  show ?thesis
  proof (cases "right_find ?p (wd_map s)")
    case None
    then have "map_of (wd_map s) w \<noteq> Some ?p" for w using right_find_Some [OF assms(1), of ?p w] by auto
    then show ?thesis using None Removed d assms(1)
      by (auto simp: handle_event_def directory_event_def plain_event_def place_def Let_def)
  next
    case (Some w)
    then show ?thesis using Removed d right_erase_ok [OF assms(1), of ?p]
      by (auto simp: handle_event_def directory_event_def plain_event_def place_def Let_def)
  qed
next
  case (Renamed wd name wd' name' cookie)
  obtain d d' where d: "map_of (wd_map s) wd = Some d" "map_of (wd_map s) wd' = Some d'" "name \<noteq> []" "name' \<noteq> []"
    using assms(2) Renamed by auto
  let ?p = "sub_path d name"
  let ?q = "sub_path d' name'"
  have pl: "place (map_of (wd_map s)) wd name = ?p" "place (map_of (wd_map s)) wd' name' = ?q" using d by (simp_all add: place_def)
  obtain w where w: "map_of (wd_map s) w = Some ?p" using assms(2) Renamed d by (auto simp: place_def ran_def)
  have q: "?q \<notin> ran (map_of (wd_map s))" using assms(2) Renamed d by (simp add: place_def)
  have "right_find ?p (wd_map s) = Some w" using right_find_Some [OF assms(1)] w by simp
  moreover note replace_data_ok [OF assms(1) w q]
  moreover have "change_map add c (map_of (wd_map s)) = (map_of (wd_map s))(w \<mapsto> ?q)"
    by (simp only: Renamed change_map.simps pl rename_map [OF assms(1) w])
  ultimately show ?thesis using Renamed d w
    by (auto simp: handle_event_def directory_event_def plain_event_def pl Let_def update_conv simp del: change_map.simps)
next
  case (Touched wd name)
  then show ?thesis using assms by (auto simp: handle_event_def plain_event_def place_def Let_def)
qed


text \<open>A number for each path, as the kernel gives them.\<close>

definition sample_watch :: "string \<Rightarrow> int" where
  "sample_watch p = (if p = ''/r'' then 1 else if p = ''/r/a'' then 2 else 3)"

definition sample_dirmon :: dirmon where
  "sample_dirmon = add_watch sample_watch ''/r'' \<lparr>wd_map = [], wd_of_cookie = []\<rparr>"


text \<open>A directory that is moved in from elsewhere has no watch that was moved: the data of a missing entry is replaced.\<close>

lemma moved_in_undefined:
  assumes "map_of (wd_map s) (ev_wd e) = Some d" "ev_name e \<noteq> []" "ev_isdir e" "ev_moved_to e"
    and "\<not> ev_create e" "\<not> ev_delete_self e" "\<not> ev_delete e" "\<not> ev_moved_from e"
    and "map_of (wd_of_cookie s) (ev_cookie e) = None" "map_of (wd_map s) 0 = None"
  shows "handle_event add e (ret, s) = Inl Undefined"
  using assms by (simp add: handle_event_def directory_event_def Let_def)

text \<open>A rename does not reach the watches below the renamed directory: they keep their old paths.\<close>

lemma rename_leaves_children:
  "case wait_dirchange sample_watch (change_events (Renamed 1 ''a'' 1 ''b'' 7))
     ([], \<lparr>wd_map = [(1, ''/r''), (2, ''/r/a''), (3, ''/r/a/c'')], wd_of_cookie = []\<rparr>) of
     Inl _ \<Rightarrow> False
   | Inr (_, s) \<Rightarrow> wd_map s = [(1, ''/r''), (2, ''/r/b''), (3, ''/r/a/c'')]"
  by code_simp

end
