(* ===== verification/Md_Render.thy ===== *)
theory Md_Render
  imports Json
begin

text \<open>
  Rendering the merchants' markdown, \<^verbatim>\<open>services/md_render.cpp\<close>: the walk over the parsed document that replaces the
  addresses of images and turns a size behind an address into a style. The parser and the printer of cmark are parameters.
  The walk also counts the copies of a text that write one byte behind the memory they reserved.
\<close>

text \<open>A document: images with their address, the inlines the walk adds, and everything else by a tag.\<close>

datatype md_node = Img string "md_node list" | Custom string | Other nat "md_node list"

section \<open>The sizes of images\<close>

text \<open>The common part of both expressions: an address without spaces, spaces, an equals sign.\<close>

definition size_split :: "string \<Rightarrow> (string \<times> string) option" where
  "size_split url =
     (let addr = takeWhile (\<lambda>c. c \<noteq> CHR '' '') url; rest = dropWhile (\<lambda>c. c = CHR '' '') (drop (length addr) url)
      in if addr \<noteq> [] \<and> length addr < length url \<and> rest \<noteq> [] \<and> hd rest = CHR ''='' then Some (addr, tl rest) else None)"

text \<open>\<^verbatim>\<open>([0-9]+)x([0-9]+)\<close>.\<close>

definition size_digits :: "string \<Rightarrow> (string \<times> string) option" where
  "size_digits s =
     (let w = takeWhile isdigit s; r = drop (length w) s
      in if w \<noteq> [] \<and> r \<noteq> [] \<and> hd r = CHR ''x'' \<and> tl r \<noteq> [] \<and> list_all isdigit (tl r) then Some (w, tl r) else None)"

text \<open>\<^verbatim>\<open>(.+)[xX](.+)\<close>: the first part is as long as possible.\<close>

definition size_any :: "string \<Rightarrow> (string \<times> string) option" where
  "size_any s =
     (case filter (\<lambda>i. s ! i \<in> {CHR ''x'', CHR ''X''}) (rev [1..<length s - 1]) of
        [] \<Rightarrow> None
      | i # _ \<Rightarrow> Some (take i s, drop (Suc i) s))"

text \<open>The address and the style of an image.\<close>

definition image_size :: "string \<Rightarrow> string \<times> string option" where
  "image_size url =
     (case size_split url of
        None \<Rightarrow> (url, None)
      | Some (addr, sz) \<Rightarrow>
          (case size_digits sz of
             Some (w, h) \<Rightarrow> (addr, Some (''\" style=\"width:'' @ w @ ''px;height:'' @ h @ ''px''))
           | None \<Rightarrow>
               (case size_any sz of
                  Some (w, h) \<Rightarrow> (addr, Some (''\" style=\"width:'' @ w @ '';height:'' @ h))
                | None \<Rightarrow> (url, None))))"

section \<open>The walk\<close>

text \<open>An image is changed when the walk leaves it; the inline it gets is appended to its children. Every copy of a text,
  of the new address and of the style, reserves the length of the text and copies one byte more.\<close>

fun node_walker :: "(string \<Rightarrow> string) \<Rightarrow> md_node \<Rightarrow> md_node \<times> nat" where
  "node_walker replacer (Img url ns) =
     (let rs = map (node_walker replacer) ns; (addr, style) = image_size url
      in case style of
           Some st \<Rightarrow> (Img (replacer addr) (map fst rs @ [Custom st]), sum_list (map snd rs) + 2)
         | None \<Rightarrow> (Img (replacer addr) (map fst rs), sum_list (map snd rs) + 1))"
| "node_walker replacer (Custom t) = (Custom t, 0)"
| "node_walker replacer (Other k ns) =
     (let rs = map (node_walker replacer) ns in (Other k (map fst rs), sum_list (map snd rs)))"

definition markdown_to_html :: "(string \<Rightarrow> md_node option) \<Rightarrow> (md_node \<Rightarrow> string) \<Rightarrow> (string \<Rightarrow> string) \<Rightarrow> string \<Rightarrow> string \<times> nat" where
  "markdown_to_html parse render replacer original =
     (case parse original of
        None \<Rightarrow> ([], 0)
      | Some ast \<Rightarrow> (case node_walker replacer ast of (ast', overruns) \<Rightarrow> (render ast', overruns)))"

section \<open>What the walk does\<close>

fun images :: "md_node \<Rightarrow> string list" where
  "images (Img url ns) = url # concat (map images ns)"
| "images (Custom t) = []"
| "images (Other k ns) = concat (map images ns)"

text \<open>Exactly the addresses of the images are replaced, in their order, without their sizes.\<close>

lemma walker_images: "images (fst (node_walker replacer n)) = map (\<lambda>u. replacer (fst (image_size u))) (images n)"
proof (induction n)
  case (Img url ns)
  have "concat (map (images \<circ> (fst \<circ> node_walker replacer)) ns) =
      map (\<lambda>u. replacer (fst (image_size u))) (concat (map images ns))"
    using Img by (induction ns) simp_all
  then show ?case by (auto simp: Let_def o_def split: prod.splits option.splits)
next
  case (Other k ns)
  then show ?case by (induction ns) (auto simp: Let_def)
qed simp

text \<open>A document without images is left as it is, and only then no copy writes behind its memory.\<close>

lemma walker_overruns: "snd (node_walker replacer n) = 0 \<longleftrightarrow> images n = []"
proof (induction n)
  case (Other k ns)
  then show ?case by (induction ns) (auto simp: Let_def)
qed (auto simp: Let_def split: prod.splits option.splits)

lemma walker_no_images: "images n = [] \<Longrightarrow> fst (node_walker replacer n) = n"
proof (induction n)
  case (Other k ns)
  then show ?case by (auto simp: Let_def o_def intro: map_idI)
qed simp_all

lemma takeWhile_address: "CHR '' '' \<notin> set addr \<Longrightarrow> takeWhile (\<lambda>c. c \<noteq> CHR '' '') (addr @ CHR '' '' # r) = addr"
  by (subst takeWhile_append2) auto

text \<open>The size of an image: an address followed by spaces and a size in pixels is split into the address, which alone
  is replaced, and a style with the width and the height; a plain address is replaced as a whole.\<close>

theorem image_size_text:
  assumes "addr \<noteq> []" "CHR '' '' \<notin> set addr"
  shows "fst (node_walker replacer (Img (addr @ replicate (Suc k) CHR '' '' @ ''='' @ show_nat w @ ''x'' @ show_nat h) [])) =
      Img (replacer addr) [Custom (''\" style=\"width:'' @ show_nat w @ ''px;height:'' @ show_nat h @ ''px'')] \<and>
    fst (node_walker replacer (Img addr [])) = Img (replacer addr) []"
proof -
  let ?size = "show_nat w @ ''x'' @ show_nat h"
  let ?url = "addr @ replicate (Suc k) CHR '' '' @ ''='' @ ?size"
  have "takeWhile (\<lambda>c. c \<noteq> CHR '' '') ?url = addr" using takeWhile_address [OF assms(2)] by simp
  moreover have "dropWhile (\<lambda>c. c = CHR '' '') (replicate (Suc k) CHR '' '' @ ''='' @ ?size) = ''='' @ ?size"
    by (induction k) simp_all
  ultimately have split: "size_split ?url = Some (addr, ?size)" using assms(1) by (simp add: size_split_def Let_def)
  have "\<forall>c\<in>set (show_nat n). isdigit c" for n by (rule show_nat_digits)
  moreover have "\<not> isdigit CHR ''x''" by (simp add: isdigit_def)
  ultimately have "size_digits ?size = Some (show_nat w, show_nat h)"
    by (simp add: size_digits_def Let_def takeWhile_append2 list_all_iff)
  moreover have all: "takeWhile (\<lambda>c. c \<noteq> CHR '' '') addr = addr" using assms(2) by (auto simp: takeWhile_eq_all_conv)
  have "size_split addr = None" unfolding size_split_def all by (simp add: Let_def)
  ultimately show ?thesis using split by (simp add: image_size_def Let_def)
qed

theorem image_size_text_witness:
  "fst (node_walker (\<lambda>u. ''/repo/'' @ u) (Img ''a.png =20x30'' [])) =
     Img ''/repo/a.png'' [Custom ''\" style=\"width:20px;height:30px'']"
proof -
  have "show_nat 20 = ''20''" "show_nat 30 = ''30''" by code_simp+
  then show ?thesis using image_size_text [of "''a.png''" "\<lambda>u. ''/repo/'' @ u" 0 20 30] by (simp del: node_walker.simps)
qed

text \<open>A size that is no number is taken as it is: it can close the style and add other attributes.\<close>

lemma size_injected:
  "image_size ''a =1\" onload=\"f()\" x=\"1'' = (''a'', Some ''\" style=\"width:1\" onload=\"f()\" ;height:=\"1'')"
  by code_simp

end
