(* ===== verification/Spec2Isabelle.thy ===== *)
theory Spec2Isabelle
  imports World Payment Url_Print Bit_Stream User_Script Remote_Sdk Endpoint Pgsql_Traits Async_Connect Log_Kept Json_Types Acceptor Program_Start Dirmon Md_Render
begin

text \<open>
  cmall is the server of a shop with many merchants, written in C++ with coroutines on Boost.Asio. Clients talk to it over
  a websocket in JSON-RPC or over HTTP; merchants keep their goods as markdown files in git repositories; orders, carts
  and users are in a PostgreSQL database behind the object-relational mapper ODB; payment goes through scripts of the
  merchants, run in a sandbox, and through WeChat Pay. This development models the server's own code and proves what its
  parts promise. Paths are below \<^verbatim>\<open>src/cmall\<close> unless they start with \<^verbatim>\<open>incubator\<close>.

  \<^bold>\<open>How code becomes definitions.\<close> A coroutine of the service is a state transformer \<open>'a M\<close> over the server
  state \<open>server\<close> (theory \<open>Service\<close>): the database, the repositories and index, sessions, the acting connection and
  a counter of the answers of the outside world. It reads an environment \<open>env\<close> of parameters: clock, random
  strings, number and time printing, scripts, the network. Exceptions are values of \<open>exn\<close> (theory
  \<open>Error_Code\<close>): the error codes of the service, database exceptions, standard exceptions, and
  \<open>Undefined\<close> where the C++ standard gives the code no meaning. Structs are records, enumerations datatypes,
  64-bit identifiers words. What is concurrent is a step relation: the service (\<open>World\<close>), the payment calls
  (\<open>Payment\<close>), connection attempts (\<open>Async_Connect\<close>); or a function of the sequence of events, where every
  sequence is allowed: accept loops (\<open>Acceptor\<close>), the log (\<open>Log_Kept\<close>), the monitor (\<open>Dirmon\<close>).

  \<^bold>\<open>The theories.\<close>
  \<^item> \<open>Prelude\<close>, \<open>Error_Code\<close>, \<open>Json\<close>: shared types and string functions, \<^verbatim>\<open>error_code.hpp\<close> and its messages, JSON
    values and \<^verbatim>\<open>js_util.hpp\<close>. \<open>Peg\<close>: the parser combinators of Spirit, with the interface \<open>item_format\<close> of a
    format whose items can be printed and read back, interpreted for selections, keywords, front matter and cookies.
  \<^item> \<open>Db_Types\<close>, \<open>Odb\<close>, \<open>Database\<close>: the objects of \<^verbatim>\<open>db.hpp\<close>, tables with the operations of ODB,
    \<^verbatim>\<open>database.hpp\<close> with its retry loop. The interface \<open>odb_store\<close> states the laws of a table and is
    interpreted on the model of the tables.
  \<^item> \<open>Goods_Grammar\<close>, \<open>Merchant_Repo\<close>, \<open>Search\<close>: the grammars of the merchants' files, \<^verbatim>\<open>merchant_git_repo.cpp\<close>
    over trees of files, \<^verbatim>\<open>search_service.cpp\<close>.
  \<^item> \<open>Timedmap\<close>, \<open>Service\<close>, \<open>Session\<close>, \<open>Conversion\<close>, \<open>Json_Types\<close>: the expiring map (interface
    \<open>timed_store\<close>), the state of the service, \<^verbatim>\<open>persist_session.cpp\<close>, \<^verbatim>\<open>verifycode.cpp\<close>, the JSON of stored
    objects and its types.
  \<^item> \<open>Frame\<close>: what a coroutine may change. The interface \<open>server_frame\<close> is a relation closed under the steps
    of a coroutine; its interpretations (orders evolve, administrators come from the table, carts of others stay, nothing
    changes) carry the invariants through every handler. \<open>Sample\<close> is a concrete shop for the concrete statements.
  \<^item> \<open>Order_Payment\<close>, \<open>Order_Api\<close>, \<open>Cart_Api\<close>, \<open>Fav_Api\<close>, \<open>User_Api\<close>, \<open>Merchant_Api\<close>, \<open>Goods_Api\<close>, \<open>Admin_Api\<close>:
    one definition for each request of \<^verbatim>\<open>cmall_impl/handle_jsonrpc_*_api.cpp\<close>.
  \<^item> \<open>Dispatch\<close>, \<open>Access\<close>, \<open>Api_Orders\<close>, \<open>Api_Roles\<close>: \<^verbatim>\<open>handle_jsonrpc_call\<close> of \<^verbatim>\<open>cmall.cpp\<close>, the access
    table, and the two frames over all requests.
  \<^item> \<open>Websocket\<close>, \<open>Http_Server\<close>, \<open>Http_Site\<close>, \<open>World\<close>: the read loop, the HTTP loop with its routes, the bundled
    site, and the service with any number of connections.
  \<^item> \<open>Http_Text\<close>, \<open>Http_Date\<close>, \<open>Endpoint\<close>, \<open>Acceptor\<close>: \<^verbatim>\<open>incubator/httpd\<close>: URIs, MIME types, cookies, ranges,
    dates, listening addresses, and the acceptors with their loops.
  \<^item> \<open>Program_Start\<close>, \<open>Dirmon\<close>, \<open>Md_Render\<close>: \<^verbatim>\<open>main.cpp\<close> with \<^verbatim>\<open>io_context_pool.cpp\<close>, the directory monitor
    \<^verbatim>\<open>incubator/dirmon\<close> on Linux, \<^verbatim>\<open>md_render.cpp\<close>.
  \<^item> \<open>Url\<close>, \<open>Url_Print\<close>, \<open>Bit_Io\<close>, \<open>Bit_Stream\<close>, \<open>Text_Codec\<close>, \<open>Utf8\<close>, \<open>Logging\<close>, \<open>Log_Kept\<close>, \<open>Async_Connect\<close>,
    \<open>Pgsql_Traits\<close>: the utilities \<^verbatim>\<open>url_parser.hpp\<close>, \<^verbatim>\<open>io.hpp\<close>, \<^verbatim>\<open>misc.hpp\<close>,
    \<^verbatim>\<open>internal.cpp\<close>, \<^verbatim>\<open>logging.hpp\<close>, \<^verbatim>\<open>async_connect.hpp\<close>, \<^verbatim>\<open>traits-pgsql.hpp\<close>.
  \<^item> \<open>Payment\<close>, \<open>Sandbox\<close>, \<open>User_Script\<close>: \<^verbatim>\<open>payment_service.cpp\<close>, \<^verbatim>\<open>sandbox.cpp\<close>, \<^verbatim>\<open>userscript_service.cpp\<close>.
  \<^item> \<open>Httpc\<close>, \<open>Remote\<close>, \<open>Wxpay\<close>, \<open>Remote_Sdk\<close>: the HTTP client and the clients of WeChat Pay, Tencent, Netease
    and Gitea.

  \<^bold>\<open>What is shown.\<close>
  \<^item> In every run of the service no order is lost or changed in what was bought, a payed order stays payed, and the
    administrator flag belongs to rows of the table of administrators (below).
  \<^item> Requests: unknown methods and missing roles are refused without effect; each request gets one reply; creating an
    order is all or nothing with the prices of the repository; cart requests stay in the own cart; browsing changes
    nothing; a login needs the code; notifications of payment mark the order they name, and only behind a signature.
  \<^item> Storage: the database operations refine a map; the retry loop is the first decisive of 25 attempts; sessions, options,
    selections, URLs, dates, Golomb codes, base 64, amounts and database lists are read back (texts of a format are
    printed by the development where the program only reads them); the JSON sent to clients
    is well typed.
  \<^item> Algorithms against references: the bit stream against a list of bits, the UTF-8 automaton against the definition
    of UTF-8, the seconds of a date against a day-by-day calendar, the goods list and the ranking against specifications.
  \<^item> Concurrency: one payment script for an order and no starvation; one answer of a connection attempt and always one;
    every accepted connection is served once; the watches of the monitor follow the directories; the supervisor of the sandbox answers every call, by its policy; log lines are written in order and none is lost.
  \<^item> Where the code does not do what it means to, the behaviour is proved as it is: a logout in sudo mode can be undone,
    errors of a signature check pass, scripts keep the identity of root, deflate bodies stop at 2048 bytes, failed TLS
    handshakes end the accept loops.

  \<^bold>\<open>Bounds and fuel.\<close> Loops are total functions with a measure where the code ends: the URL machine needs at most
  \<open>2 * n + 1\<close> tests (proved), the retry loop 25 attempts (the constant of the source), the date parser six parts (its
  loop condition), the search for the first one-bit of a Golomb code one round for each bit that is left. Two loops may
  run forever and return \<open>None\<close> then: the growing buffer of a deflate body and the list of numbers without a closing
  brace.

  \<^bold>\<open>Not modelled.\<close> The generated ODB code (its documented behaviour is the model of the tables); the table of
  certificates; sockets, TLS and the operating system (parameters, or the order of events of a step relation);
  libgit2, zlib, OpenSSL, the JSON, regular expression and date libraries (parameters); cmark and the parser of program
  options (parameters); resource limits and threads; fanotify and the parts of Windows. Handlers of different connections are interleaved
  between their steps as a whole and not inside, except in \<open>Payment\<close>, where the suspension inside the call is the
  point. Floating-point numbers do not occur in what is modelled but as texts.
\<close>

section \<open>The service as a whole\<close>


definition sample_world :: world where
  "sample_world = \<lparr>wd_server = sample_server, wd_conns = [sample_client],
     wd_pending = [(1, [], ''order_create_cart'', sample_order_params)]\<rparr>"

definition sample_error_text :: "int \<Rightarrow> string" where
  "sample_error_text n = ''error''"

lemma sample_world_focus: "focus sample_world sample_client = sample_server"
  by (simp add: focus_def sample_world_def sample_server_def)

text \<open>The pending request of the sample is served: an order is created.\<close>

lemma sample_world_step:
  "\<exists>W' r. step sample_env H am sample_world W' \<and> wd_pending W' = [] \<and>
     rows (t_order (sv_db (wd_server W'))) = [sample_order, r]"
proof -
  have "enum_cast ''order_create_cart'' = Some Rq_order_create_cart"
    by (simp add: enum_cast_def req_methods_def)
  moreover have "dispatch Rq_order_create_cart sample_order_params sample_env sample_server =
      order_create sample_order_params sample_env sample_server"
    by (simp add: dispatch_def method_groups handle_jsonrpc_order_api_def bindM_def ensure_login_run)
  ultimately have call: "handle_jsonrpc_call ''order_create_cart'' sample_order_params sample_env sample_server =
      order_create sample_order_params sample_env sample_server"
    using call_dispatch by simp
  obtain w r where run: "order_create sample_order_params sample_env sample_server =
      (Inr (reply (JObj [(''orderid'', JStr (show_nat 2))])), w)"
    and r: "rows (t_order (sv_db w)) = [sample_order, r]" and ws: "cc_ws (sv_client w) = Some []"
    using sample_order_create by blast
  obtain w2 where srv: "serve_request am [] ''order_create_cart'' sample_order_params sample_env sample_server = (Inr (), w2)"
    and w2: "sv_db w2 = sv_db w"
    using serve_request_run [OF call [unfolded run], where am = am and jv = "[]"] ws by auto
  have "step sample_env H am sample_world ((unfocus sample_world sample_client w2)\<lparr>wd_pending := []\<rparr>)"
    using step.ws_serve [of sample_client "[]" "''order_create_cart''" sample_order_params sample_world am sample_env _ w2 H]
    by (simp add: sample_world_focus srv) (simp add: sample_world_def)
  then show ?thesis
    using r w2 by (intro exI conjI) (auto simp: unfocus_def)
qed


definition admin_world :: world where
  "admin_world = \<lparr>wd_server = sample_server, wd_conns = [sample_client\<lparr>cc_session := Some sample_admin_session\<rparr>],
     wd_pending = []\<rparr>"

text \<open>(C3) Nobody becomes administrator but through the table: in every run that starts with sessions entitled
  to their roles (in particular with none), a session with the administrator flag always belongs to a row of
  the administrators table.\<close>

theorem administrators_from_table:
  assumes "steps E H am W W'" and "roles_ok W" and "c \<in> set (wd_conns W')" and "cc_session c = Some s" and "cs_isAdmin s"
  shows "\<exists>a row. cs_admin_info s = Some a \<and> row \<in> set (rows (t_admin (sv_db (wd_server W')))) \<and> a_uid a = ar_uid row"
proof -
  have "roles_ok W'"
    using steps_evolve [OF assms(1)] assms(2) by (simp add: world_evolves_def)
  then have "session_priv_ok (sv_db (wd_server W')) s"
    using assms(3,4) by (fastforce simp: roles_ok_def conn_roles_ok_def)
  then show ?thesis
    using assms(5) by (auto simp: session_priv_ok_def admin_uids_def split: option.splits)
qed

theorem administrators_from_table_witness:
  "steps sample_env sample_http (\<lambda>_. []) admin_world
     (admin_world\<lparr>wd_server := purge_codes 5000 (wd_server admin_world)\<rparr>) \<and>
   (\<exists>a row. cs_admin_info sample_admin_session = Some a \<and>
      row \<in> set (rows (t_admin (sv_db (purge_codes 5000 (wd_server admin_world))))) \<and> a_uid a = ar_uid row)"
proof -
  let ?W = "admin_world\<lparr>wd_server := purge_codes 5000 (wd_server admin_world)\<rparr>"
  have run: "steps sample_env sample_http (\<lambda>_. []) admin_world ?W"
    unfolding steps_def by (rule r_into_rtranclp, rule step.expire)
  have "roles_ok admin_world"
    by (simp add: roles_ok_def admin_world_def conn_roles_ok_def session_priv_ok_def admin_uids_def
        sample_admin_session_def sample_admin_def new_client_session_def)
  moreover have "sample_client\<lparr>cc_session := Some sample_admin_session\<rparr> \<in> set (wd_conns ?W)" "cs_isAdmin sample_admin_session"
    by (simp_all add: admin_world_def sample_admin_session_def)
  ultimately show ?thesis
    using administrators_from_table [OF run] run by simp
qed

end
